(* ===== verification/Proc17_Prelude.thy ===== *)
theory Proc17_Prelude
  imports Main "HOL-Library.Word"
begin

text \<open>
  Shared vocabulary of the development: the machine types of the native C code, byte buffers
  with offset writes and reads, pointers that may be null, and the generic lemmas the
  component theories use.

  Conventions.  A C buffer is a \<open>byte list\<close>; \<open>p + n\<close> is \<open>drop n p\<close>; writing \<open>bs\<close> at
  \<open>out + off\<close> is \<open>write_at out off bs\<close>, which keeps the length of the buffer.  An input
  pointer that the code compares with \<open>NULL\<close> is an \<open>option\<close> (\<open>None\<close> is \<open>NULL\<close>); an output
  pointer is the result of the function, \<open>None\<close> standing for the error return \<open>-1\<close>.
  Lengths of buffers are \<open>nat\<close> (a buffer has fewer than \<open>2 ^ 64\<close> bytes); every counter the
  code keeps in a fixed-width integer is a word of that width.
\<close>

unbundle bit_operations_syntax

type_synonym byte = "8 word"
type_synonym u16 = "16 word"
type_synonym u32 = "32 word"
type_synonym u64 = "64 word"
type_synonym bytes = "byte list"
type_synonym 'a ptr = "'a option"

abbreviation NULL :: "'a ptr" where
  "NULL \<equiv> None"

definition ptr_add :: "'a list ptr \<Rightarrow> nat \<Rightarrow> 'a list ptr" where
  "ptr_add p n = map_option (drop n) p"

definition write_at :: "'a list \<Rightarrow> nat \<Rightarrow> 'a list \<Rightarrow> 'a list" where
  "write_at out off bs = take (length out) (take off out @ bs @ drop (off + length bs) out)"

definition slice :: "nat \<Rightarrow> nat \<Rightarrow> 'a list \<Rightarrow> 'a list" where
  "slice off n xs = take n (drop off xs)"

definition u64_max :: u64 where
  "u64_max = - 1"

definition u32_max :: u32 where
  "u32_max = - 1"

text \<open>A C string is the bytes of its array; \<open>strlen\<close> stops at the first zero byte.\<close>

definition c_strlen :: "bytes \<Rightarrow> nat" where
  "c_strlen s = length (takeWhile (\<lambda>b. b \<noteq> 0) s)"

definition ascii :: "string \<Rightarrow> bytes" where
  "ascii s = map of_char s"

named_theorems buf_simps "reading back what was written to a buffer"
named_theorems codec_simps "fixed-width integers written and read back"

subsection \<open>Pointers\<close>

lemma ptr_add_simps [simp]:
  "ptr_add NULL n = NULL"
  "ptr_add (Some p) n = Some (drop n p)"
  by (simp_all add: ptr_add_def)

subsection \<open>Offset writes and slices\<close>

lemma length_write_at [simp]: "length (write_at out off bs) = length out"
  by (simp add: write_at_def)

lemma write_at_in_range:
  "off + length bs \<le> length out \<Longrightarrow>
     write_at out off bs = take off out @ bs @ drop (off + length bs) out"
  by (simp add: write_at_def)

lemma nth_write_at:
  assumes "i < length out"
  shows "write_at out off bs ! i =
    (if off \<le> i \<and> i < off + length bs \<and> off \<le> length out then bs ! (i - off) else out ! i)"
  using assms by (auto simp: write_at_def nth_append min_def)

lemma length_slice [simp]: "length (slice off n xs) = min n (length xs - off)"
  by (simp add: slice_def)

lemma nth_slice: "i < n \<Longrightarrow> off + i < length xs \<Longrightarrow> slice off n xs ! i = xs ! (off + i)"
  by (simp add: slice_def)

lemma slice_slice: "off' + n' \<le> n \<Longrightarrow> slice off' n' (slice off n xs) = slice (off + off') n' xs"
  by (simp add: slice_def drop_take add.commute)

lemma slice_drop [simp]: "slice off n (drop k xs) = slice (k + off) n xs"
  by (simp add: slice_def add.commute)

lemma slice_eq_self: "length xs = n \<Longrightarrow> slice 0 n xs = xs"
  by (simp add: slice_def)

lemma slice_write_before [buf_simps]:
  "off' + n \<le> off \<Longrightarrow> off' + n \<le> length out \<Longrightarrow>
     slice off' n (write_at out off bs) = slice off' n out"
  by (rule nth_equalityI) (auto simp: nth_slice nth_write_at)

lemma slice_write_after [buf_simps]:
  "off + length bs \<le> off' \<Longrightarrow> off' + n \<le> length out \<Longrightarrow>
     slice off' n (write_at out off bs) = slice off' n out"
  by (rule nth_equalityI) (auto simp: nth_slice nth_write_at)

lemma slice_write_inside [buf_simps]:
  "off \<le> off' \<Longrightarrow> off' + n \<le> off + length bs \<Longrightarrow> off + length bs \<le> length out \<Longrightarrow>
     slice off' n (write_at out off bs) = slice (off' - off) n bs"
  by (rule nth_equalityI) (auto simp: nth_slice nth_write_at)

lemma slice_write_same:
  "n = length bs \<Longrightarrow> off + n \<le> length out \<Longrightarrow> slice off n (write_at out off bs) = bs"
  by (simp add: slice_write_inside slice_eq_self)

lemma nth_write_before [buf_simps]:
  "i < off \<Longrightarrow> i < length out \<Longrightarrow> write_at out off bs ! i = out ! i"
  by (simp add: nth_write_at)

lemma nth_write_after [buf_simps]:
  "off + length bs \<le> i \<Longrightarrow> i < length out \<Longrightarrow> write_at out off bs ! i = out ! i"
  by (simp add: nth_write_at)

lemma nth_write_inside [buf_simps]:
  "off \<le> i \<Longrightarrow> i < off + length bs \<Longrightarrow> off + length bs \<le> length out \<Longrightarrow>
     write_at out off bs ! i = bs ! (i - off)"
  by (simp add: nth_write_at)

lemma slice_replicate [buf_simps]:
  "off + n \<le> m \<Longrightarrow> slice off n (replicate m x) = replicate n x"
  by (simp add: slice_def)

lemma split_slice: "off \<le> length xs \<Longrightarrow> take off xs @ slice off n xs @ drop (off + n) xs = xs"
  by (metis append_take_drop_id drop_drop add.commute slice_def)

lemma slice_append_fst: "off + n \<le> length xs \<Longrightarrow> slice off n (xs @ ys) = slice off n xs"
  by (simp add: slice_def)

lemma slice_append_snd: "length xs \<le> off \<Longrightarrow> slice off n (xs @ ys) = slice (off - length xs) n ys"
  by (simp add: slice_def)

lemma slice_concat: "slice off n xs @ slice (off + n) m xs = slice off (n + m) xs"
  by (simp add: slice_def take_add) (simp add: add.commute)

lemma slice_Cons: "0 < off \<Longrightarrow> slice off n (x # xs) = slice (off - 1) n xs"
  by (simp add: slice_def drop_Cons')

lemma slice_take: "off + m \<le> n \<Longrightarrow> slice off m (take n xs) = slice off m xs"
  by (simp add: slice_def drop_take)

lemma take_eq_slice: "take n xs = slice 0 n xs"
  by (simp add: slice_def)

lemma take_split: "k + m = n \<Longrightarrow> take n xs = take k xs @ slice k m xs"
  by (auto simp: slice_def take_add)

lemma nth_eq_slice: "off < length xs \<Longrightarrow> slice off 1 xs = [xs ! off]"
  by (simp add: slice_def take_Suc_conv_app_nth)

lemma take_write_at_append:
  "length pre = off \<Longrightarrow> take off out = pre \<Longrightarrow> off + length bs \<le> length out \<Longrightarrow>
     take (off + length bs) (write_at out off bs) = pre @ bs"
  by (auto simp: write_at_in_range)

subsection \<open>Counters\<close>

lemma u64_inc: "x \<noteq> u64_max \<Longrightarrow> unat (x + 1) = unat x + 1"
proof -
  assume "x \<noteq> u64_max"
  then have "1 + x \<noteq> 0" by (auto simp: u64_max_def add.commute eq_neg_iff_add_eq_0)
  then show ?thesis using unatSuc [of x] by (simp add: add.commute)
qed

lemma u64_inc_less: "x \<noteq> u64_max \<Longrightarrow> x < x + 1"
  using u64_inc [of x] by (simp add: word_less_nat_alt)

lemma unat_of_nat_64: "n < 2 ^ 64 \<Longrightarrow> unat (of_nat n :: u64) = n"
  by (simp add: unsigned_of_nat take_bit_nat_eq_self)

lemma unat_u64_max: "unat u64_max = 2 ^ 64 - 1"
  by (simp add: u64_max_def unsigned_minus_1_eq_mask mask_eq_exp_minus_1)

lemma u64_le_max [simp]: "x \<le> u64_max"
  by (simp add: u64_max_def)

lemma u64_max_div: "unat (u64_max div n) = (2 ^ 64 - 1) div unat n"
  by (simp add: unat_div u64_max_def unsigned_minus_1_eq_mask mask_eq_exp_minus_1)

lemma unat_of_int_u64: "0 \<le> i \<Longrightarrow> i < 2 ^ 64 \<Longrightarrow> unat (of_int i :: u64) = nat i"
  by (simp add: unsigned_of_int take_bit_int_eq_self nat_less_iff)

lemma unat_mult_bound:
  fixes a b :: u64
  assumes "unat a * unat b < 2 ^ 64"
  shows "unat (a * b) = unat a * unat b"
  using assms by (simp add: unat_mult_lem [THEN iffD1])

lemma unat_add_bound:
  fixes a b :: u64
  assumes "unat a + unat b < 2 ^ 64"
  shows "unat (a + b) = unat a + unat b"
  using assms by (simp add: unat_add_lem [THEN iffD1])

lemma signed_take_bit_nat: "n < 2 ^ 63 \<Longrightarrow> signed_take_bit 63 (int n) = int n"
  by (intro signed_take_bit_int_eq_self) simp_all

lemma sint_small:
  fixes w :: u64
  assumes "unat w < 2 ^ 63"
  shows "sint w = int (unat w)"
  using signed_take_bit_nat [OF assms] by (simp add: sint_uint)

subsection \<open>Lists\<close>

lemma upt_16: "[0..<16] = [0,1,2,3,4,5,6,7,8,9,10,11,12,13,14,15]"
  by (simp add: upt_rec)

lemma foldl_funpow: "foldl (\<lambda>s _. f s) s xs = (f ^^ length xs) s"
  by (induction xs arbitrary: s) (simp_all add: funpow_swap1)

subsection \<open>The interface of an exact codec\<close>

text \<open>
  An encoder and a decoder that are partial inverses of each other.  Then messages and encodings
  determine each other: no two messages share an encoding, and a message has no second encoding
  that the decoder would accept.
\<close>

locale exact_codec =
  fixes enc :: "'m \<Rightarrow> 'f option" and dec :: "'f \<Rightarrow> 'm option"
  assumes dec_enc: "enc m = Some f \<Longrightarrow> dec f = Some m"
    and enc_dec: "dec f = Some m \<Longrightarrow> enc m = Some f"
begin

lemma enc_iff_dec: "enc m = Some f \<longleftrightarrow> dec f = Some m"
  using dec_enc enc_dec by blast

lemma enc_injective: "enc m = Some f \<Longrightarrow> enc m' = Some f \<Longrightarrow> m = m'"
  by (metis dec_enc option.inject)

lemma dec_injective: "dec f = Some m \<Longrightarrow> dec f' = Some m \<Longrightarrow> f = f'"
  by (metis enc_dec option.inject)

end

subsection \<open>System calls\<close>

text \<open>
  The kernel is not part of the program: what a system call answers is an argument of the model.
  A single call takes its reply; a call inside a loop takes the list of replies it will get, one
  per iteration, and a list that runs out (\<open>None\<close>) is a call that has not returned yet.
  \<open>errno\<close> distinguishes the values the code tests.
\<close>

datatype errno = EINTR | EAGAIN | EEXIST | ENOENT | ENOTDIR | ELOOP | EACCES | EPERM | EXDEV
  | EROFS | ENOSPC | EDQUOT | ENOTSUP | ESTALE | EOVERFLOW | ENAMETOOLONG | EIO | EPIPE | ECHILD | EINVAL | ENOMEM | ENOSYS | EOTHER

datatype 'a sys = Sys_ok 'a | Sys_err errno

text \<open>The idiom \<open>do \<dots> while (result < 0 && errno == EINTR)\<close>.\<close>

fun retry_eintr :: "'a sys list \<Rightarrow> ('a sys \<times> 'a sys list) option" where
  "retry_eintr [] = None"
| "retry_eintr (reply # replies) =
     (if reply = Sys_err EINTR then retry_eintr replies else Some (reply, replies))"

lemma retry_eintr_Some_iff:
  "(\<exists>r rest. retry_eintr replies = Some (r, rest)) \<longleftrightarrow> (\<exists>r \<in> set replies. r \<noteq> Sys_err EINTR)"
  by (induction replies) (auto split: if_splits)

lemma retry_eintr_not_eintr: "retry_eintr replies = Some (r, rest) \<Longrightarrow> r \<noteq> Sys_err EINTR"
  by (induction replies) (auto split: if_splits)

lemma retry_eintr_shrinks: "retry_eintr replies = Some (r, rest) \<Longrightarrow> length rest < length replies"
  by (induction replies) (auto split: if_splits)

text \<open>Flags of an open file description; \<open>O_NONBLOCK\<close> is the Linux x86-64 value.\<close>

definition O_NONBLOCK :: int where
  "O_NONBLOCK = 2048"

text \<open>The file-type tests on \<open>st_mode\<close>.\<close>

definition S_ISREG :: "u32 \<Rightarrow> bool" where
  "S_ISREG mode \<longleftrightarrow> mode AND 0xf000 = 0x8000"

definition S_ISDIR :: "u32 \<Rightarrow> bool" where
  "S_ISDIR mode \<longleftrightarrow> mode AND 0xf000 = 0x4000"

subsection \<open>The interface of a state machine\<close>

text \<open>
  A component whose operations all keep an invariant, and one whose operations moreover only move
  forward in some preorder.  The clients use the consequences for whole runs.
\<close>

locale state_machine =
  fixes start :: 's and step :: "'s \<Rightarrow> 'e \<Rightarrow> 's" and inv :: "'s \<Rightarrow> bool"
  assumes inv_start: "inv start" and inv_step: "inv s \<Longrightarrow> inv (step s e)"
begin

lemma inv_run: "inv s \<Longrightarrow> inv (foldl step s es)"
  by (induction es arbitrary: s) (simp_all add: inv_step)

lemma inv_reachable: "inv (foldl step start es)"
  by (rule inv_run [OF inv_start])

end

locale forward_machine = state_machine start step inv
  for start :: 's and step :: "'s \<Rightarrow> 'e \<Rightarrow> 's" and inv :: "'s \<Rightarrow> bool" +
  fixes before :: "'s \<Rightarrow> 's \<Rightarrow> bool"
  assumes before_refl: "before s s"
    and before_trans: "before s t \<Longrightarrow> before t u \<Longrightarrow> before s u"
    and before_step: "inv s \<Longrightarrow> before s (step s e)"
begin

lemma before_run: "inv s \<Longrightarrow> before s (foldl step s es)"
proof (induction es arbitrary: s)
  case (Cons e es)
  have "before (step s e) (foldl step (step s e) es)" by (rule Cons.IH [OF inv_step [OF Cons.prems]])
  then have "before s (foldl step (step s e) es)" by (rule before_trans [OF before_step [OF Cons.prems]])
  then show ?case by simp
qed (simp add: before_refl)

end

end
