(* ===== verification/Proc17_Sha256.thy ===== *)
theory Proc17_Sha256
  imports Proc17_Prelude
begin

text \<open>
  The SHA-256 component (\<open>native/proc17_sha256.c\<close>): the streaming context, the block
  transform, padding and finalisation, the one-shot digest and the lower-case hexadecimal
  codec.
\<close>

definition PROC17_SHA256_BYTES :: nat where
  [simp]: "PROC17_SHA256_BYTES = 32"

record proc17_sha256 =
  sha_state :: "u32 list"
  sha_total_bytes :: u64
  sha_block :: bytes
  sha_block_bytes :: nat

text \<open>The table, row by row as the source lays it out.\<close>

definition round_constants :: "u32 list" where
  "round_constants = concat [
    [0x428a2f98, 0x71374491, 0xb5c0fbcf], [0xe9b5dba5, 0x3956c25b, 0x59f111f1],
    [0x923f82a4, 0xab1c5ed5, 0xd807aa98], [0x12835b01, 0x243185be, 0x550c7dc3],
    [0x72be5d74, 0x80deb1fe, 0x9bdc06a7], [0xc19bf174, 0xe49b69c1, 0xefbe4786],
    [0x0fc19dc6, 0x240ca1cc, 0x2de92c6f], [0x4a7484aa, 0x5cb0a9dc, 0x76f988da],
    [0x983e5152, 0xa831c66d, 0xb00327c8], [0xbf597fc7, 0xc6e00bf3, 0xd5a79147],
    [0x06ca6351, 0x14292967, 0x27b70a85], [0x2e1b2138, 0x4d2c6dfc, 0x53380d13],
    [0x650a7354, 0x766a0abb, 0x81c2c92e], [0x92722c85, 0xa2bfe8a1, 0xa81a664b],
    [0xc24b8b70, 0xc76c51a3, 0xd192e819], [0xd6990624, 0xf40e3585, 0x106aa070],
    [0x19a4c116, 0x1e376c08, 0x2748774c], [0x34b0bcb5, 0x391c0cb3, 0x4ed8aa4a],
    [0x5b9cca4f, 0x682e6ff3, 0x748f82ee], [0x78a5636f, 0x84c87814, 0x8cc70208],
    [0x90befffa, 0xa4506ceb, 0xbef9a3f7], [0xc67178f2]]"

definition rotate_right :: "u32 \<Rightarrow> nat \<Rightarrow> u32" where
  "rotate_right value amount = drop_bit amount value OR push_bit (32 - amount) value"

definition load_u32 :: "bytes \<Rightarrow> u32" where
  "load_u32 input =
     push_bit 24 (ucast (input ! 0)) OR push_bit 16 (ucast (input ! 1))
     OR push_bit 8 (ucast (input ! 2)) OR ucast (input ! 3)"

definition store_u32 :: "u32 \<Rightarrow> bytes" where
  "store_u32 value =
     [ucast (drop_bit 24 value), ucast (drop_bit 16 value), ucast (drop_bit 8 value), ucast value]"

text \<open>The message schedule: the first sixteen words are loaded from the block, each later one
  is computed from the words already present.\<close>

definition schedule_word :: "u32 list \<Rightarrow> nat \<Rightarrow> u32" where
  "schedule_word words index =
     (let left = words ! (index - 15);
          right = words ! (index - 2);
          sigma0 = rotate_right left 7 XOR rotate_right left 18 XOR drop_bit 3 left;
          sigma1 = rotate_right right 17 XOR rotate_right right 19 XOR drop_bit 10 right
      in words ! (index - 16) + sigma0 + words ! (index - 7) + sigma1)"

fun schedule_loop :: "nat \<Rightarrow> u32 list \<Rightarrow> u32 list" where
  "schedule_loop 0 words = words"
| "schedule_loop (Suc n) words = schedule_loop n (words @ [schedule_word words (length words)])"

definition message_words :: "bytes \<Rightarrow> u32 list" where
  "message_words blk = schedule_loop 48 (map (\<lambda>index. load_u32 (drop (index * 4) blk)) [0..<16])"

text \<open>One of the 64 rounds, on the eight working variables \<open>a \<dots> h\<close>.\<close>

fun sha_round :: "u32 list \<Rightarrow> u32 \<times> u32 \<Rightarrow> u32 list" where
  "sha_round [a, b, c, d, e, f, g, h] (k, w) =
     (let sum1 = rotate_right e 6 XOR rotate_right e 11 XOR rotate_right e 25;
          chosen = (e AND f) XOR (NOT e AND g);
          first = h + sum1 + chosen + k + w;
          sum0 = rotate_right a 2 XOR rotate_right a 13 XOR rotate_right a 22;
          majority = (a AND b) XOR (a AND c) XOR (b AND c);
          second = sum0 + majority
      in [first + second, a, b, c, d + first, e, f, g])"
| "sha_round vars kw = vars"

definition sha_transform :: "proc17_sha256 \<Rightarrow> proc17_sha256" where
  "sha_transform context =
     (let words = message_words (sha_block context);
          vars = foldl sha_round (sha_state context) (zip round_constants words)
      in context\<lparr>sha_state := map2 (+) (sha_state context) vars\<rparr>)"

definition sha_initial :: "u32 list" where
  "sha_initial = [0x6a09e667, 0xbb67ae85, 0x3c6ef372, 0xa54ff53a,
                  0x510e527f, 0x9b05688c, 0x1f83d9ab, 0x5be0cd19]"

definition proc17_sha256_init :: proc17_sha256 where
  "proc17_sha256_init =
     \<lparr>sha_state = sha_initial, sha_total_bytes = 0, sha_block = replicate 64 0, sha_block_bytes = 0\<rparr>"

text \<open>
  The loop of \<open>proc17_sha256_update\<close>.  Each iteration copies at least one byte as long as
  \<open>block_bytes < 64\<close>, so as many iterations as there are input bytes are enough.
\<close>

definition sha_update_step :: "proc17_sha256 \<Rightarrow> bytes \<Rightarrow> proc17_sha256 \<times> bytes" where
  "sha_update_step context input =
     (let available = 64 - sha_block_bytes context;
          copied = (if length input < available then length input else available);
          filled = context\<lparr>sha_block := write_at (sha_block context) (sha_block_bytes context)
                                            (take copied input),
                           sha_block_bytes := sha_block_bytes context + copied\<rparr>;
          next = (if sha_block_bytes filled = 64
                  then (sha_transform filled)\<lparr>sha_block_bytes := 0\<rparr> else filled)
      in (next, drop copied input))"

fun sha_update_loop :: "nat \<Rightarrow> proc17_sha256 \<Rightarrow> bytes \<Rightarrow> proc17_sha256" where
  "sha_update_loop 0 context input = context"
| "sha_update_loop (Suc n) context input =
     (if input = [] then context
      else (case sha_update_step context input of (next, rest) \<Rightarrow> sha_update_loop n next rest))"

definition proc17_sha256_update :: "proc17_sha256 \<Rightarrow> bytes \<Rightarrow> proc17_sha256" where
  "proc17_sha256_update context input =
     sha_update_loop (length input)
       (context\<lparr>sha_total_bytes := sha_total_bytes context + of_nat (length input)\<rparr>) input"

definition length_field :: "u64 \<Rightarrow> bytes" where
  "length_field total_bits = map (\<lambda>index. ucast (drop_bit ((7 - index) * 8) total_bits)) [0..<8]"

definition proc17_sha256_final :: "proc17_sha256 \<Rightarrow> proc17_sha256 \<times> bytes" where
  "proc17_sha256_final context =
     (let total_bits = sha_total_bytes context * 8;
          n = sha_block_bytes context;
          marked = context\<lparr>sha_block := write_at (sha_block context) n [0x80],
                           sha_block_bytes := n + 1\<rparr>;
          flushed = (if sha_block_bytes marked > 56
                     then (sha_transform (marked\<lparr>sha_block :=
                             write_at (sha_block marked) (sha_block_bytes marked)
                               (replicate (64 - sha_block_bytes marked) 0)\<rparr>))\<lparr>sha_block_bytes := 0\<rparr>
                     else marked);
          padded = write_at (sha_block flushed) (sha_block_bytes flushed)
                     (replicate (56 - sha_block_bytes flushed) 0);
          last = sha_transform (flushed\<lparr>sha_block := write_at padded 56 (length_field total_bits)\<rparr>);
          digest = concat (map store_u32 (sha_state last))
      in (\<lparr>sha_state = replicate 8 0, sha_total_bytes = 0, sha_block = replicate 64 0,
           sha_block_bytes = 0\<rparr>, digest))"

definition proc17_sha256_bytes :: "bytes \<Rightarrow> bytes" where
  "proc17_sha256_bytes input =
     snd (proc17_sha256_final (proc17_sha256_update proc17_sha256_init input))"

definition hex_alphabet :: bytes where
  "hex_alphabet = ascii ''0123456789abcdef''"

definition hex_byte :: "byte \<Rightarrow> bytes" where
  "hex_byte b = [hex_alphabet ! unat (drop_bit 4 b), hex_alphabet ! unat (b AND 0x0f)]"

definition proc17_sha256_hex :: "bytes \<Rightarrow> bytes" where
  "proc17_sha256_hex digest =
     concat (map (\<lambda>index. hex_byte (digest ! index)) [0..<PROC17_SHA256_BYTES]) @ [0]"

definition hex_nibble :: "byte \<Rightarrow> u32 option" where
  "hex_nibble current =
     (if of_char CHR ''0'' \<le> current \<and> current \<le> of_char CHR ''9''
      then Some (ucast current - of_char CHR ''0'')
      else if of_char CHR ''a'' \<le> current \<and> current \<le> of_char CHR ''f''
      then Some (ucast current - of_char CHR ''a'' + 10)
      else None)"

fun parse_hex_loop :: "nat \<Rightarrow> bytes \<Rightarrow> bytes option" where
  "parse_hex_loop 0 input = Some []"
| "parse_hex_loop (Suc n) input =
     (case hex_nibble (input ! 0) of
        None \<Rightarrow> None
      | Some high \<Rightarrow>
          (case hex_nibble (input ! 1) of
             None \<Rightarrow> None
           | Some low \<Rightarrow>
               map_option ((#) (ucast (push_bit 4 (push_bit 4 0 OR high) OR low)))
                 (parse_hex_loop n (drop 2 input))))"

definition proc17_sha256_parse_hex :: "bytes ptr \<Rightarrow> bytes option" where
  "proc17_sha256_parse_hex input =
     (case input of
        None \<Rightarrow> None
      | Some s \<Rightarrow>
          if c_strlen s \<noteq> PROC17_SHA256_BYTES * 2 then None
          else parse_hex_loop PROC17_SHA256_BYTES s)"

subsection \<open>Reference definition\<close>

text \<open>
  SHA-256 as the standard writes it: rotations are \<open>word_rotr\<close>, the schedule is a recurrence
  on the round number, the message is padded as a whole and compressed block by block.
\<close>

definition fips_sigma0 :: "u32 \<Rightarrow> u32" where
  "fips_sigma0 x = word_rotr 7 x XOR word_rotr 18 x XOR drop_bit 3 x"

definition fips_sigma1 :: "u32 \<Rightarrow> u32" where
  "fips_sigma1 x = word_rotr 17 x XOR word_rotr 19 x XOR drop_bit 10 x"

definition fips_Sigma0 :: "u32 \<Rightarrow> u32" where
  "fips_Sigma0 x = word_rotr 2 x XOR word_rotr 13 x XOR word_rotr 22 x"

definition fips_Sigma1 :: "u32 \<Rightarrow> u32" where
  "fips_Sigma1 x = word_rotr 6 x XOR word_rotr 11 x XOR word_rotr 25 x"

fun fips_W :: "bytes \<Rightarrow> nat \<Rightarrow> u32" where
  "fips_W blk t =
     (if t < 16 then load_u32 (drop (t * 4) blk)
      else fips_sigma1 (fips_W blk (t - 2)) + fips_W blk (t - 7)
           + fips_sigma0 (fips_W blk (t - 15)) + fips_W blk (t - 16))"

fun fips_round :: "bytes \<Rightarrow> u32 list \<Rightarrow> nat \<Rightarrow> u32 list" where
  "fips_round blk [a, b, c, d, e, f, g, h] t =
     (let T1 = h + fips_Sigma1 e + ((e AND f) XOR (NOT e AND g)) + round_constants ! t + fips_W blk t;
          T2 = fips_Sigma0 a + ((a AND b) XOR (a AND c) XOR (b AND c))
      in [T1 + T2, a, b, c, d + T1, e, f, g])"
| "fips_round blk vars t = vars"

definition fips_compress :: "u32 list \<Rightarrow> bytes \<Rightarrow> u32 list" where
  "fips_compress H blk = map2 (+) H (foldl (fips_round blk) H [0..<64])"

fun fips_blocks :: "u32 list \<Rightarrow> bytes \<Rightarrow> u32 list" where
  "fips_blocks H msg =
     (if length msg < 64 then H else fips_blocks (fips_compress H (take 64 msg)) (drop 64 msg))"

definition fips_pad :: "bytes \<Rightarrow> bytes" where
  "fips_pad msg = msg @ [0x80] @ replicate ((119 - length msg mod 64) mod 64) 0
                      @ length_field (of_nat (8 * length msg))"

definition fips_sha256 :: "bytes \<Rightarrow> bytes" where
  "fips_sha256 msg = concat (map store_u32 (fips_blocks sha_initial (fips_pad msg)))"

declare fips_W.simps [simp del] fips_blocks.simps [simp del]

lemma fips_W_loaded: "t < 16 \<Longrightarrow> fips_W blk t = load_u32 (drop (t * 4) blk)"
  by (subst fips_W.simps) simp

subsection \<open>The transform computes the reference compression\<close>

lemma rotate_right_word_rotr:
  assumes "0 < n" "n < 32"
  shows "rotate_right x n = word_rotr n x"
proof (rule bit_word_eqI)
  fix i assume i: "i < LENGTH(32)"
  have left: "bit (rotate_right x n) i \<longleftrightarrow> bit x (i + n) \<or> 32 - n \<le> i \<and> bit x (i - (32 - n))"
    using i by (auto simp: rotate_right_def bit_simps add.commute)
  have right: "bit (word_rotr n x) i \<longleftrightarrow> bit x ((i + n) mod 32)"
    using i by (simp add: bit_word_rotr_iff)
  show "bit (rotate_right x n) i = bit (word_rotr n x) i"
  proof (cases "i + n < 32")
    case True
    then show ?thesis using left right by auto
  next
    case False
    then have "(i + n) mod 32 = i - (32 - n)" "\<not> bit x (i + n)" "32 - n \<le> i"
      using assms i by (auto simp: mod_if dest: bit_imp_le_length)
    then show ?thesis using left right by simp
  qed
qed

lemma length_schedule_loop [simp]: "length (schedule_loop n ws) = length ws + n"
  by (induction n arbitrary: ws) simp_all

lemma schedule_word_fips:
  assumes "16 \<le> length ws" "\<And>i. i < length ws \<Longrightarrow> ws ! i = fips_W blk i"
  shows "schedule_word ws (length ws) = fips_W blk (length ws)"
  using assms
  by (subst fips_W.simps)
    (simp add: schedule_word_def Let_def rotate_right_word_rotr fips_sigma0_def fips_sigma1_def)

lemma schedule_loop_fips:
  assumes "16 \<le> length ws" "\<And>i. i < length ws \<Longrightarrow> ws ! i = fips_W blk i"
    and "j < length ws + n"
  shows "schedule_loop n ws ! j = fips_W blk j"
  using assms
proof (induction n arbitrary: ws)
  case 0
  then show ?case by simp
next
  case (Suc n)
  have "(ws @ [schedule_word ws (length ws)]) ! i = fips_W blk i" if "i < Suc (length ws)" for i
    using that Suc.prems schedule_word_fips [of ws blk]
    by (cases "i = length ws") (auto simp: nth_append)
  then show ?case
    using Suc.prems Suc.IH [of "ws @ [schedule_word ws (length ws)]"] by simp
qed

lemma message_words_fips: "message_words blk = map (fips_W blk) [0..<64]"
proof (rule nth_equalityI)
  fix i assume "i < length (message_words blk)"
  then have i: "i < 64" by (simp add: message_words_def)
  have "message_words blk ! i = fips_W blk i"
    unfolding message_words_def
    by (rule schedule_loop_fips) (use i in \<open>simp_all add: fips_W_loaded\<close>)
  with i show "message_words blk ! i = map (fips_W blk) [0..<64] ! i" by simp
qed (simp add: message_words_def)

lemma sha_round_fips:
  "sha_round vars (round_constants ! t, fips_W blk t) = fips_round blk vars t"
  by (cases "(blk, vars, t)" rule: fips_round.cases)
    (simp_all add: Let_def rotate_right_word_rotr fips_Sigma0_def fips_Sigma1_def)

lemma length_round_constants [simp]: "length round_constants = 64"
  by (simp add: round_constants_def)

lemma zip_constants:
  "zip round_constants (message_words blk) = map (\<lambda>t. (round_constants ! t, fips_W blk t)) [0..<64]"
  by (rule nth_equalityI) (simp_all add: message_words_fips)

lemma sha_transform_fips:
  "sha_transform c = c\<lparr>sha_state := fips_compress (sha_state c) (sha_block c)\<rparr>"
  by (simp add: sha_transform_def Let_def fips_compress_def zip_constants foldl_map sha_round_fips)


subsection \<open>Streaming refines hashing the whole message\<close>

text \<open>
  \<open>sha_repr c msg\<close>: the context \<open>c\<close> is what the code holds after it has been fed \<open>msg\<close>.  The
  full blocks of \<open>msg\<close> are compressed into the state and the rest sits at the front of the
  block buffer.
\<close>

definition sha_repr_parts :: "proc17_sha256 \<Rightarrow> bytes \<Rightarrow> bytes \<Rightarrow> bool" where
  "sha_repr_parts c full rest \<longleftrightarrow>
     64 dvd length full \<and> length rest < 64 \<and>
     sha_total_bytes c = of_nat (length (full @ rest)) \<and>
     length (sha_block c) = 64 \<and> sha_block_bytes c = length rest \<and>
     take (length rest) (sha_block c) = rest \<and>
     sha_state c = fips_blocks sha_initial full"

definition sha_repr :: "proc17_sha256 \<Rightarrow> bytes \<Rightarrow> bool" where
  "sha_repr c msg \<longleftrightarrow> (\<exists>full rest. msg = full @ rest \<and> sha_repr_parts c full rest)"

lemma fips_blocks_short: "length msg < 64 \<Longrightarrow> fips_blocks H msg = H"
  by (subst fips_blocks.simps) simp

lemma fips_blocks_append:
  "64 dvd length xs \<Longrightarrow> fips_blocks H (xs @ ys) = fips_blocks (fips_blocks H xs) ys"
proof (induction H xs rule: fips_blocks.induct)
  case (1 H xs)
  show ?case
  proof (cases "length xs < 64")
    case True
    with "1.prems" have "xs = []" by (auto dest: dvd_imp_le)
    then show ?thesis by (simp add: fips_blocks_short)
  next
    case False
    then have "fips_blocks H (xs @ ys) = fips_blocks (fips_compress H (take 64 xs)) (drop 64 xs @ ys)"
      by (subst fips_blocks.simps) simp
    also have "\<dots> = fips_blocks (fips_blocks (fips_compress H (take 64 xs)) (drop 64 xs)) ys"
      using False "1.prems" by (intro "1.IH") auto
    also have "fips_blocks (fips_compress H (take 64 xs)) (drop 64 xs) = fips_blocks H xs"
      using False by (subst (2) fips_blocks.simps) simp
    finally show ?thesis .
  qed
qed

lemma fips_blocks_one: "length blk = 64 \<Longrightarrow> fips_blocks H blk = fips_compress H blk"
  by (subst fips_blocks.simps) (simp add: fips_blocks_short)

lemma sha_repr_init: "sha_repr proc17_sha256_init []"
  by (simp add: sha_repr_def sha_repr_parts_def proc17_sha256_init_def fips_blocks_short)

lemma sha_transform_simps [simp]:
  "sha_block (sha_transform c) = sha_block c"
  "sha_block_bytes (sha_transform c) = sha_block_bytes c"
  "sha_total_bytes (sha_transform c) = sha_total_bytes c"
  "sha_state (sha_transform c) = fips_compress (sha_state c) (sha_block c)"
  by (simp_all add: sha_transform_fips)

text \<open>
  One iteration of the update loop: fewer bytes than the block has room for only fill the
  buffer, otherwise exactly the missing bytes complete a block.  The total was already
  advanced before the loop, so the step is stated for a context whose total is set aside.
\<close>

lemma sha_update_step_fill:
  assumes c: "sha_repr_parts c full rest" and len: "length rest + length bs < 64"
    and step: "sha_update_step (c\<lparr>sha_total_bytes := t\<rparr>) bs = (c', rest')"
  shows "rest' = [] \<and> sha_total_bytes c' = t \<and>
         sha_repr_parts (c'\<lparr>sha_total_bytes := of_nat (length (full @ rest @ bs))\<rparr>) full (rest @ bs)"
proof -
  have parts: "sha_block_bytes c = length rest" "length (sha_block c) = 64"
    "take (length rest) (sha_block c) = rest" "length bs < 64 - length rest"
    using c len by (simp_all add: sha_repr_parts_def)
  then have c': "c' = c\<lparr>sha_total_bytes := t, sha_block := write_at (sha_block c) (length rest) bs,
      sha_block_bytes := length rest + length bs\<rparr>" and "rest' = []"
    using step len by (simp_all add: sha_update_step_def Let_def)
  moreover have "take (length (rest @ bs)) (write_at (sha_block c) (length rest) bs) = rest @ bs"
    using parts len by (simp add: write_at_in_range)
  ultimately show ?thesis
    using c len by (simp add: sha_repr_parts_def)
qed

lemma sha_update_step_complete:
  assumes c: "sha_repr_parts c full rest" and len: "64 \<le> length rest + length bs"
    and step: "sha_update_step (c\<lparr>sha_total_bytes := t\<rparr>) bs = (c', rest')"
  defines "n \<equiv> 64 - length rest"
  shows "rest' = drop n bs \<and> sha_total_bytes c' = t \<and>
         sha_repr_parts (c'\<lparr>sha_total_bytes := of_nat (length (full @ rest @ take n bs))\<rparr>)
           (full @ rest @ take n bs) []"
proof -
  let ?blk = "rest @ take n bs"
  have n: "\<not> length bs < n" "length ?blk = 64"
    using c len by (auto simp: n_def sha_repr_parts_def)
  have "write_at (sha_block c) (sha_block_bytes c) (take n bs) = ?blk"
    using c n unfolding n_def by (simp add: write_at_def sha_repr_parts_def)
  moreover have "fips_blocks sha_initial (full @ ?blk) = fips_compress (sha_state c) ?blk"
    using c n by (subst fips_blocks_append) (simp_all add: fips_blocks_one sha_repr_parts_def)
  moreover have "64 dvd length (full @ ?blk)"
    using c n(2) unfolding length_append [of full] by (auto simp: sha_repr_parts_def intro: dvd_add)
  moreover have "length rest + n = 64" "sha_block_bytes c = length rest"
    using c by (auto simp: n_def sha_repr_parts_def)
  ultimately show ?thesis
    using step c n by (auto simp: sha_update_step_def Let_def sha_repr_parts_def simp flip: n_def)
qed

lemma sha_total_overwrite: "c\<lparr>sha_total_bytes := t, sha_total_bytes := u\<rparr> = c\<lparr>sha_total_bytes := u\<rparr>"
  by simp

lemma sha_repr_total:
  assumes "sha_repr c msg"
  shows "c\<lparr>sha_total_bytes := of_nat (length msg)\<rparr> = c"
  using assms by (cases c) (auto simp: sha_repr_def sha_repr_parts_def)

lemma sha_update_loop_repr:
  assumes "length bs \<le> fuel" and "sha_repr c msg"
  shows "sha_repr (sha_update_loop fuel (c\<lparr>sha_total_bytes := of_nat (length (msg @ bs))\<rparr>) bs)
           (msg @ bs)"
  using assms
proof (induction fuel arbitrary: bs c msg)
  case 0
  then show ?case by (simp add: sha_repr_total)
next
  case (Suc fuel)
  obtain full rest where msg: "msg = full @ rest" and c: "sha_repr_parts c full rest"
    using Suc.prems(2) by (auto simp: sha_repr_def)
  let ?t = "of_nat (length (msg @ bs)) :: u64"
  obtain c' rest' where step: "sha_update_step (c\<lparr>sha_total_bytes := ?t\<rparr>) bs = (c', rest')"
    by (cases "sha_update_step (c\<lparr>sha_total_bytes := ?t\<rparr>) bs")
  show ?case
  proof (cases "bs = []")
    case True
    then show ?thesis using Suc.prems(2) by (simp add: sha_repr_total)
  next
    case False
    define part where "part = (if length rest + length bs < 64 then bs else take (64 - length rest) bs)"
    let ?c' = "c'\<lparr>sha_total_bytes := of_nat (length (msg @ part))\<rparr>"
    have *: "rest' = drop (length part) bs \<and> sha_total_bytes c' = ?t \<and> sha_repr ?c' (msg @ part)"
    proof (cases "length rest + length bs < 64")
      case True
      then have "part = bs" by (simp add: part_def)
      then show ?thesis using sha_update_step_fill [OF c True step] msg
        unfolding sha_repr_def by (intro conjI exI [of _ full] exI [of _ "rest @ bs"]) simp_all
    next
      case less: False
      then have part: "part = take (64 - length rest) bs" by (simp add: part_def)
      with less c have "length part = 64 - length rest" by (simp add: sha_repr_parts_def)
      with part show ?thesis using sha_update_step_complete [OF c _ step] less msg
        unfolding sha_repr_def
        by (intro conjI exI [of _ "msg @ part"] exI [of _ "[]"]) (simp_all add: not_less)
    qed
    have "part \<noteq> []" "part @ rest' = bs"
      using * False c by (auto simp: part_def sha_repr_parts_def)
    then have "length rest' \<le> fuel" using Suc.prems(1) by (auto simp: neq_Nil_conv)
    from Suc.IH [OF this, of ?c' "msg @ part"] * \<open>part @ rest' = bs\<close>
    have "sha_repr (sha_update_loop fuel (c'\<lparr>sha_total_bytes := ?t\<rparr>) rest') (msg @ bs)"
      by (metis append_assoc sha_total_overwrite)
    moreover have "c'\<lparr>sha_total_bytes := ?t\<rparr> = c'" using * by (cases c') simp
    ultimately show ?thesis using False step by simp
  qed
qed

lemma proc17_sha256_update_repr:
  assumes "sha_repr c msg"
  shows "sha_repr (proc17_sha256_update c bs) (msg @ bs)"
proof -
  have "sha_total_bytes c + of_nat (length bs) = of_nat (length (msg @ bs))"
    using assms by (auto simp: sha_repr_def sha_repr_parts_def)
  then show ?thesis
    using sha_update_loop_repr [OF order_refl assms, of bs] by (simp add: proc17_sha256_update_def)
qed

subsection \<open>Finalisation\<close>

lemma length_length_field [simp]: "length (length_field t) = 8"
  by (simp add: length_field_def)

lemma sha_final_short:
  assumes c: "sha_repr_parts c full rest" and n: "length rest \<le> 55"
  shows "snd (proc17_sha256_final c) = fips_sha256 (full @ rest)"
proof -
  let ?blk = "rest @ [0x80] @ replicate (55 - length rest) 0 @ length_field (sha_total_bytes c * 8)"
  have parts: "sha_block_bytes c = length rest" "length (sha_block c) = 64"
    "take (length rest) (sha_block c) = rest" "64 dvd length full"
    using c by (simp_all add: sha_repr_parts_def)
  then have "length (full @ rest) mod 64 = length rest" using n by (auto elim!: dvdE)
  then have "(119 - length (full @ rest) mod 64) mod 64 = 55 - length rest"
    using n by (simp add: mod_if)
  then have pad: "fips_pad (full @ rest) = full @ ?blk"
    using c unfolding fips_pad_def by (simp add: sha_repr_parts_def mult.commute)
  have "write_at (write_at (write_at (sha_block c) (length rest) [0x80]) (length rest + 1)
      (replicate (55 - length rest) 0)) 56 (length_field (sha_total_bytes c * 8)) = ?blk"
    using n parts by (simp add: write_at_in_range Suc_diff_le [of "length rest" 55, simplified])
  then have "snd (proc17_sha256_final c) = concat (map store_u32 (fips_compress (sha_state c) ?blk))"
    using n parts by (simp add: proc17_sha256_final_def Let_def)
  also have "fips_compress (sha_state c) ?blk = fips_blocks sha_initial (full @ ?blk)"
    using c n parts by (subst fips_blocks_append) (simp_all add: fips_blocks_one sha_repr_parts_def)
  finally show ?thesis by (simp add: fips_sha256_def pad)
qed

lemma sha_final_long:
  assumes c: "sha_repr_parts c full rest" and n: "55 < length rest"
  shows "snd (proc17_sha256_final c) = fips_sha256 (full @ rest)"
proof -
  let ?blk1 = "rest @ [0x80] @ replicate (63 - length rest) 0"
  let ?blk2 = "replicate 56 0 @ length_field (sha_total_bytes c * 8)"
  have parts: "sha_block_bytes c = length rest" "length (sha_block c) = 64" "length rest < 64"
    "take (length rest) (sha_block c) = rest" "64 dvd length full"
    using c by (simp_all add: sha_repr_parts_def)
  then have "length (full @ rest) mod 64 = length rest" by (auto elim!: dvdE)
  then have "(119 - length (full @ rest) mod 64) mod 64 = (63 - length rest) + 56"
    using n parts by (simp add: mod_if)
  moreover have "replicate ((63 - length rest) + 56) 0 = replicate (63 - length rest) (0 :: byte) @ replicate 56 0"
    by (rule replicate_add)
  ultimately have pad: "fips_pad (full @ rest) = full @ ?blk1 @ ?blk2"
    using c unfolding fips_pad_def by (simp only:) (simp add: sha_repr_parts_def mult.commute)
  have "write_at (write_at (sha_block c) (length rest) [0x80]) (length rest + 1)
      (replicate (63 - length rest) 0) = ?blk1"
    using n parts by (simp add: write_at_in_range)
  moreover have "write_at (write_at ?blk1 0 (replicate 56 0)) 56
      (length_field (sha_total_bytes c * 8)) = ?blk2"
    using n parts by (simp add: write_at_in_range)
  ultimately have "snd (proc17_sha256_final c) =
      concat (map store_u32 (fips_compress (fips_compress (sha_state c) ?blk1) ?blk2))"
    using n parts by (simp add: proc17_sha256_final_def Let_def)
  also have "fips_compress (fips_compress (sha_state c) ?blk1) ?blk2
      = fips_blocks sha_initial (full @ ?blk1 @ ?blk2)"
  proof -
    have "fips_blocks sha_initial (full @ ?blk1 @ ?blk2) = fips_blocks (sha_state c) (?blk1 @ ?blk2)"
      using c parts by (subst fips_blocks_append) (simp_all add: sha_repr_parts_def)
    also have "\<dots> = fips_blocks (fips_blocks (sha_state c) ?blk1) ?blk2"
      using parts by (intro fips_blocks_append) simp
    also have "\<dots> = fips_compress (fips_compress (sha_state c) ?blk1) ?blk2"
      using parts by (simp add: fips_blocks_one)
    finally show ?thesis by simp
  qed
  finally show ?thesis by (simp add: fips_sha256_def pad)
qed

lemma proc17_sha256_final_repr: "sha_repr c msg \<Longrightarrow> snd (proc17_sha256_final c) = fips_sha256 msg"
  unfolding sha_repr_def using sha_final_short sha_final_long by (metis not_less)

lemma length_fips_round [simp]: "length (fips_round blk vars t) = length vars"
  by (cases "(blk, vars, t)" rule: fips_round.cases) (simp_all add: Let_def)

lemma length_fips_rounds: "length (foldl (fips_round blk) vars ts) = length vars"
  by (induction ts arbitrary: vars) simp_all

lemma length_fips_blocks: "length (fips_blocks H msg) = length H"
proof (induction H msg rule: fips_blocks.induct)
  case (1 H msg)
  then show ?case
    by (cases "length msg < 64")
      (simp_all add: fips_blocks.simps [of H msg] fips_compress_def length_fips_rounds)
qed

lemma length_fips_sha256 [simp]: "length (fips_sha256 msg) = PROC17_SHA256_BYTES"
proof -
  have "length (concat (map store_u32 ws)) = 4 * length ws" for ws
    by (induction ws) (simp_all add: store_u32_def)
  then show ?thesis
    by (simp add: fips_sha256_def length_fips_blocks sha_initial_def PROC17_SHA256_BYTES_def)
qed

subsection \<open>The interface of a streaming hash\<close>

text \<open>
  What the clients of the hash (the stream observer, the process token of the controller, the
  repository reads) rely on: a representation relation between a context and the message fed so
  far, kept by every update, and a finalisation that returns the hash of that message.
\<close>

locale hash_stream =
  fixes init :: 's and update :: "'s \<Rightarrow> 'b list \<Rightarrow> 's" and final :: "'s \<Rightarrow> 'd"
    and repr :: "'s \<Rightarrow> 'b list \<Rightarrow> bool" and hash :: "'b list \<Rightarrow> 'd"
  assumes repr_init: "repr init []"
    and repr_update: "repr s m \<Longrightarrow> repr (update s bs) (m @ bs)"
    and final_repr: "repr s m \<Longrightarrow> final s = hash m"
begin

lemma repr_chunks: "repr s m \<Longrightarrow> repr (foldl update s cs) (m @ concat cs)"
proof (induction cs arbitrary: s m)
  case (Cons c cs)
  from Cons.IH [OF repr_update [OF Cons.prems]] show ?case by simp
qed simp

lemma final_chunks: "final (foldl update init cs) = hash (concat cs)"
  using final_repr [OF repr_chunks [OF repr_init]] by simp

lemma one_shot: "final (update init m) = hash m"
  using final_chunks [of "[m]"] by simp

end

interpretation sha: hash_stream proc17_sha256_init proc17_sha256_update
  "\<lambda>c. snd (proc17_sha256_final c)" sha_repr fips_sha256
  by unfold_locales (simp_all add: sha_repr_init proc17_sha256_update_repr proc17_sha256_final_repr)

lemma proc17_sha256_bytes_fips: "proc17_sha256_bytes input = fips_sha256 input"
  unfolding proc17_sha256_bytes_def by (rule sha.one_shot)

text \<open>C39. Feeding a message to the streaming context in any sequence of chunks and finalising
  yields the digest that the standard's definition (pad the whole message, compress it block by
  block) gives for the concatenated message.\<close>

theorem sha256_streaming_is_fips:
  "snd (proc17_sha256_final (foldl proc17_sha256_update proc17_sha256_init chunks))
     = fips_sha256 (concat chunks)"
  by (rule sha.final_chunks)

subsection \<open>Hexadecimal digests\<close>

lemma hex_alphabet_nth:
  assumes "k < 16"
  shows "hex_nibble (hex_alphabet ! k) = Some (of_nat k) \<and> hex_alphabet ! k \<noteq> 0"
proof -
  have "k \<in> set [0..<16]" using assms by simp
  then show ?thesis
    unfolding upt_16 set_simps
    by (elim insertE emptyE; simp add: hex_alphabet_def ascii_def hex_nibble_def)
qed

lemma byte_interval: "(lo :: byte) \<le> c \<Longrightarrow> c \<le> hi \<Longrightarrow> c \<in> of_nat ` set [unat lo..<Suc (unat hi)]"
  by (rule image_eqI [of _ _ "unat c"]) (auto simp: word_le_nat_alt)

lemma hex_nibble_sound:
  assumes "hex_nibble c = Some v"
  shows "v < 16" "hex_alphabet ! unat v = c"
proof -
  have "c \<in> of_nat ` set [48..<58] \<or> c \<in> of_nat ` set [97..<103]"
    using assms byte_interval [of 48 c 57] byte_interval [of 97 c 102]
    by (auto simp del: set_upt simp: hex_nibble_def split: if_splits)
  then have "v < 16 \<and> hex_alphabet ! unat v = c"
    using assms by (auto simp: upt_rec hex_nibble_def hex_alphabet_def ascii_def)
  then show "v < 16" "hex_alphabet ! unat v = c" by auto
qed

lemma byte_and_15: "(b :: byte) AND 0x0f = take_bit 4 b"
  by (simp add: take_bit_eq_mask mask_eq_exp_minus_1)

lemma byte_of_nibbles:
  "ucast (push_bit 4 (ucast (drop_bit 4 b)) OR ucast (b AND 0x0f) :: u32) = (b :: byte)"
  unfolding byte_and_15
  by (rule bit_word_eqI) (auto simp: bit_simps dest: bit_imp_le_length)

lemma unat_ucast_u32: "unat (ucast (b :: byte) :: u32) = unat b"
  using unsigned_less [of b, where ?'a = nat] by (simp add: unsigned_ucast_eq take_bit_nat_eq_self)

lemma nibbles_of_byte:
  assumes "high < 16" "low < 16"
  defines "b \<equiv> ucast (push_bit 4 high OR low :: u32) :: byte"
  shows "unat (drop_bit 4 b) = unat high" "unat (b AND 0x0f) = unat low"
proof -
  have "high AND mask 4 = high" "low AND mask 4 = low"
    using assms(1,2) by (simp_all add: less_mask_eq)
  then have high: "bit high i \<Longrightarrow> i < 4" and low: "bit low i \<Longrightarrow> i < 4" for i
    by (metis bit_and_iff bit_mask_iff)+
  have "ucast (drop_bit 4 b) = high" "ucast (take_bit 4 b) = low"
    by (rule bit_word_eqI; auto simp: b_def bit_simps dest: high low)+
  then show "unat (drop_bit 4 b) = unat high" "unat (b AND 0x0f) = unat low"
    unfolding byte_and_15 by (metis unat_ucast_u32)+
qed

lemma parse_hex_loop_byte:
  "2 \<le> length input \<Longrightarrow>
   hex_byte b = take 2 input \<Longrightarrow>
   parse_hex_loop (Suc n) input = map_option ((#) b) (parse_hex_loop n (drop 2 input))"
proof -
  assume len: "2 \<le> length input" and b: "hex_byte b = take 2 input"
  have "input ! 0 = hex_alphabet ! unat (drop_bit 4 b)" "input ! 1 = hex_alphabet ! unat (b AND 0x0f)"
    using arg_cong [OF b, of "\<lambda>x. x ! 0"] arg_cong [OF b, of "\<lambda>x. x ! 1"] len
    by (auto simp: hex_byte_def)
  moreover have "unat (drop_bit 4 b) < 16" "unat (b AND 0x0f) < 16"
    unfolding byte_and_15 using unsigned_less [of b, where ?'a = nat]
    by (simp_all add: drop_bit_eq_div take_bit_eq_mod unat_div unat_mod)
  ultimately show ?thesis
    using hex_alphabet_nth byte_of_nibbles [of b] by simp
qed

lemma parse_hex_loop_complete:
  "2 * length d \<le> length input \<Longrightarrow> take (2 * length d) input = concat (map hex_byte d) \<Longrightarrow>
     parse_hex_loop (length d) input = Some d"
proof (induction d arbitrary: input)
  case (Cons b d)
  have "hex_byte b = take 2 input" "take (2 * length d) (drop 2 input) = concat (map hex_byte d)"
    using arg_cong [OF Cons.prems(2), of "take 2"] arg_cong [OF Cons.prems(2), of "drop 2"]
    by (simp_all add: hex_byte_def [of b] drop_take numeral_2_eq_2)
  then show ?case
    using Cons parse_hex_loop_byte [of input b "length d"] by simp
qed simp

lemma parse_hex_loop_sound:
  "parse_hex_loop n input = Some d \<Longrightarrow> 2 * n \<le> length input \<Longrightarrow>
     length d = n \<and> take (2 * n) input = concat (map hex_byte d)"
proof (induction n arbitrary: input d)
  case (Suc n)
  obtain high low where hl: "hex_nibble (input ! 0) = Some high" "hex_nibble (input ! 1) = Some low"
    using Suc.prems(1) by (auto split: option.splits)
  let ?b = "ucast (push_bit 4 high OR low) :: byte"
  obtain d' where d: "d = ?b # d'" and d': "parse_hex_loop n (drop 2 input) = Some d'"
    using Suc.prems(1) hl by auto
  have "hex_byte ?b = [input ! 0, input ! 1]"
    using hl hex_nibble_sound nibbles_of_byte by (simp add: hex_byte_def)
  moreover have "input = input ! 0 # input ! 1 # drop 2 input"
    using Suc.prems(2) by (cases input; cases "tl input") auto
  ultimately show ?case
    using Suc.IH [OF d'] Suc.prems(2) d by (metis (no_types, opaque_lifting) append_Cons append_Nil
        concat.simps(2) length_Cons list.simps(9) mult_Suc_right numeral_2_eq_2 take_Suc_Cons add_2_eq_Suc
        length_drop diff_le_mono diff_add_inverse)
qed simp

lemma proc17_sha256_hex_eq:
  "length d = PROC17_SHA256_BYTES \<Longrightarrow> proc17_sha256_hex d = concat (map hex_byte d) @ [0]"
proof -
  assume "length d = PROC17_SHA256_BYTES"
  then have "map (\<lambda>index. hex_byte (d ! index)) [0..<PROC17_SHA256_BYTES] = map hex_byte d"
    by (intro nth_equalityI) simp_all
  then show ?thesis by (simp add: proc17_sha256_hex_def)
qed

lemma length_hex_bytes: "length (concat (map hex_byte d)) = 2 * length d"
  by (induction d) (simp_all add: hex_byte_def)

text \<open>\<open>proc17_sha256_parse_hex\<close> is exactly the inverse of \<open>proc17_sha256_hex\<close>: it accepts a C
  string and returns \<open>d\<close> if and only if \<open>d\<close> is a 32-byte digest and the string, with its
  terminator, is the text \<open>proc17_sha256_hex\<close> prints for \<open>d\<close>.\<close>

theorem parse_hex_iff_hex:
  "proc17_sha256_parse_hex (Some s) = Some d \<longleftrightarrow>
     length d = PROC17_SHA256_BYTES \<and> takeWhile (\<lambda>b. b \<noteq> 0) s @ [0] = proc17_sha256_hex d"
proof -
  let ?t = "takeWhile (\<lambda>b. b \<noteq> 0) s"
  have t: "take (length ?t) s = ?t" "length ?t \<le> length s"
    by (metis takeWhile_eq_take, rule length_takeWhile_le)
  show ?thesis
  proof
    assume "proc17_sha256_parse_hex (Some s) = Some d"
    then show "length d = PROC17_SHA256_BYTES \<and> ?t @ [0] = proc17_sha256_hex d"
      using parse_hex_loop_sound [of 32 s d] t
      by (auto simp: proc17_sha256_parse_hex_def c_strlen_def proc17_sha256_hex_eq
          PROC17_SHA256_BYTES_def split: if_splits)
  next
    assume *: "length d = PROC17_SHA256_BYTES \<and> ?t @ [0] = proc17_sha256_hex d"
    then have "?t @ [0] = concat (map hex_byte d) @ [0]" using proc17_sha256_hex_eq [of d] by metis
    then have "?t = concat (map hex_byte d)" by blast
    then show "proc17_sha256_parse_hex (Some s) = Some d"
      using * t parse_hex_loop_complete [of d s] length_hex_bytes [of d]
      by (simp add: proc17_sha256_parse_hex_def c_strlen_def)
  qed
qed

end
