(* ===== verification/Qa_Wire.thy ===== *)
theory Qa_Wire
  imports Proc17_Sha256
begin

text \<open>
  The QA wire codec (\<open>native/proc17_qa_wire.h\<close>): big-endian integers, the framed envelope with its
  digest trailer, and the payload validators of the four run-v1 frames.  A pointer into a frame is
  the suffix of the frame that starts there, so a decoded view carries the suffixes
  \<open>frame + 16\<close> and \<open>frame + 48\<close>.
\<close>

subsection \<open>Constants\<close>

definition PROC17_QA_WIRE_MAGIC_BYTES :: nat where [simp]: "PROC17_QA_WIRE_MAGIC_BYTES = 8"
definition PROC17_QA_WIRE_VERSION :: u16 where [simp]: "PROC17_QA_WIRE_VERSION = 0"
definition PROC17_QA_WIRE_NONCE_BYTES :: nat where [simp]: "PROC17_QA_WIRE_NONCE_BYTES = 32"
definition PROC17_QA_WIRE_DIGEST_BYTES :: nat where [simp]: "PROC17_QA_WIRE_DIGEST_BYTES = 32"
definition PROC17_QA_WIRE_ENVELOPE_BYTES :: nat where [simp]: "PROC17_QA_WIRE_ENVELOPE_BYTES = 80"
definition PROC17_QA_WIRE_MAX_FRAME_BYTES :: nat where
  [simp]: "PROC17_QA_WIRE_MAX_FRAME_BYTES = 4096"
definition PROC17_QA_RUN_REQUEST_V1_FIXED_BYTES :: nat where
  [simp]: "PROC17_QA_RUN_REQUEST_V1_FIXED_BYTES = 238"
definition PROC17_QA_RUN_STARTED_V1_BYTES :: nat where [simp]: "PROC17_QA_RUN_STARTED_V1_BYTES = 252"
definition PROC17_QA_RUN_RESULT_V1_BYTES :: nat where [simp]: "PROC17_QA_RUN_RESULT_V1_BYTES = 512"
definition PROC17_QA_RUN_ERROR_V1_BYTES :: nat where [simp]: "PROC17_QA_RUN_ERROR_V1_BYTES = 268"
definition PROC17_QA_SOURCE_STAGE_V1_BYTES :: nat where
  [simp]: "PROC17_QA_SOURCE_STAGE_V1_BYTES = 84"
definition PROC17_QA_STREAM_MEASUREMENT_V1_BYTES :: nat where
  [simp]: "PROC17_QA_STREAM_MEASUREMENT_V1_BYTES = 64"
definition PROC17_QA_RESOURCE_MEASUREMENT_V1_BYTES :: nat where
  [simp]: "PROC17_QA_RESOURCE_MEASUREMENT_V1_BYTES = 88"
definition PROC17_QA_SCRATCH_MEASUREMENT_V1_BYTES :: nat where
  [simp]: "PROC17_QA_SCRATCH_MEASUREMENT_V1_BYTES = 40"

definition PROC17_QA_V1_IDENTITY_BYTES :: nat where [simp]: "PROC17_QA_V1_IDENTITY_BYTES = 128"
definition PROC17_QA_V1_PHASE_OFFSET :: nat where [simp]: "PROC17_QA_V1_PHASE_OFFSET = 128"
definition PROC17_QA_V1_STARTED_STAGE_OFFSET :: nat where
  [simp]: "PROC17_QA_V1_STARTED_STAGE_OFFSET = 168"
definition PROC17_QA_V1_RESULT_FINALITY_OFFSET :: nat where
  [simp]: "PROC17_QA_V1_RESULT_FINALITY_OFFSET = 164"
definition PROC17_QA_V1_RESULT_STDOUT_OFFSET :: nat where
  [simp]: "PROC17_QA_V1_RESULT_STDOUT_OFFSET = 172"
definition PROC17_QA_V1_RESULT_STDERR_OFFSET :: nat where
  [simp]: "PROC17_QA_V1_RESULT_STDERR_OFFSET = 236"
definition PROC17_QA_V1_RESULT_RESOURCE_OFFSET :: nat where
  [simp]: "PROC17_QA_V1_RESULT_RESOURCE_OFFSET = 300"
definition PROC17_QA_V1_RESULT_SCRATCH_OFFSET :: nat where
  [simp]: "PROC17_QA_V1_RESULT_SCRATCH_OFFSET = 388"
definition PROC17_QA_V1_RESULT_STAGE_OFFSET :: nat where
  [simp]: "PROC17_QA_V1_RESULT_STAGE_OFFSET = 428"
definition PROC17_QA_V1_ERROR_COST_OFFSET :: nat where [simp]: "PROC17_QA_V1_ERROR_COST_OFFSET = 144"
definition PROC17_QA_V1_ERROR_STAGE_OFFSET :: nat where
  [simp]: "PROC17_QA_V1_ERROR_STAGE_OFFSET = 184"

text \<open>The enumerations, at the width at which they are stored in a frame.\<close>

definition PROC17_QA_RUN_CONTAINED :: u16 where [simp]: "PROC17_QA_RUN_CONTAINED = 1"
definition PROC17_QA_RUN_PROCESS_ERROR :: u16 where [simp]: "PROC17_QA_RUN_PROCESS_ERROR = 2"

definition PROC17_QA_RUN_EXPECTED_EXIT :: u16 where [simp]: "PROC17_QA_RUN_EXPECTED_EXIT = 1"
definition PROC17_QA_RUN_UNEXPECTED_EXIT :: u16 where [simp]: "PROC17_QA_RUN_UNEXPECTED_EXIT = 2"
definition PROC17_QA_RUN_SIGNAL :: u16 where [simp]: "PROC17_QA_RUN_SIGNAL = 3"
definition PROC17_QA_RUN_WALL_TIMEOUT :: u16 where [simp]: "PROC17_QA_RUN_WALL_TIMEOUT = 4"
definition PROC17_QA_RUN_CPU_LIMIT :: u16 where [simp]: "PROC17_QA_RUN_CPU_LIMIT = 5"
definition PROC17_QA_RUN_MEMORY_LIMIT :: u16 where [simp]: "PROC17_QA_RUN_MEMORY_LIMIT = 6"
definition PROC17_QA_RUN_OUTPUT_LIMIT :: u16 where [simp]: "PROC17_QA_RUN_OUTPUT_LIMIT = 7"
definition PROC17_QA_RUN_SCRATCH_LIMIT :: u16 where [simp]: "PROC17_QA_RUN_SCRATCH_LIMIT = 8"
definition PROC17_QA_RUN_SANDBOX_POLICY_VIOLATION :: u16 where
  [simp]: "PROC17_QA_RUN_SANDBOX_POLICY_VIOLATION = 9"

definition PROC17_QA_TERMINATION_EXIT :: u16 where [simp]: "PROC17_QA_TERMINATION_EXIT = 1"
definition PROC17_QA_TERMINATION_SIGNAL :: u16 where [simp]: "PROC17_QA_TERMINATION_SIGNAL = 2"
definition PROC17_QA_TERMINATION_SUPERVISOR_KILL :: u16 where
  [simp]: "PROC17_QA_TERMINATION_SUPERVISOR_KILL = 3"

definition PROC17_QA_WIRE_PROBE_REQUEST :: u16 where [simp]: "PROC17_QA_WIRE_PROBE_REQUEST = 1"
definition PROC17_QA_WIRE_PROBE_RESULT :: u16 where [simp]: "PROC17_QA_WIRE_PROBE_RESULT = 2"
definition PROC17_QA_WIRE_RUN_REQUEST :: u16 where [simp]: "PROC17_QA_WIRE_RUN_REQUEST = 3"
definition PROC17_QA_WIRE_RUN_RESULT :: u16 where [simp]: "PROC17_QA_WIRE_RUN_RESULT = 4"
definition PROC17_QA_WIRE_RUN_REQUEST_V1 :: u16 where [simp]: "PROC17_QA_WIRE_RUN_REQUEST_V1 = 5"
definition PROC17_QA_WIRE_RUN_STARTED_V1 :: u16 where [simp]: "PROC17_QA_WIRE_RUN_STARTED_V1 = 6"
definition PROC17_QA_WIRE_RUN_RESULT_V1 :: u16 where [simp]: "PROC17_QA_WIRE_RUN_RESULT_V1 = 7"
definition PROC17_QA_WIRE_RUN_ERROR_V1 :: u16 where [simp]: "PROC17_QA_WIRE_RUN_ERROR_V1 = 8"

definition PROC17_QA_RUN_V1_PHASE_STARTED :: u16 where [simp]: "PROC17_QA_RUN_V1_PHASE_STARTED = 1"
definition PROC17_QA_RUN_V1_PHASE_TERMINAL :: u16 where
  [simp]: "PROC17_QA_RUN_V1_PHASE_TERMINAL = 2"
definition PROC17_QA_RUN_V1_PREPARED_UNDER_POLICY :: byte where
  [simp]: "PROC17_QA_RUN_V1_PREPARED_UNDER_POLICY = 1"

definition PROC17_QA_RUN_V1_UNKNOWN :: byte where [simp]: "PROC17_QA_RUN_V1_UNKNOWN = 1"
definition PROC17_QA_RUN_V1_FALSE :: byte where [simp]: "PROC17_QA_RUN_V1_FALSE = 2"
definition PROC17_QA_RUN_V1_TRUE :: byte where [simp]: "PROC17_QA_RUN_V1_TRUE = 3"

definition PROC17_QA_RUN_V1_ERROR_WORLD :: u16 where [simp]: "PROC17_QA_RUN_V1_ERROR_WORLD = 1"
definition PROC17_QA_RUN_V1_ERROR_UNAVAILABLE :: u16 where
  [simp]: "PROC17_QA_RUN_V1_ERROR_UNAVAILABLE = 2"
definition PROC17_QA_RUN_V1_ERROR_AMBIGUOUS :: u16 where
  [simp]: "PROC17_QA_RUN_V1_ERROR_AMBIGUOUS = 3"

definition PROC17_QA_RUN_V1_SUPERVISOR_UNAVAILABLE :: u16 where
  [simp]: "PROC17_QA_RUN_V1_SUPERVISOR_UNAVAILABLE = 1"
definition PROC17_QA_RUN_V1_SOURCE_STAGING_FAILED :: u16 where
  [simp]: "PROC17_QA_RUN_V1_SOURCE_STAGING_FAILED = 2"
definition PROC17_QA_RUN_V1_SUPERVISOR_CRASHED :: u16 where
  [simp]: "PROC17_QA_RUN_V1_SUPERVISOR_CRASHED = 3"
definition PROC17_QA_RUN_V1_RESULT_PIPE_LOST :: u16 where
  [simp]: "PROC17_QA_RUN_V1_RESULT_PIPE_LOST = 4"
definition PROC17_QA_RUN_V1_TERMINAL_FRAME_MISSING :: u16 where
  [simp]: "PROC17_QA_RUN_V1_TERMINAL_FRAME_MISSING = 5"
definition PROC17_QA_RUN_V1_REAP_AMBIGUOUS :: u16 where [simp]: "PROC17_QA_RUN_V1_REAP_AMBIGUOUS = 6"
definition PROC17_QA_RUN_V1_OUTPUT_OBSERVATION_INCOMPLETE :: u16 where
  [simp]: "PROC17_QA_RUN_V1_OUTPUT_OBSERVATION_INCOMPLETE = 7"
definition PROC17_QA_RUN_V1_SCRATCH_OBSERVATION_INCOMPLETE :: u16 where
  [simp]: "PROC17_QA_RUN_V1_SCRATCH_OBSERVATION_INCOMPLETE = 8"
definition PROC17_QA_RUN_V1_NAMESPACE_CLEANUP_INCOMPLETE :: u16 where
  [simp]: "PROC17_QA_RUN_V1_NAMESPACE_CLEANUP_INCOMPLETE = 9"

definition PROC17_QA_RUN_V1_ERROR_PREFLIGHT :: u16 where
  [simp]: "PROC17_QA_RUN_V1_ERROR_PREFLIGHT = 1"
definition PROC17_QA_RUN_V1_ERROR_SOURCE_STAGING :: u16 where
  [simp]: "PROC17_QA_RUN_V1_ERROR_SOURCE_STAGING = 2"
definition PROC17_QA_RUN_V1_ERROR_NAMESPACE :: u16 where
  [simp]: "PROC17_QA_RUN_V1_ERROR_NAMESPACE = 3"
definition PROC17_QA_RUN_V1_ERROR_LAUNCH :: u16 where [simp]: "PROC17_QA_RUN_V1_ERROR_LAUNCH = 4"
definition PROC17_QA_RUN_V1_ERROR_SUPERVISION :: u16 where
  [simp]: "PROC17_QA_RUN_V1_ERROR_SUPERVISION = 5"
definition PROC17_QA_RUN_V1_ERROR_POSTFLIGHT :: u16 where
  [simp]: "PROC17_QA_RUN_V1_ERROR_POSTFLIGHT = 6"
definition PROC17_QA_RUN_V1_ERROR_CLEANUP :: u16 where [simp]: "PROC17_QA_RUN_V1_ERROR_CLEANUP = 7"

subsection \<open>Big-endian integers\<close>

definition be16 :: "u16 \<Rightarrow> bytes" where
  "be16 value = [ucast (drop_bit 8 value), ucast value]"

definition be32 :: "u32 \<Rightarrow> bytes" where
  "be32 value =
     [ucast (drop_bit 24 value), ucast (drop_bit 16 value), ucast (drop_bit 8 value), ucast value]"

definition be64 :: "u64 \<Rightarrow> bytes" where
  "be64 value = map (\<lambda>position. ucast (drop_bit ((7 - position) * 8) value)) [0..<8]"

text \<open>\<open>proc17_qa_wire_put_u16 (output + off) value\<close> and its wider companions.\<close>

definition proc17_qa_wire_put_u16 :: "bytes \<Rightarrow> nat \<Rightarrow> u16 \<Rightarrow> bytes" where
  "proc17_qa_wire_put_u16 output off value = write_at output off (be16 value)"

definition proc17_qa_wire_put_u32 :: "bytes \<Rightarrow> nat \<Rightarrow> u32 \<Rightarrow> bytes" where
  "proc17_qa_wire_put_u32 output off value = write_at output off (be32 value)"

definition proc17_qa_wire_put_u64 :: "bytes \<Rightarrow> nat \<Rightarrow> u64 \<Rightarrow> bytes" where
  "proc17_qa_wire_put_u64 output off value = write_at output off (be64 value)"

definition proc17_qa_wire_get_u16 :: "bytes \<Rightarrow> u16" where
  "proc17_qa_wire_get_u16 input = push_bit 8 (ucast (input ! 0)) OR ucast (input ! 1)"

definition proc17_qa_wire_get_u32 :: "bytes \<Rightarrow> u32" where
  "proc17_qa_wire_get_u32 input =
     push_bit 24 (ucast (input ! 0)) OR push_bit 16 (ucast (input ! 1))
     OR push_bit 8 (ucast (input ! 2)) OR ucast (input ! 3)"

definition proc17_qa_wire_get_u64 :: "bytes \<Rightarrow> u64" where
  "proc17_qa_wire_get_u64 input =
     foldl (\<lambda>value index. push_bit 8 value OR ucast (input ! index)) 0 [0..<8]"

subsection \<open>The envelope\<close>

record proc17_qa_wire_view =
  view_kind :: u16
  view_nonce :: bytes
  view_payload :: bytes
  view_payload_bytes :: u32

definition proc17_qa_wire_kind_known :: "u16 \<Rightarrow> bool" where
  "proc17_qa_wire_kind_known kind \<longleftrightarrow>
     kind = PROC17_QA_WIRE_PROBE_REQUEST
     \<or> kind = PROC17_QA_WIRE_PROBE_RESULT
     \<or> kind = PROC17_QA_WIRE_RUN_REQUEST
     \<or> kind = PROC17_QA_WIRE_RUN_RESULT
     \<or> kind = PROC17_QA_WIRE_RUN_REQUEST_V1
     \<or> kind = PROC17_QA_WIRE_RUN_STARTED_V1
     \<or> kind = PROC17_QA_WIRE_RUN_RESULT_V1
     \<or> kind = PROC17_QA_WIRE_RUN_ERROR_V1"

definition wire_magic :: bytes where
  "wire_magic = ascii ''P17QA0'' @ [0, 0]"

text \<open>The result is the written output buffer with the number of bytes stored through
  \<open>output_bytes\<close>; the pointer \<open>output_bytes\<close> itself is never null in the repository.\<close>

definition proc17_qa_wire_encode ::
  "u16 \<Rightarrow> bytes ptr \<Rightarrow> bytes ptr \<Rightarrow> u32 \<Rightarrow> bytes ptr \<Rightarrow> (bytes \<times> nat) option" where
  "proc17_qa_wire_encode kind nonce payload payload_bytes output =
     (case (nonce, output) of
        (Some nonce, Some output) \<Rightarrow>
          if \<not> proc17_qa_wire_kind_known kind
             \<or> (payload_bytes > 0 \<and> payload = NULL)
             \<or> unat payload_bytes > PROC17_QA_WIRE_MAX_FRAME_BYTES - PROC17_QA_WIRE_ENVELOPE_BYTES
          then None
          else
            (let before_digest = 48 + unat payload_bytes;
                 total = before_digest + PROC17_QA_WIRE_DIGEST_BYTES;
                 o1 = write_at output 0 wire_magic;
                 o2 = proc17_qa_wire_put_u16 o1 8 PROC17_QA_WIRE_VERSION;
                 o3 = proc17_qa_wire_put_u16 o2 10 kind;
                 o4 = proc17_qa_wire_put_u32 o3 12 payload_bytes;
                 o5 = write_at o4 16 (take PROC17_QA_WIRE_NONCE_BYTES nonce);
                 o6 = (case payload of
                         Some bs \<Rightarrow> if payload_bytes > 0
                                    then write_at o5 48 (take (unat payload_bytes) bs) else o5
                       | None \<Rightarrow> o5);
                 digest = proc17_sha256_bytes (take before_digest o6)
             in Some (write_at o6 before_digest digest, total))
      | _ \<Rightarrow> None)"

definition digest_mismatch :: "bytes \<Rightarrow> bytes \<Rightarrow> byte" where
  "digest_mismatch expected actual =
     foldl (\<lambda>mismatch index. mismatch OR (expected ! index XOR actual ! index)) 0
       [0..<PROC17_SHA256_BYTES]"

definition proc17_qa_wire_decode :: "bytes ptr \<Rightarrow> nat \<Rightarrow> proc17_qa_wire_view option" where
  "proc17_qa_wire_decode frame frame_bytes =
     (case frame of
        None \<Rightarrow> None
      | Some frame \<Rightarrow>
          if frame_bytes < PROC17_QA_WIRE_ENVELOPE_BYTES
             \<or> frame_bytes > PROC17_QA_WIRE_MAX_FRAME_BYTES
             \<or> take PROC17_QA_WIRE_MAGIC_BYTES frame \<noteq> wire_magic
          then None
          else
            (let version = proc17_qa_wire_get_u16 (drop 8 frame);
                 kind = proc17_qa_wire_get_u16 (drop 10 frame);
                 payload_bytes = proc17_qa_wire_get_u32 (drop 12 frame)
             in if version \<noteq> PROC17_QA_WIRE_VERSION \<or> \<not> proc17_qa_wire_kind_known kind
                   \<or> unat payload_bytes
                       > PROC17_QA_WIRE_MAX_FRAME_BYTES - PROC17_QA_WIRE_ENVELOPE_BYTES
                   \<or> frame_bytes \<noteq> PROC17_QA_WIRE_ENVELOPE_BYTES + unat payload_bytes
                then None
                else
                  (let before_digest = 48 + unat payload_bytes;
                       expected = proc17_sha256_bytes (take before_digest frame)
                   in if digest_mismatch expected (drop before_digest frame) \<noteq> 0 then None
                      else Some \<lparr>view_kind = kind, view_nonce = drop 16 frame,
                                 view_payload = drop 48 frame,
                                 view_payload_bytes = payload_bytes\<rparr>)))"

subsection \<open>Payload validators\<close>

definition bytes_combined :: "bytes \<Rightarrow> nat \<Rightarrow> byte" where
  "bytes_combined bytes n = foldl (\<lambda>combined index. combined OR bytes ! index) 0 [0..<n]"

definition proc17_qa_wire_bytes_zero :: "bytes ptr \<Rightarrow> nat \<Rightarrow> bool" where
  "proc17_qa_wire_bytes_zero bytes n =
     (case bytes of None \<Rightarrow> False | Some bs \<Rightarrow> bytes_combined bs n = 0)"

definition proc17_qa_wire_digest_nonzero :: "bytes ptr \<Rightarrow> bool" where
  "proc17_qa_wire_digest_nonzero value \<longleftrightarrow>
     value \<noteq> NULL \<and> \<not> proc17_qa_wire_bytes_zero value PROC17_QA_WIRE_DIGEST_BYTES"

definition proc17_qa_wire_boolean :: "byte \<Rightarrow> bool" where
  "proc17_qa_wire_boolean value \<longleftrightarrow> value = 0 \<or> value = 1"

definition proc17_qa_wire_tri_state :: "byte \<Rightarrow> bool" where
  "proc17_qa_wire_tri_state value \<longleftrightarrow>
     value = PROC17_QA_RUN_V1_UNKNOWN \<or> value = PROC17_QA_RUN_V1_FALSE
     \<or> value = PROC17_QA_RUN_V1_TRUE"

definition proc17_qa_wire_v1_identity_valid :: "bytes ptr \<Rightarrow> bool" where
  "proc17_qa_wire_v1_identity_valid payload \<longleftrightarrow>
     payload \<noteq> NULL
     \<and> proc17_qa_wire_digest_nonzero payload
     \<and> proc17_qa_wire_digest_nonzero (ptr_add payload 32)
     \<and> proc17_qa_wire_digest_nonzero (ptr_add payload 64)
     \<and> proc17_qa_wire_digest_nonzero (ptr_add payload 96)"

definition proc17_qa_wire_v1_source_stage_valid :: "bytes ptr \<Rightarrow> bool" where
  "proc17_qa_wire_v1_source_stage_valid stage_ptr =
     (case stage_ptr of
        None \<Rightarrow> False
      | Some stage \<Rightarrow>
          proc17_qa_wire_get_u16 stage = 1
          \<and> stage ! 2 = 0 \<and> stage ! 3 = 0
          \<and> proc17_qa_wire_get_u32 (drop 4 stage) \<noteq> 0
          \<and> proc17_qa_wire_get_u64 (drop 8 stage) \<noteq> 0
          \<and> proc17_qa_wire_get_u64 (drop 16 stage) \<noteq> 0
          \<and> proc17_qa_wire_get_u64 (drop 24 stage) \<noteq> 0
          \<and> proc17_qa_wire_get_u64 (drop 32 stage) \<noteq> 0
          \<and> proc17_qa_wire_get_u64 (drop 40 stage) \<noteq> 0
          \<and> proc17_qa_wire_get_u64 (drop 48 stage) \<noteq> 0
          \<and> proc17_qa_wire_get_u64 (drop 56 stage) \<noteq> 0
          \<and> proc17_qa_wire_get_u64 (drop 64 stage) \<noteq> 0
          \<and> proc17_qa_wire_get_u64 (drop 72 stage) \<noteq> 0
          \<and> proc17_qa_wire_boolean (stage ! 80)
          \<and> proc17_qa_wire_boolean (stage ! 81)
          \<and> stage ! 82 = 0 \<and> stage ! 83 = 0)"

definition proc17_qa_wire_v1_stream_valid :: "bytes ptr \<Rightarrow> bool" where
  "proc17_qa_wire_v1_stream_valid stream_ptr =
     (case stream_ptr of
        None \<Rightarrow> False
      | Some stream \<Rightarrow>
          (let observed = proc17_qa_wire_get_u64 stream;
               hashed = proc17_qa_wire_get_u64 (drop 8 stream);
               limit = proc17_qa_wire_get_u64 (drop 16 stream)
           in limit \<noteq> 0 \<and> hashed \<le> observed \<and> hashed \<le> limit
              \<and> proc17_qa_wire_digest_nonzero (Some (drop 24 stream))
              \<and> proc17_qa_wire_boolean (stream ! 56)
              \<and> stream ! 57 = 1 \<and> stream ! 58 = 0
              \<and> proc17_qa_wire_bytes_zero (Some (drop 59 stream)) 5
              \<and> (stream ! 56 \<noteq> 0) = (observed > limit)))"

definition proc17_qa_wire_v1_resource_valid :: "bytes ptr \<Rightarrow> bool" where
  "proc17_qa_wire_v1_resource_valid resource_ptr =
     (case resource_ptr of
        None \<Rightarrow> False
      | Some resource \<Rightarrow>
          proc17_qa_wire_get_u64 (drop 32 resource) \<noteq> 0
          \<and> proc17_qa_wire_get_u64 (drop 48 resource) \<noteq> 0
          \<and> proc17_qa_wire_get_u64 (drop 56 resource) \<noteq> 0
          \<and> proc17_qa_wire_get_u64 (drop 64 resource) \<noteq> 0
          \<and> proc17_qa_wire_get_u64 (drop 72 resource) \<noteq> 0
          \<and> proc17_qa_wire_boolean (resource ! 80)
          \<and> proc17_qa_wire_bytes_zero (Some (drop 81 resource)) 7)"

definition proc17_qa_wire_v1_scratch_valid :: "bytes ptr \<Rightarrow> bool" where
  "proc17_qa_wire_v1_scratch_valid scratch_ptr =
     (case scratch_ptr of
        None \<Rightarrow> False
      | Some scratch \<Rightarrow>
          (let bytes = proc17_qa_wire_get_u64 scratch;
               entries = proc17_qa_wire_get_u64 (drop 8 scratch);
               byte_limit = proc17_qa_wire_get_u64 (drop 16 scratch);
               entry_limit = proc17_qa_wire_get_u64 (drop 24 scratch)
           in byte_limit \<noteq> 0 \<and> entry_limit \<noteq> 0
              \<and> bytes \<le> byte_limit \<and> entries \<le> entry_limit
              \<and> proc17_qa_wire_boolean (scratch ! 32)
              \<and> proc17_qa_wire_boolean (scratch ! 33)
              \<and> scratch ! 34 = 1
              \<and> proc17_qa_wire_bytes_zero (Some (drop 35 scratch)) 5))"

definition proc17_qa_wire_v1_request_valid :: "bytes ptr \<Rightarrow> u32 \<Rightarrow> bool" where
  "proc17_qa_wire_v1_request_valid payload_ptr payload_bytes =
     (case payload_ptr of
        None \<Rightarrow> False
      | Some payload \<Rightarrow>
          if unat payload_bytes < PROC17_QA_RUN_REQUEST_V1_FIXED_BYTES
             \<or> \<not> proc17_qa_wire_v1_identity_valid (Some payload)
          then False
          else
            (let path_bytes = proc17_qa_wire_get_u16 (drop 236 payload)
             in path_bytes \<noteq> 0 \<and> path_bytes \<le> 1024
                \<and> unat payload_bytes = PROC17_QA_RUN_REQUEST_V1_FIXED_BYTES + unat path_bytes
                \<and> proc17_qa_wire_get_u32 (drop 232 payload) = 0
                \<and> 0 \<notin> set (take (unat path_bytes)
                             (drop PROC17_QA_RUN_REQUEST_V1_FIXED_BYTES payload))))"

definition proc17_qa_wire_v1_started_valid :: "bytes ptr \<Rightarrow> u32 \<Rightarrow> bool" where
  "proc17_qa_wire_v1_started_valid payload_ptr payload_bytes \<longleftrightarrow>
     unat payload_bytes = PROC17_QA_RUN_STARTED_V1_BYTES
     \<and> proc17_qa_wire_v1_identity_valid payload_ptr
     \<and> (case payload_ptr of
          None \<Rightarrow> False
        | Some payload \<Rightarrow>
            proc17_qa_wire_get_u16 (drop PROC17_QA_V1_PHASE_OFFSET payload)
              = PROC17_QA_RUN_V1_PHASE_STARTED
            \<and> proc17_qa_wire_get_u16 (drop 130 payload) = 1
            \<and> payload ! 132 = 1
            \<and> payload ! 133 = PROC17_QA_RUN_V1_PREPARED_UNDER_POLICY
            \<and> payload ! 134 = 0 \<and> payload ! 135 = 0
            \<and> proc17_qa_wire_digest_nonzero (Some (drop 136 payload))
            \<and> proc17_qa_wire_v1_source_stage_valid
                (Some (drop PROC17_QA_V1_STARTED_STAGE_OFFSET payload)))"

definition proc17_qa_wire_v1_result_valid :: "bytes ptr \<Rightarrow> u32 \<Rightarrow> bool" where
  "proc17_qa_wire_v1_result_valid payload_ptr payload_bytes =
     (if unat payload_bytes \<noteq> PROC17_QA_RUN_RESULT_V1_BYTES
         \<or> \<not> proc17_qa_wire_v1_identity_valid payload_ptr
      then False
      else
        (case payload_ptr of
           None \<Rightarrow> False
         | Some payload \<Rightarrow>
             if proc17_qa_wire_get_u16 (drop PROC17_QA_V1_PHASE_OFFSET payload)
                  \<noteq> PROC17_QA_RUN_V1_PHASE_TERMINAL
                \<or> proc17_qa_wire_get_u16 (drop 130 payload) \<noteq> PROC17_QA_RUN_CONTAINED
             then False
             else
               (let reason = proc17_qa_wire_get_u16 (drop 132 payload);
                    termination_kind = proc17_qa_wire_get_u16 (drop 134 payload)
                in if reason < PROC17_QA_RUN_EXPECTED_EXIT
                      \<or> reason > PROC17_QA_RUN_SANDBOX_POLICY_VIOLATION
                      \<or> termination_kind < PROC17_QA_TERMINATION_EXIT
                      \<or> termination_kind > PROC17_QA_TERMINATION_SUPERVISOR_KILL
                      \<or> proc17_qa_wire_get_u16 (drop 144 payload) \<noteq> reason
                      \<or> proc17_qa_wire_get_u16 (drop 146 payload) \<noteq> 0
                      \<or> proc17_qa_wire_get_u64 (drop 148 payload) = 0
                   then False
                   else if list_ex (\<lambda>index. payload ! (PROC17_QA_V1_RESULT_FINALITY_OFFSET + index) \<noteq> 1)
                             [0..<8]
                   then False
                   else
                     proc17_qa_wire_v1_stream_valid
                       (Some (drop PROC17_QA_V1_RESULT_STDOUT_OFFSET payload))
                     \<and> proc17_qa_wire_v1_stream_valid
                       (Some (drop PROC17_QA_V1_RESULT_STDERR_OFFSET payload))
                     \<and> proc17_qa_wire_v1_resource_valid
                       (Some (drop PROC17_QA_V1_RESULT_RESOURCE_OFFSET payload))
                     \<and> proc17_qa_wire_v1_scratch_valid
                       (Some (drop PROC17_QA_V1_RESULT_SCRATCH_OFFSET payload))
                     \<and> proc17_qa_wire_v1_source_stage_valid
                       (Some (drop PROC17_QA_V1_RESULT_STAGE_OFFSET payload)))))"

definition proc17_qa_wire_v1_error_valid :: "bytes ptr \<Rightarrow> u32 \<Rightarrow> bool" where
  "proc17_qa_wire_v1_error_valid payload_ptr payload_bytes =
     (if unat payload_bytes \<noteq> PROC17_QA_RUN_ERROR_V1_BYTES
         \<or> \<not> proc17_qa_wire_v1_identity_valid payload_ptr
      then False
      else
        (case payload_ptr of
           None \<Rightarrow> False
         | Some payload \<Rightarrow>
             (let phase = proc17_qa_wire_get_u16 (drop PROC17_QA_V1_PHASE_OFFSET payload);
                  error_class = proc17_qa_wire_get_u16 (drop 130 payload);
                  code = proc17_qa_wire_get_u16 (drop 132 payload);
                  stage = proc17_qa_wire_get_u16 (drop 134 payload);
                  source_known = (payload ! 139 \<noteq> 0)
              in if (phase \<noteq> PROC17_QA_RUN_V1_PHASE_STARTED
                       \<and> phase \<noteq> PROC17_QA_RUN_V1_PHASE_TERMINAL)
                    \<or> error_class < PROC17_QA_RUN_V1_ERROR_WORLD
                    \<or> error_class > PROC17_QA_RUN_V1_ERROR_AMBIGUOUS
                    \<or> code < PROC17_QA_RUN_V1_SUPERVISOR_UNAVAILABLE
                    \<or> code > PROC17_QA_RUN_V1_NAMESPACE_CLEANUP_INCOMPLETE
                    \<or> stage < PROC17_QA_RUN_V1_ERROR_PREFLIGHT
                    \<or> stage > PROC17_QA_RUN_V1_ERROR_CLEANUP
                    \<or> \<not> proc17_qa_wire_tri_state (payload ! 136)
                    \<or> \<not> proc17_qa_wire_tri_state (payload ! 137)
                    \<or> \<not> proc17_qa_wire_boolean (payload ! 138)
                    \<or> \<not> proc17_qa_wire_boolean (payload ! 139)
                    \<or> \<not> proc17_qa_wire_bytes_zero (Some (drop 140 payload)) 4
                 then False
                 else if (phase = PROC17_QA_RUN_V1_PHASE_STARTED
                            \<and> payload ! 136 = PROC17_QA_RUN_V1_TRUE)
                         \<or> (phase = PROC17_QA_RUN_V1_PHASE_TERMINAL
                              \<and> payload ! 136 \<noteq> PROC17_QA_RUN_V1_TRUE)
                 then False
                 else if payload ! 138 = 0
                         \<and> \<not> proc17_qa_wire_bytes_zero
                              (Some (drop PROC17_QA_V1_ERROR_COST_OFFSET payload)) 40
                 then False
                 else if source_known
                 then proc17_qa_wire_v1_source_stage_valid
                        (Some (drop PROC17_QA_V1_ERROR_STAGE_OFFSET payload))
                 else proc17_qa_wire_bytes_zero
                        (Some (drop PROC17_QA_V1_ERROR_STAGE_OFFSET payload))
                        PROC17_QA_SOURCE_STAGE_V1_BYTES)))"

definition proc17_qa_wire_v1_payload_valid :: "u16 \<Rightarrow> bytes ptr \<Rightarrow> u32 \<Rightarrow> bool" where
  "proc17_qa_wire_v1_payload_valid kind payload payload_bytes =
     (if kind = PROC17_QA_WIRE_RUN_REQUEST_V1
      then proc17_qa_wire_v1_request_valid payload payload_bytes
      else if kind = PROC17_QA_WIRE_RUN_STARTED_V1
      then proc17_qa_wire_v1_started_valid payload payload_bytes
      else if kind = PROC17_QA_WIRE_RUN_RESULT_V1
      then proc17_qa_wire_v1_result_valid payload payload_bytes
      else if kind = PROC17_QA_WIRE_RUN_ERROR_V1
      then proc17_qa_wire_v1_error_valid payload payload_bytes
      else False)"

definition proc17_qa_wire_encode_run_v1 ::
  "u16 \<Rightarrow> bytes ptr \<Rightarrow> bytes ptr \<Rightarrow> u32 \<Rightarrow> bytes ptr \<Rightarrow> (bytes \<times> nat) option" where
  "proc17_qa_wire_encode_run_v1 kind nonce payload payload_bytes output =
     (if \<not> proc17_qa_wire_v1_payload_valid kind payload payload_bytes then None
      else proc17_qa_wire_encode kind nonce payload payload_bytes output)"

definition proc17_qa_wire_decode_run_v1 :: "bytes ptr \<Rightarrow> nat \<Rightarrow> proc17_qa_wire_view option" where
  "proc17_qa_wire_decode_run_v1 frame frame_bytes =
     (case proc17_qa_wire_decode frame frame_bytes of
        None \<Rightarrow> None
      | Some view \<Rightarrow>
          if \<not> proc17_qa_wire_v1_payload_valid
                 (view_kind view) (Some (view_payload view)) (view_payload_bytes view)
             \<or> take PROC17_QA_WIRE_NONCE_BYTES (view_nonce view)
                 \<noteq> take PROC17_QA_WIRE_NONCE_BYTES (view_payload view)
          then None
          else Some view)"

subsection \<open>Integers written and read back\<close>

lemma length_be [simp]: "length (be16 a) = 2" "length (be32 b) = 4" "length (be64 c) = 8"
  by (simp_all add: be16_def be32_def be64_def)

lemma upt_8: "[0..<8] = [0,1,2,3,4,5,6,7]"
  by (simp add: upt_rec)

lemma get_u64_unfold: "proc17_qa_wire_get_u64 p =
  push_bit 56 (ucast (p ! 0)) OR push_bit 48 (ucast (p ! 1)) OR push_bit 40 (ucast (p ! 2))
  OR push_bit 32 (ucast (p ! 3)) OR push_bit 24 (ucast (p ! 4)) OR push_bit 16 (ucast (p ! 5))
  OR push_bit 8 (ucast (p ! 6)) OR ucast (p ! 7)"
  by (simp add: proc17_qa_wire_get_u64_def upt_8 or.assoc)

lemma be64_list: "be64 v = [ucast (drop_bit 56 v), ucast (drop_bit 48 v), ucast (drop_bit 40 v),
   ucast (drop_bit 32 v), ucast (drop_bit 24 v), ucast (drop_bit 16 v), ucast (drop_bit 8 v), ucast v]"
  by (simp add: be64_def upt_8)

lemma byte_bit_high: "8 \<le> n \<Longrightarrow> \<not> bit (b :: byte) n"
  using bit_imp_le_length [of b n] by auto

lemma bit_positions_64 [consumes 1]:
  assumes "n < 64" and
   "\<And>m. m < 8 \<Longrightarrow> P m" "\<And>m. m < 8 \<Longrightarrow> P (8 + m)" "\<And>m. m < 8 \<Longrightarrow> P (16 + m)" "\<And>m. m < 8 \<Longrightarrow> P (24 + m)"
   "\<And>m. m < 8 \<Longrightarrow> P (32 + m)" "\<And>m. m < 8 \<Longrightarrow> P (40 + m)" "\<And>m. m < 8 \<Longrightarrow> P (48 + m)" "\<And>m. m < 8 \<Longrightarrow> P (56 + m)"
  shows "P (n :: nat)"
proof -
  have k: "n div 8 \<in> set [0..<8]" and m: "n mod 8 < 8" using assms(1) by auto
  have "P (8 * (n div 8) + n mod 8)"
    using k assms(2-9) [OF m] unfolding upt_8 set_simps by (elim insertE emptyE) (simp_all del: mult_div_mod_eq)
  then show ?thesis by simp
qed

lemma get_be16: "proc17_qa_wire_get_u16 (be16 v @ r) = v"
  by (rule bit_word_eqI) (auto simp: proc17_qa_wire_get_u16_def be16_def bit_simps not_le)

lemma get_be32: "proc17_qa_wire_get_u32 (be32 v @ r) = v"
proof (rule bit_word_eqI)
  fix n assume "n < LENGTH(32)"
  then have "n < 64" "n < 32" by simp_all
  then show "bit (proc17_qa_wire_get_u32 (be32 v @ r)) n = bit v n"
    by (induction n rule: bit_positions_64)
     (auto simp: proc17_qa_wire_get_u32_def be32_def bit_simps)
qed

lemma get_be64: "proc17_qa_wire_get_u64 (be64 v @ r) = v"
proof (rule bit_word_eqI)
  fix n assume "n < LENGTH(64)"
  then have "n < 64" by simp_all
  then show "bit (proc17_qa_wire_get_u64 (be64 v @ r)) n = bit v n"
    by (induction n rule: bit_positions_64)
     (simp_all add: get_u64_unfold be64_list bit_simps)
qed

lemma be16_get: "be16 (proc17_qa_wire_get_u16 (a # b # r)) = [a, b]"
  by (simp add: be16_def proc17_qa_wire_get_u16_def) (auto intro!: bit_word_eqI simp: bit_simps byte_bit_high)
lemma be32_get: "be32 (proc17_qa_wire_get_u32 (a # b # c # d # r)) = [a, b, c, d]"
  by (simp add: be32_def proc17_qa_wire_get_u32_def) (auto intro!: bit_word_eqI simp: bit_simps byte_bit_high)
lemma be64_get: "be64 (proc17_qa_wire_get_u64 (a # b # c # d # e # f # g # h # r)) = [a, b, c, d, e, f, g, h]"
  by (simp add: be64_list get_u64_unfold) (intro conjI bit_word_eqI; simp add: bit_simps byte_bit_high)

text \<open>A read at an offset depends on the slice it covers; the slice of a written buffer is computed
  by the shared \<open>buf_simps\<close>, so \<open>simp add: codec_simps buf_simps\<close> evaluates any read from a
  buffer built by writes.\<close>

lemma get_u16_slice [codec_simps]:
  "off + 2 \<le> length p \<Longrightarrow> proc17_qa_wire_get_u16 (drop off p) = proc17_qa_wire_get_u16 (slice off 2 p)"
  by (simp add: proc17_qa_wire_get_u16_def slice_def)

lemma get_u32_slice [codec_simps]:
  "off + 4 \<le> length p \<Longrightarrow> proc17_qa_wire_get_u32 (drop off p) = proc17_qa_wire_get_u32 (slice off 4 p)"
  by (simp add: proc17_qa_wire_get_u32_def slice_def)

lemma get_u64_slice [codec_simps]:
  "off + 8 \<le> length p \<Longrightarrow> proc17_qa_wire_get_u64 (drop off p) = proc17_qa_wire_get_u64 (slice off 8 p)"
  by (simp add: get_u64_unfold slice_def)

lemmas get_of_be [codec_simps] =
  get_be16 [where r = "[]", simplified] get_be32 [where r = "[]", simplified]
  get_be64 [where r = "[]", simplified]

lemma be_of_get:
  "length p = 2 \<Longrightarrow> be16 (proc17_qa_wire_get_u16 p) = p"
  "length p = 4 \<Longrightarrow> be32 (proc17_qa_wire_get_u32 p) = p"
  "length p = 8 \<Longrightarrow> be64 (proc17_qa_wire_get_u64 p) = p"
  by (auto simp: numeral_eq_Suc length_Suc_conv be16_get be32_get be64_get)

lemma foldl_or_eq_0:
  "foldl (\<lambda>m i. m OR f i) m xs = (0 :: byte) \<longleftrightarrow> m = 0 \<and> (\<forall>i \<in> set xs. f i = 0)"
proof (induction xs arbitrary: m)
  case (Cons x xs)
  have "m OR f x = 0 \<longleftrightarrow> m = 0 \<and> f x = 0" by (rule or_eq_0_iff)
  with Cons show ?case by auto
qed simp

lemma byte_xor_eq_0: "(a :: byte) XOR b = 0 \<longleftrightarrow> a = b"
  by (auto simp: bit_eq_iff bit_xor_iff)

lemma digest_mismatch_eq:
  assumes "length expected = PROC17_SHA256_BYTES" "PROC17_SHA256_BYTES \<le> length actual"
  shows "digest_mismatch expected actual = 0 \<longleftrightarrow> expected = take PROC17_SHA256_BYTES actual"
  using assms by (auto simp: digest_mismatch_def foldl_or_eq_0 list_eq_iff_nth_eq byte_xor_eq_0)

lemma bytes_zero_slice [codec_simps]:
  "off + n \<le> length p \<Longrightarrow>
     proc17_qa_wire_bytes_zero (Some (drop off p)) n \<longleftrightarrow> slice off n p = replicate n 0"
  by (auto simp: proc17_qa_wire_bytes_zero_def bytes_combined_def foldl_or_eq_0 list_eq_iff_nth_eq
      nth_slice)

lemma bytes_zero_slice0:
  "n \<le> length p \<Longrightarrow> proc17_qa_wire_bytes_zero (Some p) n \<longleftrightarrow> slice 0 n p = replicate n 0"
  using bytes_zero_slice [of 0 n p] by simp

lemma digest_nonzero_slice [codec_simps]:
  "off + 32 \<le> length p \<Longrightarrow>
     proc17_qa_wire_digest_nonzero (Some (drop off p)) \<longleftrightarrow> slice off 32 p \<noteq> replicate 32 0"
  by (simp add: proc17_qa_wire_digest_nonzero_def bytes_zero_slice)

lemma digest_nonzero_slice0 [codec_simps]:
  "32 \<le> length p \<Longrightarrow>
     proc17_qa_wire_digest_nonzero (Some p) \<longleftrightarrow> slice 0 32 p \<noteq> replicate 32 0"
  using digest_nonzero_slice [of 0 p] by simp

subsection \<open>The envelope is an exact framing\<close>

text \<open>The layout of a frame, as one expression.\<close>

definition wire_body :: "u16 \<Rightarrow> bytes \<Rightarrow> bytes \<Rightarrow> bytes" where
  "wire_body kind nonce payload =
     wire_magic @ be16 PROC17_QA_WIRE_VERSION @ be16 kind @ be32 (of_nat (length payload)) @ nonce @ payload"

definition wire_frame :: "u16 \<Rightarrow> bytes \<Rightarrow> bytes \<Rightarrow> bytes" where
  "wire_frame kind nonce payload =
     wire_body kind nonce payload @ fips_sha256 (wire_body kind nonce payload)"

definition wire_message_ok :: "u16 \<Rightarrow> bytes \<Rightarrow> bytes \<Rightarrow> bool" where
  "wire_message_ok kind nonce payload \<longleftrightarrow>
     proc17_qa_wire_kind_known kind \<and> length nonce = PROC17_QA_WIRE_NONCE_BYTES \<and>
     length payload \<le> PROC17_QA_WIRE_MAX_FRAME_BYTES - PROC17_QA_WIRE_ENVELOPE_BYTES"

lemma length_wire_magic [simp]: "length wire_magic = 8"
  by (simp add: wire_magic_def ascii_def)

lemma length_wire_body: "length nonce = 32 \<Longrightarrow> length (wire_body kind nonce payload) = 48 + length payload"
  by (simp add: wire_body_def)

lemma length_wire_frame:
  "length nonce = 32 \<Longrightarrow> length (wire_frame kind nonce payload) = 80 + length payload"
  by (simp add: wire_frame_def length_wire_body PROC17_SHA256_BYTES_def)

lemma unat_u32_of_length: "n \<le> 4096 \<Longrightarrow> unat (of_nat n :: u32) = n"
  by (simp add: unsigned_of_nat take_bit_nat_eq_self)

lemma encode_writes_frame:
  assumes ok: "wire_message_ok kind (take 32 nonce) (take (unat n) payload)"
    and len: "unat n \<le> length payload" "length output = PROC17_QA_WIRE_MAX_FRAME_BYTES"
  shows "\<exists>out. proc17_qa_wire_encode kind (Some nonce) (Some payload) n (Some output) = Some (out, 80 + unat n)
           \<and> length out = length output
           \<and> take (80 + unat n) out = wire_frame kind (take 32 nonce) (take (unat n) payload)"
proof -
  let ?nonce = "take 32 nonce" and ?payload = "take (unat n) payload"
  have n: "unat n \<le> 4016" "length ?nonce = 32" "length ?payload = unat n" "proc17_qa_wire_kind_known kind"
    using ok len by (auto simp: wire_message_ok_def)
  define o1 where "o1 = write_at output 0 wire_magic"
  define o2 where "o2 = write_at o1 8 (be16 PROC17_QA_WIRE_VERSION)"
  define o3 where "o3 = write_at o2 10 (be16 kind)"
  define o4 where "o4 = write_at o3 12 (be32 n)"
  define o5 where "o5 = write_at o4 16 ?nonce"
  define o6 where "o6 = write_at o5 48 ?payload"
  have lens: "length o1 = 4096" "length o2 = 4096" "length o3 = 4096" "length o4 = 4096"
    "length o5 = 4096" "length o6 = 4096"
    using len by (simp_all add: o1_def o2_def o3_def o4_def o5_def o6_def)
  have "take 8 o1 = wire_magic"
    using len by (simp add: o1_def write_at_in_range)
  then have "take 10 o2 = wire_magic @ be16 0"
    using take_write_at_append [of wire_magic 8 o1 "be16 0"] lens by (simp add: o2_def)
  then have "take 12 o3 = wire_magic @ be16 0 @ be16 kind"
    using take_write_at_append [of "wire_magic @ be16 0" 10 o2 "be16 kind"] lens by (simp add: o3_def)
  then have "take 16 o4 = wire_magic @ be16 0 @ be16 kind @ be32 n"
    using take_write_at_append [of "wire_magic @ be16 0 @ be16 kind" 12 o3 "be32 n"] lens
    by (simp add: o4_def)
  then have "take 48 o5 = wire_magic @ be16 0 @ be16 kind @ be32 n @ ?nonce"
    using take_write_at_append [of "wire_magic @ be16 0 @ be16 kind @ be32 n" 16 o4 ?nonce] lens n
    by (simp add: o5_def)
  then have "take (48 + unat n) o6 = wire_magic @ be16 0 @ be16 kind @ be32 n @ ?nonce @ ?payload"
    using take_write_at_append [of "wire_magic @ be16 0 @ be16 kind @ be32 n @ ?nonce" 48 o5 ?payload]
      lens n by (simp add: o6_def)
  then have body: "take (48 + unat n) o6 = wire_body kind ?nonce ?payload"
    using n by (simp add: wire_body_def)
  let ?d = "proc17_sha256_bytes (take (48 + unat n) o6)"
  have d: "length ?d = 32" by (simp add: proc17_sha256_bytes_fips PROC17_SHA256_BYTES_def)
  have "take (80 + unat n) (write_at o6 (48 + unat n) ?d) = wire_frame kind ?nonce ?payload"
    using take_write_at_append [of "wire_body kind ?nonce ?payload" "48 + unat n" o6 ?d] lens n body d
    by (simp add: wire_frame_def proc17_sha256_bytes_fips length_wire_body add.commute)
  moreover have o6: "o6 = (if n > 0 then write_at o5 48 ?payload else o5)"
    using lens by (auto simp: o6_def write_at_def word_neq_0_conv [symmetric])
  have "proc17_qa_wire_encode kind (Some nonce) (Some payload) n (Some output)
      = Some (write_at o6 (48 + unat n) ?d, 80 + unat n)"
    using n unfolding proc17_qa_wire_encode_def o6 unfolding o1_def o2_def o3_def o4_def o5_def
    by (simp add: Let_def proc17_qa_wire_put_u16_def proc17_qa_wire_put_u32_def)
  ultimately show ?thesis using len lens by auto
qed

lemma wire_frame_slices:
  assumes "wire_message_ok kind nonce payload" "take n frame = wire_frame kind nonce payload"
    and "n \<le> length frame"
  shows "n = 80 + length payload" "take 8 frame = wire_magic" "slice 8 2 frame = be16 0"
    "slice 10 2 frame = be16 kind" "slice 12 4 frame = be32 (of_nat (length payload))"
    "slice 16 32 frame = nonce" "slice 48 (length payload) frame = payload"
    "take (48 + length payload) frame = wire_body kind nonce payload"
    "slice (48 + length payload) 32 frame = fips_sha256 (wire_body kind nonce payload)"
proof -
  have nonce: "length nonce = 32" using assms(1) by (simp add: wire_message_ok_def)
  from assms(2,3) show n: "n = 80 + length payload"
    using nonce by (metis length_take length_wire_frame min.absorb2)
  have s: "slice off m frame = slice off m (wire_frame kind nonce payload)"
    if "off + m \<le> 80 + length payload" for off m
    using that slice_take [of off m n frame] assms(2) n by simp
  note slices = wire_frame_def wire_body_def slice_append_fst slice_append_snd slice_eq_self nonce
  show "take 8 frame = wire_magic"
    using s [of 0 8] by (simp add: take_eq_slice slices)
  show "slice 8 2 frame = be16 0" "slice 10 2 frame = be16 kind"
    "slice 12 4 frame = be32 (of_nat (length payload))" "slice 16 32 frame = nonce"
    "slice 48 (length payload) frame = payload"
    using s by (simp_all add: slices)
  show "take (48 + length payload) frame = wire_body kind nonce payload"
    using s [of 0 "48 + length payload"] nonce
    by (simp add: take_eq_slice wire_frame_def slice_append_fst slice_eq_self length_wire_body)
  show "slice (48 + length payload) 32 frame = fips_sha256 (wire_body kind nonce payload)"
    using s [of "48 + length payload" 32] nonce
    by (simp add: wire_frame_def slice_append_snd slice_eq_self length_wire_body)
qed

lemma decode_complete:
  assumes ok: "wire_message_ok kind nonce payload" and frame: "take n frame = wire_frame kind nonce payload"
    and len: "n \<le> length frame"
  shows "proc17_qa_wire_decode (Some frame) n = Some
    \<lparr>view_kind = kind, view_nonce = drop 16 frame, view_payload = drop 48 frame,
     view_payload_bytes = of_nat (length payload)\<rparr>"
proof -
  note sl = wire_frame_slices [OF ok frame len]
  have pl: "length payload \<le> 4016" "proc17_qa_wire_kind_known kind"
    using ok by (simp_all add: wire_message_ok_def)
  have "digest_mismatch (fips_sha256 (wire_body kind nonce payload)) (drop (48 + length payload) frame) = 0"
    using sl(1,9) len by (subst digest_mismatch_eq) (simp_all add: slice_def)
  with sl pl len show ?thesis
    by (simp add: proc17_qa_wire_decode_def Let_def codec_simps unat_u32_of_length
        proc17_sha256_bytes_fips)
qed

lemma decode_sound:
  assumes dec: "proc17_qa_wire_decode (Some frame) n = Some v" and len: "n \<le> length frame"
  defines "k \<equiv> unat (view_payload_bytes v)"
  shows "wire_message_ok (view_kind v) (slice 16 32 frame) (slice 48 k frame)"
    "take n frame = wire_frame (view_kind v) (slice 16 32 frame) (slice 48 k frame)"
    "view_nonce v = drop 16 frame" "view_payload v = drop 48 frame" "n = 80 + k" "k \<le> 4016"
proof -
  have v: "v = \<lparr>view_kind = proc17_qa_wire_get_u16 (drop 10 frame), view_nonce = drop 16 frame,
      view_payload = drop 48 frame, view_payload_bytes = proc17_qa_wire_get_u32 (drop 12 frame)\<rparr>"
    and magic: "take 8 frame = wire_magic" and version: "proc17_qa_wire_get_u16 (drop 8 frame) = 0"
    and known: "proc17_qa_wire_kind_known (view_kind v)" and k: "k \<le> 4016" and n: "n = 80 + k"
    and mm: "digest_mismatch (fips_sha256 (take (48 + k) frame)) (drop (48 + k) frame) = 0"
    using dec unfolding k_def proc17_qa_wire_decode_def
    by (auto simp: Let_def proc17_sha256_bytes_fips split: if_splits)
  show "view_nonce v = drop 16 frame" "view_payload v = drop 48 frame" "n = 80 + k" "k \<le> 4016"
    using v n k by simp_all
  show "wire_message_ok (view_kind v) (slice 16 32 frame) (slice 48 k frame)"
    using known k n len by (simp add: wire_message_ok_def)
  have ints: "slice 8 2 frame = be16 0" "slice 10 2 frame = be16 (view_kind v)"
    "slice 12 4 frame = be32 (view_payload_bytes v)"
    using version len n be_of_get(1) [of "slice 8 2 frame"] be_of_get(1) [of "slice 10 2 frame"]
      be_of_get(2) [of "slice 12 4 frame"]
    by (simp_all add: codec_simps v)
  have "length (slice 48 k frame) = k" using len n by simp
  then have "of_nat (length (slice 48 k frame)) = view_payload_bytes v" by (simp add: k_def)
  then have body: "take (48 + k) frame = wire_body (view_kind v) (slice 16 32 frame) (slice 48 k frame)"
    using magic ints by (simp add: wire_body_def take_split [of 48 k] take_split [of 16 32 48]
        take_split [of 12 4 16] take_split [of 10 2 12] take_split [of 8 2 10])
  moreover have "slice (48 + k) 32 frame = fips_sha256 (take (48 + k) frame)"
    using mm len n by (subst (asm) digest_mismatch_eq) (simp_all add: slice_def)
  ultimately show "take n frame = wire_frame (view_kind v) (slice 16 32 frame) (slice 48 k frame)"
    using n take_split [of "48 + k" 32 n frame] by (simp add: wire_frame_def)
qed

text \<open>Sending a message in a fresh frame buffer and receiving a whole frame.\<close>

definition wire_send :: "u16 \<times> bytes \<times> bytes \<Rightarrow> bytes option" where
  "wire_send m =
     (case m of (kind, nonce, payload) \<Rightarrow>
        if length nonce = PROC17_QA_WIRE_NONCE_BYTES \<and> length payload < 2 ^ 32
        then map_option (\<lambda>(out, n). take n out)
               (proc17_qa_wire_encode kind (Some nonce) (Some payload) (of_nat (length payload))
                  (Some (replicate PROC17_QA_WIRE_MAX_FRAME_BYTES 0)))
        else None)"

definition wire_receive :: "bytes \<Rightarrow> (u16 \<times> bytes \<times> bytes) option" where
  "wire_receive frame =
     map_option (\<lambda>v. (view_kind v, take PROC17_QA_WIRE_NONCE_BYTES (view_nonce v),
                       take (unat (view_payload_bytes v)) (view_payload v)))
       (proc17_qa_wire_decode (Some frame) (length frame))"

lemma wire_send_iff:
  "wire_send (kind, nonce, payload) = Some f \<longleftrightarrow>
     wire_message_ok kind nonce payload \<and> f = wire_frame kind nonce payload"
proof (cases "wire_message_ok kind nonce payload")
  case True
  then have "length nonce = 32" "length payload \<le> 4016" by (simp_all add: wire_message_ok_def)
  then show ?thesis
    using True encode_writes_frame [of kind nonce "of_nat (length payload)" payload "replicate 4096 0"]
    by (auto simp: wire_send_def unat_u32_of_length)
next
  case False
  then show ?thesis
    by (auto simp: wire_send_def wire_message_ok_def proc17_qa_wire_encode_def Let_def unsigned_of_nat
        take_bit_nat_eq_self split: if_splits)
qed

lemma wire_receive_iff:
  "wire_receive f = Some (kind, nonce, payload) \<longleftrightarrow>
     wire_message_ok kind nonce payload \<and> f = wire_frame kind nonce payload"
proof
  assume "wire_receive f = Some (kind, nonce, payload)"
  then obtain v where v: "proc17_qa_wire_decode (Some f) (length f) = Some v" "kind = view_kind v"
      "nonce = take 32 (view_nonce v)" "payload = take (unat (view_payload_bytes v)) (view_payload v)"
    by (auto simp: wire_receive_def)
  then show "wire_message_ok kind nonce payload \<and> f = wire_frame kind nonce payload"
    using decode_sound [OF v(1)] by (simp add: slice_def)
next
  assume *: "wire_message_ok kind nonce payload \<and> f = wire_frame kind nonce payload"
  then have "take (length f) f = wire_frame kind nonce payload" by simp
  from decode_complete [OF _ this] wire_frame_slices [OF _ this, of] *
  show "wire_receive f = Some (kind, nonce, payload)"
    by (simp add: wire_receive_def slice_def wire_message_ok_def unat_u32_of_length)
qed

interpretation wire: exact_codec wire_send wire_receive
  by unfold_locales (auto simp: wire_send_iff wire_receive_iff)

text \<open>Round trip of the envelope: for a known kind, a 32-byte nonce and a payload that fits, the
  encoder succeeds on a frame buffer of the maximal size, reports the payload length plus 80 bytes,
  and the decoder run on exactly these bytes returns the same kind, nonce and payload.\<close>

theorem wire_encode_decode:
  assumes "proc17_qa_wire_kind_known kind" "length nonce = PROC17_QA_WIRE_NONCE_BYTES"
    and "unat n \<le> PROC17_QA_WIRE_MAX_FRAME_BYTES - PROC17_QA_WIRE_ENVELOPE_BYTES"
    and "unat n \<le> length payload" "length output = PROC17_QA_WIRE_MAX_FRAME_BYTES"
  shows "\<exists>out v. proc17_qa_wire_encode kind (Some nonce) (Some payload) n (Some output)
                   = Some (out, PROC17_QA_WIRE_ENVELOPE_BYTES + unat n)
           \<and> proc17_qa_wire_decode (Some out) (PROC17_QA_WIRE_ENVELOPE_BYTES + unat n) = Some v
           \<and> view_kind v = kind \<and> take PROC17_QA_WIRE_NONCE_BYTES (view_nonce v) = nonce
           \<and> view_payload_bytes v = n \<and> take (unat n) (view_payload v) = take (unat n) payload"
proof -
  have ok: "wire_message_ok kind nonce (take (unat n) payload)" and "take 32 nonce = nonce"
    using assms by (simp_all add: wire_message_ok_def)
  with encode_writes_frame [of kind nonce n payload "output"] assms(4,5)
  obtain out where enc: "proc17_qa_wire_encode kind (Some nonce) (Some payload) n (Some output)
      = Some (out, 80 + unat n)" and out: "length out = 4096"
    and frame: "take (80 + unat n) out = wire_frame kind nonce (take (unat n) payload)"
    by auto
  have len: "80 + unat n \<le> length out" using assms(3) out by simp
  show ?thesis
    using enc decode_complete [OF ok frame len] wire_frame_slices [OF ok frame len] assms(4)
    by (simp add: slice_def min_def)
qed

theorem wire_encode_decode_witness:
  "\<exists>out v. proc17_qa_wire_encode PROC17_QA_WIRE_PROBE_REQUEST (Some (replicate 32 7)) (Some [1, 2, 3]) 3
             (Some (replicate 4096 0)) = Some (out, PROC17_QA_WIRE_ENVELOPE_BYTES + unat (3 :: u32))
     \<and> proc17_qa_wire_decode (Some out) (PROC17_QA_WIRE_ENVELOPE_BYTES + unat (3 :: u32)) = Some v
     \<and> view_kind v = PROC17_QA_WIRE_PROBE_REQUEST
     \<and> take PROC17_QA_WIRE_NONCE_BYTES (view_nonce v) = replicate 32 7
     \<and> view_payload_bytes v = 3 \<and> take (unat (3 :: u32)) (view_payload v) = take (unat (3 :: u32)) [1, 2, 3]"
  by (rule wire_encode_decode) (simp_all add: proc17_qa_wire_kind_known_def)

text \<open>C38. The decoder accepts exactly the frames of the layout: it returns a view if and only if the
  first \<open>n\<close> bytes are magic, version, kind, length, nonce, payload and the SHA-256 of all of these,
  for a known kind and a payload of at most 4016 bytes, and the view names that kind and the
  positions of nonce and payload in the frame.  In particular no byte of an accepted frame can be
  changed without the trailer matching the digest of the changed body.\<close>

theorem wire_decode_exact:
  assumes "n \<le> length frame"
  shows "proc17_qa_wire_decode (Some frame) n = Some v \<longleftrightarrow>
     (let k = unat (view_payload_bytes v) in
        wire_message_ok (view_kind v) (slice 16 32 frame) (slice 48 k frame)
        \<and> n = PROC17_QA_WIRE_ENVELOPE_BYTES + k
        \<and> take n frame = wire_frame (view_kind v) (slice 16 32 frame) (slice 48 k frame)
        \<and> view_nonce v = drop 16 frame \<and> view_payload v = drop 48 frame)"
proof
  assume "proc17_qa_wire_decode (Some frame) n = Some v"
  from decode_sound [OF this assms] show "let k = unat (view_payload_bytes v) in
        wire_message_ok (view_kind v) (slice 16 32 frame) (slice 48 k frame)
        \<and> n = PROC17_QA_WIRE_ENVELOPE_BYTES + k
        \<and> take n frame = wire_frame (view_kind v) (slice 16 32 frame) (slice 48 k frame)
        \<and> view_nonce v = drop 16 frame \<and> view_payload v = drop 48 frame"
    by (simp add: Let_def)
next
  let ?k = "unat (view_payload_bytes v)"
  assume *: "let k = unat (view_payload_bytes v) in
        wire_message_ok (view_kind v) (slice 16 32 frame) (slice 48 k frame)
        \<and> n = PROC17_QA_WIRE_ENVELOPE_BYTES + k
        \<and> take n frame = wire_frame (view_kind v) (slice 16 32 frame) (slice 48 k frame)
        \<and> view_nonce v = drop 16 frame \<and> view_payload v = drop 48 frame"
  then have "length (slice 48 ?k frame) = ?k" using assms by (simp add: Let_def)
  then have "of_nat (length (slice 48 ?k frame)) = view_payload_bytes v" by simp
  with * decode_complete [of "view_kind v" "slice 16 32 frame" "slice 48 ?k frame" n frame] assms
  show "proc17_qa_wire_decode (Some frame) n = Some v" by (cases v) (auto simp: Let_def)
qed

theorem wire_decode_exact_witness:
  "proc17_qa_wire_decode (Some (replicate 80 0)) 80 \<noteq> Some
     \<lparr>view_kind = 1, view_nonce = replicate 64 0, view_payload = replicate 32 0, view_payload_bytes = 0\<rparr>"
  using wire_decode_exact [of 80 "replicate 80 0" "\<lparr>view_kind = 1, view_nonce = replicate 64 0,
      view_payload = replicate 32 0, view_payload_bytes = 0\<rparr>"]
  by (simp add: Let_def wire_frame_def wire_body_def wire_magic_def ascii_def)
     (simp add: list_eq_iff_nth_eq exI [of _ 0] nth_append)

subsection \<open>A validator reads nothing beyond its payload\<close>

definition agree :: "nat \<Rightarrow> bytes \<Rightarrow> bytes \<Rightarrow> bool" where
  "agree n p q \<longleftrightarrow> n \<le> length p \<and> n \<le> length q \<and> take n p = take n q"

lemma agree_nth: "agree n p q \<Longrightarrow> i < n \<Longrightarrow> p ! i = q ! i"
  by (metis agree_def nth_take)

lemma agree_slice: "agree n p q \<Longrightarrow> off + m \<le> n \<Longrightarrow> slice off m p = slice off m q"
  using slice_take [of off m n p] slice_take [of off m n q] by (simp add: agree_def)

lemma agree_drop: "agree n p q \<Longrightarrow> off + m \<le> n \<Longrightarrow> agree m (drop off p) (drop off q)"
  using agree_slice [of n p q off m] by (auto simp: agree_def slice_def)

lemma agree_lengths: "agree n p q \<Longrightarrow> n \<le> length p" "agree n p q \<Longrightarrow> n \<le> length q"
  by (simp_all add: agree_def)

lemma agree_reads:
  assumes "agree n p q"
  shows "off + 2 \<le> n \<Longrightarrow> proc17_qa_wire_get_u16 (drop off p) = proc17_qa_wire_get_u16 (drop off q)"
    and "off + 4 \<le> n \<Longrightarrow> proc17_qa_wire_get_u32 (drop off p) = proc17_qa_wire_get_u32 (drop off q)"
    and "off + 8 \<le> n \<Longrightarrow> proc17_qa_wire_get_u64 (drop off p) = proc17_qa_wire_get_u64 (drop off q)"
    and "2 \<le> n \<Longrightarrow> proc17_qa_wire_get_u16 p = proc17_qa_wire_get_u16 q"
    and "8 \<le> n \<Longrightarrow> proc17_qa_wire_get_u64 p = proc17_qa_wire_get_u64 q"
    and "off + m \<le> n \<Longrightarrow> proc17_qa_wire_bytes_zero (Some (drop off p)) m
                            = proc17_qa_wire_bytes_zero (Some (drop off q)) m"
    and "off + 32 \<le> n \<Longrightarrow> proc17_qa_wire_digest_nonzero (Some (drop off p))
                            = proc17_qa_wire_digest_nonzero (Some (drop off q))"
    and "32 \<le> n \<Longrightarrow> proc17_qa_wire_digest_nonzero (Some p) = proc17_qa_wire_digest_nonzero (Some q)"
  using assms agree_slice [OF assms] agree_lengths [OF assms] agree_nth [OF assms]
  by (auto simp: codec_simps proc17_qa_wire_get_u16_def get_u64_unfold)

lemma agree_stage_valid:
  assumes h: "agree 84 p q"
  shows "proc17_qa_wire_v1_source_stage_valid (Some p) = proc17_qa_wire_v1_source_stage_valid (Some q)"
  unfolding proc17_qa_wire_v1_source_stage_valid_def
  by (simp add: agree_reads(1-4) [OF h] agree_nth [OF h])

lemma agree_stream_valid:
  assumes h: "agree 64 p q"
  shows "proc17_qa_wire_v1_stream_valid (Some p) = proc17_qa_wire_v1_stream_valid (Some q)"
  unfolding proc17_qa_wire_v1_stream_valid_def by (simp add: agree_reads [OF h] agree_nth [OF h])

lemma agree_resource_valid:
  assumes h: "agree 88 p q"
  shows "proc17_qa_wire_v1_resource_valid (Some p) = proc17_qa_wire_v1_resource_valid (Some q)"
  unfolding proc17_qa_wire_v1_resource_valid_def by (simp add: agree_reads [OF h] agree_nth [OF h])

lemma agree_scratch_valid:
  assumes h: "agree 40 p q"
  shows "proc17_qa_wire_v1_scratch_valid (Some p) = proc17_qa_wire_v1_scratch_valid (Some q)"
  unfolding proc17_qa_wire_v1_scratch_valid_def by (simp add: agree_reads [OF h] agree_nth [OF h])

lemma agree_identity_valid:
  assumes h: "agree n p q" and "128 \<le> n"
  shows "proc17_qa_wire_v1_identity_valid (Some p) = proc17_qa_wire_v1_identity_valid (Some q)"
  using assms(2) unfolding proc17_qa_wire_v1_identity_valid_def by (simp add: agree_reads [OF h])

lemma agree_request_valid:
  assumes h: "agree (unat n) p q"
  shows "proc17_qa_wire_v1_request_valid (Some p) n = proc17_qa_wire_v1_request_valid (Some q) n"
proof (cases "unat n < 238")
  case False
  then have reads: "proc17_qa_wire_get_u16 (drop 236 p) = proc17_qa_wire_get_u16 (drop 236 q)"
    "proc17_qa_wire_get_u32 (drop 232 p) = proc17_qa_wire_get_u32 (drop 232 q)"
    by (simp_all add: agree_reads [OF h])
  have "take m (drop 238 p) = take m (drop 238 q)" if "unat n = 238 + m" for m
    using agree_slice [OF h, of 238 m] that by (simp add: slice_def)
  then show ?thesis
    using False reads agree_identity_valid [OF h]
    by (simp add: proc17_qa_wire_v1_request_valid_def Let_def cong: conj_cong)
qed (simp add: proc17_qa_wire_v1_request_valid_def)

lemma agree_started_valid:
  assumes h: "agree (unat n) p q"
  shows "proc17_qa_wire_v1_started_valid (Some p) n = proc17_qa_wire_v1_started_valid (Some q) n"
proof (cases "unat n = 252")
  case True
  then show ?thesis
    unfolding proc17_qa_wire_v1_started_valid_def
    using agree_stage_valid [OF agree_drop [OF h, of 168 84]]
    by (simp add: agree_reads [OF h] agree_nth [OF h] agree_identity_valid [OF h])
qed (simp add: proc17_qa_wire_v1_started_valid_def)

lemma agree_result_valid:
  assumes h: "agree (unat n) p q"
  shows "proc17_qa_wire_v1_result_valid (Some p) n = proc17_qa_wire_v1_result_valid (Some q) n"
proof (cases "unat n = 512")
  case True
  then have "list_ex (\<lambda>i. p ! (164 + i) \<noteq> 1) [0..<8] = list_ex (\<lambda>i. q ! (164 + i) \<noteq> 1) [0..<8]"
    by (auto simp: list_ex_iff agree_nth [OF h])
  with True show ?thesis
    unfolding proc17_qa_wire_v1_result_valid_def
    using agree_stream_valid [OF agree_drop [OF h, of 172 64]]
      agree_stream_valid [OF agree_drop [OF h, of 236 64]]
      agree_resource_valid [OF agree_drop [OF h, of 300 88]]
      agree_scratch_valid [OF agree_drop [OF h, of 388 40]]
      agree_stage_valid [OF agree_drop [OF h, of 428 84]]
    by (simp add: agree_reads [OF h] agree_identity_valid [OF h])
qed (simp add: proc17_qa_wire_v1_result_valid_def)

lemma agree_error_valid:
  assumes h: "agree (unat n) p q"
  shows "proc17_qa_wire_v1_error_valid (Some p) n = proc17_qa_wire_v1_error_valid (Some q) n"
proof (cases "unat n = 268")
  case True
  then have eqs: "proc17_qa_wire_get_u16 (drop 128 p) = proc17_qa_wire_get_u16 (drop 128 q)"
    "proc17_qa_wire_get_u16 (drop 130 p) = proc17_qa_wire_get_u16 (drop 130 q)"
    "proc17_qa_wire_get_u16 (drop 132 p) = proc17_qa_wire_get_u16 (drop 132 q)"
    "proc17_qa_wire_get_u16 (drop 134 p) = proc17_qa_wire_get_u16 (drop 134 q)"
    "p ! 136 = q ! 136" "p ! 137 = q ! 137" "p ! 138 = q ! 138" "p ! 139 = q ! 139"
    "proc17_qa_wire_bytes_zero (Some (drop 140 p)) 4 = proc17_qa_wire_bytes_zero (Some (drop 140 q)) 4"
    "proc17_qa_wire_bytes_zero (Some (drop 144 p)) 40 = proc17_qa_wire_bytes_zero (Some (drop 144 q)) 40"
    "proc17_qa_wire_bytes_zero (Some (drop 184 p)) 84 = proc17_qa_wire_bytes_zero (Some (drop 184 q)) 84"
    "proc17_qa_wire_v1_identity_valid (Some p) = proc17_qa_wire_v1_identity_valid (Some q)"
    "proc17_qa_wire_v1_source_stage_valid (Some (drop 184 p))
       = proc17_qa_wire_v1_source_stage_valid (Some (drop 184 q))"
    by (simp_all add: agree_reads [OF h] agree_nth [OF h] agree_identity_valid [OF h]
        agree_stage_valid [OF agree_drop [OF h]])
  show ?thesis
    unfolding proc17_qa_wire_v1_error_valid_def PROC17_QA_V1_PHASE_OFFSET_def
      PROC17_QA_V1_ERROR_COST_OFFSET_def PROC17_QA_V1_ERROR_STAGE_OFFSET_def
      PROC17_QA_SOURCE_STAGE_V1_BYTES_def
    by (simp only: option.case eqs)
qed (simp add: proc17_qa_wire_v1_error_valid_def)

lemma agree_payload_valid:
  "agree (unat n) p q \<Longrightarrow>
     proc17_qa_wire_v1_payload_valid kind (Some p) n = proc17_qa_wire_v1_payload_valid kind (Some q) n"
  by (simp add: proc17_qa_wire_v1_payload_valid_def agree_request_valid agree_started_valid
      agree_result_valid agree_error_valid)

subsection \<open>Run frames\<close>

lemma payload_valid_kind:
  "proc17_qa_wire_v1_payload_valid kind p n \<Longrightarrow>
     kind \<in> {PROC17_QA_WIRE_RUN_REQUEST_V1, PROC17_QA_WIRE_RUN_STARTED_V1,
             PROC17_QA_WIRE_RUN_RESULT_V1, PROC17_QA_WIRE_RUN_ERROR_V1}"
  by (auto simp: proc17_qa_wire_v1_payload_valid_def split: if_splits)

lemma payload_valid_known:
  "proc17_qa_wire_v1_payload_valid kind p n \<Longrightarrow> proc17_qa_wire_kind_known kind"
  using payload_valid_kind [of kind p n] by (auto simp: proc17_qa_wire_kind_known_def)

lemma payload_valid_bounds:
  "proc17_qa_wire_v1_payload_valid kind (Some p) n \<Longrightarrow> 238 \<le> unat n \<and> unat n \<le> 1262"
  by (auto simp: proc17_qa_wire_v1_payload_valid_def proc17_qa_wire_v1_request_valid_def
      proc17_qa_wire_v1_started_valid_def proc17_qa_wire_v1_result_valid_def
      proc17_qa_wire_v1_error_valid_def Let_def word_le_nat_alt split: if_splits)

lemma payload_valid_identity:
  "proc17_qa_wire_v1_payload_valid kind (Some p) n \<Longrightarrow> proc17_qa_wire_v1_identity_valid (Some p)"
  by (auto simp: proc17_qa_wire_v1_payload_valid_def proc17_qa_wire_v1_request_valid_def
      proc17_qa_wire_v1_started_valid_def proc17_qa_wire_v1_result_valid_def
      proc17_qa_wire_v1_error_valid_def Let_def split: if_splits)

lemma identity_valid_nonzero:
  "proc17_qa_wire_v1_identity_valid (Some p) \<Longrightarrow> 128 \<le> length p \<Longrightarrow> slice 0 32 p \<noteq> replicate 32 0"
  by (simp add: proc17_qa_wire_v1_identity_valid_def codec_simps)

text \<open>A valid payload sent under its own transaction digest is accepted by the receiver.\<close>

lemma run_v1_encode_decode:
  assumes pv: "proc17_qa_wire_v1_payload_valid kind (Some payload) n" and len: "unat n \<le> length payload"
    and out: "length output = PROC17_QA_WIRE_MAX_FRAME_BYTES"
  obtains out v where
    "proc17_qa_wire_encode_run_v1 kind (Some (take 32 payload)) (Some payload) n (Some output)
       = Some (out, 80 + unat n)"
    "length out = PROC17_QA_WIRE_MAX_FRAME_BYTES"
    "take (80 + unat n) out = wire_frame kind (take 32 payload) (take (unat n) payload)"
    "proc17_qa_wire_decode_run_v1 (Some out) (80 + unat n) = Some v"
    "view_kind v = kind" "view_payload_bytes v = n" "agree (unat n) (view_payload v) payload"
proof -
  have b: "238 \<le> unat n" "unat n \<le> 1262" using payload_valid_bounds [OF pv] by auto
  have ok: "wire_message_ok kind (take 32 payload) (take (unat n) payload)"
    using b len payload_valid_known [OF pv] by (simp add: wire_message_ok_def)
  from encode_writes_frame [of kind "take 32 payload" n payload "output"] ok len out
  obtain out where enc: "proc17_qa_wire_encode kind (Some (take 32 payload)) (Some payload) n (Some output)
      = Some (out, 80 + unat n)" and lo: "length out = 4096"
    and fr: "take (80 + unat n) out = wire_frame kind (take 32 payload) (take (unat n) payload)"
    by auto
  have ln: "80 + unat n \<le> length out" using b lo by simp
  note sl = wire_frame_slices [OF ok fr ln]
  have n: "length (take (unat n) payload) = unat n" using len by simp
  have ag: "agree (unat n) (drop 48 out) payload"
    using sl(7) ln len unfolding n by (simp add: agree_def slice_def)
  let ?v = "\<lparr>view_kind = kind, view_nonce = drop 16 out, view_payload = drop 48 out, view_payload_bytes = n\<rparr>"
  have dec: "proc17_qa_wire_decode (Some out) (80 + unat n) = Some ?v"
    using decode_complete [OF ok fr ln] len by (simp add: min_def)
  have "take 32 (drop 48 out) = take 32 payload"
    using agree_slice [OF ag, of 0 32] b by (simp add: slice_def)
  then have "proc17_qa_wire_decode_run_v1 (Some out) (80 + unat n) = Some ?v"
    using dec pv agree_payload_valid [OF ag] sl(6)
    by (simp add: proc17_qa_wire_decode_run_v1_def slice_def)
  moreover have "proc17_qa_wire_encode_run_v1 kind (Some (take 32 payload)) (Some payload) n (Some output)
      = Some (out, 80 + unat n)"
    using enc pv by (simp add: proc17_qa_wire_encode_run_v1_def)
  ultimately show ?thesis using that [of out ?v] lo fr ag by simp
qed

text \<open>C34. A run frame the receiver accepts is one of the four run-v1 kinds with a payload its
  validator accepts, is bound to one transaction (the nonce of the envelope is the nonzero
  transaction digest that opens the payload), and is the only accepted frame for that message:
  re-encoding kind, nonce and payload reproduces it byte for byte.\<close>

theorem run_v1_decode_sound:
  assumes dec: "proc17_qa_wire_decode_run_v1 (Some frame) n = Some v" and len: "n \<le> length frame"
    and out: "length output = PROC17_QA_WIRE_MAX_FRAME_BYTES"
  shows "view_kind v \<in> {PROC17_QA_WIRE_RUN_REQUEST_V1, PROC17_QA_WIRE_RUN_STARTED_V1,
                        PROC17_QA_WIRE_RUN_RESULT_V1, PROC17_QA_WIRE_RUN_ERROR_V1}
    \<and> proc17_qa_wire_v1_payload_valid (view_kind v) (Some (view_payload v)) (view_payload_bytes v)
    \<and> slice 16 32 frame = slice 48 32 frame \<and> slice 16 32 frame \<noteq> replicate 32 0
    \<and> (\<exists>out. proc17_qa_wire_encode_run_v1 (view_kind v) (Some (view_nonce v)) (Some (view_payload v))
               (view_payload_bytes v) (Some output) = Some (out, n) \<and> take n out = take n frame)"
proof -
  from dec have d: "proc17_qa_wire_decode (Some frame) n = Some v"
    and pv: "proc17_qa_wire_v1_payload_valid (view_kind v) (Some (view_payload v)) (view_payload_bytes v)"
    and nonce: "take 32 (view_nonce v) = take 32 (view_payload v)"
    by (auto simp: proc17_qa_wire_decode_run_v1_def split: option.splits if_splits)
  note s = decode_sound [OF d len]
  let ?k = "unat (view_payload_bytes v)"
  have eq: "slice 16 32 frame = slice 48 32 frame"
    using nonce s(3,4) by (simp add: slice_def)
  have "238 \<le> ?k" using payload_valid_bounds [OF pv] by simp
  then have "slice 48 32 frame \<noteq> replicate 32 0"
    using identity_valid_nonzero [OF payload_valid_identity [OF pv]] s(4,5) len by simp
  moreover have "?k \<le> length (view_payload v)" using s(4,5) len by simp
  then have "\<exists>out. proc17_qa_wire_encode (view_kind v) (Some (view_nonce v)) (Some (view_payload v))
      (view_payload_bytes v) (Some output) = Some (out, n) \<and> take n out = take n frame"
    using encode_writes_frame [of "view_kind v" "view_nonce v" "view_payload_bytes v" "view_payload v" "output"]
      s len out by (auto simp: slice_def)
  ultimately show ?thesis
    using payload_valid_kind [OF pv] pv eq by (simp add: proc17_qa_wire_encode_run_v1_def)
qed

definition sample_request :: bytes where
  "sample_request = replicate 128 1 @ replicate 104 0 @ [0, 0, 0, 0, 0, 1, 97]"

lemma sample_request_valid:
  "proc17_qa_wire_v1_payload_valid PROC17_QA_WIRE_RUN_REQUEST_V1 (Some sample_request) 239"
proof -
  have len: "length sample_request = 239" by (simp add: sample_request_def)
  have "slice off 32 sample_request = replicate 32 1" if "off + 32 \<le> 128" for off
    unfolding sample_request_def using that by (subst slice_append_fst) (simp_all add: slice_replicate)
  then have identity: "proc17_qa_wire_v1_identity_valid (Some sample_request)"
    by (simp add: proc17_qa_wire_v1_identity_valid_def codec_simps len)
  have tail: "drop 236 sample_request = [0, 1, 97]" "drop 238 sample_request = [97]"
    "drop 232 sample_request = [0, 0, 0, 0, 0, 1, 97]"
    by (simp_all add: sample_request_def)
  have ints: "proc17_qa_wire_get_u16 [0, 1, 97] = 1" "proc17_qa_wire_get_u32 [0, 0, 0, 0, 0, 1, 97] = 0"
    by (simp_all add: proc17_qa_wire_get_u16_def proc17_qa_wire_get_u32_def)
  show ?thesis
    by (simp add: proc17_qa_wire_v1_payload_valid_def proc17_qa_wire_v1_request_valid_def identity tail ints)
qed

theorem run_v1_decode_sound_witness:
  "\<exists>frame v. proc17_qa_wire_decode_run_v1 (Some frame) 319 = Some v
     \<and> view_kind v = PROC17_QA_WIRE_RUN_REQUEST_V1
     \<and> slice 16 32 frame = slice 48 32 frame \<and> slice 16 32 frame \<noteq> replicate 32 0"
proof -
  obtain frame v where "length frame = 4096"
    "proc17_qa_wire_decode_run_v1 (Some frame) 319 = Some v" "view_kind v = PROC17_QA_WIRE_RUN_REQUEST_V1"
    by (rule run_v1_encode_decode [OF sample_request_valid, of "replicate 4096 0"])
      (simp_all add: sample_request_def)
  then show ?thesis
    using run_v1_decode_sound [of frame 319 v "replicate 4096 0"] by auto
qed

end
