(* ===== verification/Qa_Phase.thy ===== *)
theory Qa_Phase
  imports Qa_Wire
begin

text \<open>
  Phase attestation (\<open>native/proc17_qa_phase.c\<close>): the controller's phase state (attestation,
  authorisation, first cause, finality mask) and the one-shot writer of the STARTED frame.

  A state a function updates through a pointer is an argument and part of the result; the
  callers pass the address of a live object, so the model has no null case for it.  An \<open>int\<close>
  result is the C return value.
\<close>

datatype proc17_qa_phase_finality =
  FINAL_SOURCE_STAGED | FINAL_CANDIDATE_STARTED | FINAL_CANDIDATE_TERMINAL
| FINAL_PROCESS_TREE_REAPED | FINAL_STDOUT_EOF | FINAL_STDERR_EOF | FINAL_SCRATCH_OBSERVED
| FINAL_NAMESPACE_CLEAN

fun finality_member :: "proc17_qa_phase_finality \<Rightarrow> int" where
  "finality_member FINAL_SOURCE_STAGED = 0"
| "finality_member FINAL_CANDIDATE_STARTED = 1"
| "finality_member FINAL_CANDIDATE_TERMINAL = 2"
| "finality_member FINAL_PROCESS_TREE_REAPED = 3"
| "finality_member FINAL_STDOUT_EOF = 4"
| "finality_member FINAL_STDERR_EOF = 5"
| "finality_member FINAL_SCRATCH_OBSERVED = 6"
| "finality_member FINAL_NAMESPACE_CLEAN = 7"

definition PROC17_QA_FINALITY_COUNT :: int where [simp]: "PROC17_QA_FINALITY_COUNT = 8"

definition PROC17_QA_CAUSE_INVALID :: int where [simp]: "PROC17_QA_CAUSE_INVALID = - 1"
definition PROC17_QA_CAUSE_ALREADY_SET :: int where [simp]: "PROC17_QA_CAUSE_ALREADY_SET = 0"
definition PROC17_QA_CAUSE_SET :: int where [simp]: "PROC17_QA_CAUSE_SET = 1"

record proc17_qa_phase_identity =
  id_transaction :: bytes
  id_witness :: bytes
  id_profile :: bytes
  id_environment :: bytes

record proc17_qa_first_cause =
  cause_kind :: u16
  cause_monotonic_sequence :: u64
  cause_observed_value :: u64

record proc17_qa_phase_state =
  next_sequence :: u64
  first_cause :: proc17_qa_first_cause
  finality_mask :: u16
  started_attested :: byte
  candidate_release_authorized :: byte

record proc17_qa_started_writer_state =
  started_emitted :: byte
  result_descriptor_closed :: byte

definition PROC17_QA_FINALITY_MASK :: u16 where
  "PROC17_QA_FINALITY_MASK = push_bit (nat PROC17_QA_FINALITY_COUNT) 1 - 1"

definition PROC17_QA_CONTROLLER_FINALITY_MASK :: u16 where
  "PROC17_QA_CONTROLLER_FINALITY_MASK = push_bit (nat (finality_member FINAL_NAMESPACE_CLEAN)) 1 - 1"

text \<open>Closing the descriptor the function owns: the new value of the descriptor and the
  descriptors handed to \<open>close\<close>, whose result the code ignores.\<close>

definition close_owned_descriptor :: "int ptr \<Rightarrow> int ptr \<times> int list" where
  "close_owned_descriptor descriptor =
     (case descriptor of
        None \<Rightarrow> (None, [])
      | Some fd \<Rightarrow> if fd \<ge> 0 then (Some (- 1), [fd]) else (Some fd, []))"

definition no_cause :: proc17_qa_first_cause where
  "no_cause = \<lparr>cause_kind = 0, cause_monotonic_sequence = 0, cause_observed_value = 0\<rparr>"

definition proc17_qa_phase_init :: proc17_qa_phase_state where
  "proc17_qa_phase_init =
     \<lparr>next_sequence = 0, first_cause = no_cause, finality_mask = 0, started_attested = 0,
      candidate_release_authorized = 0\<rparr>"

definition proc17_qa_started_writer_init :: proc17_qa_started_writer_state where
  "proc17_qa_started_writer_init = \<lparr>started_emitted = 0, result_descriptor_closed = 0\<rparr>"

definition proc17_qa_phase_identity_valid :: "proc17_qa_phase_identity ptr \<Rightarrow> bool" where
  "proc17_qa_phase_identity_valid identity =
     (case identity of
        None \<Rightarrow> False
      | Some i \<Rightarrow>
          proc17_qa_wire_digest_nonzero (Some (id_transaction i))
          \<and> proc17_qa_wire_digest_nonzero (Some (id_witness i))
          \<and> proc17_qa_wire_digest_nonzero (Some (id_profile i))
          \<and> proc17_qa_wire_digest_nonzero (Some (id_environment i)))"

text \<open>The bytes of the structure: four digests of 32 bytes each, without padding.\<close>

definition identity_bytes :: "proc17_qa_phase_identity \<Rightarrow> bytes" where
  "identity_bytes i = id_transaction i @ id_witness i @ id_profile i @ id_environment i"

text \<open>\<open>getrandom\<close> answers with the bytes it stored or fails; the inner \<open>None\<close> is the return \<open>-1\<close>,
  the outer one a call that has not returned.\<close>

definition proc17_qa_phase_make_process_token ::
  "proc17_qa_phase_identity ptr \<Rightarrow> bytes sys list \<Rightarrow> bytes option option" where
  "proc17_qa_phase_make_process_token identity getrandom_replies =
     (case identity of
        None \<Rightarrow> Some None
      | Some i \<Rightarrow>
          if \<not> proc17_qa_phase_identity_valid (Some i) then Some None
          else
            (case retry_eintr getrandom_replies of
               None \<Rightarrow> None
             | Some (Sys_err _, _) \<Rightarrow> Some None
             | Some (Sys_ok entropy, _) \<Rightarrow>
                 if length entropy \<noteq> PROC17_QA_WIRE_DIGEST_BYTES then Some None
                 else
                   (let hash0 = proc17_sha256_init;
                        hash1 = proc17_sha256_update hash0 entropy;
                        hash2 = proc17_sha256_update hash1 (identity_bytes i);
                        digest = snd (proc17_sha256_final hash2)
                    in if proc17_qa_wire_digest_nonzero (Some digest) then Some (Some digest)
                       else Some None)))"

definition proc17_qa_phase_mark_finality ::
  "proc17_qa_phase_state \<Rightarrow> int \<Rightarrow> int \<times> proc17_qa_phase_state" where
  "proc17_qa_phase_mark_finality state member =
     (if member < 0 \<or> member \<ge> PROC17_QA_FINALITY_COUNT then (- 1, state)
      else
        (let one_bit = push_bit (nat member) 1
         in (0, state\<lparr>finality_mask := finality_mask state OR one_bit\<rparr>)))"

text \<open>The payload of the STARTED frame.\<close>

definition started_payload :: "proc17_qa_phase_identity \<Rightarrow> bytes \<Rightarrow> bytes \<Rightarrow> bytes" where
  "started_payload i process_token source_stage =
     (let p0 = replicate PROC17_QA_RUN_STARTED_V1_BYTES 0;
          p1 = write_at p0 0 (take PROC17_QA_V1_IDENTITY_BYTES (identity_bytes i));
          p2 = proc17_qa_wire_put_u16 p1 PROC17_QA_V1_PHASE_OFFSET PROC17_QA_RUN_V1_PHASE_STARTED;
          p3 = proc17_qa_wire_put_u16 p2 130 1;
          p4 = write_at p3 132 [1];
          p5 = write_at p4 133 [PROC17_QA_RUN_V1_PREPARED_UNDER_POLICY];
          p6 = write_at p5 136 (take PROC17_QA_WIRE_DIGEST_BYTES process_token)
      in write_at p6 PROC17_QA_V1_STARTED_STAGE_OFFSET
           (take PROC17_QA_SOURCE_STAGE_V1_BYTES source_stage))"

definition PIPE_BUF :: nat where
  [simp]: "PIPE_BUF = 4096"

text \<open>What an emission did: the return value, the writer state, the owned descriptor, the bytes
  handed to \<open>write\<close> and the descriptors handed to \<open>close\<close>.  \<open>frame0\<close> is the uninitialised stack
  buffer; \<open>write_reply\<close> and \<open>close_reply\<close> are the answers of the kernel.\<close>

record emit_outcome =
  emit_result :: int
  emit_state :: proc17_qa_started_writer_state
  emit_descriptor :: "int ptr"
  emit_written :: "bytes option"
  emit_closed :: "int list"

definition emit_failed ::
  "proc17_qa_started_writer_state \<Rightarrow> int ptr \<Rightarrow> bytes option \<Rightarrow> emit_outcome" where
  "emit_failed state descriptor written =
     \<lparr>emit_result = - 1, emit_state = state,
      emit_descriptor = fst (close_owned_descriptor descriptor), emit_written = written,
      emit_closed = snd (close_owned_descriptor descriptor)\<rparr>"

definition proc17_qa_phase_emit_started_and_close ::
  "proc17_qa_started_writer_state \<Rightarrow> int ptr \<Rightarrow> proc17_qa_phase_identity ptr \<Rightarrow> bytes ptr
   \<Rightarrow> bytes ptr \<Rightarrow> bytes \<Rightarrow> int \<Rightarrow> int \<Rightarrow> emit_outcome" where
  "proc17_qa_phase_emit_started_and_close state result_descriptor identity process_token source_stage
     frame0 write_reply close_reply =
     (case (result_descriptor, identity, process_token, source_stage) of
        (Some fd, Some i, Some token, Some stage) \<Rightarrow>
          if fd < 0 \<or> started_emitted state \<noteq> 0
             \<or> \<not> proc17_qa_phase_identity_valid (Some i)
             \<or> \<not> proc17_qa_wire_digest_nonzero (Some token)
             \<or> \<not> proc17_qa_wire_v1_source_stage_valid (Some stage)
          then emit_failed state (Some fd) None
          else
            (case proc17_qa_wire_encode_run_v1 PROC17_QA_WIRE_RUN_STARTED_V1
                    (Some (id_transaction i)) (Some (started_payload i token stage))
                    (of_nat PROC17_QA_RUN_STARTED_V1_BYTES) (Some frame0) of
               None \<Rightarrow> emit_failed state (Some fd) None
             | Some (frame, frame_bytes) \<Rightarrow>
                 if frame_bytes > PIPE_BUF then emit_failed state (Some fd) None
                 else if write_reply \<noteq> int frame_bytes
                 then emit_failed state (Some fd) (Some (take frame_bytes frame))
                 else
                   \<lparr>emit_result = (if close_reply \<noteq> 0 then - 1 else 0),
                    emit_state =
                      (let emitted = state\<lparr>started_emitted := 1\<rparr>
                       in if close_reply \<noteq> 0 then emitted
                          else emitted\<lparr>result_descriptor_closed := 1\<rparr>),
                    emit_descriptor = Some (- 1),
                    emit_written = Some (take frame_bytes frame),
                    emit_closed = [fd]\<rparr>)
      | _ \<Rightarrow> emit_failed state result_descriptor None)"

definition proc17_qa_phase_observe_started_ready ::
  "proc17_qa_phase_state \<Rightarrow> int \<times> proc17_qa_phase_state" where
  "proc17_qa_phase_observe_started_ready state =
     (if started_attested state \<noteq> 0 \<or> candidate_release_authorized state \<noteq> 0
         \<or> cause_kind (first_cause state) \<noteq> 0 \<or> finality_mask state \<noteq> 0
      then (- 1, state)
      else
        (case proc17_qa_phase_mark_finality (state\<lparr>started_attested := 1\<rparr>)
                (finality_member FINAL_SOURCE_STAGED) of
           (r1, s1) \<Rightarrow>
             if r1 \<noteq> 0 then (- 1, s1)
             else
               (case proc17_qa_phase_mark_finality s1 (finality_member FINAL_CANDIDATE_STARTED) of
                  (r2, s2) \<Rightarrow> if r2 \<noteq> 0 then (- 1, s2) else (0, s2))))"

definition proc17_qa_phase_authorize_candidate ::
  "proc17_qa_phase_state \<Rightarrow> int \<times> proc17_qa_phase_state" where
  "proc17_qa_phase_authorize_candidate state =
     (if started_attested state \<noteq> 1 \<or> candidate_release_authorized state \<noteq> 0 then (- 1, state)
      else (0, state\<lparr>candidate_release_authorized := 1\<rparr>))"

definition proc17_qa_phase_claim_first_cause ::
  "proc17_qa_phase_state \<Rightarrow> u16 \<Rightarrow> u64 \<Rightarrow> int \<times> proc17_qa_phase_state" where
  "proc17_qa_phase_claim_first_cause state kind observed_value =
     (if kind < PROC17_QA_RUN_EXPECTED_EXIT \<or> kind > PROC17_QA_RUN_SANDBOX_POLICY_VIOLATION
         \<or> next_sequence state = u64_max
      then (PROC17_QA_CAUSE_INVALID, state)
      else
        (let sequence = next_sequence state + 1;
             counted = state\<lparr>next_sequence := sequence\<rparr>
         in if cause_kind (first_cause counted) \<noteq> 0 then (PROC17_QA_CAUSE_ALREADY_SET, counted)
            else (PROC17_QA_CAUSE_SET,
                  counted\<lparr>first_cause := \<lparr>cause_kind = kind, cause_monotonic_sequence = sequence,
                                         cause_observed_value = observed_value\<rparr>\<rparr>)))"

definition proc17_qa_phase_finality_complete :: "proc17_qa_phase_state \<Rightarrow> bool" where
  "proc17_qa_phase_finality_complete state \<longleftrightarrow> finality_mask state = PROC17_QA_FINALITY_MASK"

definition proc17_qa_phase_candidate_result_ready :: "proc17_qa_phase_state \<Rightarrow> bool" where
  "proc17_qa_phase_candidate_result_ready state \<longleftrightarrow>
     started_attested state = 1 \<and> candidate_release_authorized state = 1
     \<and> cause_kind (first_cause state) \<noteq> 0
     \<and> cause_monotonic_sequence (first_cause state) \<noteq> 0
     \<and> proc17_qa_phase_finality_complete state"

definition proc17_qa_phase_controller_report_ready :: "proc17_qa_phase_state \<Rightarrow> bool" where
  "proc17_qa_phase_controller_report_ready state \<longleftrightarrow>
     started_attested state = 1 \<and> candidate_release_authorized state = 1
     \<and> cause_kind (first_cause state) \<noteq> 0
     \<and> cause_monotonic_sequence (first_cause state) \<noteq> 0
     \<and> finality_mask state = PROC17_QA_CONTROLLER_FINALITY_MASK"

subsection \<open>The STARTED frame\<close>

definition identity_wf :: "proc17_qa_phase_identity \<Rightarrow> bool" where
  "identity_wf i \<longleftrightarrow> length (id_transaction i) = 32 \<and> length (id_witness i) = 32 \<and>
     length (id_profile i) = 32 \<and> length (id_environment i) = 32"

lemma length_identity_bytes: "identity_wf i \<Longrightarrow> length (identity_bytes i) = 128"
  by (simp add: identity_wf_def identity_bytes_def)

lemma identity_bytes_slices:
  assumes "identity_wf i"
  shows "slice 0 32 (identity_bytes i) = id_transaction i" "slice 32 32 (identity_bytes i) = id_witness i"
    "slice 64 32 (identity_bytes i) = id_profile i" "slice 96 32 (identity_bytes i) = id_environment i"
  using assms by (simp_all add: identity_wf_def identity_bytes_def slice_append_fst slice_append_snd
      slice_eq_self)

text \<open>The phase's own validity check agrees with the wire's check of the identity prefix.\<close>

lemma identity_valid_wire:
  assumes "identity_wf i" "128 \<le> length p" "slice 0 128 p = identity_bytes i"
  shows "proc17_qa_wire_v1_identity_valid (Some p) = proc17_qa_phase_identity_valid (Some i)"
proof -
  have "slice off 32 p = slice off 32 (identity_bytes i)" if "off + 32 \<le> 128" for off
    using that assms(3) by (metis add_0 slice_slice)
  then have "slice 0 32 p = id_transaction i" "slice 32 32 p = id_witness i"
    "slice 64 32 p = id_profile i" "slice 96 32 p = id_environment i"
    using identity_bytes_slices [OF assms(1)] by simp_all
  moreover have "slice 0 32 (id_transaction i) = id_transaction i" "slice 0 32 (id_witness i) = id_witness i"
    "slice 0 32 (id_profile i) = id_profile i" "slice 0 32 (id_environment i) = id_environment i"
    using assms(1) by (simp_all add: identity_wf_def slice_eq_self)
  ultimately show ?thesis
    using assms(1,2) by (simp add: proc17_qa_wire_v1_identity_valid_def proc17_qa_phase_identity_valid_def
        identity_wf_def codec_simps)
qed

lemma length_started_payload [simp]: "length (started_payload i token stage) = 252"
  by (simp add: started_payload_def Let_def proc17_qa_wire_put_u16_def)

lemma started_payload_slices:
  assumes "identity_wf i" "length token = 32" "length stage = 84"
  defines "p \<equiv> started_payload i token stage"
  shows "slice 0 128 p = identity_bytes i" "slice 128 2 p = be16 1" "slice 130 2 p = be16 1"
    "p ! 132 = 1" "p ! 133 = 1" "p ! 134 = 0" "p ! 135 = 0" "slice 136 32 p = token"
    "slice 168 84 p = stage"
  using assms length_identity_bytes [OF assms(1)]
  by (simp_all add: started_payload_def Let_def proc17_qa_wire_put_u16_def buf_simps slice_eq_self)

lemma started_payload_valid:
  assumes wf: "identity_wf i" "length token = 32" "length stage = 84"
    and valid: "proc17_qa_phase_identity_valid (Some i)" "proc17_qa_wire_digest_nonzero (Some token)"
      "proc17_qa_wire_v1_source_stage_valid (Some stage)"
  shows "proc17_qa_wire_v1_payload_valid PROC17_QA_WIRE_RUN_STARTED_V1
           (Some (started_payload i token stage)) 252"
proof -
  let ?p = "started_payload i token stage"
  note sl = started_payload_slices [OF wf]
  have "agree 84 (drop 168 ?p) stage"
    using sl(9) wf by (simp add: agree_def slice_def)
  then have stage: "proc17_qa_wire_v1_source_stage_valid (Some (drop 168 ?p))"
    using valid(3) agree_stage_valid by blast
  have "slice 0 32 token = token" using wf by (simp add: slice_eq_self)
  then have token: "proc17_qa_wire_digest_nonzero (Some (drop 136 ?p))"
    using sl(8) valid(2) wf(2) by (simp add: codec_simps)
  have "proc17_qa_wire_v1_identity_valid (Some ?p)"
    using identity_valid_wire [OF wf(1) _ sl(1)] valid(1) by simp
  then show ?thesis
    using stage token sl
    by (simp add: proc17_qa_wire_v1_payload_valid_def proc17_qa_wire_v1_started_valid_def codec_simps)
qed

lemma encode_started:
  assumes wf: "identity_wf i" "length token = 32" "length stage = 84" "length frame0 = 4096"
    and valid: "proc17_qa_phase_identity_valid (Some i)" "proc17_qa_wire_digest_nonzero (Some token)"
      "proc17_qa_wire_v1_source_stage_valid (Some stage)"
  obtains frame v where
    "proc17_qa_wire_encode_run_v1 PROC17_QA_WIRE_RUN_STARTED_V1 (Some (id_transaction i))
       (Some (started_payload i token stage)) 252 (Some frame0) = Some (frame, 332)"
    "length frame = 4096"
    "take 332 frame = wire_frame PROC17_QA_WIRE_RUN_STARTED_V1 (id_transaction i) (started_payload i token stage)"
    "proc17_qa_wire_decode_run_v1 (Some frame) 332 = Some v" "view_kind v = PROC17_QA_WIRE_RUN_STARTED_V1"
    "agree 252 (view_payload v) (started_payload i token stage)"
proof -
  let ?p = "started_payload i token stage"
  have "slice 0 32 ?p = slice 0 32 (slice 0 128 ?p)" by (simp add: slice_slice)
  also have "\<dots> = id_transaction i"
    using started_payload_slices(1) [OF wf(1-3)] identity_bytes_slices(1) [OF wf(1)] by simp
  finally have nonce: "take 32 ?p = id_transaction i" by (simp add: slice_def)
  show ?thesis
    by (rule run_v1_encode_decode [OF started_payload_valid [OF wf(1-3) valid], of frame0])
      (use wf(4) nonce that in simp_all)
qed

lemma emit_started_outcome:
  fixes write_reply close_reply :: int
  assumes wf: "identity_wf i" "length token = 32" "length stage = 84" "length frame0 = 4096"
    and valid: "proc17_qa_phase_identity_valid (Some i)" "proc17_qa_wire_digest_nonzero (Some token)"
      "proc17_qa_wire_v1_source_stage_valid (Some stage)"
    and fresh: "started_emitted state = 0" and fd: "fd \<ge> 0"
  defines "out \<equiv> proc17_qa_phase_emit_started_and_close state (Some fd) (Some i) (Some token) (Some stage)
                   frame0 write_reply close_reply"
  shows "emit_written out = Some (wire_frame PROC17_QA_WIRE_RUN_STARTED_V1 (id_transaction i)
             (started_payload i token stage))
    \<and> length (the (emit_written out)) = 332 \<and> 332 \<le> PIPE_BUF
    \<and> emit_closed out = [fd] \<and> emit_descriptor out = Some (- 1)
    \<and> (emit_result out = 0 \<longleftrightarrow> write_reply = 332 \<and> close_reply = 0)
    \<and> (started_emitted (emit_state out) = 1 \<longleftrightarrow> write_reply = 332)"
proof -
  obtain frame v where enc: "proc17_qa_wire_encode_run_v1 PROC17_QA_WIRE_RUN_STARTED_V1
      (Some (id_transaction i)) (Some (started_payload i token stage)) 252 (Some frame0) = Some (frame, 332)"
    and frame: "length frame = 4096" "take 332 frame = wire_frame PROC17_QA_WIRE_RUN_STARTED_V1
      (id_transaction i) (started_payload i token stage)"
    by (rule encode_started [OF wf valid])
  have "length (wire_frame PROC17_QA_WIRE_RUN_STARTED_V1 (id_transaction i) (started_payload i token stage)) = 332"
    using wf(1) by (simp add: length_wire_frame identity_wf_def)
  then show ?thesis
    using enc frame valid fresh fd
    by (simp add: out_def proc17_qa_phase_emit_started_and_close_def emit_failed_def
        close_owned_descriptor_def Let_def)
qed

text \<open>Emission of STARTED.  Whatever the kernel answers, the bytes handed to \<open>write\<close> are one
  complete STARTED frame of 332 bytes for the caller's identity, token and source stage, which fits
  an atomic pipe write; an owned descriptor is closed exactly once and given up on every path; and
  success is reported exactly when the write was complete and the close succeeded.\<close>

theorem emit_started_once:
  fixes write_reply close_reply :: int
  assumes wf: "identity_wf i" "length token = 32" "length stage = 84" "length frame0 = 4096"
    and valid: "proc17_qa_phase_identity_valid (Some i)" "proc17_qa_wire_digest_nonzero (Some token)"
      "proc17_qa_wire_v1_source_stage_valid (Some stage)"
    and fresh: "started_emitted state = 0" and fd: "fd \<ge> 0"
  defines "out \<equiv> proc17_qa_phase_emit_started_and_close state (Some fd) (Some i) (Some token) (Some stage)
                   frame0 write_reply close_reply"
  shows "emit_written out = Some (wire_frame PROC17_QA_WIRE_RUN_STARTED_V1 (id_transaction i)
             (started_payload i token stage))
    \<and> length (the (emit_written out)) = 332 \<and> 332 \<le> PIPE_BUF
    \<and> emit_closed out = [fd] \<and> emit_descriptor out = Some (- 1)
    \<and> (emit_result out = 0 \<longleftrightarrow> write_reply = 332 \<and> close_reply = 0)
    \<and> (started_emitted (emit_state out) = 1 \<longleftrightarrow> write_reply = 332)"
  unfolding out_def by (rule emit_started_outcome [OF wf valid fresh fd])

definition sample_identity :: proc17_qa_phase_identity where
  "sample_identity = \<lparr>id_transaction = replicate 32 1, id_witness = replicate 32 2,
     id_profile = replicate 32 3, id_environment = replicate 32 4\<rparr>"

definition sample_stage :: bytes where
  "sample_stage = [0, 1, 0, 0] @ be32 7 @ concat (replicate 9 (be64 5)) @ [1, 1, 0, 0]"

lemma sample_identity_ok: "identity_wf sample_identity" "proc17_qa_phase_identity_valid (Some sample_identity)"
  by (simp_all add: sample_identity_def identity_wf_def proc17_qa_phase_identity_valid_def codec_simps
      slice_replicate)

lemma sample_stage_ok: "length sample_stage = 84" "proc17_qa_wire_v1_source_stage_valid (Some sample_stage)"
proof -
  let ?e = "be64 5"
  have s: "sample_stage = [0, 1, 0, 0] @ be32 7 @ ?e @ ?e @ ?e @ ?e @ ?e @ ?e @ ?e @ ?e @ ?e @ [1, 1, 0, 0]"
    by (simp add: sample_stage_def numeral_eq_Suc)
  show len: "length sample_stage = 84" by (simp add: s)
  have "proc17_qa_wire_get_u16 sample_stage = 1" by (simp add: s proc17_qa_wire_get_u16_def)
  moreover have "slice 4 4 sample_stage = be32 7" "slice 8 8 sample_stage = ?e" "slice 16 8 sample_stage = ?e"
    "slice 24 8 sample_stage = ?e" "slice 32 8 sample_stage = ?e" "slice 40 8 sample_stage = ?e"
    "slice 48 8 sample_stage = ?e" "slice 56 8 sample_stage = ?e" "slice 64 8 sample_stage = ?e"
    "slice 72 8 sample_stage = ?e"
    by (simp_all add: s slice_def)
  moreover have "sample_stage ! 2 = 0" "sample_stage ! 3 = 0" "sample_stage ! 80 = 1" "sample_stage ! 81 = 1"
    "sample_stage ! 82 = 0" "sample_stage ! 83 = 0"
    by (simp_all add: s nth_append)
  ultimately show "proc17_qa_wire_v1_source_stage_valid (Some sample_stage)"
    by (simp add: proc17_qa_wire_v1_source_stage_valid_def codec_simps len proc17_qa_wire_boolean_def)
qed

theorem emit_started_once_witness:
  "emit_result (proc17_qa_phase_emit_started_and_close proc17_qa_started_writer_init (Some 3)
     (Some sample_identity) (Some (replicate 32 9)) (Some sample_stage) (replicate 4096 0) 332 0) = 0"
  using emit_started_once [of sample_identity "replicate 32 9" sample_stage "replicate 4096 0"
      proc17_qa_started_writer_init 3 332 0]
  by (simp add: sample_identity_ok sample_stage_ok codec_simps slice_replicate proc17_qa_started_writer_init_def)

subsection \<open>The phase state machine\<close>

datatype phase_event = Observe_ready | Authorize | Claim u16 u64 | Mark int

fun phase_step :: "proc17_qa_phase_state \<Rightarrow> phase_event \<Rightarrow> proc17_qa_phase_state" where
  "phase_step s Observe_ready = snd (proc17_qa_phase_observe_started_ready s)"
| "phase_step s Authorize = snd (proc17_qa_phase_authorize_candidate s)"
| "phase_step s (Claim kind v) = snd (proc17_qa_phase_claim_first_cause s kind v)"
| "phase_step s (Mark m) = snd (proc17_qa_phase_mark_finality s m)"

definition phase_inv :: "proc17_qa_phase_state \<Rightarrow> bool" where
  "phase_inv s \<longleftrightarrow>
     (if cause_kind (first_cause s) = 0 then first_cause s = no_cause \<and> next_sequence s = 0
      else cause_kind (first_cause s) \<le> 9 \<and> cause_monotonic_sequence (first_cause s) = 1
           \<and> 1 \<le> next_sequence s)
     \<and> take_bit 8 (finality_mask s) = finality_mask s
     \<and> started_attested s \<in> {0, 1} \<and> candidate_release_authorized s \<in> {0, 1}
     \<and> (candidate_release_authorized s = 1 \<longrightarrow> started_attested s = 1)
     \<and> (started_attested s = 1 \<longrightarrow> bit (finality_mask s) 0 \<and> bit (finality_mask s) 1)"

text \<open>How a run moves: the sequence and the finality mask only grow, attestation and authorisation
  are never withdrawn, a first cause is never replaced.\<close>

definition phase_before :: "proc17_qa_phase_state \<Rightarrow> proc17_qa_phase_state \<Rightarrow> bool" where
  "phase_before s t \<longleftrightarrow>
     next_sequence s \<le> next_sequence t
     \<and> (\<forall>n. bit (finality_mask s) n \<longrightarrow> bit (finality_mask t) n)
     \<and> (started_attested s = 1 \<longrightarrow> started_attested t = 1)
     \<and> (candidate_release_authorized s = 1 \<longrightarrow> candidate_release_authorized t = 1)
     \<and> (cause_kind (first_cause s) \<noteq> 0 \<longrightarrow> first_cause t = first_cause s)"

lemma observe_started_ready_eq:
  "proc17_qa_phase_observe_started_ready s =
     (if started_attested s \<noteq> 0 \<or> candidate_release_authorized s \<noteq> 0
         \<or> cause_kind (first_cause s) \<noteq> 0 \<or> finality_mask s \<noteq> 0
      then (- 1, s) else (0, s\<lparr>started_attested := 1, finality_mask := 3\<rparr>))"
  by (simp add: proc17_qa_phase_observe_started_ready_def proc17_qa_phase_mark_finality_def Let_def)

lemma mark_finality_bits:
  "bit (finality_mask (snd (proc17_qa_phase_mark_finality s m))) n \<longleftrightarrow>
     bit (finality_mask s) n \<or> (0 \<le> m \<and> m < 8 \<and> n = nat m)"
  by (auto simp: proc17_qa_phase_mark_finality_def Let_def bit_simps not_less
      dest: bit_imp_le_length)

lemma take_bit_8_mask: "take_bit 8 (w :: u16) = w \<longleftrightarrow> (\<forall>n. bit w n \<longrightarrow> n < 8)"
proof
  assume "take_bit 8 w = w"
  then show "\<forall>n. bit w n \<longrightarrow> n < 8" by (metis bit_take_bit_iff)
qed (auto simp: bit_eq_iff bit_take_bit_iff)

lemma phase_inv_mark:
  assumes "phase_inv s"
  shows "phase_inv (snd (proc17_qa_phase_mark_finality s m))"
proof -
  let ?t = "snd (proc17_qa_phase_mark_finality s m)"
  have "first_cause ?t = first_cause s" "next_sequence ?t = next_sequence s"
    "started_attested ?t = started_attested s"
    "candidate_release_authorized ?t = candidate_release_authorized s"
    by (simp_all add: proc17_qa_phase_mark_finality_def Let_def)
  then show ?thesis
    using assms unfolding phase_inv_def take_bit_8_mask mark_finality_bits by auto
qed

lemma phase_inv_claim:
  assumes "phase_inv s"
  shows "phase_inv (snd (proc17_qa_phase_claim_first_cause s kind v))"
proof (cases "kind < 1 \<or> kind > 9 \<or> next_sequence s = u64_max")
  case False
  then have "1 \<le> next_sequence s + 1" "kind \<noteq> 0" "kind \<le> 9"
    using u64_inc [of "next_sequence s"] by (auto simp: word_le_nat_alt not_less)
  with False assms show ?thesis
    by (cases "cause_kind (first_cause s) = 0")
      (simp_all add: phase_inv_def proc17_qa_phase_claim_first_cause_def Let_def)
qed (use assms in \<open>simp add: proc17_qa_phase_claim_first_cause_def\<close>)

lemma phase_inv_observe:
  assumes "phase_inv s"
  shows "phase_inv (snd (proc17_qa_phase_observe_started_ready s))"
proof -
  have "take_bit 8 (3 :: u16) = 3" "bit (3 :: u16) 0" "bit (3 :: u16) 1" by simp_all
  with assms show ?thesis
    unfolding observe_started_ready_eq by (simp add: phase_inv_def)
qed

lemma phase_inv_authorize:
  "phase_inv s \<Longrightarrow> phase_inv (snd (proc17_qa_phase_authorize_candidate s))"
  by (simp add: proc17_qa_phase_authorize_candidate_def phase_inv_def)

lemma phase_inv_step: "phase_inv s \<Longrightarrow> phase_inv (phase_step s e)"
  by (cases e) (simp_all add: phase_inv_mark phase_inv_claim phase_inv_observe phase_inv_authorize)

lemma phase_inv_init: "phase_inv proc17_qa_phase_init"
  by (simp add: phase_inv_def proc17_qa_phase_init_def no_cause_def)

lemma phase_before_step: "phase_inv s \<Longrightarrow> phase_before s (phase_step s e)"
proof (cases e)
  case Observe_ready
  then show ?thesis by (auto simp: phase_before_def observe_started_ready_eq)
next
  case Authorize
  then show ?thesis by (auto simp: phase_before_def proc17_qa_phase_authorize_candidate_def)
next
  case (Claim kind v)
  then show ?thesis
    using u64_inc_less [of "next_sequence s"]
    by (auto simp: phase_before_def proc17_qa_phase_claim_first_cause_def Let_def)
next
  case (Mark m)
  then show ?thesis
    by (auto simp: phase_before_def mark_finality_bits)
      (simp_all add: proc17_qa_phase_mark_finality_def Let_def)
qed

lemma phase_before_refl: "phase_before s s"
  by (simp add: phase_before_def)

lemma phase_before_trans: "phase_before s t \<Longrightarrow> phase_before t u \<Longrightarrow> phase_before s u"
  by (auto simp: phase_before_def intro: order_trans)

interpretation phase: forward_machine proc17_qa_phase_init phase_step phase_inv phase_before
  by unfold_locales
    (simp_all add: phase_inv_init phase_inv_step phase_before_step phase_before_refl,
     rule phase_before_trans)

text \<open>Every run of the phase operations, in any order and with any arguments, keeps the phase
  invariant and only moves forward: the sequence counter and the finality mask never shrink,
  attestation and authorisation are never withdrawn, and an established first cause is never
  replaced.\<close>

theorem phase_run_forward:
  "phase_inv (foldl phase_step proc17_qa_phase_init (es @ fs))
   \<and> phase_before (foldl phase_step proc17_qa_phase_init es)
                  (foldl phase_step proc17_qa_phase_init (es @ fs))"
  using phase.inv_reachable [of "es @ fs"] phase.before_run [OF phase.inv_reachable, of es fs] by simp

text \<open>What a run has claimed and marked.\<close>

fun valid_claims :: "phase_event list \<Rightarrow> (u16 \<times> u64) list" where
  "valid_claims [] = []"
| "valid_claims (Claim kind v # es) =
     (if kind \<noteq> 0 \<and> kind \<le> 9 then (kind, v) # valid_claims es else valid_claims es)"
| "valid_claims (_ # es) = valid_claims es"

fun recorded_cause :: "proc17_qa_first_cause \<Rightarrow> (u16 \<times> u64) list \<Rightarrow> proc17_qa_first_cause" where
  "recorded_cause none [] = none"
| "recorded_cause none ((kind, v) # _) =
     \<lparr>cause_kind = kind, cause_monotonic_sequence = 1, cause_observed_value = v\<rparr>"

lemma first_cause_kept:
  "phase_inv s \<Longrightarrow> cause_kind (first_cause s) \<noteq> 0 \<Longrightarrow>
     first_cause (foldl phase_step s es) = first_cause s"
  using phase.before_run [of s es] by (simp add: phase_before_def)

lemma first_cause_of_claim:
  assumes "phase_inv s" "cause_kind (first_cause s) = 0"
  shows "first_cause (snd (proc17_qa_phase_claim_first_cause s kind v)) =
    recorded_cause (first_cause s) (valid_claims [Claim kind v])"
proof -
  have "next_sequence s = 0" using assms by (simp add: phase_inv_def)
  then show ?thesis using assms(2)
    by (auto simp: proc17_qa_phase_claim_first_cause_def Let_def u64_max_def not_less not_le)
qed

lemma first_cause_of_step:
  assumes "phase_inv s" "cause_kind (first_cause s) = 0"
  shows "first_cause (phase_step s e) = recorded_cause (first_cause s) (valid_claims [e])"
proof (cases e)
  case (Claim kind v)
  then show ?thesis using first_cause_of_claim [OF assms] by simp
qed (simp_all add: observe_started_ready_eq proc17_qa_phase_authorize_candidate_def
      proc17_qa_phase_mark_finality_def Let_def)

lemma first_cause_of_run:
  "phase_inv s \<Longrightarrow> cause_kind (first_cause s) = 0 \<Longrightarrow>
     first_cause (foldl phase_step s es) = recorded_cause (first_cause s) (valid_claims es)"
proof (induction es arbitrary: s)
  case (Cons e es)
  note fc = first_cause_of_step [OF Cons.prems, of e]
  show ?case
  proof (cases "valid_claims [e]")
    case Nil
    then have "valid_claims (e # es) = valid_claims es" by (cases e) (auto split: if_splits)
    with Nil fc Cons show ?thesis by (simp add: phase_inv_step)
  next
    case (Cons c cs)
    then obtain kind v where e: "e = Claim kind v" "kind \<noteq> 0" "kind \<le> 9"
      by (cases e) (auto split: if_splits)
    with fc \<open>phase_inv s\<close> show ?thesis
      using first_cause_kept [of "phase_step s e" es] by (simp add: phase_inv_claim)
  qed
qed simp


text \<open>Where the bits of the finality mask come from.\<close>

lemma finality_bit_step:
  "bit (finality_mask (phase_step s e)) n \<Longrightarrow>
     bit (finality_mask s) n \<or> e = Mark (int n) \<or> (n < 2 \<and> e = Observe_ready)"
proof (cases e)
  case Observe_ready
  assume "bit (finality_mask (phase_step s e)) n"
  moreover have "bit (3 :: u16) n \<Longrightarrow> n < 2"
    by (cases n; cases "n - 1") (auto simp: bit_0 bit_Suc)
  ultimately show ?thesis using Observe_ready by (auto simp: observe_started_ready_eq split: if_splits)
qed (auto simp: proc17_qa_phase_authorize_candidate_def proc17_qa_phase_claim_first_cause_def
    mark_finality_bits Let_def split: if_splits)

lemma finality_bit_run:
  "bit (finality_mask (foldl phase_step s es)) n \<Longrightarrow>
     bit (finality_mask s) n \<or> Mark (int n) \<in> set es \<or> (n < 2 \<and> Observe_ready \<in> set es)"
proof (induction es arbitrary: s)
  case (Cons e es)
  then show ?case using finality_bit_step [of s e n] by fastforce
qed simp

lemma attested_run:
  "started_attested (foldl phase_step s es) \<noteq> started_attested s \<Longrightarrow> Observe_ready \<in> set es"
proof (induction es arbitrary: s)
  case (Cons e es)
  have "started_attested (phase_step s e) \<noteq> started_attested s \<Longrightarrow> e = Observe_ready"
    by (cases e) (auto simp: proc17_qa_phase_authorize_candidate_def
        proc17_qa_phase_claim_first_cause_def proc17_qa_phase_mark_finality_def Let_def split: if_splits)
  with Cons show ?case by fastforce
qed simp

lemma authorized_run:
  "candidate_release_authorized (foldl phase_step s es) = 1 \<Longrightarrow> candidate_release_authorized s = 0 \<Longrightarrow>
     \<exists>pre post. es = pre @ Authorize # post \<and> started_attested (foldl phase_step s pre) = 1"
proof (induction es arbitrary: s)
  case (Cons e es)
  show ?case
  proof (cases "candidate_release_authorized (phase_step s e) = 0")
    case True
    then obtain pre post where "es = pre @ Authorize # post"
      "started_attested (foldl phase_step (phase_step s e) pre) = 1"
      using Cons.IH [of "phase_step s e"] Cons.prems(1) by auto
    then have "e # es = (e # pre) @ Authorize # post"
      "started_attested (foldl phase_step s (e # pre)) = 1" by simp_all
    then show ?thesis by blast
  next
    case False
    then have "e = Authorize \<and> started_attested s = 1" using Cons.prems(2)
      by (cases e) (auto simp: proc17_qa_phase_authorize_candidate_def observe_started_ready_eq
          proc17_qa_phase_claim_first_cause_def proc17_qa_phase_mark_finality_def Let_def split: if_splits)
    then have "e # es = [] @ Authorize # es" "started_attested (foldl phase_step s []) = 1" by simp_all
    then show ?thesis by blast
  qed
qed simp

text \<open>C23. A result may be reported only after the whole protocol: if the phase state of a run says
  that the candidate result is ready, then STARTED was observed before the candidate was
  authorised, some valid first cause was claimed, and each of the six remaining finality members
  (terminal, reaped, both stream ends, scratch, namespace) was marked.\<close>

theorem result_ready_only_after_protocol:
  assumes "proc17_qa_phase_candidate_result_ready (foldl phase_step proc17_qa_phase_init es)"
  shows "(\<exists>pre post. es = pre @ Authorize # post \<and> Observe_ready \<in> set pre)
    \<and> valid_claims es \<noteq> [] \<and> (\<forall>m \<in> {2..7}. Mark m \<in> set es)"
proof -
  let ?s = "foldl phase_step proc17_qa_phase_init es"
  have ready: "candidate_release_authorized ?s = 1" "cause_kind (first_cause ?s) \<noteq> 0" "finality_mask ?s = 255"
    using assms by (simp_all add: proc17_qa_phase_candidate_result_ready_def
        proc17_qa_phase_finality_complete_def PROC17_QA_FINALITY_MASK_def)
  obtain pre post where "es = pre @ Authorize # post"
    "started_attested (foldl phase_step proc17_qa_phase_init pre) = 1"
    using authorized_run [OF ready(1)] by (auto simp: proc17_qa_phase_init_def)
  moreover from this(2) have "Observe_ready \<in> set pre"
    using attested_run [of proc17_qa_phase_init pre] by (simp add: proc17_qa_phase_init_def)
  moreover have "valid_claims es \<noteq> []"
    using ready(2) first_cause_of_run [OF phase_inv_init, of es]
    by (auto simp: proc17_qa_phase_init_def no_cause_def)
  moreover have "Mark m \<in> set es" if "m \<in> {2..7}" for m
  proof -
    have "bit (mask 8 :: u16) (nat m)" unfolding bit_mask_iff using that by auto
    then have "bit (255 :: u16) (nat m)" by (simp add: mask_eq_exp_minus_1)
    then show ?thesis
      using finality_bit_run [of proc17_qa_phase_init es "nat m"] that ready(3)
      by (auto simp: proc17_qa_phase_init_def)
  qed
  ultimately show ?thesis by blast
qed

definition sample_run :: "phase_event list" where
  "sample_run = [Observe_ready, Authorize, Claim 1 0, Mark 2, Mark 3, Mark 4, Mark 5, Mark 6, Mark 7]"

theorem result_ready_only_after_protocol_witness:
  "proc17_qa_phase_candidate_result_ready (foldl phase_step proc17_qa_phase_init sample_run)
   \<and> valid_claims sample_run \<noteq> []"
proof -
  have "proc17_qa_phase_candidate_result_ready (foldl phase_step proc17_qa_phase_init sample_run)"
    by (simp add: sample_run_def proc17_qa_phase_init_def no_cause_def observe_started_ready_eq
        proc17_qa_phase_authorize_candidate_def proc17_qa_phase_claim_first_cause_def
        proc17_qa_phase_mark_finality_def Let_def u64_max_def
        proc17_qa_phase_candidate_result_ready_def proc17_qa_phase_finality_complete_def
        PROC17_QA_FINALITY_MASK_def push_bit_eq_mult)
  with result_ready_only_after_protocol [OF this] show ?thesis by simp
qed

subsection \<open>The process token\<close>

text \<open>The process token is the SHA-256 of fresh entropy followed by the run identity: whenever
  \<open>getrandom\<close> eventually delivers 32 bytes, after any number of interruptions, the call returns, and
  a token it delivers is that digest and is nonzero.\<close>

theorem process_token_is_digest:
  assumes "proc17_qa_phase_identity_valid (Some i)" "length entropy = 32"
  shows "proc17_qa_phase_make_process_token (Some i) (replicate n (Sys_err EINTR) @ [Sys_ok entropy]) =
    Some (let d = fips_sha256 (entropy @ identity_bytes i)
          in if proc17_qa_wire_digest_nonzero (Some d) then Some d else None)"
proof -
  have "retry_eintr (replicate n (Sys_err EINTR) @ [Sys_ok entropy]) = Some (Sys_ok entropy, [])"
    by (induction n) simp_all
  moreover have "snd (proc17_sha256_final (proc17_sha256_update
      (proc17_sha256_update proc17_sha256_init entropy) (identity_bytes i))) = fips_sha256 (entropy @ identity_bytes i)"
    using sha.final_chunks [of "[entropy, identity_bytes i]"] by simp
  ultimately show ?thesis
    using assms by (simp add: proc17_qa_phase_make_process_token_def Let_def)
qed

theorem process_token_is_digest_witness:
  "proc17_qa_phase_make_process_token (Some sample_identity)
     (replicate 2 (Sys_err EINTR) @ [Sys_ok (replicate 32 8)]) =
   Some (let d = fips_sha256 (replicate 32 8 @ identity_bytes sample_identity)
         in if proc17_qa_wire_digest_nonzero (Some d) then Some d else None)"
  by (rule process_token_is_digest) (simp_all add: sample_identity_ok)

end
