(* ===== verification/Qa_Status.thy ===== *)
theory Qa_Status
  imports Qa_Phase
begin

text \<open>
  The private status channel between the candidate process and the controller
  (\<open>native/proc17_qa_status.c\<close>): 184-byte packets that carry one of three messages, bound to the
  run identity and the process token.
\<close>

definition PROC17_QA_STATUS_PACKET_BYTES :: nat where [simp]: "PROC17_QA_STATUS_PACKET_BYTES = 184"
definition PROC17_QA_STATUS_VERSION :: u16 where [simp]: "PROC17_QA_STATUS_VERSION = 1"
definition PROC17_QA_STATUS_READY :: u16 where [simp]: "PROC17_QA_STATUS_READY = 1"
definition PROC17_QA_STATUS_RELEASE :: u16 where [simp]: "PROC17_QA_STATUS_RELEASE = 2"
definition PROC17_QA_STATUS_HEAP_DENIED :: u16 where [simp]: "PROC17_QA_STATUS_HEAP_DENIED = 3"

datatype proc17_qa_status_receive_result =
  RECEIVE_ERROR | RECEIVE_IDLE | RECEIVE_MESSAGE | RECEIVE_EOF

record proc17_qa_status_context =
  ctx_identity :: proc17_qa_phase_identity
  ctx_process_token :: bytes

record proc17_qa_status_message =
  msg_kind :: u16
  msg_sequence :: u64

definition status_magic :: bytes where
  "status_magic = ascii ''P17QAST'' @ [0]"

definition exact_sequence :: "u16 \<Rightarrow> u64" where
  "exact_sequence kind =
     (if kind = PROC17_QA_STATUS_READY then 1
      else if kind = PROC17_QA_STATUS_RELEASE then 2
      else if kind = PROC17_QA_STATUS_HEAP_DENIED then 3
      else 0)"

definition proc17_qa_status_context_valid :: "proc17_qa_status_context ptr \<Rightarrow> bool" where
  "proc17_qa_status_context_valid ctx =
     (case ctx of
        None \<Rightarrow> False
      | Some c \<Rightarrow>
          proc17_qa_phase_identity_valid (Some (ctx_identity c))
          \<and> proc17_qa_wire_digest_nonzero (Some (ctx_process_token c)))"

text \<open>Wrappers around single system calls: the arguments are the kernel's answers.\<close>

definition proc17_qa_status_socket_pair :: "int ptr \<Rightarrow> (int \<times> int) sys \<Rightarrow> int \<times> (int \<times> int)" where
  "proc17_qa_status_socket_pair descriptors socketpair_reply =
     (case descriptors of
        None \<Rightarrow> (- 1, (- 1, - 1))
      | Some _ \<Rightarrow>
          (case socketpair_reply of
             Sys_ok pair \<Rightarrow> (0, pair)
           | Sys_err _ \<Rightarrow> (- 1, (- 1, - 1))))"

definition proc17_qa_status_ignore_sigpipe :: "int \<Rightarrow> int \<Rightarrow> int" where
  "proc17_qa_status_ignore_sigpipe sigemptyset_reply sigaction_reply =
     (if sigemptyset_reply \<noteq> 0 then - 1 else if sigaction_reply = 0 then 0 else - 1)"

text \<open>The second component is the flag word handed to \<open>F_SETFL\<close>, if any.\<close>

definition proc17_qa_status_set_nonblocking :: "int \<Rightarrow> int \<Rightarrow> int \<Rightarrow> int \<times> int option" where
  "proc17_qa_status_set_nonblocking descriptor getfl_reply setfl_reply =
     (if descriptor < 0 then (- 1, None)
      else if getfl_reply < 0 then (- 1, None)
      else ((if setfl_reply = 0 then 0 else - 1), Some (getfl_reply OR O_NONBLOCK)))"

definition proc17_qa_status_encode ::
  "proc17_qa_status_context ptr \<Rightarrow> u16 \<Rightarrow> u64 \<Rightarrow> bytes ptr \<Rightarrow> bytes option" where
  "proc17_qa_status_encode ctx kind sequence output_ptr =
     (case (ctx, output_ptr) of
        (Some c, Some output) \<Rightarrow>
          if \<not> proc17_qa_status_context_valid (Some c) \<or> exact_sequence kind \<noteq> sequence then None
          else
            (let o0 = write_at output 0 (replicate PROC17_QA_STATUS_PACKET_BYTES 0);
                 o1 = write_at o0 0 status_magic;
                 o2 = proc17_qa_wire_put_u16 o1 8 PROC17_QA_STATUS_VERSION;
                 o3 = proc17_qa_wire_put_u16 o2 10 kind;
                 o4 = proc17_qa_wire_put_u32 o3 12 (of_nat PROC17_QA_STATUS_PACKET_BYTES);
                 o5 = proc17_qa_wire_put_u64 o4 16 sequence;
                 o6 = write_at o5 24 (identity_bytes (ctx_identity c))
             in Some (write_at o6 152 (ctx_process_token c)))
      | _ \<Rightarrow> None)"

definition status_decode ::
  "bytes ptr \<Rightarrow> proc17_qa_status_context ptr \<Rightarrow> proc17_qa_status_message option" where
  "status_decode input_ptr ctx =
     (case (input_ptr, ctx) of
        (Some input, Some c) \<Rightarrow>
          if \<not> proc17_qa_status_context_valid (Some c)
             \<or> take 8 input \<noteq> status_magic
             \<or> proc17_qa_wire_get_u16 (drop 8 input) \<noteq> PROC17_QA_STATUS_VERSION
             \<or> proc17_qa_wire_get_u32 (drop 12 input) \<noteq> of_nat PROC17_QA_STATUS_PACKET_BYTES
             \<or> take 128 (drop 24 input) \<noteq> identity_bytes (ctx_identity c)
             \<or> take 32 (drop 152 input) \<noteq> ctx_process_token c
          then None
          else
            (let kind = proc17_qa_wire_get_u16 (drop 10 input);
                 sequence = proc17_qa_wire_get_u64 (drop 16 input)
             in if exact_sequence kind \<noteq> sequence then None
                else Some \<lparr>msg_kind = kind, msg_sequence = sequence\<rparr>)
      | _ \<Rightarrow> None)"

text \<open>Sending: the C result and the packet handed to \<open>write\<close>, whose replies are byte counts.
  \<open>packet0\<close> is the uninitialised stack buffer.\<close>

definition proc17_qa_status_send ::
  "int \<Rightarrow> proc17_qa_status_context ptr \<Rightarrow> u16 \<Rightarrow> u64 \<Rightarrow> bool \<Rightarrow> bytes \<Rightarrow> int \<Rightarrow> nat sys list
   \<Rightarrow> (int \<times> bytes option) option" where
  "proc17_qa_status_send descriptor ctx kind sequence nonblocking packet0 getfl_reply write_replies =
     (if descriptor < 0 then Some (- 1, None)
      else
        (case proc17_qa_status_encode ctx kind sequence (Some packet0) of
           None \<Rightarrow> Some (- 1, None)
         | Some packet \<Rightarrow>
             if getfl_reply < 0 \<or> (nonblocking \<and> getfl_reply AND O_NONBLOCK = 0) then Some (- 1, None)
             else
               (case retry_eintr write_replies of
                  None \<Rightarrow> None
                | Some (Sys_ok written, _) \<Rightarrow>
                    Some (if written = PROC17_QA_STATUS_PACKET_BYTES then 0 else - 1, Some packet)
                | Some (Sys_err _, _) \<Rightarrow> Some (- 1, Some packet))))"

text \<open>Receiving: \<open>read\<close> answers with the bytes it stored at the front of the zeroed 185-byte
  buffer.\<close>

definition proc17_qa_status_receive ::
  "int \<Rightarrow> proc17_qa_status_context ptr \<Rightarrow> bool \<Rightarrow> int \<Rightarrow> bytes sys list
   \<Rightarrow> (proc17_qa_status_receive_result \<times> proc17_qa_status_message option) option" where
  "proc17_qa_status_receive descriptor ctx nonblocking getfl_reply read_replies =
     (if descriptor < 0 \<or> \<not> proc17_qa_status_context_valid ctx then Some (RECEIVE_ERROR, None)
      else if getfl_reply < 0 \<or> (nonblocking \<and> getfl_reply AND O_NONBLOCK = 0)
      then Some (RECEIVE_ERROR, None)
      else
        (case retry_eintr read_replies of
           None \<Rightarrow> None
         | Some (Sys_err e, _) \<Rightarrow>
             Some (if nonblocking \<and> e = EAGAIN then RECEIVE_IDLE else RECEIVE_ERROR, None)
         | Some (Sys_ok observed, _) \<Rightarrow>
             (let packet = write_at (replicate (PROC17_QA_STATUS_PACKET_BYTES + 1) 0) 0 observed
              in if observed = [] then Some (RECEIVE_EOF, None)
                 else if length observed \<noteq> PROC17_QA_STATUS_PACKET_BYTES then Some (RECEIVE_ERROR, None)
                 else
                   (case status_decode (Some packet) ctx of
                      None \<Rightarrow> Some (RECEIVE_ERROR, None)
                    | Some message \<Rightarrow> Some (RECEIVE_MESSAGE, Some message)))))"

definition proc17_qa_status_accept_ready ::
  "proc17_qa_status_message ptr \<Rightarrow> proc17_qa_phase_state \<Rightarrow> int \<times> proc17_qa_phase_state" where
  "proc17_qa_status_accept_ready message controller_phase =
     (case message of
        None \<Rightarrow> (- 1, controller_phase)
      | Some m \<Rightarrow>
          if msg_kind m \<noteq> PROC17_QA_STATUS_READY \<or> msg_sequence m \<noteq> 1 then (- 1, controller_phase)
          else proc17_qa_phase_observe_started_ready controller_phase)"

subsection \<open>Packets\<close>

definition context_wf :: "proc17_qa_status_context \<Rightarrow> bool" where
  "context_wf c \<longleftrightarrow> identity_wf (ctx_identity c) \<and> length (ctx_process_token c) = 32"

text \<open>The layout of a packet, as one expression.\<close>

definition status_packet :: "proc17_qa_status_context \<Rightarrow> u16 \<Rightarrow> u64 \<Rightarrow> bytes" where
  "status_packet c kind sequence =
     status_magic @ be16 1 @ be16 kind @ be32 184 @ be64 sequence
     @ identity_bytes (ctx_identity c) @ ctx_process_token c"

lemma length_status_magic [simp]: "length status_magic = 8"
  by (simp add: status_magic_def ascii_def)

lemma length_status_packet [simp]: "context_wf c \<Longrightarrow> length (status_packet c kind sequence) = 184"
  by (simp add: status_packet_def context_wf_def length_identity_bytes)

lemma status_encode_eq:
  assumes c: "context_wf c" and out: "length output = 184"
  shows "proc17_qa_status_encode (Some c) kind sequence (Some output) =
    (if proc17_qa_status_context_valid (Some c) \<and> exact_sequence kind = sequence
     then Some (status_packet c kind sequence) else None)"
proof -
  define o0 where "o0 = write_at output 0 (replicate 184 0)"
  define o1 where "o1 = write_at o0 0 status_magic"
  define o2 where "o2 = write_at o1 8 (be16 1)"
  define o3 where "o3 = write_at o2 10 (be16 kind)"
  define o4 where "o4 = write_at o3 12 (be32 184)"
  define o5 where "o5 = write_at o4 16 (be64 sequence)"
  define o6 where "o6 = write_at o5 24 (identity_bytes (ctx_identity c))"
  define o7 where "o7 = write_at o6 152 (ctx_process_token c)"
  have lens: "length o0 = 184" "length o1 = 184" "length o2 = 184" "length o3 = 184" "length o4 = 184"
    "length o5 = 184" "length o6 = 184" "length o7 = 184"
    using out by (simp_all add: o0_def o1_def o2_def o3_def o4_def o5_def o6_def o7_def)
  have i: "length (identity_bytes (ctx_identity c)) = 128" "length (ctx_process_token c) = 32"
    using c by (simp_all add: context_wf_def length_identity_bytes)
  have "take 8 o1 = status_magic" using lens by (simp add: o1_def write_at_in_range)
  then have "take 10 o2 = status_magic @ be16 1"
    using take_write_at_append [of status_magic 8 o1 "be16 1"] lens by (simp add: o2_def)
  then have "take 12 o3 = status_magic @ be16 1 @ be16 kind"
    using take_write_at_append [of "status_magic @ be16 1" 10 o2 "be16 kind"] lens by (simp add: o3_def)
  then have "take 16 o4 = status_magic @ be16 1 @ be16 kind @ be32 184"
    using take_write_at_append [of "status_magic @ be16 1 @ be16 kind" 12 o3 "be32 184"] lens
    by (simp add: o4_def)
  then have "take 24 o5 = status_magic @ be16 1 @ be16 kind @ be32 184 @ be64 sequence"
    using take_write_at_append [of "status_magic @ be16 1 @ be16 kind @ be32 184" 16 o4 "be64 sequence"] lens
    by (simp add: o5_def)
  then have "take 152 o6 = status_magic @ be16 1 @ be16 kind @ be32 184 @ be64 sequence
      @ identity_bytes (ctx_identity c)"
    using take_write_at_append [of "status_magic @ be16 1 @ be16 kind @ be32 184 @ be64 sequence" 24 o5
        "identity_bytes (ctx_identity c)"] lens i by (simp add: o6_def)
  then have "take 184 o7 = status_packet c kind sequence"
    using take_write_at_append [of "status_magic @ be16 1 @ be16 kind @ be32 184 @ be64 sequence
        @ identity_bytes (ctx_identity c)" 152 o6 "ctx_process_token c"] lens i
    by (simp add: o7_def status_packet_def)
  then have "o7 = status_packet c kind sequence" using lens by simp
  then show ?thesis
    unfolding o7_def o6_def o5_def o4_def o3_def o2_def o1_def o0_def
    by (simp add: proc17_qa_status_encode_def Let_def proc17_qa_wire_put_u16_def
        proc17_qa_wire_put_u32_def proc17_qa_wire_put_u64_def)
qed

lemma status_decode_iff:
  assumes c: "context_wf c" and p: "184 \<le> length p"
  shows "status_decode (Some p) (Some c) = Some m \<longleftrightarrow>
    proc17_qa_status_context_valid (Some c) \<and> exact_sequence (msg_kind m) = msg_sequence m
    \<and> take 184 p = status_packet c (msg_kind m) (msg_sequence m)"
proof -
  let ?k = "proc17_qa_wire_get_u16 (slice 10 2 p)" and ?q = "proc17_qa_wire_get_u64 (slice 16 8 p)"
  have "take 184 p = take 8 p @ slice 8 2 p @ slice 10 2 p @ slice 12 4 p @ slice 16 8 p
      @ slice 24 128 p @ slice 152 32 p"
    by (simp add: take_split [of 152 32 184] take_split [of 24 128 152] take_split [of 16 8 24]
        take_split [of 12 4 16] take_split [of 10 2 12] take_split [of 8 2 10])
  then have layout: "take 184 p = status_packet c k q \<longleftrightarrow>
      take 8 p = status_magic \<and> slice 8 2 p = be16 1 \<and> slice 10 2 p = be16 k
      \<and> slice 12 4 p = be32 184 \<and> slice 16 8 p = be64 q
      \<and> slice 24 128 p = identity_bytes (ctx_identity c) \<and> slice 152 32 p = ctx_process_token c" for k q
    using p c by (simp add: status_packet_def context_wf_def length_identity_bytes)
  have ints: "slice 8 2 p = be16 a \<longleftrightarrow> proc17_qa_wire_get_u16 (slice 8 2 p) = a"
    "slice 10 2 p = be16 a \<longleftrightarrow> proc17_qa_wire_get_u16 (slice 10 2 p) = a"
    "slice 12 4 p = be32 b \<longleftrightarrow> proc17_qa_wire_get_u32 (slice 12 4 p) = b"
    "slice 16 8 p = be64 d \<longleftrightarrow> proc17_qa_wire_get_u64 (slice 16 8 p) = d" for a b d
    using p be_of_get(1) [of "slice 8 2 p"] be_of_get(1) [of "slice 10 2 p"]
      be_of_get(2) [of "slice 12 4 p"] be_of_get(3) [of "slice 16 8 p"]
    by (auto simp: get_of_be)
  have reads: "proc17_qa_wire_get_u16 (drop 8 p) = proc17_qa_wire_get_u16 (slice 8 2 p)"
    "proc17_qa_wire_get_u16 (drop 10 p) = ?k" "proc17_qa_wire_get_u64 (drop 16 p) = ?q"
    "proc17_qa_wire_get_u32 (drop 12 p) = proc17_qa_wire_get_u32 (slice 12 4 p)"
    using p by (simp_all add: codec_simps)
  have sl: "take 128 (drop 24 p) = slice 24 128 p" "take 32 (drop 152 p) = slice 152 32 p"
    by (simp_all add: slice_def)
  show ?thesis
    unfolding layout ints status_decode_def
    by (cases m) (auto simp: Let_def reads sl)
qed

lemma identity_bytes_injective:
  assumes "identity_wf i" "identity_wf j" "identity_bytes i = identity_bytes j"
  shows "i = j"
  using identity_bytes_slices [OF assms(1)] identity_bytes_slices [OF assms(2)] assms(3)
  by (cases i; cases j) simp

lemma status_packet_injective:
  assumes "context_wf c" "context_wf d" "status_packet c k q = status_packet d k' q'"
  shows "c = d \<and> k = k' \<and> q = q'"
proof -
  have "be16 k = be16 k'" "be64 q = be64 q'" "identity_bytes (ctx_identity c) = identity_bytes (ctx_identity d)"
    "ctx_process_token c = ctx_process_token d"
    using assms by (auto simp: status_packet_def context_wf_def length_identity_bytes)
  then show ?thesis
    using assms identity_bytes_injective get_of_be unfolding context_wf_def by (metis (full_types) proc17_qa_status_context.equality old.unit.exhaust)
qed

text \<open>A status packet is bound to its context: a packet the sender encodes for one run identity
  and process token is decoded to the same kind and sequence by a receiver with that context, and
  refused by a receiver with any other context.\<close>

theorem status_packet_bound_to_context:
  assumes "context_wf c" "context_wf d" "length output = PROC17_QA_STATUS_PACKET_BYTES"
    and "proc17_qa_status_context_valid (Some d)"
    and enc: "proc17_qa_status_encode (Some c) kind sequence (Some output) = Some packet"
  shows "status_decode (Some packet) (Some d) =
    (if d = c then Some \<lparr>msg_kind = kind, msg_sequence = sequence\<rparr> else None)"
proof -
  have p: "packet = status_packet c kind sequence" "exact_sequence kind = sequence"
    using enc assms(1,3) by (auto simp: status_encode_eq split: if_splits)
  then have dec: "status_decode (Some packet) (Some d) = Some m \<longleftrightarrow>
      d = c \<and> m = \<lparr>msg_kind = kind, msg_sequence = sequence\<rparr>" for m
    using assms(1,2,4) status_decode_iff [of d packet m] status_packet_injective [of c d kind sequence]
    by (cases m) auto
  show ?thesis
    by (cases "status_decode (Some packet) (Some d)") (use dec in auto)
qed

definition sample_context :: proc17_qa_status_context where
  "sample_context = \<lparr>ctx_identity = sample_identity, ctx_process_token = replicate 32 9\<rparr>"

lemma sample_context_ok: "context_wf sample_context" "proc17_qa_status_context_valid (Some sample_context)"
  by (simp_all add: sample_context_def context_wf_def proc17_qa_status_context_valid_def sample_identity_ok
      codec_simps slice_replicate)

theorem status_packet_bound_to_context_witness:
  "status_decode (Some (status_packet sample_context 1 1)) (Some sample_context)
     = Some \<lparr>msg_kind = 1, msg_sequence = 1\<rparr>"
  using status_packet_bound_to_context [of sample_context sample_context "replicate 184 0" 1 1]
  by (simp add: sample_context_ok status_encode_eq exact_sequence_def)

text \<open>What a receiver reports for one datagram: a message exactly when the datagram is the packet
  of its own context for a kind with its fixed sequence number, the end of the stream exactly for an
  empty datagram, and an error otherwise.\<close>

theorem status_receive_cases:
  assumes "context_wf c" "proc17_qa_status_context_valid (Some c)" "0 \<le> fd" "0 \<le> flags"
    and "flags AND O_NONBLOCK \<noteq> 0"
  shows "proc17_qa_status_receive fd (Some c) nonblocking flags (Sys_ok datagram # rest) = Some (r, m) \<longleftrightarrow>
    (case (r, m) of
       (RECEIVE_EOF, None) \<Rightarrow> datagram = []
     | (RECEIVE_MESSAGE, Some msg) \<Rightarrow>
         datagram = status_packet c (msg_kind msg) (msg_sequence msg)
         \<and> exact_sequence (msg_kind msg) = msg_sequence msg
     | (RECEIVE_ERROR, None) \<Rightarrow>
         datagram \<noteq> [] \<and> \<not> (\<exists>k. datagram = status_packet c k (exact_sequence k))
     | _ \<Rightarrow> False)"
proof -
  let ?dec = "status_decode (Some (write_at (replicate 185 0) 0 datagram)) (Some c)"
  have rcv: "proc17_qa_status_receive fd (Some c) nonblocking flags (Sys_ok datagram # rest) =
      (if datagram = [] then Some (RECEIVE_EOF, None)
       else if length datagram \<noteq> 184 then Some (RECEIVE_ERROR, None)
       else (case ?dec of None \<Rightarrow> Some (RECEIVE_ERROR, None) | Some msg \<Rightarrow> Some (RECEIVE_MESSAGE, Some msg)))"
    using assms by (simp add: proc17_qa_status_receive_def Let_def)
  have dec: "?dec = Some msg \<longleftrightarrow> exact_sequence (msg_kind msg) = msg_sequence msg
      \<and> datagram = status_packet c (msg_kind msg) (msg_sequence msg)" if "length datagram = 184" for msg
    using that assms(1,2) by (subst status_decode_iff) (simp_all add: write_at_in_range)
  show ?thesis
  proof (cases "length datagram = 184")
    case True
    show ?thesis
    proof (cases ?dec)
      case None
      then have "\<not> (\<exists>k. datagram = status_packet c k (exact_sequence k))"
        using dec [OF True, of "\<lparr>msg_kind = k, msg_sequence = exact_sequence k\<rparr>" for k] by auto
      with None True dec [OF True] show ?thesis
        unfolding rcv by (auto split: proc17_qa_status_receive_result.splits option.splits)
    next
      case (Some msg)
      with True dec [OF True] show ?thesis
        unfolding rcv by (auto split: proc17_qa_status_receive_result.splits option.splits) metis
    qed
  next
    case False
    then have "datagram \<noteq> status_packet c k q" for k q using assms(1) by auto
    with False show ?thesis
      unfolding rcv by (auto split: proc17_qa_status_receive_result.splits option.splits)
  qed
qed

theorem status_receive_cases_witness:
  "proc17_qa_status_receive 5 (Some sample_context) True O_NONBLOCK [Sys_ok (status_packet sample_context 2 2)]
     = Some (RECEIVE_MESSAGE, Some \<lparr>msg_kind = 2, msg_sequence = 2\<rparr>)"
  by (subst status_receive_cases) (simp_all add: sample_context_ok O_NONBLOCK_def exact_sequence_def)

text \<open>The sequence table maps every kind outside the three messages to 0, and both directions of
  the codec test only that table: a packet with an unknown kind and sequence 0 is encoded and
  decoded as a message.\<close>

theorem status_unknown_kind_accepted:
  assumes "context_wf c" "proc17_qa_status_context_valid (Some c)" "kind \<notin> {1, 2, 3}"
    and "length output = PROC17_QA_STATUS_PACKET_BYTES"
  shows "\<exists>packet. proc17_qa_status_encode (Some c) kind 0 (Some output) = Some packet
    \<and> status_decode (Some packet) (Some c) = Some \<lparr>msg_kind = kind, msg_sequence = 0\<rparr>"
  using assms by (auto simp: status_encode_eq status_decode_iff exact_sequence_def)

theorem status_unknown_kind_accepted_witness:
  "\<exists>packet. proc17_qa_status_encode (Some sample_context) 77 0 (Some (replicate 184 0)) = Some packet
    \<and> status_decode (Some packet) (Some sample_context) = Some \<lparr>msg_kind = 77, msg_sequence = 0\<rparr>"
  by (rule status_unknown_kind_accepted) (simp_all add: sample_context_ok)

end
