(* ===== verification/Qa_Stream.thy ===== *)
theory Qa_Stream
  imports Qa_Wire
begin

text \<open>
  The observer of one output stream of the candidate (\<open>native/proc17_qa_stream.c\<close>): it counts every
  byte, hashes the prefix up to the limit, reports the crossing of the limit once, and encodes the
  measurement for the wire.
\<close>

datatype proc17_qa_stream_drain_result =
  DRAIN_ERROR | DRAIN_IDLE | DRAIN_PROGRESS | DRAIN_LIMIT_CROSSED | DRAIN_EOF

definition PROC17_QA_STREAM_READ_BYTES :: nat where [simp]: "PROC17_QA_STREAM_READ_BYTES = 4096"
definition PROC17_QA_STREAM_DRAIN_SLICE_BYTES :: nat where
  [simp]: "PROC17_QA_STREAM_DRAIN_SLICE_BYTES = 65536"

record proc17_qa_stream_measurement =
  sm_observed_bytes :: u64
  sm_hashed_bytes :: u64
  sm_limit_bytes :: u64
  sm_prefix_digest :: bytes
  sm_limit_crossed :: byte
  sm_eof_observed :: byte

record proc17_qa_stream_observer =
  so_observed_bytes :: u64
  so_hashed_bytes :: u64
  so_limit_bytes :: u64
  so_hash :: proc17_sha256
  so_prefix_digest :: bytes
  so_limit_crossed :: byte
  so_eof_observed :: byte
  so_finalized :: byte
  so_failed :: byte

definition stream_measurement_valid :: "proc17_qa_stream_measurement ptr \<Rightarrow> bool" where
  "stream_measurement_valid measurement =
     (case measurement of
        None \<Rightarrow> False
      | Some m \<Rightarrow>
          if sm_limit_bytes m = 0 \<or> sm_eof_observed m \<noteq> 1 \<or> sm_limit_crossed m > 1 then False
          else
            (let expected_hashed = (if sm_observed_bytes m < sm_limit_bytes m
                                    then sm_observed_bytes m else sm_limit_bytes m)
             in sm_hashed_bytes m = expected_hashed
                \<and> (sm_limit_crossed m \<noteq> 0) = (sm_observed_bytes m > sm_limit_bytes m)))"

definition proc17_qa_stream_init :: "u64 \<Rightarrow> proc17_qa_stream_observer option" where
  "proc17_qa_stream_init limit_bytes =
     (if limit_bytes = 0 then None
      else Some \<lparr>so_observed_bytes = 0, so_hashed_bytes = 0, so_limit_bytes = limit_bytes,
                 so_hash = proc17_sha256_init, so_prefix_digest = replicate PROC17_SHA256_BYTES 0,
                 so_limit_crossed = 0, so_eof_observed = 0, so_finalized = 0, so_failed = 0\<rparr>)"

definition proc17_qa_stream_consume ::
  "proc17_qa_stream_observer \<Rightarrow> bytes ptr \<Rightarrow> u64 \<Rightarrow> int \<times> proc17_qa_stream_observer" where
  "proc17_qa_stream_consume observer bytes n =
     (if so_limit_bytes observer = 0 \<or> so_failed observer \<noteq> 0 \<or> so_finalized observer \<noteq> 0
         \<or> so_eof_observed observer \<noteq> 0 \<or> (n \<noteq> 0 \<and> bytes = NULL)
      then (- 1, observer)
      else if n > u64_max - so_observed_bytes observer
              \<or> so_hashed_bytes observer > so_limit_bytes observer
      then (- 1, observer\<lparr>so_failed := 1\<rparr>)
      else
        (let available = so_limit_bytes observer - so_hashed_bytes observer;
             hashed_now = (if n > available then available else n);
             o1 = (case bytes of
                     Some bs \<Rightarrow>
                       if hashed_now \<noteq> 0
                       then observer\<lparr>so_hash := proc17_sha256_update (so_hash observer)
                                                 (take (unat hashed_now) bs),
                                     so_hashed_bytes := so_hashed_bytes observer + hashed_now\<rparr>
                       else observer
                   | None \<Rightarrow> observer);
             o2 = o1\<lparr>so_observed_bytes := so_observed_bytes o1 + n\<rparr>
         in if so_limit_crossed o2 = 0 \<and> so_observed_bytes o2 > so_limit_bytes o2
            then (1, o2\<lparr>so_limit_crossed := 1\<rparr>)
            else (0, o2)))"

text \<open>The read loop.  Each iteration consumes one reply; a positive read is a nonempty list of at
  most 4096 bytes, the empty list is the end of the stream.\<close>

fun drain_loop ::
  "proc17_qa_stream_observer \<Rightarrow> nat \<Rightarrow> bool \<Rightarrow> bytes sys list
   \<Rightarrow> (proc17_qa_stream_drain_result \<times> proc17_qa_stream_observer) option" where
  "drain_loop observer drained_bytes progress [] = None"
| "drain_loop observer drained_bytes progress (Sys_ok buffer # replies) =
     (if buffer \<noteq> []
      then (case proc17_qa_stream_consume observer (Some buffer) (of_nat (length buffer)) of
              (consumed, next) \<Rightarrow>
                if consumed < 0 then Some (DRAIN_ERROR, next)
                else if consumed = 1 then Some (DRAIN_LIMIT_CROSSED, next)
                else if drained_bytes + length buffer \<ge> PROC17_QA_STREAM_DRAIN_SLICE_BYTES
                then Some (DRAIN_PROGRESS, next)
                else drain_loop next (drained_bytes + length buffer) True replies)
      else Some (DRAIN_EOF, observer\<lparr>so_eof_observed := 1\<rparr>))"
| "drain_loop observer drained_bytes progress (Sys_err e # replies) =
     (if e = EINTR then drain_loop observer drained_bytes progress replies
      else if e = EAGAIN then Some (if progress then DRAIN_PROGRESS else DRAIN_IDLE, observer)
      else Some (DRAIN_ERROR, observer\<lparr>so_failed := 1\<rparr>))"

definition proc17_qa_stream_drain_nonblocking ::
  "proc17_qa_stream_observer \<Rightarrow> int \<Rightarrow> int \<Rightarrow> bytes sys list
   \<Rightarrow> (proc17_qa_stream_drain_result \<times> proc17_qa_stream_observer) option" where
  "proc17_qa_stream_drain_nonblocking observer descriptor getfl_reply read_replies =
     (if descriptor < 0 \<or> so_limit_bytes observer = 0 \<or> so_failed observer \<noteq> 0
         \<or> so_finalized observer \<noteq> 0
      then Some (DRAIN_ERROR, observer)
      else if so_eof_observed observer \<noteq> 0 then Some (DRAIN_EOF, observer)
      else if getfl_reply < 0 \<or> getfl_reply AND O_NONBLOCK = 0
      then Some (DRAIN_ERROR, observer\<lparr>so_failed := 1\<rparr>)
      else drain_loop observer 0 False read_replies)"

definition proc17_qa_stream_snapshot ::
  "proc17_qa_stream_observer \<Rightarrow> proc17_qa_stream_measurement option \<times> proc17_qa_stream_observer" where
  "proc17_qa_stream_snapshot observer =
     (if so_limit_bytes observer = 0 \<or> so_failed observer \<noteq> 0 \<or> so_eof_observed observer \<noteq> 1
      then (None, observer)
      else
        (let o1 = (if so_finalized observer = 0
                   then (case proc17_sha256_final (so_hash observer) of
                           (hash, digest) \<Rightarrow>
                             observer\<lparr>so_hash := hash, so_prefix_digest := digest, so_finalized := 1\<rparr>)
                   else observer);
             m = \<lparr>sm_observed_bytes = so_observed_bytes o1, sm_hashed_bytes = so_hashed_bytes o1,
                  sm_limit_bytes = so_limit_bytes o1, sm_prefix_digest = so_prefix_digest o1,
                  sm_limit_crossed = so_limit_crossed o1, sm_eof_observed = so_eof_observed o1\<rparr>
         in (if stream_measurement_valid (Some m) then Some m else None, o1)))"

definition proc17_qa_stream_encode_v1 ::
  "proc17_qa_stream_measurement ptr \<Rightarrow> bytes ptr \<Rightarrow> bytes option" where
  "proc17_qa_stream_encode_v1 measurement output_ptr =
     (case (measurement, output_ptr) of
        (Some m, Some output) \<Rightarrow>
          if \<not> stream_measurement_valid (Some m) then None
          else
            (let o0 = write_at output 0 (replicate PROC17_QA_STREAM_MEASUREMENT_V1_BYTES 0);
                 o1 = proc17_qa_wire_put_u64 o0 0 (sm_observed_bytes m);
                 o2 = proc17_qa_wire_put_u64 o1 8 (sm_hashed_bytes m);
                 o3 = proc17_qa_wire_put_u64 o2 16 (sm_limit_bytes m);
                 o4 = write_at o3 24 (take PROC17_SHA256_BYTES (sm_prefix_digest m));
                 o5 = write_at o4 56 [sm_limit_crossed m];
                 o6 = write_at o5 57 [sm_eof_observed m]
             in if proc17_qa_wire_v1_stream_valid (Some o6) then Some o6 else None)
      | _ \<Rightarrow> None)"

subsection \<open>What the observer knows about the stream\<close>

text \<open>\<open>stream_repr observer limit msg\<close>: the observer has been fed exactly the bytes \<open>msg\<close>.\<close>

definition stream_repr :: "proc17_qa_stream_observer \<Rightarrow> u64 \<Rightarrow> bytes \<Rightarrow> bool" where
  "stream_repr obs limit msg \<longleftrightarrow>
     limit \<noteq> 0 \<and> length msg < 2 ^ 64 \<and>
     so_limit_bytes obs = limit \<and> so_observed_bytes obs = of_nat (length msg) \<and>
     so_hashed_bytes obs = of_nat (min (length msg) (unat limit)) \<and>
     sha_repr (so_hash obs) (take (unat limit) msg) \<and>
     so_limit_crossed obs = (if length msg > unat limit then 1 else 0) \<and>
     so_eof_observed obs = 0 \<and> so_finalized obs = 0 \<and> so_failed obs = 0"

lemma stream_repr_init: "limit \<noteq> 0 \<Longrightarrow> \<exists>obs. proc17_qa_stream_init limit = Some obs \<and> stream_repr obs limit []"
  by (simp add: proc17_qa_stream_init_def stream_repr_def sha_repr_init)

lemma stream_consume_repr:
  assumes r: "stream_repr obs limit msg" and len: "length msg + length bs < 2 ^ 64"
    and step: "proc17_qa_stream_consume obs (Some bs) (of_nat (length bs)) = (c, obs')"
  shows "stream_repr obs' limit (msg @ bs) \<and>
    c = (if length msg \<le> unat limit \<and> unat limit < length (msg @ bs) then 1 else 0)"
proof -
  let ?n = "of_nat (length bs) :: u64"
  define h where "h = min (length msg) (unat limit)"
  define k where "k = min (length bs) (unat limit - h)"
  have n: "unat ?n = length bs" using len by (simp add: unat_of_nat_64)
  have lim: "unat limit < 2 ^ 64" using unsigned_less [of limit, where ?'a = nat] by simp
  have obs: "so_limit_bytes obs = limit" "so_observed_bytes obs = of_nat (length msg)"
    "so_hashed_bytes obs = of_nat h" "limit \<noteq> 0" "so_eof_observed obs = 0" "so_finalized obs = 0"
    "so_failed obs = 0" "sha_repr (so_hash obs) (take (unat limit) msg)"
    using r by (simp_all add: stream_repr_def h_def)
  have hh: "unat (of_nat h :: u64) = h" using lim by (simp add: unat_of_nat_64 h_def)
  have mm: "unat (of_nat (length msg) :: u64) = length msg" using len by (simp add: unat_of_nat_64)
  have hl: "of_nat h \<le> limit" using hh by (simp add: word_le_nat_alt h_def)
  have avail: "unat (limit - of_nat h) = unat limit - h"
    using hl hh by (simp add: unat_sub)
  have no: "\<not> ?n > u64_max - of_nat (length msg)"
    using len n mm by (simp add: word_less_nat_alt unat_sub word_le_nat_alt unat_u64_max)
  have kk: "unat (of_nat k :: u64) = k" using len by (simp add: unat_of_nat_64 k_def)
  have now: "(if ?n > limit - of_nat h then limit - of_nat h else ?n) = of_nat k"
    using n avail kk by (auto simp: k_def min_def word_less_nat_alt word_unat_eq_iff)
  have tk: "take (unat limit) (msg @ bs) = take (unat limit) msg @ take k bs"
    by (cases "length msg \<le> unat limit") (simp_all add: k_def h_def min_def)
  have hash: "sha_repr (if k = 0 then so_hash obs else proc17_sha256_update (so_hash obs) (take k bs))
      (take (unat limit) (msg @ bs))"
    unfolding tk using proc17_sha256_update_repr [OF obs(8), of "take k bs"] obs(8) by auto
  have hk: "h + k = min (length (msg @ bs)) (unat limit)" by (auto simp: h_def k_def min_def)
  have k0: "of_nat k = (0 :: u64) \<longleftrightarrow> k = 0" using kk by (cases k) auto
  have ov: "unat (of_nat (length msg) + ?n) = length msg + length bs"
    using len unat_of_nat_64 [of "length msg + length bs"] by simp
  define o2 where "o2 = obs\<lparr>so_hash := (if k = 0 then so_hash obs
        else proc17_sha256_update (so_hash obs) (take k bs)),
      so_hashed_bytes := of_nat (h + k), so_observed_bytes := of_nat (length (msg @ bs))\<rparr>"
  have gt: "(of_nat (length (msg @ bs)) > limit) = (unat limit < length (msg @ bs))"
    using ov by (simp add: word_less_nat_alt)
  have "proc17_qa_stream_consume obs (Some bs) ?n =
      (if so_limit_crossed o2 = 0 \<and> of_nat (length (msg @ bs)) > limit
       then (1, o2\<lparr>so_limit_crossed := 1\<rparr>) else (0, o2))"
    using now [folded obs(3)]
    by (cases "k = 0")
      (simp_all add: proc17_qa_stream_consume_def obs now no hl [THEN leD] kk k0 Let_def o2_def)
  then show ?thesis
    using step hash hk gt len r obs
    by (auto simp: stream_repr_def o2_def split: if_splits)
qed

text \<open>A sequence of reads: the results of the single \<open>consume\<close> calls and the final observer.\<close>

fun consume_all ::
  "proc17_qa_stream_observer \<Rightarrow> bytes list \<Rightarrow> int list \<times> proc17_qa_stream_observer" where
  "consume_all observer [] = ([], observer)"
| "consume_all observer (chunk # chunks) =
     (case proc17_qa_stream_consume observer (Some chunk) (of_nat (length chunk)) of
        (c, next) \<Rightarrow> (case consume_all next chunks of (cs, final) \<Rightarrow> (c # cs, final)))"

lemma consume_all_repr:
  assumes "stream_repr obs limit msg" "length msg + length (concat chunks) < 2 ^ 64"
    and "consume_all obs chunks = (cs, obs')"
  shows "stream_repr obs' limit (msg @ concat chunks) \<and> set cs \<subseteq> {0, 1} \<and>
    count_list cs 1 = (if length msg \<le> unat limit \<and> unat limit < length (msg @ concat chunks) then 1 else 0)"
  using assms
proof (induction chunks arbitrary: obs msg cs)
  case (Cons chunk chunks)
  obtain c nobs where c: "proc17_qa_stream_consume obs (Some chunk) (of_nat (length chunk)) = (c, nobs)"
    by (cases "proc17_qa_stream_consume obs (Some chunk) (of_nat (length chunk))")
  obtain cs' where cs: "consume_all nobs chunks = (cs', obs')" "cs = c # cs'"
    using Cons.prems(3) c by (auto split: prod.splits)
  have "length msg + length chunk < 2 ^ 64" using Cons.prems(2) by simp
  note st = stream_consume_repr [OF Cons.prems(1) this c]
  have "length (msg @ chunk) + length (concat chunks) < 2 ^ 64" using Cons.prems(2) by simp
  from Cons.IH [OF conjunct1 [OF st] this cs(1)] st cs(2) show ?case
    by auto
qed auto

text \<open>The measurement of a stream with the bytes \<open>msg\<close>.\<close>

definition measured :: "u64 \<Rightarrow> bytes \<Rightarrow> proc17_qa_stream_measurement" where
  "measured limit msg =
     \<lparr>sm_observed_bytes = of_nat (length msg), sm_hashed_bytes = of_nat (min (length msg) (unat limit)),
      sm_limit_bytes = limit, sm_prefix_digest = fips_sha256 (take (unat limit) msg),
      sm_limit_crossed = (if length msg > unat limit then 1 else 0), sm_eof_observed = 1\<rparr>"

lemma measured_valid:
  assumes "limit \<noteq> 0" "length msg < 2 ^ 64"
  shows "stream_measurement_valid (Some (measured limit msg))"
proof -
  have "unat (of_nat (length msg) :: u64) = length msg" using assms(2) by (simp add: unat_of_nat_64)
  then show ?thesis
    using assms(1) by (simp add: stream_measurement_valid_def measured_def word_less_nat_alt min_def Let_def)
qed

lemma stream_snapshot_repr:
  assumes r: "stream_repr obs limit msg"
  shows "\<exists>obs'. proc17_qa_stream_snapshot (obs\<lparr>so_eof_observed := 1\<rparr>) = (Some (measured limit msg), obs')
    \<and> proc17_qa_stream_snapshot obs' = (Some (measured limit msg), obs')"
proof -
  obtain hash digest where f: "proc17_sha256_final (so_hash obs) = (hash, digest)"
    by (cases "proc17_sha256_final (so_hash obs)")
  then have "digest = fips_sha256 (take (unat limit) msg)"
    using proc17_sha256_final_repr [of "so_hash obs" "take (unat limit) msg"] r
    by (simp add: stream_repr_def)
  moreover have "stream_measurement_valid (Some (measured limit msg))"
    using r by (intro measured_valid) (auto simp: stream_repr_def)
  ultimately show ?thesis
    using r f by (simp add: proc17_qa_stream_snapshot_def stream_repr_def Let_def measured_def)
qed

text \<open>C37. Measuring an output stream: an observer fed any sequence of reads and then the end of the
  stream reports the exact number of bytes, the SHA-256 of the prefix up to the limit and whether
  the limit was crossed; a second snapshot reports the same; and exactly one read reports the
  crossing if the stream is longer than the limit, none otherwise.\<close>

theorem stream_measures_output:
  assumes "limit \<noteq> 0" "length (concat chunks) < 2 ^ 64"
  shows "\<exists>obs0 cs obs obs'. proc17_qa_stream_init limit = Some obs0
    \<and> consume_all obs0 chunks = (cs, obs)
    \<and> set cs \<subseteq> {0, 1} \<and> count_list cs 1 = (if unat limit < length (concat chunks) then 1 else 0)
    \<and> proc17_qa_stream_snapshot (obs\<lparr>so_eof_observed := 1\<rparr>)
        = (Some \<lparr>sm_observed_bytes = of_nat (length (concat chunks)),
                sm_hashed_bytes = of_nat (min (length (concat chunks)) (unat limit)),
                sm_limit_bytes = limit,
                sm_prefix_digest = fips_sha256 (take (unat limit) (concat chunks)),
                sm_limit_crossed = (if length (concat chunks) > unat limit then 1 else 0),
                sm_eof_observed = 1\<rparr>, obs')
    \<and> fst (proc17_qa_stream_snapshot obs')
        = fst (proc17_qa_stream_snapshot (obs\<lparr>so_eof_observed := 1\<rparr>))"
proof -
  obtain obs0 where i: "proc17_qa_stream_init limit = Some obs0" "stream_repr obs0 limit []"
    using stream_repr_init [OF assms(1)] by auto
  obtain cs obs where c: "consume_all obs0 chunks = (cs, obs)" by (cases "consume_all obs0 chunks")
  have r: "stream_repr obs limit (concat chunks)" "set cs \<subseteq> {0, 1}"
    "count_list cs 1 = (if unat limit < length (concat chunks) then 1 else 0)"
    using consume_all_repr [OF i(2) _ c] assms(2) by simp_all
  from stream_snapshot_repr [OF r(1)] i(1) c r(2,3) show ?thesis
    by (auto simp: measured_def)
qed

theorem stream_measures_output_witness:
  "\<exists>obs0 cs obs. proc17_qa_stream_init 2 = Some obs0 \<and> consume_all obs0 [[7], [8, 9], [1]] = (cs, obs)
    \<and> count_list cs 1 = 1"
  using stream_measures_output [of 2 "[[7], [8, 9], [1]]"] by auto

subsection \<open>The drain loop\<close>

text \<open>The bytes a list of replies delivers.\<close>

fun delivered :: "bytes sys list \<Rightarrow> bytes" where
  "delivered [] = []"
| "delivered (Sys_ok buffer # replies) = buffer @ delivered replies"
| "delivered (Sys_err _ # replies) = delivered replies"

definition drain_outcome ::
  "proc17_qa_stream_drain_result \<Rightarrow> proc17_qa_stream_observer \<Rightarrow> proc17_qa_stream_observer" where
  "drain_outcome r obs =
     (case r of DRAIN_EOF \<Rightarrow> obs\<lparr>so_eof_observed := 1\<rparr> | DRAIN_ERROR \<Rightarrow> obs\<lparr>so_failed := 1\<rparr> | _ \<Rightarrow> obs)"

lemma drain_loop_repr:
  assumes "stream_repr obs limit msg" "length msg + length (delivered replies) < 2 ^ 64"
    and "drain_loop obs drained progress replies = Some (r, obs')"
  shows "\<exists>fed rest obs0. delivered replies = fed @ rest \<and> stream_repr obs0 limit (msg @ fed)
    \<and> obs' = drain_outcome r obs0
    \<and> (r = DRAIN_LIMIT_CROSSED \<longleftrightarrow> length msg \<le> unat limit \<and> unat limit < length (msg @ fed))"
  using assms
proof (induction obs drained progress replies arbitrary: msg rule: drain_loop.induct)
  case (2 obs drained progress buffer replies)
  show ?case
  proof (cases "buffer = []")
    case True
    with "2.prems" show ?thesis
      by (intro exI [of _ "[]"] exI [of _ "delivered replies"] exI [of _ obs]) (auto simp: drain_outcome_def)
  next
    case False
    obtain c nobs where c: "proc17_qa_stream_consume obs (Some buffer) (of_nat (length buffer)) = (c, nobs)"
      by (cases "proc17_qa_stream_consume obs (Some buffer) (of_nat (length buffer))")
    have "length msg + length buffer < 2 ^ 64" using "2.prems"(2) by simp
    note st = stream_consume_repr [OF "2.prems"(1) this c]
    show ?thesis
    proof (cases "c = 0 \<and> drained + length buffer < 65536")
      case True
      have "length (msg @ buffer) + length (delivered replies) < 2 ^ 64" using "2.prems"(2) by simp
      from "2.IH" [OF False c [symmetric] _ _ _ conjunct1 [OF st] this] True "2.prems"(3) False c
      obtain fed rest obs0 where "delivered replies = fed @ rest" "stream_repr obs0 limit ((msg @ buffer) @ fed)"
        "obs' = drain_outcome r obs0" "r = DRAIN_LIMIT_CROSSED \<longleftrightarrow>
           length (msg @ buffer) \<le> unat limit \<and> unat limit < length ((msg @ buffer) @ fed)"
        by auto
      moreover have "\<not> (length msg \<le> unat limit \<and> unat limit < length (msg @ buffer))"
        using st True by (auto split: if_splits)
      ultimately show ?thesis
        by (intro exI [of _ "buffer @ fed"] exI [of _ rest] exI [of _ obs0]) auto
    next
      case stop: False
      with st False c "2.prems"(3) have "obs' = nobs" "r = (if c = 1 then DRAIN_LIMIT_CROSSED else DRAIN_PROGRESS)"
        by (auto split: if_splits)
      with st show ?thesis
        by (intro exI [of _ buffer] exI [of _ "delivered replies"] exI [of _ "nobs"])
          (auto simp: drain_outcome_def split: if_splits)
    qed
  qed
next
  case (3 obs drained progress e replies)
  show ?case
  proof (cases "e = EINTR")
    case True
    with 3 show ?thesis by auto
  next
    case False
    with "3.prems" show ?thesis
      by (intro exI [of _ "[]"] exI [of _ "delivered replies"] exI [of _ obs])
        (auto simp: drain_outcome_def split: if_splits)
  qed
qed simp

lemma drain_loop_returns:
  "(\<exists>r \<in> set replies. r = Sys_ok [] \<or> (\<exists>e. r = Sys_err e \<and> e \<noteq> EINTR))
   \<or> (drained < 65536 \<and> 65536 \<le> drained + length (delivered replies)) \<Longrightarrow>
     \<exists>r obs'. drain_loop obs drained progress replies = Some (r, obs')"
proof (induction replies arbitrary: obs drained progress)
  case (Cons reply replies)
  show ?case
  proof (cases reply)
    case (Sys_ok buffer)
    obtain c nobs where c: "proc17_qa_stream_consume obs (Some buffer) (of_nat (length buffer)) = (c, nobs)"
      by (cases "proc17_qa_stream_consume obs (Some buffer) (of_nat (length buffer))")
    show ?thesis
    proof (cases "buffer = [] \<or> c < 0 \<or> c = 1 \<or> drained + length buffer \<ge> 65536")
      case True
      then show ?thesis using Sys_ok c by auto
    next
      case False
      then show ?thesis
        using Sys_ok c Cons.prems Cons.IH [of "drained + length buffer" nobs True] by auto
    qed
  next
    case (Sys_err e)
    then show ?thesis using Cons.IH [of drained obs progress] Cons.prems by auto
  qed
qed auto

text \<open>Draining: on an observer that represents the stream so far, one call to drain that meets
  the end of the stream, an error, an empty pipe or 64 KiB of data returns; the bytes it consumed are
  a prefix of what the kernel delivered; the observer then represents the longer stream, marked as
  ended or failed as the result says; and it reports the crossing of the limit exactly when this
  call crossed it.\<close>

theorem stream_drain_correct:
  assumes "stream_repr obs limit msg" "length msg + length (delivered replies) < 2 ^ 64"
    and "0 \<le> fd" "0 \<le> flags" "flags AND O_NONBLOCK \<noteq> 0"
    and "(\<exists>r \<in> set replies. r = Sys_ok [] \<or> (\<exists>e. r = Sys_err e \<and> e \<noteq> EINTR))
         \<or> PROC17_QA_STREAM_DRAIN_SLICE_BYTES \<le> length (delivered replies)"
  shows "\<exists>r obs' fed rest obs0. proc17_qa_stream_drain_nonblocking obs fd flags replies = Some (r, obs')
    \<and> delivered replies = fed @ rest \<and> stream_repr obs0 limit (msg @ fed)
    \<and> obs' = drain_outcome r obs0
    \<and> (r = DRAIN_LIMIT_CROSSED \<longleftrightarrow> length msg \<le> unat limit \<and> unat limit < length (msg @ fed))"
proof -
  have eq: "proc17_qa_stream_drain_nonblocking obs fd flags replies = drain_loop obs 0 False replies"
    using assms(1,3-5) by (simp add: proc17_qa_stream_drain_nonblocking_def stream_repr_def)
  obtain r obs' where d: "drain_loop obs 0 False replies = Some (r, obs')"
    using drain_loop_returns [of replies 0 obs False] assms(6) by auto
  with drain_loop_repr [OF assms(1,2) d] show ?thesis unfolding eq by blast
qed

theorem stream_drain_correct_witness:
  "\<exists>obs r obs' fed rest obs0. proc17_qa_stream_init 2 = Some obs
    \<and> proc17_qa_stream_drain_nonblocking obs 3 O_NONBLOCK [Sys_err EINTR, Sys_ok [1], Sys_err EAGAIN] = Some (r, obs')
    \<and> [1] = fed @ rest \<and> stream_repr obs0 2 fed \<and> obs' = drain_outcome r obs0"
proof -
  obtain obs where "proc17_qa_stream_init 2 = Some obs" "stream_repr obs 2 []"
    using stream_repr_init [of 2] by auto
  with stream_drain_correct [of obs 2 "[]" "[Sys_err EINTR, Sys_ok [1], Sys_err EAGAIN]" 3 O_NONBLOCK]
  show ?thesis by (simp add: O_NONBLOCK_def) blast
qed

subsection \<open>Encoding\<close>

definition stream_bytes :: "proc17_qa_stream_measurement \<Rightarrow> bytes" where
  "stream_bytes m =
     be64 (sm_observed_bytes m) @ be64 (sm_hashed_bytes m) @ be64 (sm_limit_bytes m)
     @ sm_prefix_digest m @ [sm_limit_crossed m, sm_eof_observed m] @ replicate 6 0"

lemma length_stream_bytes: "length (sm_prefix_digest m) = 32 \<Longrightarrow> length (stream_bytes m) = 64"
  by (simp add: stream_bytes_def)

lemma stream_bytes_valid:
  assumes d: "length (sm_prefix_digest m) = 32" and v: "stream_measurement_valid (Some m)"
    and nz: "sm_prefix_digest m \<noteq> replicate 32 0"
  shows "proc17_qa_wire_v1_stream_valid (Some (stream_bytes m))"
proof -
  let ?b = "stream_bytes m"
  have len: "length ?b = 64" using d by (rule length_stream_bytes)
  have sl: "slice 0 8 ?b = be64 (sm_observed_bytes m)" "slice 8 8 ?b = be64 (sm_hashed_bytes m)"
    "slice 16 8 ?b = be64 (sm_limit_bytes m)" "slice 24 32 ?b = sm_prefix_digest m"
    "slice 59 5 ?b = replicate 5 0" "?b ! 56 = sm_limit_crossed m" "?b ! 57 = sm_eof_observed m" "?b ! 58 = 0"
    using d by (simp_all add: stream_bytes_def slice_append_fst slice_append_snd slice_eq_self
        slice_replicate slice_Cons nth_append)
  have "proc17_qa_wire_get_u64 ?b = sm_observed_bytes m"
    using get_u64_slice [of 0 ?b] len sl(1) by (simp add: codec_simps)
  moreover have "sm_limit_crossed m \<le> 1 \<Longrightarrow> sm_limit_crossed m = 0 \<or> sm_limit_crossed m = 1"
    by (simp add: word_le_nat_alt le_Suc_eq word_unat_eq_iff)
  ultimately show ?thesis
    using v nz len sl
    by (auto simp: proc17_qa_wire_v1_stream_valid_def codec_simps Let_def stream_measurement_valid_def
        proc17_qa_wire_boolean_def not_less split: if_splits)
qed

lemma stream_encode_eq:
  assumes d: "length (sm_prefix_digest m) = 32" and v: "stream_measurement_valid (Some m)"
    and out: "length output = 64"
  shows "proc17_qa_stream_encode_v1 (Some m) (Some output) =
    (if proc17_qa_wire_v1_stream_valid (Some (stream_bytes m)) then Some (stream_bytes m) else None)"
proof -
  define o0 where "o0 = write_at output 0 (replicate 64 0)"
  define o1 where "o1 = write_at o0 0 (be64 (sm_observed_bytes m))"
  define o2 where "o2 = write_at o1 8 (be64 (sm_hashed_bytes m))"
  define o3 where "o3 = write_at o2 16 (be64 (sm_limit_bytes m))"
  define o4 where "o4 = write_at o3 24 (sm_prefix_digest m)"
  define o5 where "o5 = write_at o4 56 [sm_limit_crossed m]"
  define o6 where "o6 = write_at o5 57 [sm_eof_observed m]"
  have lens: "length o0 = 64" "length o1 = 64" "length o2 = 64" "length o3 = 64" "length o4 = 64"
    "length o5 = 64" "length o6 = 64"
    using out by (simp_all add: o0_def o1_def o2_def o3_def o4_def o5_def o6_def)
  have sl: "slice 0 8 o6 = be64 (sm_observed_bytes m)" "slice 8 8 o6 = be64 (sm_hashed_bytes m)"
    "slice 16 8 o6 = be64 (sm_limit_bytes m)" "slice 24 32 o6 = sm_prefix_digest m"
    "slice 56 1 o6 = [sm_limit_crossed m]" "slice 57 1 o6 = [sm_eof_observed m]" "slice 58 6 o6 = replicate 6 0"
    using out d by (simp_all add: o0_def o1_def o2_def o3_def o4_def o5_def o6_def buf_simps slice_eq_self)
  have "take 64 o6 = take 8 o6 @ slice 8 8 o6 @ slice 16 8 o6 @ slice 24 32 o6 @ slice 56 1 o6 @ slice 57 1 o6
      @ slice 58 6 o6"
    by (simp add: take_split [of 58 6 64] take_split [of 57 1 58] take_split [of 56 1 57]
        take_split [of 24 32 56] take_split [of 16 8 24] take_split [of 8 8 16])
  then have "o6 = stream_bytes m" using lens(7) sl by (simp add: stream_bytes_def take_eq_slice [of 8])
  then show ?thesis
    using v d unfolding o6_def o5_def o4_def o3_def o2_def o1_def o0_def
    by (simp add: proc17_qa_stream_encode_v1_def Let_def proc17_qa_wire_put_u64_def)
qed

end
