(* ===== verification/Qa_Allocator.thy ===== *)
theory Qa_Allocator
  imports Proc17_Prelude
begin

text \<open>
  The metered allocator of the candidate's Lua state (\<open>native/proc17_qa_allocator.c\<close>) and its shared
  telemetry record.

  The C heap is the list of live blocks, each a pointer with the size stored in its header;
  \<open>malloc\<close> and \<open>realloc\<close> answer with a pointer or \<open>NULL\<close>, and so does the notification callback with
  its return value.  The telemetry page is written by the candidate only and read by the
  controller: the retry loop around the weak compare-exchange in \<open>publish_peak\<close> therefore ends with
  the maximum stored.  On x86-64 the 32-bit and 64-bit atomics are lock-free.
\<close>

definition PROC17_QA_ALLOCATOR_TELEMETRY_VERSION :: u16 where
  [simp]: "PROC17_QA_ALLOCATOR_TELEMETRY_VERSION = 1"
definition PROC17_QA_ALLOCATOR_TELEMETRY_BYTES :: u16 where
  [simp]: "PROC17_QA_ALLOCATOR_TELEMETRY_BYTES = 64"
definition PROC17_QA_ALLOCATOR_TELEMETRY_MAGIC :: u64 where
  [simp]: "PROC17_QA_ALLOCATOR_TELEMETRY_MAGIC = 0x5031375141485031"

record proc17_qa_allocator_telemetry =
  at_magic :: u64
  at_version :: u16
  at_record_bytes :: u16
  at_reserved_header :: u32
  at_ceiling_bytes :: u64
  at_current_bytes :: u64
  at_peak_bytes :: u64
  at_ceiling_denied :: u32
  at_system_allocation_failed :: u32
  at_status_notification_failed :: u32
  at_reserved_flags :: u32
  at_reserved_tail :: u64

record proc17_qa_allocator_snapshot_data =
  as_ceiling_bytes :: u64
  as_current_bytes :: u64
  as_peak_bytes :: u64
  as_ceiling_denied :: byte
  as_system_allocation_failed :: byte
  as_status_notification_failed :: byte

text \<open>\<open>sizeof(union proc17_qa_allocation_header)\<close> on x86-64.\<close>

definition ALLOCATION_HEADER_BYTES :: u64 where
  "ALLOCATION_HEADER_BYTES = 32"

text \<open>The allocator state with the heap it allocates from: the telemetry it points to, whether a
  callback is installed and how often it ran.\<close>

record proc17_qa_allocator_state =
  al_telemetry :: proc17_qa_allocator_telemetry
  al_notify_heap_denied :: bool
  al_notifications :: nat
  al_blocks :: "(nat \<times> u64) list"

definition atomics_lock_free :: "proc17_qa_allocator_telemetry \<Rightarrow> bool" where
  [simp]: "atomics_lock_free telemetry = True"

definition header_valid :: "proc17_qa_allocator_telemetry ptr \<Rightarrow> bool" where
  "header_valid telemetry =
     (case telemetry of
        None \<Rightarrow> False
      | Some t \<Rightarrow>
          at_magic t = PROC17_QA_ALLOCATOR_TELEMETRY_MAGIC
          \<and> at_version t = PROC17_QA_ALLOCATOR_TELEMETRY_VERSION
          \<and> at_record_bytes t = PROC17_QA_ALLOCATOR_TELEMETRY_BYTES
          \<and> at_reserved_header t = 0
          \<and> at_ceiling_bytes t \<noteq> 0
          \<and> at_ceiling_bytes t \<le> u64_max
          \<and> at_reserved_flags t = 0
          \<and> at_reserved_tail t = 0
          \<and> atomics_lock_free t)"

definition proc17_qa_allocator_telemetry_init :: "u64 \<Rightarrow> proc17_qa_allocator_telemetry option" where
  "proc17_qa_allocator_telemetry_init ceiling_bytes =
     (if ceiling_bytes = 0 \<or> ceiling_bytes > u64_max then None
      else
        (let t = \<lparr>at_magic = PROC17_QA_ALLOCATOR_TELEMETRY_MAGIC,
                  at_version = PROC17_QA_ALLOCATOR_TELEMETRY_VERSION,
                  at_record_bytes = PROC17_QA_ALLOCATOR_TELEMETRY_BYTES, at_reserved_header = 0,
                  at_ceiling_bytes = ceiling_bytes, at_current_bytes = 0, at_peak_bytes = 0,
                  at_ceiling_denied = 0, at_system_allocation_failed = 0,
                  at_status_notification_failed = 0, at_reserved_flags = 0, at_reserved_tail = 0\<rparr>
         in if header_valid (Some t) then Some t else None))"

text \<open>\<open>mmap_reply\<close> says whether the mapping succeeded; the second component says whether the mapping
  was undone.\<close>

definition proc17_qa_allocator_telemetry_map ::
  "u64 \<Rightarrow> bool \<Rightarrow> proc17_qa_allocator_telemetry option \<times> bool" where
  "proc17_qa_allocator_telemetry_map ceiling_bytes mmap_reply =
     (if \<not> mmap_reply then (None, False)
      else
        (case proc17_qa_allocator_telemetry_init ceiling_bytes of
           None \<Rightarrow> (None, True)
         | Some t \<Rightarrow> (Some t, False)))"

definition proc17_qa_allocator_telemetry_make_read_only ::
  "proc17_qa_allocator_telemetry ptr \<Rightarrow> int \<Rightarrow> int" where
  "proc17_qa_allocator_telemetry_make_read_only telemetry mprotect_reply =
     (if header_valid telemetry \<and> mprotect_reply = 0 then 0 else - 1)"

definition proc17_qa_allocator_telemetry_unmap ::
  "proc17_qa_allocator_telemetry ptr \<Rightarrow> int \<Rightarrow> int" where
  "proc17_qa_allocator_telemetry_unmap telemetry munmap_reply =
     (if telemetry \<noteq> NULL \<and> munmap_reply = 0 then 0 else - 1)"

definition proc17_qa_allocator_snapshot ::
  "proc17_qa_allocator_telemetry ptr \<Rightarrow> proc17_qa_allocator_snapshot_data option" where
  "proc17_qa_allocator_snapshot telemetry =
     (case telemetry of
        None \<Rightarrow> None
      | Some t \<Rightarrow>
          if \<not> header_valid (Some t) then None
          else
            (let current = at_current_bytes t;
                 peak = at_peak_bytes t;
                 denied = at_ceiling_denied t;
                 system_failed = at_system_allocation_failed t;
                 notification_failed = at_status_notification_failed t
             in if current > peak \<or> peak > at_ceiling_bytes t
                   \<or> denied > 1 \<or> system_failed > 1 \<or> notification_failed > 1
                   \<or> (notification_failed \<noteq> 0 \<and> denied = 0)
                then None
                else Some \<lparr>as_ceiling_bytes = at_ceiling_bytes t, as_current_bytes = current,
                           as_peak_bytes = peak, as_ceiling_denied = ucast denied,
                           as_system_allocation_failed = ucast system_failed,
                           as_status_notification_failed = ucast notification_failed\<rparr>))"

definition proc17_qa_allocator_state_init ::
  "proc17_qa_allocator_telemetry ptr \<Rightarrow> bool \<Rightarrow> proc17_qa_allocator_state option" where
  "proc17_qa_allocator_state_init telemetry notify_heap_denied =
     (case (telemetry, proc17_qa_allocator_snapshot telemetry) of
        (Some t, Some snapshot) \<Rightarrow>
          if as_current_bytes snapshot \<noteq> 0 \<or> as_peak_bytes snapshot \<noteq> 0
             \<or> as_ceiling_denied snapshot \<noteq> 0
             \<or> as_system_allocation_failed snapshot \<noteq> 0
             \<or> as_status_notification_failed snapshot \<noteq> 0
          then None
          else Some \<lparr>al_telemetry = t, al_notify_heap_denied = notify_heap_denied,
                     al_notifications = 0, al_blocks = []\<rparr>
      | _ \<Rightarrow> None)"

definition publish_peak :: "proc17_qa_allocator_telemetry \<Rightarrow> u64 \<Rightarrow> proc17_qa_allocator_telemetry" where
  "publish_peak telemetry value =
     (if at_peak_bytes telemetry < value then telemetry\<lparr>at_peak_bytes := value\<rparr> else telemetry)"

definition mark_ceiling_denied :: "proc17_qa_allocator_state \<Rightarrow> int \<Rightarrow> proc17_qa_allocator_state" where
  "mark_ceiling_denied state notify_reply =
     (let prior = at_ceiling_denied (al_telemetry state);
          marked = state\<lparr>al_telemetry := (al_telemetry state)\<lparr>at_ceiling_denied := 1\<rparr>\<rparr>
      in if prior = 0 \<and> al_notify_heap_denied state
         then
           (let notified = marked\<lparr>al_notifications := al_notifications marked + 1\<rparr>
            in if notify_reply \<noteq> 0
               then notified\<lparr>al_telemetry :=
                      (al_telemetry notified)\<lparr>at_status_notification_failed := 1\<rparr>\<rparr>
               else notified)
         else marked)"

text \<open>
  The allocator.  \<open>None\<close> is undefined behaviour: \<open>pointer\<close> is not a live block.  \<open>reply\<close> is the
  answer of \<open>malloc\<close> or \<open>realloc\<close>; the resulting block list has the header the code writes.
\<close>

definition proc17_qa_lua_allocator ::
  "proc17_qa_allocator_state \<Rightarrow> nat ptr \<Rightarrow> u64 \<Rightarrow> nat ptr \<Rightarrow> int
   \<Rightarrow> (nat ptr \<times> proc17_qa_allocator_state) option" where
  "proc17_qa_lua_allocator state pointer new_size reply notify_reply =
     (if \<not> header_valid (Some (al_telemetry state)) then Some (NULL, state)
      else
        (let telemetry = al_telemetry state;
             current = at_current_bytes telemetry;
             prior_header = (case pointer of None \<Rightarrow> Some 0 | Some p \<Rightarrow> map_of (al_blocks state) p)
         in case prior_header of
              None \<Rightarrow> None
            | Some prior \<Rightarrow>
                if pointer \<noteq> NULL \<and> prior > current
                then Some (NULL, state\<lparr>al_telemetry := telemetry\<lparr>at_system_allocation_failed := 1\<rparr>\<rparr>)
                else
                  (let base = current - prior;
                       others = (case pointer of
                                   None \<Rightarrow> al_blocks state
                                 | Some p \<Rightarrow> filter (\<lambda>b. fst b \<noteq> p) (al_blocks state))
                   in if new_size = 0
                      then
                        (if pointer \<noteq> NULL
                         then Some (NULL, state\<lparr>al_telemetry := telemetry\<lparr>at_current_bytes := base\<rparr>,
                                                al_blocks := others\<rparr>)
                         else Some (NULL, state))
                      else if new_size > at_ceiling_bytes telemetry - base
                              \<or> new_size > u64_max - ALLOCATION_HEADER_BYTES
                      then Some (NULL, mark_ceiling_denied state notify_reply)
                      else
                        (let next_bytes = base + new_size;
                             published = (publish_peak telemetry next_bytes)
                                           \<lparr>at_current_bytes := next_bytes\<rparr>
                         in case reply of
                              None \<Rightarrow>
                                Some (NULL, state\<lparr>al_telemetry :=
                                  published\<lparr>at_system_allocation_failed := 1,
                                            at_current_bytes := current\<rparr>\<rparr>)
                            | Some block \<Rightarrow>
                                Some (Some block, state\<lparr>al_telemetry := published,
                                                        al_blocks := (block, new_size) # others\<rparr>)))))"

subsection \<open>Accounting invariant\<close>

definition live_bytes :: "(nat \<times> u64) list \<Rightarrow> nat" where
  "live_bytes blocks = sum_list (map (\<lambda>b. unat (snd b)) blocks)"

definition allocator_inv :: "proc17_qa_allocator_state \<Rightarrow> bool" where
  "allocator_inv s \<longleftrightarrow>
     (let t = al_telemetry s in
        header_valid (Some t) \<and> distinct (map fst (al_blocks s))
        \<and> unat (at_current_bytes t) = live_bytes (al_blocks s)
        \<and> at_current_bytes t \<le> at_peak_bytes t \<and> at_peak_bytes t \<le> at_ceiling_bytes t
        \<and> at_ceiling_denied t \<in> {0, 1} \<and> at_system_allocation_failed t \<in> {0, 1}
        \<and> at_status_notification_failed t \<in> {0, 1}
        \<and> (at_status_notification_failed t \<noteq> 0 \<longrightarrow> at_ceiling_denied t \<noteq> 0)
        \<and> al_notifications s = (if al_notify_heap_denied s \<and> at_ceiling_denied t = 1 then 1 else 0))"

text \<open>One call of the Lua runtime with the answers of the C library.  A call is possible when its
  pointer is live and the pointer \<open>malloc\<close> or \<open>realloc\<close> returns is not another live block.\<close>

record lua_call =
  call_pointer :: "nat ptr"
  call_new_size :: u64
  call_reply :: "nat ptr"
  call_notify_reply :: int

definition call_possible :: "proc17_qa_allocator_state \<Rightarrow> lua_call \<Rightarrow> bool" where
  "call_possible s c \<longleftrightarrow>
     (case call_pointer c of None \<Rightarrow> True | Some p \<Rightarrow> p \<in> fst ` set (al_blocks s))
     \<and> (case call_reply c of
          None \<Rightarrow> True
        | Some q \<Rightarrow> q \<notin> fst ` set (al_blocks s) \<or> call_pointer c = Some q)"

definition allocator_step :: "proc17_qa_allocator_state \<Rightarrow> lua_call \<Rightarrow> proc17_qa_allocator_state" where
  "allocator_step s c =
     (if call_possible s c
      then (case proc17_qa_lua_allocator s (call_pointer c) (call_new_size c) (call_reply c)
                   (call_notify_reply c) of
              None \<Rightarrow> s
            | Some (_, s') \<Rightarrow> s')
      else s)"

lemma live_bytes_remove:
  "distinct (map fst bs) \<Longrightarrow> map_of bs p = Some n \<Longrightarrow>
     live_bytes bs = live_bytes (filter (\<lambda>b. fst b \<noteq> p) bs) + unat n"
proof (induction bs)
  case (Cons b bs)
  show ?case
  proof (cases "fst b = p")
    case True
    then have "filter (\<lambda>b. fst b \<noteq> p) bs = bs"
      using Cons.prems(1) by (auto simp: filter_id_conv image_iff)
    with True Cons.prems show ?thesis by (cases b) (simp add: live_bytes_def)
  next
    case False
    with Cons show ?thesis by (cases b) (simp add: live_bytes_def)
  qed
qed simp

text \<open>What the code computes before it decides: the header of the block, the bytes of the other
  blocks, and what remains below the ceiling.\<close>

lemma allocator_prior:
  assumes inv: "allocator_inv s" and live: "\<And>p. pointer = Some p \<Longrightarrow> p \<in> fst ` set (al_blocks s)"
  defines "others \<equiv> (case pointer of None \<Rightarrow> al_blocks s | Some p \<Rightarrow> filter (\<lambda>b. fst b \<noteq> p) (al_blocks s))"
  obtains prior where
    "(case pointer of None \<Rightarrow> Some 0 | Some p \<Rightarrow> map_of (al_blocks s) p) = Some prior"
    "prior \<le> at_current_bytes (al_telemetry s)"
    "unat (at_current_bytes (al_telemetry s) - prior) = live_bytes others"
    "unat (at_current_bytes (al_telemetry s)) = live_bytes others + unat prior"
proof (cases pointer)
  case None
  with inv that [of 0] show ?thesis by (simp add: others_def allocator_inv_def Let_def)
next
  case (Some p)
  have d: "distinct (map fst (al_blocks s))" and cur: "unat (at_current_bytes (al_telemetry s)) = live_bytes (al_blocks s)"
    using inv by (simp_all add: allocator_inv_def Let_def)
  obtain prior where p: "map_of (al_blocks s) p = Some prior"
    using live [OF Some] by (metis map_of_eq_None_iff not_Some_eq)
  have sum: "live_bytes (al_blocks s) = live_bytes others + unat prior"
    using live_bytes_remove [OF d p] Some by (simp add: others_def)
  then have le: "prior \<le> at_current_bytes (al_telemetry s)" using cur by (simp add: word_le_nat_alt)
  then have "unat (at_current_bytes (al_telemetry s) - prior) = live_bytes others"
    using sum cur by (simp add: unat_sub)
  with that [of prior] p Some le sum cur show ?thesis by simp
qed

lemma allocator_inv_denied:
  assumes "allocator_inv s"
  shows "allocator_inv (mark_ceiling_denied s n)"
proof -
  have "header_valid (Some (t\<lparr>at_ceiling_denied := d, at_status_notification_failed := f\<rparr>)) = header_valid (Some t)"
    "header_valid (Some (t\<lparr>at_ceiling_denied := d\<rparr>)) = header_valid (Some t)" for t d f
    by (simp_all add: header_valid_def)
  then show ?thesis
    using assms by (auto simp: allocator_inv_def mark_ceiling_denied_def Let_def)
qed

lemma allocator_inv_publish:
  assumes inv: "allocator_inv s" and d: "distinct (map fst blocks)"
    and next_bytes: "unat next_bytes = live_bytes blocks" "next_bytes \<le> at_ceiling_bytes (al_telemetry s)"
  shows "allocator_inv (s\<lparr>al_telemetry := (publish_peak (al_telemetry s) next_bytes)\<lparr>at_current_bytes := next_bytes\<rparr>,
                          al_blocks := blocks\<rparr>)"
proof -
  have "header_valid (Some ((publish_peak t n)\<lparr>at_current_bytes := n\<rparr>)) = header_valid (Some t)" for t n
    by (simp add: header_valid_def publish_peak_def)
  then show ?thesis
    using assms by (auto simp: allocator_inv_def Let_def publish_peak_def not_less)
qed

lemma allocator_inv_failed:
  assumes inv: "allocator_inv s" and "next_bytes \<le> at_ceiling_bytes (al_telemetry s)"
  shows "allocator_inv (s\<lparr>al_telemetry := (publish_peak (al_telemetry s) next_bytes)
           \<lparr>at_current_bytes := next_bytes, at_system_allocation_failed := 1,
            at_current_bytes := at_current_bytes (al_telemetry s)\<rparr>\<rparr>)"
proof -
  have "header_valid (Some ((publish_peak t n)\<lparr>at_system_allocation_failed := 1, at_current_bytes := c\<rparr>))
      = header_valid (Some t)" for t n c
    by (simp add: header_valid_def publish_peak_def)
  then show ?thesis
    using assms by (auto simp: allocator_inv_def Let_def publish_peak_def not_less)
qed

lemma allocator_call:
  assumes inv: "allocator_inv s" and ok: "call_possible s c"
  shows "\<exists>r s'. proc17_qa_lua_allocator s (call_pointer c) (call_new_size c) (call_reply c)
      (call_notify_reply c) = Some (r, s') \<and> allocator_inv s'"
proof -
  let ?t = "al_telemetry s"
  define others where "others = (case call_pointer c of None \<Rightarrow> al_blocks s
    | Some p \<Rightarrow> filter (\<lambda>b. fst b \<noteq> p) (al_blocks s))"
  have live: "p \<in> fst ` set (al_blocks s)" if "call_pointer c = Some p" for p
    using ok that by (simp add: call_possible_def)
  obtain prior where prior: "(case call_pointer c of None \<Rightarrow> Some 0 | Some p \<Rightarrow> map_of (al_blocks s) p) = Some prior"
    and le: "prior \<le> at_current_bytes ?t" and base: "unat (at_current_bytes ?t - prior) = live_bytes others"
    and cur: "unat (at_current_bytes ?t) = live_bytes others + unat prior"
    by (rule allocator_prior [OF inv live, of "call_pointer c", folded others_def])
  have hv: "header_valid (Some ?t)" and pk: "at_current_bytes ?t \<le> at_ceiling_bytes ?t"
    and d: "distinct (map fst (al_blocks s))"
    using inv by (auto simp: allocator_inv_def Let_def)
  have do: "distinct (map fst others)"
    using d by (auto simp: others_def distinct_map_filter split: option.splits)
  define base where "base = at_current_bytes ?t - prior"
  define next_bytes where "next_bytes = base + call_new_size c"
  have cases: "proc17_qa_lua_allocator s (call_pointer c) (call_new_size c) (call_reply c) (call_notify_reply c) =
      (if call_new_size c = 0
       then Some (NULL, if call_pointer c \<noteq> NULL
                        then s\<lparr>al_telemetry := ?t\<lparr>at_current_bytes := base\<rparr>, al_blocks := others\<rparr> else s)
       else if call_new_size c > at_ceiling_bytes ?t - base \<or> call_new_size c > u64_max - ALLOCATION_HEADER_BYTES
       then Some (NULL, mark_ceiling_denied s (call_notify_reply c))
       else (case call_reply c of
               None \<Rightarrow> Some (NULL, s\<lparr>al_telemetry := (publish_peak ?t next_bytes)\<lparr>at_current_bytes := next_bytes,
                                  at_system_allocation_failed := 1, at_current_bytes := at_current_bytes ?t\<rparr>\<rparr>)
             | Some q \<Rightarrow> Some (Some q, s\<lparr>al_telemetry := (publish_peak ?t next_bytes)\<lparr>at_current_bytes := next_bytes\<rparr>,
                                        al_blocks := (q, call_new_size c) # others\<rparr>)))"
    using hv prior le unfolding proc17_qa_lua_allocator_def next_bytes_def base_def others_def
    by (cases "call_pointer c"; cases "call_reply c") (simp_all add: Let_def leD)
  show ?thesis
  proof (cases "call_new_size c = 0")
    case True
    have "allocator_inv (s\<lparr>al_telemetry := ?t\<lparr>at_current_bytes := base\<rparr>, al_blocks := others\<rparr>)"
    proof -
      have "base \<le> at_current_bytes ?t" using base cur by (simp add: base_def word_le_nat_alt)
      moreover have "header_valid (Some (?t\<lparr>at_current_bytes := base\<rparr>))" using hv by (simp add: header_valid_def)
      ultimately show ?thesis using inv do base by (auto simp: allocator_inv_def Let_def base_def)
    qed
    then show ?thesis using True inv cases by simp
  next
    case False
    show ?thesis
    proof (cases "call_new_size c > at_ceiling_bytes ?t - base \<or> call_new_size c > u64_max - ALLOCATION_HEADER_BYTES")
      case True
      then show ?thesis using \<open>call_new_size c \<noteq> 0\<close> cases allocator_inv_denied [OF inv] by simp
    next
      case fits: False
      have "base \<le> at_ceiling_bytes ?t" using base cur pk by (simp add: base_def word_le_nat_alt)
      then have sum: "unat base + unat (call_new_size c) \<le> unat (at_ceiling_bytes ?t)"
        using fits by (auto simp: not_less word_le_nat_alt unat_sub)
      then have nb: "unat next_bytes = unat base + unat (call_new_size c)"
        unfolding next_bytes_def using unsigned_less [of "at_ceiling_bytes ?t", where ?'a = nat]
        by (intro unat_add_lem [THEN iffD1]) simp
      have le: "next_bytes \<le> at_ceiling_bytes ?t" using nb sum by (simp add: word_le_nat_alt)
      have fresh: "q \<notin> fst ` set others" if "call_reply c = Some q" for q
        using ok that by (auto simp: call_possible_def others_def split: option.splits)
      show ?thesis
      proof (cases "call_reply c")
        case None
        then show ?thesis using False fits cases allocator_inv_failed [OF inv le] by simp
      next
        case (Some q)
        have "allocator_inv (s\<lparr>al_telemetry := (publish_peak ?t next_bytes)\<lparr>at_current_bytes := next_bytes\<rparr>,
            al_blocks := (q, call_new_size c) # others\<rparr>)"
          using fresh [OF Some] do nb base le
          by (intro allocator_inv_publish [OF inv]) (simp_all add: live_bytes_def base_def)
        then show ?thesis using Some False fits cases by simp
      qed
    qed
  qed
qed

lemma allocator_inv_step: "allocator_inv s \<Longrightarrow> allocator_inv (allocator_step s c)"
  using allocator_call [of s c] by (auto simp: allocator_step_def)

definition allocator_start :: "u64 \<Rightarrow> bool \<Rightarrow> proc17_qa_allocator_state option" where
  "allocator_start ceiling_bytes notify =
     (case proc17_qa_allocator_telemetry_init ceiling_bytes of
        None \<Rightarrow> None
      | Some t \<Rightarrow> proc17_qa_allocator_state_init (Some t) notify)"

lemma allocator_start_inv:
  "ceiling_bytes \<noteq> 0 \<Longrightarrow> \<exists>s. allocator_start ceiling_bytes notify = Some s \<and> allocator_inv s
     \<and> al_blocks s = [] \<and> at_ceiling_bytes (al_telemetry s) = ceiling_bytes"
  by (simp add: allocator_start_def proc17_qa_allocator_telemetry_init_def header_valid_def Let_def
      proc17_qa_allocator_state_init_def proc17_qa_allocator_snapshot_def allocator_inv_def live_bytes_def
      leD)

lemma allocator_inv_snapshot:
  "allocator_inv s \<Longrightarrow> proc17_qa_allocator_snapshot (Some (al_telemetry s)) \<noteq> None"
  by (auto simp: allocator_inv_def proc17_qa_allocator_snapshot_def Let_def)

text \<open>The allocator of a run, with the heap ceiling of the policy.\<close>

definition allocator_origin :: proc17_qa_allocator_state where
  "allocator_origin = the (allocator_start 67108864 True)"

interpretation allocator: state_machine allocator_origin allocator_step allocator_inv
proof
  show "allocator_inv allocator_origin"
    using allocator_start_inv [of 67108864 True] by (auto simp: allocator_origin_def)
qed (rule allocator_inv_step)

lemma ceiling_kept [simp]:
  "at_ceiling_bytes (al_telemetry (mark_ceiling_denied s r)) = at_ceiling_bytes (al_telemetry s)"
  "at_ceiling_bytes (publish_peak t n) = at_ceiling_bytes t"
  by (simp_all add: mark_ceiling_denied_def publish_peak_def Let_def)

lemma allocator_call_ceiling:
  "proc17_qa_lua_allocator s pointer n reply r = Some (q, s') \<Longrightarrow>
     at_ceiling_bytes (al_telemetry s') = at_ceiling_bytes (al_telemetry s)"
  unfolding proc17_qa_lua_allocator_def Let_def
  by (cases pointer; cases reply) (auto split: if_splits option.splits)

lemma allocator_step_ceiling:
  "at_ceiling_bytes (al_telemetry (allocator_step s c)) = at_ceiling_bytes (al_telemetry s)"
  by (auto simp: allocator_step_def allocator_call_ceiling split: option.split)

lemma allocator_run_ceiling:
  "at_ceiling_bytes (al_telemetry (foldl allocator_step s cs)) = at_ceiling_bytes (al_telemetry s)"
  by (induction cs arbitrary: s) (simp_all add: allocator_step_ceiling)

text \<open>C36. Heap accounting: from a freshly mapped telemetry record with any nonzero ceiling, after any
  sequence of allocator calls on live blocks, failing and refused ones included, the published
  current size is exactly the sum of the live blocks, it never exceeds the published peak, the peak
  never exceeds the ceiling, the controller's snapshot of the record succeeds, and the denial
  callback has run at most once.\<close>

theorem allocator_accounting:
  assumes "ceiling_bytes \<noteq> 0"
  shows "\<exists>s0. allocator_start ceiling_bytes notify = Some s0 \<and>
    (let s = foldl allocator_step s0 calls; t = al_telemetry s
     in unat (at_current_bytes t) = sum_list (map (\<lambda>b. unat (snd b)) (al_blocks s))
        \<and> at_current_bytes t \<le> at_peak_bytes t \<and> at_peak_bytes t \<le> ceiling_bytes
        \<and> proc17_qa_allocator_snapshot (Some t) \<noteq> None \<and> al_notifications s \<le> 1)"
proof -
  obtain s0 where s0: "allocator_start ceiling_bytes notify = Some s0" "allocator_inv s0"
    "at_ceiling_bytes (al_telemetry s0) = ceiling_bytes"
    using allocator_start_inv [OF assms] by blast
  have inv: "allocator_inv (foldl allocator_step s0 calls)"
    by (rule allocator.inv_run [OF s0(2)])
  show ?thesis
    using s0(1,3) inv allocator_inv_snapshot [OF inv] allocator_run_ceiling [of s0 calls]
    by (auto simp: allocator_inv_def live_bytes_def Let_def)
qed

theorem allocator_accounting_witness:
  "\<exists>s0. allocator_start 100 True = Some s0 \<and>
    unat (at_current_bytes (al_telemetry (foldl allocator_step s0
      [\<lparr>call_pointer = None, call_new_size = 40, call_reply = Some 1, call_notify_reply = 0\<rparr>,
       \<lparr>call_pointer = None, call_new_size = 70, call_reply = Some 2, call_notify_reply = 0\<rparr>]))) \<le> 100"
proof -
  from allocator_accounting [of 100 True "[\<lparr>call_pointer = None, call_new_size = 40, call_reply = Some 1,
      call_notify_reply = 0\<rparr>, \<lparr>call_pointer = None, call_new_size = 70, call_reply = Some 2, call_notify_reply = 0\<rparr>]"]
  show ?thesis by (fastforce simp: Let_def word_le_nat_alt)
qed

text \<open>Admission: when the C library can deliver the memory, a request is granted exactly when the
  live bytes of the other blocks plus the request stay within the ceiling (and the request leaves
  room for the header); otherwise it is refused, nothing but the denial flags changes, and the
  blocks survive.\<close>

theorem allocator_admission:
  assumes inv: "allocator_inv s" and ok: "call_possible s \<lparr>call_pointer = pointer, call_new_size = n,
      call_reply = Some q, call_notify_reply = r\<rparr>" and n: "n \<noteq> 0"
  defines "others \<equiv> (case pointer of None \<Rightarrow> al_blocks s | Some p \<Rightarrow> filter (\<lambda>b. fst b \<noteq> p) (al_blocks s))"
  defines "fits \<equiv> live_bytes others + unat n \<le> unat (at_ceiling_bytes (al_telemetry s)) \<and> unat n < 2 ^ 64 - 32"
  shows "\<exists>s'. proc17_qa_lua_allocator s pointer n (Some q) r = Some (if fits then Some q else NULL, s')
    \<and> al_blocks s' = (if fits then (q, n) # others else al_blocks s)
    \<and> (fits \<or> at_ceiling_denied (al_telemetry s') = 1)
    \<and> (fits \<or> at_current_bytes (al_telemetry s') = at_current_bytes (al_telemetry s))"
proof -
  let ?t = "al_telemetry s"
  have live: "\<And>p. pointer = Some p \<Longrightarrow> p \<in> fst ` set (al_blocks s)"
    using ok by (simp add: call_possible_def)
  obtain prior where prior: "(case pointer of None \<Rightarrow> Some 0 | Some p \<Rightarrow> map_of (al_blocks s) p) = Some prior"
    and le: "prior \<le> at_current_bytes ?t" and base: "unat (at_current_bytes ?t - prior) = live_bytes others"
    and cur: "unat (at_current_bytes ?t) = live_bytes others + unat prior"
    unfolding others_def by (rule allocator_prior [OF inv live])
  have hv: "header_valid (Some ?t)" and "at_current_bytes ?t \<le> at_ceiling_bytes ?t"
    using inv by (auto simp: allocator_inv_def Let_def)
  then have "at_current_bytes ?t - prior \<le> at_ceiling_bytes ?t" using base cur by (simp add: word_le_nat_alt)
  moreover have "unat (u64_max - ALLOCATION_HEADER_BYTES) = 2 ^ 64 - 33"
    by (simp add: u64_max_def ALLOCATION_HEADER_BYTES_def)
  ultimately have fits: "(n > at_ceiling_bytes ?t - (at_current_bytes ?t - prior) \<or> n > u64_max - ALLOCATION_HEADER_BYTES)
      \<longleftrightarrow> \<not> fits"
    using base by (auto simp: fits_def word_less_nat_alt unat_sub word_le_nat_alt)
  show ?thesis
    using hv prior le n fits unfolding proc17_qa_lua_allocator_def others_def
    by (cases pointer; cases fits)
      (simp_all add: Let_def leD mark_ceiling_denied_def)
qed

theorem allocator_admission_witness:
  "\<exists>s s'. allocator_start 100 True = Some s
    \<and> proc17_qa_lua_allocator s NULL 101 (Some 1) 0 = Some (NULL, s') \<and> al_blocks s' = []"
proof -
  obtain s where s: "allocator_start 100 True = Some s" "allocator_inv s" "al_blocks s = []"
    "at_ceiling_bytes (al_telemetry s) = 100"
    using allocator_start_inv [of 100 True] by auto
  have "call_possible s \<lparr>call_pointer = None, call_new_size = 101, call_reply = Some 1, call_notify_reply = 0\<rparr>"
    using s(3) by (simp add: call_possible_def)
  from allocator_admission [OF s(2) this] s show ?thesis by (simp add: live_bytes_def) blast
qed

end
