(* ===== verification/Qa_Controller.thy ===== *)
theory Qa_Controller
  imports Qa_Phase
begin

text \<open>
  The candidate controller (\<open>native/proc17_qa_controller.c\<close>): the wall clock and its timer
  descriptor, resource metrics, and the resolution of one observation epoch to a first cause.

  \<open>struct timespec\<close> and \<open>struct timeval\<close> are pairs of integers; a wait status is its 32-bit
  pattern, read by the macros of the Linux C library.
\<close>

definition PROC17_QA_NS_PER_SECOND :: u64 where [simp]: "PROC17_QA_NS_PER_SECOND = 1000000000"
definition PROC17_QA_NS_PER_MS :: u64 where [simp]: "PROC17_QA_NS_PER_MS = 1000000"
definition PROC17_QA_US_PER_SECOND :: int where [simp]: "PROC17_QA_US_PER_SECOND = 1000000"

datatype proc17_qa_epoch_result =
  EPOCH_INVALID | EPOCH_NO_CAUSE | EPOCH_CAUSE_CLAIMED | EPOCH_CAUSE_ALREADY_SET | EPOCH_AMBIGUOUS

record proc17_qa_observation_epoch =
  ep_stdout_limit_crossed :: byte
  ep_stderr_limit_crossed :: byte
  ep_heap_denied :: byte
  ep_wall_timer_expired :: byte
  ep_candidate_terminal :: byte
  ep_wait_status :: u32
  ep_stdout_observed_bytes :: u64
  ep_stderr_observed_bytes :: u64
  ep_heap_peak_bytes :: u64
  ep_wall_limit_ms :: u64

record proc17_qa_candidate_clock =
  ck_timer_descriptor :: int
  ck_started_ns :: u64
  ck_deadline_ns :: u64
  ck_wall_limit_ms :: u64
  ck_armed :: byte
  ck_timer_consumed :: byte

record proc17_qa_candidate_metrics =
  cm_wall_time_ms :: u64
  cm_cpu_user_ms :: u64
  cm_cpu_system_ms :: u64
  cm_max_rss_bytes :: u64

text \<open>The members of \<open>struct rusage\<close> that are read.\<close>

record rusage =
  ru_utime :: "int \<times> int"
  ru_stime :: "int \<times> int"
  ru_maxrss :: int

definition controller_boolean :: "byte \<Rightarrow> bool" where
  "controller_boolean value \<longleftrightarrow> value = 0 \<or> value = 1"

definition monotonic_ns :: "(int \<times> int) sys \<Rightarrow> u64 option" where
  "monotonic_ns clock_gettime_reply =
     (case clock_gettime_reply of
        Sys_err _ \<Rightarrow> None
      | Sys_ok (tv_sec, tv_nsec) \<Rightarrow>
          if tv_sec < 0 \<or> tv_nsec < 0 \<or> tv_nsec \<ge> sint PROC17_QA_NS_PER_SECOND then None
          else
            (let seconds = of_int tv_sec :: u64
             in if seconds > u64_max div PROC17_QA_NS_PER_SECOND then None
                else Some (seconds * PROC17_QA_NS_PER_SECOND + of_int tv_nsec)))"

definition proc17_qa_candidate_clock_init :: proc17_qa_candidate_clock where
  "proc17_qa_candidate_clock_init =
     \<lparr>ck_timer_descriptor = - 1, ck_started_ns = 0, ck_deadline_ns = 0, ck_wall_limit_ms = 0,
      ck_armed = 0, ck_timer_consumed = 0\<rparr>"

text \<open>Arming: the C result, the clock, the absolute expiry handed to \<open>timerfd_settime\<close> (seconds and
  nanoseconds) and the descriptors closed.\<close>

record arm_outcome =
  arm_result :: int
  arm_clock :: proc17_qa_candidate_clock
  arm_timer :: "(int \<times> int) option"
  arm_closed :: "int list"

definition arm_abandon :: "proc17_qa_candidate_clock \<Rightarrow> (int \<times> int) option \<Rightarrow> arm_outcome" where
  "arm_abandon clock timer =
     \<lparr>arm_result = - 1, arm_clock = clock\<lparr>ck_timer_descriptor := - 1\<rparr>, arm_timer = timer,
      arm_closed = [ck_timer_descriptor clock]\<rparr>"

definition proc17_qa_candidate_clock_arm ::
  "proc17_qa_candidate_clock \<Rightarrow> u64 \<Rightarrow> int \<Rightarrow> (int \<times> int) sys \<Rightarrow> int \<Rightarrow> arm_outcome" where
  "proc17_qa_candidate_clock_arm clock wall_limit_ms timerfd_reply clock_reply settime_reply =
     (if ck_timer_descriptor clock \<noteq> - 1 \<or> ck_armed clock \<noteq> 0 \<or> wall_limit_ms = 0
         \<or> wall_limit_ms > u64_max div PROC17_QA_NS_PER_MS
      then \<lparr>arm_result = - 1, arm_clock = clock, arm_timer = None, arm_closed = []\<rparr>
      else
        (let c1 = clock\<lparr>ck_timer_descriptor := timerfd_reply\<rparr>
         in if timerfd_reply < 0
            then \<lparr>arm_result = - 1, arm_clock = c1, arm_timer = None, arm_closed = []\<rparr>
            else
              (case monotonic_ns clock_reply of
                 None \<Rightarrow> arm_abandon c1 None
               | Some started \<Rightarrow>
                   (let c2 = c1\<lparr>ck_started_ns := started\<rparr>;
                        duration_ns = wall_limit_ms * PROC17_QA_NS_PER_MS
                    in if started > u64_max - duration_ns then arm_abandon c2 None
                       else
                         (let c3 = c2\<lparr>ck_deadline_ns := started + duration_ns,
                                      ck_wall_limit_ms := wall_limit_ms\<rparr>;
                              deadline_seconds = ck_deadline_ns c3 div PROC17_QA_NS_PER_SECOND;
                              deadline_time = sint deadline_seconds
                          in if deadline_time < 0 \<or> of_int deadline_time \<noteq> deadline_seconds
                             then arm_abandon c3 None
                             else
                               (let timer = (deadline_time,
                                             sint (ck_deadline_ns c3 mod PROC17_QA_NS_PER_SECOND))
                                in if settime_reply \<noteq> 0 then arm_abandon c3 (Some timer)
                                   else \<lparr>arm_result = 0, arm_clock = c3\<lparr>ck_armed := 1\<rparr>,
                                         arm_timer = Some timer, arm_closed = []\<rparr>))))))"

text \<open>\<open>read\<close> on the timer answers with the number of bytes stored and the expiration count.\<close>

definition proc17_qa_candidate_clock_consume_timer ::
  "proc17_qa_candidate_clock \<Rightarrow> (nat \<times> u64) sys list
   \<Rightarrow> (int \<times> proc17_qa_candidate_clock) option" where
  "proc17_qa_candidate_clock_consume_timer clock read_replies =
     (if ck_armed clock \<noteq> 1 \<or> ck_timer_descriptor clock < 0 \<or> ck_timer_consumed clock \<noteq> 0
      then Some (- 1, clock)
      else
        (case retry_eintr read_replies of
           None \<Rightarrow> None
         | Some (Sys_err e, _) \<Rightarrow> Some (if e = EAGAIN then 0 else - 1, clock)
         | Some (Sys_ok (observed, expirations), _) \<Rightarrow>
             if observed \<noteq> 8 \<or> expirations \<noteq> 1 then Some (- 1, clock)
             else Some (1, clock\<lparr>ck_timer_consumed := 1\<rparr>)))"

definition timeval_ms :: "int \<times> int \<Rightarrow> u64 option" where
  "timeval_ms value =
     (case value of
        (tv_sec, tv_usec) \<Rightarrow>
          if tv_sec < 0 \<or> tv_usec < 0 \<or> tv_usec \<ge> PROC17_QA_US_PER_SECOND then None
          else
            (let seconds = of_int tv_sec :: u64
             in if seconds > u64_max div 1000 then None
                else Some (seconds * 1000 + of_int tv_usec div 1000)))"

definition proc17_qa_candidate_clock_finish ::
  "proc17_qa_candidate_clock \<Rightarrow> rusage \<Rightarrow> (int \<times> int) sys \<Rightarrow> proc17_qa_candidate_metrics option" where
  "proc17_qa_candidate_clock_finish clock usage clock_reply =
     (if ck_armed clock \<noteq> 1 \<or> ck_timer_descriptor clock < 0 \<or> ru_maxrss usage < 0
         \<or> of_int (ru_maxrss usage) > u64_max div 1024
      then None
      else
        (case monotonic_ns clock_reply of
           None \<Rightarrow> None
         | Some finished_ns \<Rightarrow>
             if finished_ns < ck_started_ns clock then None
             else
               (case timeval_ms (ru_utime usage) of
                  None \<Rightarrow> None
                | Some cpu_user_ms \<Rightarrow>
                    (case timeval_ms (ru_stime usage) of
                       None \<Rightarrow> None
                     | Some cpu_system_ms \<Rightarrow>
                         Some \<lparr>cm_wall_time_ms =
                                 (finished_ns - ck_started_ns clock) div PROC17_QA_NS_PER_MS,
                               cm_cpu_user_ms = cpu_user_ms, cm_cpu_system_ms = cpu_system_ms,
                               cm_max_rss_bytes = of_int (ru_maxrss usage) * 1024\<rparr>))))"

definition proc17_qa_candidate_clock_close ::
  "proc17_qa_candidate_clock \<Rightarrow> int \<Rightarrow> int \<times> proc17_qa_candidate_clock \<times> int list" where
  "proc17_qa_candidate_clock_close clock close_reply =
     (if ck_timer_descriptor clock \<ge> 0
      then (if close_reply = 0 then 0 else - 1, clock\<lparr>ck_timer_descriptor := - 1\<rparr>,
            [ck_timer_descriptor clock])
      else (0, clock, []))"

text \<open>The limits handed to \<open>setrlimit\<close>, if any; \<open>RLIM_INFINITY\<close> is the largest 64-bit value.\<close>

definition proc17_qa_candidate_apply_cpu_limit :: "u64 \<Rightarrow> int \<Rightarrow> int \<times> (u64 \<times> u64) option" where
  "proc17_qa_candidate_apply_cpu_limit cpu_limit_ms setrlimit_reply =
     (if cpu_limit_ms = 0 \<or> cpu_limit_ms mod 1000 \<noteq> 0 then (- 1, None)
      else
        (let soft = cpu_limit_ms div 1000
         in if soft = 0 \<or> soft \<ge> u64_max \<or> soft = u64_max then (- 1, None)
            else (if setrlimit_reply = 0 then 0 else - 1, Some (soft, soft + 1))))"

text \<open>The wait-status macros of the Linux C library.\<close>

definition WTERMSIG :: "u32 \<Rightarrow> u32" where
  "WTERMSIG status = status AND 0x7f"

definition WEXITSTATUS :: "u32 \<Rightarrow> u32" where
  "WEXITSTATUS status = drop_bit 8 (status AND 0xff00)"

definition WIFEXITED :: "u32 \<Rightarrow> bool" where
  "WIFEXITED status \<longleftrightarrow> WTERMSIG status = 0"

definition WIFSIGNALED :: "u32 \<Rightarrow> bool" where
  "WIFSIGNALED status \<longleftrightarrow> WTERMSIG status \<noteq> 0 \<and> WTERMSIG status \<noteq> 0x7f"

definition SIGXCPU :: u32 where [simp]: "SIGXCPU = 24"
definition SIGSYS :: u32 where [simp]: "SIGSYS = 31"
definition SIGKILL :: u32 where [simp]: "SIGKILL = 9"

definition proc17_qa_wait_candidate ::
  "int \<Rightarrow> (int \<times> u32 \<times> rusage) sys list \<Rightarrow> (u32 \<times> rusage) option option" where
  "proc17_qa_wait_candidate candidate wait4_replies =
     (if candidate \<le> 0 then Some None
      else
        (case retry_eintr wait4_replies of
           None \<Rightarrow> None
         | Some (Sys_err _, _) \<Rightarrow> Some None
         | Some (Sys_ok (observed, wait_status, usage), _) \<Rightarrow>
             if observed = candidate \<and> (WIFEXITED wait_status \<or> WIFSIGNALED wait_status)
             then Some (Some (wait_status, usage))
             else Some None))"

text \<open>The accumulated cause \<open>(kind, observed_value)\<close>; \<open>None\<close> is a conflict.\<close>

definition add_cause :: "u16 \<Rightarrow> u64 \<Rightarrow> u16 \<times> u64 \<Rightarrow> (u16 \<times> u64) option" where
  "add_cause candidate value acc =
     (case acc of
        (kind, observed_value) \<Rightarrow>
          if kind = 0 then Some (candidate, value)
          else if kind \<noteq> candidate then None
          else if value > observed_value then Some (kind, value)
          else Some (kind, observed_value))"

definition terminal_cause :: "u32 \<Rightarrow> (u16 \<times> u64) option" where
  "terminal_cause wait_status =
     (if WIFEXITED wait_status
      then
        (let exit_code = WEXITSTATUS wait_status
         in Some (if exit_code = 0 then PROC17_QA_RUN_EXPECTED_EXIT else PROC17_QA_RUN_UNEXPECTED_EXIT,
                  ucast exit_code))
      else if WIFSIGNALED wait_status
      then
        (let signal_number = WTERMSIG wait_status
         in Some (if signal_number = SIGXCPU then PROC17_QA_RUN_CPU_LIMIT
                  else if signal_number = SIGSYS then PROC17_QA_RUN_SANDBOX_POLICY_VIOLATION
                  else PROC17_QA_RUN_SIGNAL,
                  ucast signal_number))
      else None)"

definition epoch_wellformed :: "proc17_qa_observation_epoch \<Rightarrow> bool" where
  "epoch_wellformed epoch \<longleftrightarrow>
     \<not> (\<not> controller_boolean (ep_stdout_limit_crossed epoch)
        \<or> \<not> controller_boolean (ep_stderr_limit_crossed epoch)
        \<or> \<not> controller_boolean (ep_heap_denied epoch)
        \<or> \<not> controller_boolean (ep_wall_timer_expired epoch)
        \<or> \<not> controller_boolean (ep_candidate_terminal epoch)
        \<or> (ep_stdout_limit_crossed epoch \<noteq> 0 \<and> ep_stdout_observed_bytes epoch = 0)
        \<or> (ep_stderr_limit_crossed epoch \<noteq> 0 \<and> ep_stderr_observed_bytes epoch = 0)
        \<or> (ep_heap_denied epoch \<noteq> 0 \<and> ep_heap_peak_bytes epoch = 0)
        \<or> (ep_wall_timer_expired epoch \<noteq> 0 \<and> ep_wall_limit_ms epoch = 0)
        \<or> (ep_candidate_terminal epoch \<noteq> 0 \<and> terminal_cause (ep_wait_status epoch) = None))"

definition observe :: "byte \<Rightarrow> u16 \<Rightarrow> u64 \<Rightarrow> u16 \<times> u64 \<Rightarrow> (u16 \<times> u64) option" where
  "observe flag kind value acc = (if flag \<noteq> 0 then add_cause kind value acc else Some acc)"

definition proc17_qa_controller_resolve_epoch ::
  "proc17_qa_phase_state \<Rightarrow> proc17_qa_observation_epoch ptr
   \<Rightarrow> proc17_qa_epoch_result \<times> proc17_qa_phase_state" where
  "proc17_qa_controller_resolve_epoch phase epoch_ptr =
     (case epoch_ptr of
        None \<Rightarrow> (EPOCH_INVALID, phase)
      | Some epoch \<Rightarrow>
          if \<not> epoch_wellformed epoch then (EPOCH_INVALID, phase)
          else if cause_kind (first_cause phase) \<noteq> 0 then (EPOCH_CAUSE_ALREADY_SET, phase)
          else
            (let (terminal_kind, terminal_value) =
                   (case terminal_cause (ep_wait_status epoch) of Some t \<Rightarrow> t | None \<Rightarrow> (0, 0));
                 resolved =
                   Option.bind (observe (ep_stdout_limit_crossed epoch) PROC17_QA_RUN_OUTPUT_LIMIT
                                  (ep_stdout_observed_bytes epoch) (0, 0)) (\<lambda>acc.
                   Option.bind (observe (ep_stderr_limit_crossed epoch) PROC17_QA_RUN_OUTPUT_LIMIT
                                  (ep_stderr_observed_bytes epoch) acc) (\<lambda>acc.
                   Option.bind (observe (ep_heap_denied epoch) PROC17_QA_RUN_MEMORY_LIMIT
                                  (ep_heap_peak_bytes epoch) acc) (\<lambda>acc.
                   Option.bind (observe (ep_wall_timer_expired epoch) PROC17_QA_RUN_WALL_TIMEOUT
                                  (ep_wall_limit_ms epoch) acc) (\<lambda>acc.
                   observe (ep_candidate_terminal epoch) terminal_kind terminal_value acc))))
             in case resolved of
                  None \<Rightarrow> (EPOCH_AMBIGUOUS, phase)
                | Some (kind, observed_value) \<Rightarrow>
                    if kind = 0 then (EPOCH_NO_CAUSE, phase)
                    else
                      (case proc17_qa_phase_claim_first_cause phase kind observed_value of
                         (r, claimed) \<Rightarrow>
                           (if r = PROC17_QA_CAUSE_SET then EPOCH_CAUSE_CLAIMED else EPOCH_INVALID,
                            claimed))))"

subsection \<open>Resolving an epoch\<close>

text \<open>What an epoch observed: the kind each raised flag stands for, with its value.\<close>

definition epoch_observations :: "proc17_qa_observation_epoch \<Rightarrow> (u16 \<times> u64) list" where
  "epoch_observations e =
     (if ep_stdout_limit_crossed e \<noteq> 0 then [(PROC17_QA_RUN_OUTPUT_LIMIT, ep_stdout_observed_bytes e)] else [])
     @ (if ep_stderr_limit_crossed e \<noteq> 0 then [(PROC17_QA_RUN_OUTPUT_LIMIT, ep_stderr_observed_bytes e)] else [])
     @ (if ep_heap_denied e \<noteq> 0 then [(PROC17_QA_RUN_MEMORY_LIMIT, ep_heap_peak_bytes e)] else [])
     @ (if ep_wall_timer_expired e \<noteq> 0 then [(PROC17_QA_RUN_WALL_TIMEOUT, ep_wall_limit_ms e)] else [])
     @ (if ep_candidate_terminal e \<noteq> 0
        then (case terminal_cause (ep_wait_status e) of None \<Rightarrow> [] | Some t \<Rightarrow> [t]) else [])"

fun accumulate :: "(u16 \<times> u64) list \<Rightarrow> u16 \<times> u64 \<Rightarrow> (u16 \<times> u64) option" where
  "accumulate [] acc = Some acc"
| "accumulate ((kind, v) # os) acc = Option.bind (add_cause kind v acc) (accumulate os)"

lemma accumulate_append: "accumulate (xs @ ys) acc = Option.bind (accumulate xs acc) (accumulate ys)"
proof (induction xs arbitrary: acc)
  case (Cons x xs)
  then show ?case by (cases x) (cases "add_cause (fst x) (snd x) acc"; simp)
qed simp

lemma accumulate_started:
  "k \<noteq> 0 \<Longrightarrow> accumulate os (k, v) =
     (if \<forall>x \<in> set os. fst x = k then Some (k, Max (insert v (snd ` set os))) else None)"
proof (induction os arbitrary: v)
  case (Cons x os)
  obtain k' v' where x: "x = (k', v')" by (cases x)
  show ?case
  proof (cases "k' = k")
    case True
    have "Max (insert v (insert v' (snd ` set os))) = Max (insert (max v v') (snd ` set os))"
      by (cases "snd ` set os = {}") (simp_all add: Max_insert max.assoc)
    with True x Cons show ?thesis by (simp add: add_cause_def max_def not_less)
  qed (use x Cons.prems in \<open>simp add: add_cause_def\<close>)
qed simp

lemma accumulate_from_start:
  assumes "\<forall>x \<in> set os. fst x \<noteq> 0"
  shows "accumulate os (0, 0) =
    (if os = [] then Some (0, 0)
     else if \<forall>x \<in> set os. fst x = fst (hd os) then Some (fst (hd os), Max (snd ` set os)) else None)"
proof (cases os)
  case (Cons x xs)
  with assms accumulate_started [of "fst x" xs "snd x"] show ?thesis
    by (cases x) (simp add: add_cause_def)
qed simp

lemma terminal_cause_kind:
  "terminal_cause st = Some (k, v) \<Longrightarrow> k \<noteq> 0 \<and> k \<le> 9"
  by (auto simp: terminal_cause_def Let_def split: if_splits)

lemma epoch_observations_kinds: "x \<in> set (epoch_observations e) \<Longrightarrow> fst x \<noteq> 0 \<and> fst x \<le> 9"
proof -
  have "list_all (\<lambda>x. fst x \<noteq> 0 \<and> fst x \<le> 9) (epoch_observations e)"
    using terminal_cause_kind [of "ep_wait_status e"]
    by (cases "terminal_cause (ep_wait_status e)") (auto simp: epoch_observations_def)
  then show "x \<in> set (epoch_observations e) \<Longrightarrow> fst x \<noteq> 0 \<and> fst x \<le> 9"
    by (auto simp: list_all_iff)
qed

lemma resolve_epoch_eq:
  assumes wf: "epoch_wellformed e" and fresh: "cause_kind (first_cause phase) = 0"
  shows "proc17_qa_controller_resolve_epoch phase (Some e) =
    (case accumulate (epoch_observations e) (0, 0) of
       None \<Rightarrow> (EPOCH_AMBIGUOUS, phase)
     | Some (kind, v) \<Rightarrow>
         if kind = 0 then (EPOCH_NO_CAUSE, phase)
         else (case proc17_qa_phase_claim_first_cause phase kind v of
                 (r, claimed) \<Rightarrow> (if r = PROC17_QA_CAUSE_SET then EPOCH_CAUSE_CLAIMED else EPOCH_INVALID, claimed)))"
proof -
  have ob: "observe f k v acc = accumulate (if f \<noteq> 0 then [(k, v)] else []) acc" for f k v acc
    by (cases "add_cause k v acc") (simp_all add: observe_def)
  show ?thesis
  proof (cases "terminal_cause (ep_wait_status e)")
    case None
    then have "ep_candidate_terminal e = 0" using wf by (auto simp: epoch_wellformed_def)
    with None wf fresh show ?thesis
      unfolding proc17_qa_controller_resolve_epoch_def epoch_observations_def accumulate_append ob
      by (simp add: Let_def)
  next
    case (Some t)
    then show ?thesis
      using wf fresh
      unfolding proc17_qa_controller_resolve_epoch_def epoch_observations_def accumulate_append ob
      by (cases t) (simp add: Let_def)
  qed
qed

text \<open>C33. Resolution of an observation epoch: a malformed epoch is invalid; once a first cause exists
  nothing changes; otherwise the controller reports no cause when no flag is raised, an ambiguity
  when flags of different kinds are raised, and else claims the one kind with the largest value
  observed for it, which becomes the recorded first cause.\<close>

theorem resolve_epoch_verdict:
  assumes "phase_inv phase"
  shows "proc17_qa_controller_resolve_epoch phase (Some e) =
    (let obs = epoch_observations e; kind = fst (hd obs) in
     if \<not> epoch_wellformed e then (EPOCH_INVALID, phase)
     else if cause_kind (first_cause phase) \<noteq> 0 then (EPOCH_CAUSE_ALREADY_SET, phase)
     else if obs = [] then (EPOCH_NO_CAUSE, phase)
     else if \<exists>x \<in> set obs. fst x \<noteq> kind then (EPOCH_AMBIGUOUS, phase)
     else (EPOCH_CAUSE_CLAIMED,
           phase\<lparr>next_sequence := 1,
                 first_cause := \<lparr>cause_kind = kind, cause_monotonic_sequence = 1,
                                 cause_observed_value = Max (snd ` set obs)\<rparr>\<rparr>))"
proof (cases "epoch_wellformed e \<and> cause_kind (first_cause phase) = 0")
  case True
  let ?obs = "epoch_observations e"
  have seq: "next_sequence phase = 0" using assms True by (simp add: phase_inv_def)
  have kinds: "\<forall>x \<in> set ?obs. fst x \<noteq> 0" "?obs \<noteq> [] \<Longrightarrow> fst (hd ?obs) \<noteq> 0 \<and> fst (hd ?obs) \<le> 9"
    using epoch_observations_kinds [of _ e] hd_in_set [of ?obs] by blast+
  have claim: "proc17_qa_phase_claim_first_cause phase kind v =
      (1, phase\<lparr>next_sequence := 1, first_cause := \<lparr>cause_kind = kind, cause_monotonic_sequence = 1,
                                   cause_observed_value = v\<rparr>\<rparr>)" if "kind \<noteq> 0" "kind \<le> 9" for kind v
    using that seq True by (simp add: proc17_qa_phase_claim_first_cause_def u64_max_def leD)
  have eq: "proc17_qa_controller_resolve_epoch phase (Some e) = (case accumulate ?obs (0, 0) of
       None \<Rightarrow> (EPOCH_AMBIGUOUS, phase)
     | Some (kind, v) \<Rightarrow>
         if kind = 0 then (EPOCH_NO_CAUSE, phase)
         else (case proc17_qa_phase_claim_first_cause phase kind v of
                 (r, claimed) \<Rightarrow> (if r = PROC17_QA_CAUSE_SET then EPOCH_CAUSE_CLAIMED else EPOCH_INVALID, claimed)))"
    using True by (intro resolve_epoch_eq) simp_all
  consider "?obs = []" | "?obs \<noteq> []" "\<exists>x \<in> set ?obs. fst x \<noteq> fst (hd ?obs)"
    | "?obs \<noteq> []" "\<forall>x \<in> set ?obs. fst x = fst (hd ?obs)" by blast
  then show ?thesis
  proof cases
    case 1
    then show ?thesis using True eq by simp
  next
    case 2
    then have "\<not> (\<forall>x \<in> set ?obs. fst x = fst (hd ?obs))" by blast
    then have "accumulate ?obs (0, 0) = None"
      unfolding accumulate_from_start [OF kinds(1)] using 2(1) by (simp only: if_False)
    then show ?thesis using True 2 eq by (simp add: Let_def)
  next
    case 3
    let ?kind = "fst (hd ?obs)" and ?v = "Max (snd ` set ?obs)"
    have acc: "accumulate ?obs (0, 0) = Some (?kind, ?v)"
      unfolding accumulate_from_start [OF kinds(1)] if_not_P [OF 3(1)] if_P [OF 3(2)] by (rule refl)
    have k: "?kind \<noteq> 0" "?kind \<le> 9" using kinds(2) [OF 3(1)] by simp_all
    have "proc17_qa_controller_resolve_epoch phase (Some e) = (EPOCH_CAUSE_CLAIMED,
        phase\<lparr>next_sequence := 1, first_cause := \<lparr>cause_kind = ?kind, cause_monotonic_sequence = 1,
                                                 cause_observed_value = ?v\<rparr>\<rparr>)"
      unfolding eq acc option.case prod.case if_not_P [OF k(1)] claim [OF k] by simp
    moreover have "\<not> \<not> epoch_wellformed e" "\<not> cause_kind (first_cause phase) \<noteq> 0"
      "\<not> (\<exists>x \<in> set ?obs. fst x \<noteq> ?kind)" using True 3(2) by auto
    ultimately show ?thesis unfolding Let_def using 3(1) by (simp only: if_False simp_thms)
  qed
qed (auto simp: proc17_qa_controller_resolve_epoch_def Let_def)

theorem resolve_epoch_verdict_witness:
  "fst (proc17_qa_controller_resolve_epoch proc17_qa_phase_init
     (Some \<lparr>ep_stdout_limit_crossed = 1, ep_stderr_limit_crossed = 0, ep_heap_denied = 0,
            ep_wall_timer_expired = 1, ep_candidate_terminal = 0, ep_wait_status = 0,
            ep_stdout_observed_bytes = 5, ep_stderr_observed_bytes = 0, ep_heap_peak_bytes = 0,
            ep_wall_limit_ms = 3\<rparr>)) = EPOCH_AMBIGUOUS"
  by (subst resolve_epoch_verdict [OF phase_inv_init])
    (simp add: epoch_wellformed_def controller_boolean_def epoch_observations_def
      proc17_qa_phase_init_def no_cause_def)

subsection \<open>The candidate clock\<close>

text \<open>The monotonic clock reading is exact below the last representable second: for a normalised
  time of fewer than 18446744073 seconds the result is seconds times \<open>10^9\<close> plus nanoseconds, with
  no wrap-around.\<close>

theorem monotonic_ns_exact:
  assumes "0 \<le> sec" "sec < 18446744073" "0 \<le> nsec" "nsec < 1000000000"
  shows "\<exists>t. monotonic_ns (Sys_ok (sec, nsec)) = Some t \<and> unat t = nat sec * 1000000000 + nat nsec"
proof -
  let ?s = "of_int sec :: u64"
  have s: "unat ?s = nat sec" "unat (of_int nsec :: u64) = nat nsec"
    using assms by (simp_all add: unat_of_int_u64)
  have "nat sec \<le> 18446744072" "nat nsec \<le> 999999999" using assms by simp_all
  then have b: "nat sec * 1000000000 + nat nsec < 2 ^ 64" by simp
  have p: "unat (?s * 1000000000) = nat sec * 1000000000"
    using unat_mult_bound [of ?s 1000000000] s(1) b by simp
  have "unat (?s * 1000000000 + of_int nsec) = nat sec * 1000000000 + nat nsec"
    using unat_add_bound [of "?s * 1000000000" "of_int nsec"] p s(2) b by simp
  moreover have "\<not> ?s > u64_max div 1000000000"
    using assms s(1) by (simp add: word_less_nat_alt u64_max_div)
  ultimately show ?thesis using assms by (simp add: monotonic_ns_def Let_def)
qed

theorem monotonic_ns_exact_witness:
  "\<exists>t. monotonic_ns (Sys_ok (7, 5)) = Some t \<and> unat t = nat 7 * 1000000000 + nat 5"
  by (rule monotonic_ns_exact) simp_all

text \<open>The overflow guard of the clock reading admits the second 18446744073, at which the addition
  of the nanoseconds wraps: a later time is reported as a small one.\<close>

theorem monotonic_ns_wraps:
  "monotonic_ns (Sys_ok (18446744073, 709551616)) = Some 0"
  by (simp add: monotonic_ns_def Let_def u64_max_def word_less_nat_alt)

text \<open>Arming the candidate clock on a fresh clock.  If it succeeds, the clock owns the timer
  descriptor, the deadline is the start plus the limit without wrap-around, and the timer was set to
  exactly that deadline.  If it fails, the clock owns no descriptor, is not armed, and a descriptor
  that had been created was closed exactly once.\<close>

theorem clock_arm_correct:
  fixes fd settime_reply :: int and clock_reply :: "(int \<times> int) sys"
  assumes limit: "limit \<noteq> 0" "limit \<le> u64_max div PROC17_QA_NS_PER_MS"
  defines "out \<equiv> proc17_qa_candidate_clock_arm proc17_qa_candidate_clock_init limit fd clock_reply settime_reply"
  shows "if arm_result out = 0
    then 0 \<le> fd \<and> ck_timer_descriptor (arm_clock out) = fd \<and> arm_closed out = [] \<and> ck_armed (arm_clock out) = 1
      \<and> monotonic_ns clock_reply = Some (ck_started_ns (arm_clock out))
      \<and> unat (ck_deadline_ns (arm_clock out)) = unat (ck_started_ns (arm_clock out)) + unat limit * 1000000
      \<and> arm_timer out = Some (int (unat (ck_deadline_ns (arm_clock out)) div 1000000000),
                             int (unat (ck_deadline_ns (arm_clock out)) mod 1000000000))
    else ck_timer_descriptor (arm_clock out) < 0 \<and> ck_armed (arm_clock out) = 0
      \<and> arm_closed out = (if 0 \<le> fd then [fd] else [])"
proof (cases "fd < 0 \<or> monotonic_ns clock_reply = None")
  case True
  then show ?thesis
    using limit by (auto simp: out_def proc17_qa_candidate_clock_arm_def proc17_qa_candidate_clock_init_def
        arm_abandon_def Let_def not_less split: option.splits)
next
  case False
  then obtain started where st: "monotonic_ns clock_reply = Some started" "0 \<le> fd" by auto
  let ?d = "limit * PROC17_QA_NS_PER_MS" and ?clock = "\<lparr>ck_timer_descriptor = fd, ck_started_ns = started,
      ck_deadline_ns = started + limit * 1000000, ck_wall_limit_ms = limit, ck_armed = 0, ck_timer_consumed = 0\<rparr>"
  have lim: "unat limit * 1000000 < 2 ^ 64" using limit(2) by (simp add: word_le_nat_alt u64_max_div)
  then have d: "unat (limit * 1000000) = unat limit * 1000000" using unat_mult_bound [of limit 1000000] by simp
  show ?thesis
  proof (cases "started > u64_max - ?d")
    case True
    then show ?thesis
      using st limit by (simp add: out_def proc17_qa_candidate_clock_arm_def proc17_qa_candidate_clock_init_def
          arm_abandon_def Let_def leD)
  next
    case fits: False
    then have "unat started + unat limit * 1000000 < 2 ^ 64"
      using d unat_sub [OF u64_le_max, of "limit * 1000000"] lim
      by (simp add: not_less word_le_nat_alt unat_u64_max)
    then have dl: "unat (started + limit * 1000000) = unat started + unat limit * 1000000"
      using unat_add_bound [of started "limit * 1000000"] d by simp
    let ?dl = "started + limit * 1000000"
    have sec: "sint (?dl div 1000000000) = int (unat ?dl div 1000000000)"
      using unsigned_less [of ?dl, where ?'a = nat] by (subst sint_small) (simp_all add: unat_div)
    have nsec: "sint (?dl mod 1000000000) = int (unat ?dl mod 1000000000)"
      by (subst sint_small) (simp_all add: unat_mod)
    have out: "out = (if settime_reply \<noteq> 0 then arm_abandon ?clock (Some (sint (?dl div 1000000000), sint (?dl mod 1000000000)))
        else \<lparr>arm_result = 0, arm_clock = ?clock\<lparr>ck_armed := 1\<rparr>,
              arm_timer = Some (sint (?dl div 1000000000), sint (?dl mod 1000000000)), arm_closed = []\<rparr>)"
      using st limit fits sec
      by (simp add: out_def proc17_qa_candidate_clock_arm_def proc17_qa_candidate_clock_init_def Let_def leD)
    show ?thesis unfolding out using st sec nsec dl by (simp add: arm_abandon_def)
  qed
qed

theorem clock_arm_correct_witness:
  "unat (ck_deadline_ns (arm_clock (proc17_qa_candidate_clock_arm proc17_qa_candidate_clock_init 30000 9
     (Sys_ok (2, 5)) 0))) = 32000000005"
proof -
  have m: "monotonic_ns (Sys_ok (2, 5)) = Some 2000000005"
    by (simp add: monotonic_ns_def Let_def u64_max_def word_less_nat_alt)
  have r: "arm_result (proc17_qa_candidate_clock_arm proc17_qa_candidate_clock_init 30000 9 (Sys_ok (2, 5)) 0) = 0"
    by (simp add: proc17_qa_candidate_clock_arm_def proc17_qa_candidate_clock_init_def m Let_def u64_max_def
        word_less_nat_alt)
  have "(30000 :: u64) \<le> u64_max div PROC17_QA_NS_PER_MS" by (simp add: u64_max_def word_le_nat_alt)
  from clock_arm_correct [OF _ this, of 9 "Sys_ok (2, 5)" 0] r m show ?thesis by simp
qed

end
