(* ===== verification/Qa_Policy.thy ===== *)
theory Qa_Policy
  imports Proc17_Prelude
begin

text \<open>
  The isolation policy (\<open>native/proc17_qa_policy.h\<close>): the resource ceilings of one run and the
  feature bits a probe of the host has to establish.
\<close>

definition PROC17_QA_SETUP_GRACE_MS :: u64 where [simp]: "PROC17_QA_SETUP_GRACE_MS = 5000"
definition PROC17_QA_STACK_BYTES :: u64 where [simp]: "PROC17_QA_STACK_BYTES = 8388608"
definition PROC17_QA_WALL_TIME_MS :: u64 where [simp]: "PROC17_QA_WALL_TIME_MS = 30000"
definition PROC17_QA_CPU_TIME_MS :: u64 where [simp]: "PROC17_QA_CPU_TIME_MS = 20000"
definition PROC17_QA_ADDRESS_SPACE_BYTES :: u64 where
  [simp]: "PROC17_QA_ADDRESS_SPACE_BYTES = 268435456"
definition PROC17_QA_RUNTIME_HEAP_BYTES :: u64 where
  [simp]: "PROC17_QA_RUNTIME_HEAP_BYTES = 67108864"
definition PROC17_QA_MAX_PROCESSES :: u64 where [simp]: "PROC17_QA_MAX_PROCESSES = 1"
definition PROC17_QA_MAX_OPEN_FILES :: u64 where [simp]: "PROC17_QA_MAX_OPEN_FILES = 64"
definition PROC17_QA_MAX_FILE_BYTES :: u64 where [simp]: "PROC17_QA_MAX_FILE_BYTES = 16777216"
definition PROC17_QA_SCRATCH_BYTES :: u64 where [simp]: "PROC17_QA_SCRATCH_BYTES = 67108864"
definition PROC17_QA_SCRATCH_ENTRIES :: u64 where [simp]: "PROC17_QA_SCRATCH_ENTRIES = 4096"
definition PROC17_QA_SCRATCH_MAX_DEPTH :: u64 where [simp]: "PROC17_QA_SCRATCH_MAX_DEPTH = 64"
definition PROC17_QA_STDOUT_BYTES :: u64 where [simp]: "PROC17_QA_STDOUT_BYTES = 1048576"
definition PROC17_QA_STDERR_BYTES :: u64 where [simp]: "PROC17_QA_STDERR_BYTES = 1048576"

datatype proc17_qa_probe_feature =
  FEATURE_STATIC_LUA | FEATURE_NAMESPACES | FEATURE_ID_MAP | FEATURE_PRIVATE_MOUNTS
| FEATURE_SOURCE_READ_ONLY | FEATURE_SCRATCH_BOUNDED | FEATURE_PIVOT_ROOT | FEATURE_FRESH_LUA
| FEATURE_SECCOMP | FEATURE_PROCESS_DENIAL | FEATURE_EXEC_DENIAL | FEATURE_NETWORK_DENIAL
| FEATURE_TIMER_PIDFD | FEATURE_OUTPUT_PIPE | FEATURE_COMPLETE_REAP
| FEATURE_DETACHED_SOURCE_STAGING

fun feature_bit :: "proc17_qa_probe_feature \<Rightarrow> nat" where
  "feature_bit FEATURE_STATIC_LUA = 0"
| "feature_bit FEATURE_NAMESPACES = 1"
| "feature_bit FEATURE_ID_MAP = 2"
| "feature_bit FEATURE_PRIVATE_MOUNTS = 3"
| "feature_bit FEATURE_SOURCE_READ_ONLY = 4"
| "feature_bit FEATURE_SCRATCH_BOUNDED = 5"
| "feature_bit FEATURE_PIVOT_ROOT = 6"
| "feature_bit FEATURE_FRESH_LUA = 7"
| "feature_bit FEATURE_SECCOMP = 8"
| "feature_bit FEATURE_PROCESS_DENIAL = 9"
| "feature_bit FEATURE_EXEC_DENIAL = 10"
| "feature_bit FEATURE_NETWORK_DENIAL = 11"
| "feature_bit FEATURE_TIMER_PIDFD = 12"
| "feature_bit FEATURE_OUTPUT_PIPE = 13"
| "feature_bit FEATURE_COMPLETE_REAP = 14"
| "feature_bit FEATURE_DETACHED_SOURCE_STAGING = 15"

definition feature_mask :: "proc17_qa_probe_feature \<Rightarrow> u32" where
  "feature_mask f = push_bit (feature_bit f) 1"

definition PROC17_QA_REQUIRED_PROBE_FEATURES :: u32 where
  "PROC17_QA_REQUIRED_PROBE_FEATURES =
     foldl (OR) 0 (map feature_mask
       [FEATURE_STATIC_LUA, FEATURE_NAMESPACES, FEATURE_ID_MAP, FEATURE_PRIVATE_MOUNTS,
        FEATURE_SOURCE_READ_ONLY, FEATURE_SCRATCH_BOUNDED, FEATURE_PIVOT_ROOT, FEATURE_FRESH_LUA,
        FEATURE_SECCOMP, FEATURE_PROCESS_DENIAL, FEATURE_EXEC_DENIAL, FEATURE_NETWORK_DENIAL,
        FEATURE_TIMER_PIDFD, FEATURE_OUTPUT_PIPE, FEATURE_COMPLETE_REAP,
        FEATURE_DETACHED_SOURCE_STAGING])"

lemma required_features_mask: "PROC17_QA_REQUIRED_PROBE_FEATURES = 0xffff"
  by (simp add: PROC17_QA_REQUIRED_PROBE_FEATURES_def feature_mask_def push_bit_eq_mult)

end
