(* ===== verification/Qa_Scratch.thy ===== *)
theory Qa_Scratch
  imports Qa_Wire Qa_Policy "HOL-Library.Multiset"
begin

text \<open>
  The scratch inventory (\<open>native/proc17_qa_scratch.c\<close>): capture of the initial scratch layout, the
  final walk that counts entries and regular bytes under the policy limits, and the wire codec of
  the measurement.

  The file system is not part of the program: each directory scan takes the answers the kernel gives
  while it runs.  A scanned directory is a tree of such answers (\<open>scan_dir\<close>): whether \<open>fdopendir\<close>
  succeeds, the entries \<open>readdir\<close> returns with the answers to the calls made for each of them,
  whether \<open>readdir\<close> ends with an error, and the result of \<open>closedir\<close>.
\<close>

datatype proc17_qa_scratch_result = SCRATCH_INVALID | SCRATCH_COMPLETE | SCRATCH_AMBIGUOUS

record proc17_qa_scratch_identity =
  sid_device :: u64
  sid_inode :: u64
  sid_mode :: u32

record proc17_qa_scratch_baseline =
  sb_root :: proc17_qa_scratch_identity
  sb_home :: proc17_qa_scratch_identity
  sb_temporary :: proc17_qa_scratch_identity
  sb_captured :: byte

record proc17_qa_scratch_measurement =
  sc_stored_regular_bytes :: u64
  sc_stored_entries :: u64
  sc_limit_bytes :: u64
  sc_limit_entries :: u64
  sc_byte_capacity_exhausted :: byte
  sc_entry_capacity_exhausted :: byte
  sc_inventory_complete :: byte

text \<open>The members of \<open>struct stat\<close> that are read.\<close>

record scratch_stat =
  st_dev :: u64
  st_ino :: u64
  st_mode :: u32
  st_size :: int

text \<open>The walk state, with the number of descriptors the walk has open (what it opened and was given,
  less what it closed).\<close>

record walk_state =
  ws_measurement :: proc17_qa_scratch_measurement
  ws_home_seen :: byte
  ws_temporary_seen :: byte
  ws_open :: int

text \<open>The guard of \<open>open_beneath\<close>; the last argument is the answer of \<open>openat2\<close>.\<close>

definition open_beneath :: "int \<Rightarrow> bytes ptr \<Rightarrow> int \<Rightarrow> int" where
  "open_beneath directory_descriptor name openat2_reply =
     (case name of
        None \<Rightarrow> - 1
      | Some n \<Rightarrow> if directory_descriptor < 0 \<or> c_strlen n = 0 then - 1 else openat2_reply)"

definition identity_from_descriptor :: "int \<Rightarrow> scratch_stat sys \<Rightarrow> proc17_qa_scratch_identity option" where
  "identity_from_descriptor descriptor fstat_reply =
     (if descriptor < 0 then None
      else
        (case fstat_reply of
           Sys_err _ \<Rightarrow> None
         | Sys_ok st \<Rightarrow> Some \<lparr>sid_device = st_dev st, sid_inode = st_ino st, sid_mode = st_mode st\<rparr>))"

definition same_identity :: "proc17_qa_scratch_identity \<Rightarrow> proc17_qa_scratch_identity \<Rightarrow> bool" where
  "same_identity left right \<longleftrightarrow>
     sid_device left = sid_device right \<and> sid_inode left = sid_inode right
     \<and> sid_mode left = sid_mode right"

definition close_directory :: "int \<Rightarrow> int \<Rightarrow> int" where
  "close_directory result closedir_reply = (if closedir_reply \<noteq> 0 \<and> result = 0 then - 1 else result)"

definition dot_name :: "bytes \<Rightarrow> bool" where
  "dot_name name \<longleftrightarrow> name = ascii ''.'' \<or> name = ascii ''..''"

subsection \<open>The initial layout\<close>

text \<open>A flat scan: the answers to \<open>openat2\<close>, \<open>fdopendir\<close>, \<open>readdir\<close> (names, then whether it ended with an
  error) and \<open>closedir\<close>.\<close>

record flat_scan =
  fs_open_reply :: int
  fs_opendir_ok :: bool
  fs_names :: "bytes list"
  fs_read_error :: bool
  fs_closedir_reply :: int

fun empty_loop :: "bytes list \<Rightarrow> bool \<Rightarrow> int" where
  "empty_loop [] read_error = (if read_error then - 1 else 0)"
| "empty_loop (name # names) read_error =
     (if \<not> dot_name name then - 1 else empty_loop names read_error)"

definition directory_is_empty :: "int \<Rightarrow> flat_scan \<Rightarrow> int" where
  "directory_is_empty descriptor scan =
     (if open_beneath descriptor (Some (ascii ''.'')) (fs_open_reply scan) < 0 then - 1
      else if \<not> fs_opendir_ok scan then - 1
      else close_directory (empty_loop (fs_names scan) (fs_read_error scan)) (fs_closedir_reply scan))"

definition capture_initial_directory ::
  "int \<Rightarrow> bytes \<Rightarrow> int \<Rightarrow> scratch_stat sys \<Rightarrow> flat_scan \<Rightarrow> int \<Rightarrow> proc17_qa_scratch_identity option" where
  "capture_initial_directory root_descriptor name open_reply fstat_reply scan close_reply =
     (let descriptor = open_beneath root_descriptor (Some name) open_reply
      in if descriptor < 0 then None
         else
           (case identity_from_descriptor descriptor fstat_reply of
              None \<Rightarrow> None
            | Some identity \<Rightarrow>
                if \<not> S_ISDIR (sid_mode identity) \<or> sid_mode identity AND 0xfff \<noteq> 0x1c0
                   \<or> directory_is_empty descriptor scan \<noteq> 0
                then None
                else if close_reply \<noteq> 0 then None
                else Some identity))"

text \<open>The loop over the root: the result and the bits \<open>seen\<close>.\<close>

fun root_loop :: "bytes list \<Rightarrow> bool \<Rightarrow> u32 \<Rightarrow> int \<times> u32" where
  "root_loop [] read_error seen = (if read_error then - 1 else 0, seen)"
| "root_loop (name # names) read_error seen =
     (if dot_name name then root_loop names read_error seen
      else if name = ascii ''home'' \<and> seen AND 1 = 0 then root_loop names read_error (seen OR 1)
      else if name = ascii ''tmp'' \<and> seen AND 2 = 0 then root_loop names read_error (seen OR 2)
      else (- 1, seen))"

definition initial_root_is_exact :: "int \<Rightarrow> flat_scan \<Rightarrow> int" where
  "initial_root_is_exact root_descriptor scan =
     (if open_beneath root_descriptor (Some (ascii ''.'')) (fs_open_reply scan) < 0 then - 1
      else if \<not> fs_opendir_ok scan then - 1
      else
        (case root_loop (fs_names scan) (fs_read_error scan) 0 of
           (result, seen) \<Rightarrow>
             close_directory (if seen \<noteq> 3 then - 1 else result) (fs_closedir_reply scan)))"

text \<open>The answers to the calls made for one initial directory.\<close>

record initial_replies =
  ir_open_reply :: int
  ir_fstat_reply :: "scratch_stat sys"
  ir_scan :: flat_scan
  ir_close_reply :: int

definition proc17_qa_scratch_capture_baseline ::
  "int \<Rightarrow> scratch_stat sys \<Rightarrow> flat_scan \<Rightarrow> initial_replies \<Rightarrow> initial_replies
   \<Rightarrow> proc17_qa_scratch_baseline option" where
  "proc17_qa_scratch_capture_baseline root_descriptor root_fstat root_scan home tmp =
     (if root_descriptor < 0 then None
      else
        (case identity_from_descriptor root_descriptor root_fstat of
           None \<Rightarrow> None
         | Some root \<Rightarrow>
             if \<not> S_ISDIR (sid_mode root) \<or> initial_root_is_exact root_descriptor root_scan \<noteq> 0
             then None
             else
               (case capture_initial_directory root_descriptor (ascii ''home'') (ir_open_reply home)
                       (ir_fstat_reply home) (ir_scan home) (ir_close_reply home) of
                  None \<Rightarrow> None
                | Some home_identity \<Rightarrow>
                    (case capture_initial_directory root_descriptor (ascii ''tmp'') (ir_open_reply tmp)
                            (ir_fstat_reply tmp) (ir_scan tmp) (ir_close_reply tmp) of
                       None \<Rightarrow> None
                     | Some temporary_identity \<Rightarrow>
                         Some \<lparr>sb_root = root, sb_home = home_identity,
                               sb_temporary = temporary_identity, sb_captured = 1\<rparr>))))"

subsection \<open>The final walk\<close>

definition count_candidate_entry ::
  "proc17_qa_scratch_measurement \<Rightarrow> proc17_qa_scratch_measurement option" where
  "count_candidate_entry m =
     (if sc_stored_entries m = u64_max \<or> sc_stored_entries m + 1 > sc_limit_entries m then None
      else Some (m\<lparr>sc_stored_entries := sc_stored_entries m + 1\<rparr>))"

definition count_regular_bytes ::
  "proc17_qa_scratch_measurement \<Rightarrow> int \<Rightarrow> proc17_qa_scratch_measurement option" where
  "count_regular_bytes m bytes =
     (if bytes < 0 \<or> bytes > uint u64_max then None
      else
        (let amount = of_int bytes :: u64
         in if amount > u64_max - sc_stored_regular_bytes m
               \<or> sc_stored_regular_bytes m + amount > sc_limit_bytes m
            then None
            else Some (m\<lparr>sc_stored_regular_bytes := sc_stored_regular_bytes m + amount\<rparr>)))"

text \<open>An entry: its name and the answers to \<open>openat2(O_PATH)\<close>, the two \<open>fstat\<close> calls on the object, its
  \<open>close\<close>, \<open>openat2\<close> and \<open>fstat\<close> of the child directory, and the scan of that directory.\<close>

datatype scan_dir =
  Scan_dir bool "scan_entry list" bool int
and scan_entry =
  Scan_entry bytes int "scratch_stat sys" "scratch_stat sys" int int "scratch_stat sys" scan_dir

text \<open>The baseline check for one entry: \<open>None\<close> is a failed check, otherwise whether the entry is one
  of the two baseline directories.\<close>

definition check_baseline ::
  "proc17_qa_scratch_baseline \<Rightarrow> u64 \<Rightarrow> bytes \<Rightarrow> proc17_qa_scratch_identity \<Rightarrow> walk_state
   \<Rightarrow> bool option \<times> walk_state" where
  "check_baseline baseline parent_depth name identity state =
     (if parent_depth = 0 \<and> name = ascii ''home''
      then
        (let s = state\<lparr>ws_home_seen := ws_home_seen state + 1\<rparr>
         in (if ws_home_seen s \<noteq> 1 \<or> \<not> same_identity identity (sb_home baseline) then None
             else Some True, s))
      else if parent_depth = 0 \<and> name = ascii ''tmp''
      then
        (let s = state\<lparr>ws_temporary_seen := ws_temporary_seen state + 1\<rparr>
         in (if ws_temporary_seen s \<noteq> 1 \<or> \<not> same_identity identity (sb_temporary baseline) then None
             else Some True, s))
      else (Some False, state))"

definition opened :: "walk_state \<Rightarrow> walk_state" where
  "opened state = state\<lparr>ws_open := ws_open state + 1\<rparr>"

definition closed :: "walk_state \<Rightarrow> walk_state" where
  "closed state = state\<lparr>ws_open := ws_open state - 1\<rparr>"

fun walk_directory ::
  "proc17_qa_scratch_baseline \<Rightarrow> scan_dir \<Rightarrow> u64 \<Rightarrow> walk_state \<Rightarrow> int \<times> walk_state"
and walk_entries ::
  "proc17_qa_scratch_baseline \<Rightarrow> scan_entry list \<Rightarrow> bool \<Rightarrow> u64 \<Rightarrow> walk_state \<Rightarrow> int \<times> walk_state"
where
  "walk_directory baseline (Scan_dir opendir_ok entries read_error closedir_reply) parent_depth state =
     (if \<not> opendir_ok then (- 1, closed state)
      else
        (case walk_entries baseline entries read_error parent_depth state of
           (result, s) \<Rightarrow> (close_directory result closedir_reply, closed s)))"
| "walk_entries baseline [] read_error parent_depth state = (if read_error then - 1 else 0, state)"
| "walk_entries baseline
     (Scan_entry name open_reply first_fstat second_fstat close_reply child_open child_fstat child
      # entries) read_error parent_depth state =
     (if dot_name name then walk_entries baseline entries read_error parent_depth state
      else if parent_depth = u64_max then (- 1, state)
      else if parent_depth + 1 > PROC17_QA_SCRATCH_MAX_DEPTH then (- 1, state)
      else if open_beneath 0 (Some name) open_reply < 0 then (- 1, state)
      else
        (case (identity_from_descriptor open_reply first_fstat, second_fstat) of
           (Some identity, Sys_ok status) \<Rightarrow>
             (case check_baseline baseline parent_depth name identity (opened state) of
                (None, s1) \<Rightarrow> (- 1, closed s1)
              | (Some baseline_entry, s1) \<Rightarrow>
                  (case (if baseline_entry then Some (ws_measurement s1)
                         else count_candidate_entry (ws_measurement s1)) of
                     None \<Rightarrow> (- 1, closed s1)
                   | Some m1 \<Rightarrow>
                       (let s2 = s1\<lparr>ws_measurement := m1\<rparr>
                        in if S_ISREG (st_mode status)
                           then
                             (case (if baseline_entry then None
                                    else count_regular_bytes m1 (st_size status)) of
                                None \<Rightarrow> (- 1, closed s2)
                              | Some m2 \<Rightarrow>
                                  (let s3 = closed (s2\<lparr>ws_measurement := m2\<rparr>)
                                   in if close_reply \<noteq> 0 then (- 1, s3)
                                      else walk_entries baseline entries read_error parent_depth s3))
                           else if S_ISDIR (st_mode status)
                           then
                             (if open_beneath 0 (Some name) child_open < 0 then (- 1, s2)
                              else
                                (case identity_from_descriptor child_open child_fstat of
                                   None \<Rightarrow> (- 1, closed (opened s2))
                                 | Some opened_identity \<Rightarrow>
                                     if \<not> same_identity identity opened_identity
                                     then (- 1, closed (opened s2))
                                     else if close_reply \<noteq> 0
                                     then (- 1, closed (closed (opened s2)))
                                     else
                                       (case walk_directory baseline child (parent_depth + 1)
                                               (closed (opened s2)) of
                                          (result, s3) \<Rightarrow>
                                            if result \<noteq> 0 then (- 1, s3)
                                            else walk_entries baseline entries read_error
                                                   parent_depth s3)))
                           else (- 1, closed s2))))
         | _ \<Rightarrow> (- 1, closed (opened state))))"

definition scratch_measurement_valid :: "proc17_qa_scratch_measurement ptr \<Rightarrow> bool" where
  "scratch_measurement_valid measurement =
     (case measurement of
        None \<Rightarrow> False
      | Some m \<Rightarrow>
          sc_limit_bytes m \<noteq> 0 \<and> sc_limit_entries m \<noteq> 0
          \<and> sc_stored_regular_bytes m \<le> sc_limit_bytes m
          \<and> sc_stored_entries m \<le> sc_limit_entries m
          \<and> sc_byte_capacity_exhausted m \<le> 1
          \<and> sc_entry_capacity_exhausted m \<le> 1
          \<and> sc_inventory_complete m = 1)"

text \<open>The answers the final measurement gets: \<open>fstat\<close> of the root, \<open>openat2\<close> and the scan of the root,
  and the free blocks and files \<open>fstatvfs\<close> reports.\<close>

record final_replies =
  fr_root_fstat :: "scratch_stat sys"
  fr_open_reply :: int
  fr_scan :: scan_dir
  fr_capacity :: "(u64 \<times> u64) sys"

definition walk_start :: "u64 \<Rightarrow> u64 \<Rightarrow> walk_state" where
  "walk_start limit_bytes limit_entries =
     \<lparr>ws_measurement = \<lparr>sc_stored_regular_bytes = 0, sc_stored_entries = 0,
                        sc_limit_bytes = limit_bytes, sc_limit_entries = limit_entries,
                        sc_byte_capacity_exhausted = 0, sc_entry_capacity_exhausted = 0,
                        sc_inventory_complete = 0\<rparr>,
      ws_home_seen = 0, ws_temporary_seen = 0, ws_open = 1\<rparr>"

definition proc17_qa_scratch_measure_final ::
  "int \<Rightarrow> proc17_qa_scratch_baseline ptr \<Rightarrow> u64 \<Rightarrow> u64 \<Rightarrow> final_replies
   \<Rightarrow> proc17_qa_scratch_result \<times> proc17_qa_scratch_measurement option" where
  "proc17_qa_scratch_measure_final root_descriptor baseline_ptr limit_bytes limit_entries replies =
     (case baseline_ptr of
        None \<Rightarrow> (SCRATCH_INVALID, None)
      | Some baseline \<Rightarrow>
          if root_descriptor < 0 \<or> sb_captured baseline \<noteq> 1 \<or> limit_bytes = 0 \<or> limit_entries = 0
          then (SCRATCH_INVALID, None)
          else
            (case identity_from_descriptor root_descriptor (fr_root_fstat replies) of
               None \<Rightarrow> (SCRATCH_AMBIGUOUS, None)
             | Some root_identity \<Rightarrow>
                 if \<not> same_identity root_identity (sb_root baseline) then (SCRATCH_AMBIGUOUS, None)
                 else if open_beneath root_descriptor (Some (ascii ''.'')) (fr_open_reply replies) < 0
                 then (SCRATCH_AMBIGUOUS, None)
                 else
                   (case walk_directory baseline (fr_scan replies) 0
                           (walk_start limit_bytes limit_entries) of
                      (result, state) \<Rightarrow>
                        if result \<noteq> 0 \<or> ws_home_seen state \<noteq> 1 \<or> ws_temporary_seen state \<noteq> 1
                        then (SCRATCH_AMBIGUOUS, None)
                        else
                          (case fr_capacity replies of
                             Sys_err _ \<Rightarrow> (SCRATCH_AMBIGUOUS, None)
                           | Sys_ok (bavail, favail) \<Rightarrow>
                               if bavail = u64_max \<or> favail = u64_max then (SCRATCH_AMBIGUOUS, None)
                               else
                                 (let observed = (ws_measurement state)
                                        \<lparr>sc_byte_capacity_exhausted := (if bavail = 0 then 1 else 0),
                                         sc_entry_capacity_exhausted := (if favail = 0 then 1 else 0),
                                         sc_inventory_complete := 1\<rparr>
                                  in if \<not> scratch_measurement_valid (Some observed)
                                     then (SCRATCH_AMBIGUOUS, None)
                                     else (SCRATCH_COMPLETE, Some observed))))))"

definition proc17_qa_scratch_encode_v1 ::
  "proc17_qa_scratch_measurement ptr \<Rightarrow> bytes ptr \<Rightarrow> bytes option" where
  "proc17_qa_scratch_encode_v1 measurement output_ptr =
     (case (measurement, output_ptr) of
        (Some m, Some output) \<Rightarrow>
          if \<not> scratch_measurement_valid (Some m) then None
          else
            (let o0 = write_at output 0 (replicate PROC17_QA_SCRATCH_MEASUREMENT_V1_BYTES 0);
                 o1 = proc17_qa_wire_put_u64 o0 0 (sc_stored_regular_bytes m);
                 o2 = proc17_qa_wire_put_u64 o1 8 (sc_stored_entries m);
                 o3 = proc17_qa_wire_put_u64 o2 16 (sc_limit_bytes m);
                 o4 = proc17_qa_wire_put_u64 o3 24 (sc_limit_entries m);
                 o5 = write_at o4 32 [sc_byte_capacity_exhausted m];
                 o6 = write_at o5 33 [sc_entry_capacity_exhausted m];
                 o7 = write_at o6 34 [sc_inventory_complete m]
             in if proc17_qa_wire_v1_scratch_valid (Some o7) then Some o7 else None)
      | _ \<Rightarrow> None)"

definition proc17_qa_scratch_decode_v1 :: "bytes ptr \<Rightarrow> proc17_qa_scratch_measurement option" where
  "proc17_qa_scratch_decode_v1 input_ptr =
     (case input_ptr of
        None \<Rightarrow> None
      | Some input \<Rightarrow>
          if \<not> proc17_qa_wire_v1_scratch_valid (Some input) then None
          else
            (let decoded = \<lparr>sc_stored_regular_bytes = proc17_qa_wire_get_u64 input,
                            sc_stored_entries = proc17_qa_wire_get_u64 (drop 8 input),
                            sc_limit_bytes = proc17_qa_wire_get_u64 (drop 16 input),
                            sc_limit_entries = proc17_qa_wire_get_u64 (drop 24 input),
                            sc_byte_capacity_exhausted = input ! 32,
                            sc_entry_capacity_exhausted = input ! 33,
                            sc_inventory_complete = input ! 34\<rparr>
             in if scratch_measurement_valid (Some decoded) then Some decoded else None))"

subsection \<open>What a completed walk has seen\<close>

text \<open>The objects below a scanned directory: their number, the sum of the sizes of the regular files,
  and the height of the tree.\<close>

fun dir_entries :: "scan_dir \<Rightarrow> nat" and list_entries :: "scan_entry list \<Rightarrow> nat" where
  "dir_entries (Scan_dir _ entries _ _) = list_entries entries"
| "list_entries [] = 0"
| "list_entries (Scan_entry name _ _ status _ _ _ child # entries) =
     (if dot_name name then 0
      else 1 + (case status of
                  Sys_ok st \<Rightarrow> if \<not> S_ISREG (st_mode st) \<and> S_ISDIR (st_mode st) then dir_entries child else 0
                | Sys_err _ \<Rightarrow> 0))
     + list_entries entries"

fun dir_bytes :: "scan_dir \<Rightarrow> nat" and list_bytes :: "scan_entry list \<Rightarrow> nat" where
  "dir_bytes (Scan_dir _ entries _ _) = list_bytes entries"
| "list_bytes [] = 0"
| "list_bytes (Scan_entry name _ _ status _ _ _ child # entries) =
     (if dot_name name then 0
      else (case status of
              Sys_ok st \<Rightarrow> if S_ISREG (st_mode st) then nat (st_size st)
                          else if S_ISDIR (st_mode st) then dir_bytes child else 0
            | Sys_err _ \<Rightarrow> 0))
     + list_bytes entries"

fun dir_height :: "scan_dir \<Rightarrow> nat" and list_height :: "scan_entry list \<Rightarrow> nat" where
  "dir_height (Scan_dir _ entries _ _) = list_height entries"
| "list_height [] = 0"
| "list_height (Scan_entry name _ _ status _ _ _ child # entries) =
     max (if dot_name name then 0
          else 1 + (case status of
                      Sys_ok st \<Rightarrow> if \<not> S_ISREG (st_mode st) \<and> S_ISDIR (st_mode st) then dir_height child else 0
                    | Sys_err _ \<Rightarrow> 0))
         (list_height entries)"

lemma count_candidate_entry_Some:
  "count_candidate_entry m = Some m' \<Longrightarrow>
     m' = m\<lparr>sc_stored_entries := sc_stored_entries m + 1\<rparr>
     \<and> unat (sc_stored_entries m + 1) = unat (sc_stored_entries m) + 1
     \<and> sc_stored_entries m + 1 \<le> sc_limit_entries m"
  by (auto simp: count_candidate_entry_def not_less u64_inc split: if_splits)

lemma count_regular_bytes_Some:
  assumes "count_regular_bytes m n = Some m'"
  shows "m' = m\<lparr>sc_stored_regular_bytes := sc_stored_regular_bytes m + of_int n\<rparr>
     \<and> unat (sc_stored_regular_bytes m + of_int n) = unat (sc_stored_regular_bytes m) + nat n
     \<and> sc_stored_regular_bytes m + of_int n \<le> sc_limit_bytes m"
proof -
  have n: "0 \<le> n" "n < 2 ^ 64"
    and g: "\<not> of_int n > u64_max - sc_stored_regular_bytes m"
    and m': "m' = m\<lparr>sc_stored_regular_bytes := sc_stored_regular_bytes m + of_int n\<rparr>"
    and l: "sc_stored_regular_bytes m + of_int n \<le> sc_limit_bytes m"
    using assms by (auto simp: count_regular_bytes_def u64_max_def Let_def not_less
        unsigned_minus_1_eq_mask mask_eq_exp_minus_1 split: if_splits)
  have u: "unat (of_int n :: u64) = nat n" by (rule unat_of_int_u64 [OF n])
  have "unat (of_int n :: u64) \<le> unat u64_max - unat (sc_stored_regular_bytes m)"
    using g unat_sub [OF u64_le_max, of "sc_stored_regular_bytes m"] by (simp add: not_less word_le_nat_alt)
  moreover have "unat (sc_stored_regular_bytes m) \<le> unat u64_max" using u64_le_max word_le_nat_alt by blast
  ultimately have "unat (sc_stored_regular_bytes m) + unat (of_int n :: u64) < 2 ^ 64"
    by (simp add: unat_u64_max)
  then show ?thesis
    using m' l u unat_add_bound [of "sc_stored_regular_bytes m" "of_int n"] by simp
qed

definition seen :: "walk_state \<Rightarrow> nat" where
  "seen s = unat (ws_home_seen s) + unat (ws_temporary_seen s)"

lemma byte_inc_one: "(b :: byte) + 1 = 1 \<Longrightarrow> unat (b + 1) = unat b + 1"
  by simp

lemma check_baseline_Some:
  assumes "check_baseline baseline depth name identity s = (Some be, s1)"
  shows "ws_measurement s1 = ws_measurement s \<and> ws_open s1 = ws_open s
    \<and> seen s1 = seen s + (if be then 1 else 0)"
  using assms by (auto simp: check_baseline_def seen_def Let_def split: if_splits)

lemma walk_entries_Cons_success:
  assumes "walk_entries baseline (Scan_entry name open_reply st1 st2 close_reply child_open child_st child # entries)
      read_error depth s = (0, s')" "\<not> dot_name name"
  obtains identity status be s1 m1 where
    "depth \<noteq> u64_max" "depth + 1 \<le> 64" "st2 = Sys_ok status"
    "check_baseline baseline depth name identity (opened s) = (Some be, s1)"
    "(if be then Some (ws_measurement s1) else count_candidate_entry (ws_measurement s1)) = Some m1"
    "S_ISREG (st_mode status) \<and> \<not> be \<and> (\<exists>m2. count_regular_bytes m1 (st_size status) = Some m2
        \<and> walk_entries baseline entries read_error depth (closed (s1\<lparr>ws_measurement := m2\<rparr>)) = (0, s'))
     \<or> \<not> S_ISREG (st_mode status) \<and> S_ISDIR (st_mode status)
        \<and> (\<exists>s3. walk_directory baseline child (depth + 1) (closed (opened (s1\<lparr>ws_measurement := m1\<rparr>))) = (0, s3)
            \<and> walk_entries baseline entries read_error depth s3 = (0, s'))"
  using assms
  by (auto simp: Let_def not_less split: if_splits option.splits prod.splits sys.splits)

text \<open>The effect of a successful walk on the counters.\<close>

definition walked :: "nat \<Rightarrow> nat \<Rightarrow> int \<Rightarrow> walk_state \<Rightarrow> walk_state \<Rightarrow> bool" where
  "walked entries bytes open_change s s' \<longleftrightarrow>
     (let m = ws_measurement s; m' = ws_measurement s' in
        sc_limit_bytes m' = sc_limit_bytes m \<and> sc_limit_entries m' = sc_limit_entries m
        \<and> unat (sc_stored_entries m') + seen s' = unat (sc_stored_entries m) + seen s + entries
        \<and> unat (sc_stored_regular_bytes m') = unat (sc_stored_regular_bytes m) + bytes
        \<and> (sc_stored_entries m \<le> sc_limit_entries m \<longrightarrow> sc_stored_entries m' \<le> sc_limit_entries m)
        \<and> (sc_stored_regular_bytes m \<le> sc_limit_bytes m \<longrightarrow> sc_stored_regular_bytes m' \<le> sc_limit_bytes m)
        \<and> ws_open s' = ws_open s + open_change)"

lemma walked_refl: "walked 0 0 0 s s"
  by (simp add: walked_def Let_def)

lemma walked_trans:
  "walked e b c s t \<Longrightarrow> walked e' b' c' t u \<Longrightarrow> walked (e + e') (b + b') (c + c') s u"
  by (auto simp: walked_def Let_def)

lemma walked_fields [simp]:
  "walked e b c s (closed t) = walked e b (c + 1) s t"
  "walked e b c s (opened t) = walked e b (c - 1) s t"
  by (auto simp: walked_def Let_def closed_def opened_def seen_def)

lemma walked_entry:
  assumes "check_baseline baseline depth name identity (opened s) = (Some be, s1)"
    and "(if be then Some (ws_measurement s1) else count_candidate_entry (ws_measurement s1)) = Some m1"
  shows "walked 1 0 1 s (s1\<lparr>ws_measurement := m1\<rparr>)"
proof -
  have cb: "ws_measurement s1 = ws_measurement s" "ws_open s1 = ws_open s + 1"
    "seen s1 = seen s + (if be then 1 else 0)"
    using check_baseline_Some [OF assms(1)] by (simp_all add: opened_def seen_def)
  show ?thesis
  proof (cases be)
    case True
    then show ?thesis using assms(2) cb by (simp add: walked_def Let_def seen_def)
  next
    case False
    then have "count_candidate_entry (ws_measurement s) = Some m1" using assms(2) cb by simp
    from count_candidate_entry_Some [OF this] False cb show ?thesis
      by (simp add: walked_def Let_def seen_def)
  qed
qed

lemma walked_bytes:
  assumes "count_regular_bytes (ws_measurement s) n = Some m2"
  shows "walked 0 (nat n) 0 s (s\<lparr>ws_measurement := m2\<rparr>)"
  using count_regular_bytes_Some [OF assms] by (simp add: walked_def Let_def seen_def)

lemma depth_step: "depth \<noteq> u64_max \<Longrightarrow> depth + 1 \<le> 64 \<Longrightarrow> unat depth + 1 = unat (depth + 1) \<and> unat depth + 1 \<le> 64"
  using u64_inc [of depth] by (simp add: word_le_nat_alt)

lemma walk_counts:
  "walk_directory baseline d depth s = (0, s') \<Longrightarrow>
     walked (dir_entries d) (dir_bytes d) (- 1) s s' \<and> (dir_height d = 0 \<or> unat depth + dir_height d \<le> 64)"
  "walk_entries baseline es read_error depth s = (0, s') \<Longrightarrow>
     walked (list_entries es) (list_bytes es) 0 s s' \<and> (list_height es = 0 \<or> unat depth + list_height es \<le> 64)"
proof (induction d and es arbitrary: depth s s' and read_error depth s s'
    rule: dir_entries_list_entries.induct)
  case (1 opendir_ok entries read_error closedir_reply)
  obtain r t where t: "walk_entries baseline entries read_error depth s = (r, t)"
    by (cases "walk_entries baseline entries read_error depth s")
  with "1.prems" have "opendir_ok" "r = 0" "s' = closed t"
    by (auto simp: close_directory_def split: if_splits)
  with "1.IH" [of read_error depth s t] t show ?case by simp
next
  case 2
  then show ?case by (auto simp: walked_refl split: if_splits)
next
  case (3 name open_reply st1 st2 close_reply child_open child_st child entries)
  show ?case
  proof (cases "dot_name name")
    case True
    with 3 show ?thesis by simp
  next
    case False
    then obtain identity status be s1 m1 where
      d: "depth \<noteq> u64_max" "depth + 1 \<le> 64" and st: "st2 = Sys_ok status"
      and cb: "check_baseline baseline depth name identity (opened s) = (Some be, s1)"
      and m1: "(if be then Some (ws_measurement s1) else count_candidate_entry (ws_measurement s1)) = Some m1"
      and rest: "S_ISREG (st_mode status) \<and> \<not> be \<and> (\<exists>m2. count_regular_bytes m1 (st_size status) = Some m2
        \<and> walk_entries baseline entries read_error depth (closed (s1\<lparr>ws_measurement := m2\<rparr>)) = (0, s'))
       \<or> \<not> S_ISREG (st_mode status) \<and> S_ISDIR (st_mode status)
        \<and> (\<exists>s3. walk_directory baseline child (depth + 1) (closed (opened (s1\<lparr>ws_measurement := m1\<rparr>))) = (0, s3)
            \<and> walk_entries baseline entries read_error depth s3 = (0, s'))"
      by (rule walk_entries_Cons_success [OF "3.prems"])
    have e: "walked 1 0 1 s (s1\<lparr>ws_measurement := m1\<rparr>)" by (rule walked_entry [OF cb m1])
    note dd = depth_step [OF d]
    from rest show ?thesis
    proof (elim disjE conjE exE)
      fix m2 assume r: "S_ISREG (st_mode status)" and m2: "count_regular_bytes m1 (st_size status) = Some m2"
        and w: "walk_entries baseline entries read_error depth (closed (s1\<lparr>ws_measurement := m2\<rparr>)) = (0, s')"
      have "walked 0 (nat (st_size status)) 0 (s1\<lparr>ws_measurement := m1\<rparr>) (s1\<lparr>ws_measurement := m2\<rparr>)"
        using walked_bytes [of "s1\<lparr>ws_measurement := m1\<rparr>"] m2 by simp
      from walked_trans [OF e this] have "walked 1 (nat (st_size status)) 0 s (closed (s1\<lparr>ws_measurement := m2\<rparr>))"
        by simp
      from walked_trans [OF this conjunct1 [OF "3.IH"(2) [OF w]]] "3.IH"(2) [OF w] st r False dd
      show ?thesis by auto
    next
      fix s3 assume r: "\<not> S_ISREG (st_mode status)" "S_ISDIR (st_mode status)"
        and c: "walk_directory baseline child (depth + 1) (closed (opened (s1\<lparr>ws_measurement := m1\<rparr>))) = (0, s3)"
        and w: "walk_entries baseline entries read_error depth s3 = (0, s')"
      have "walked 1 0 1 s (closed (opened (s1\<lparr>ws_measurement := m1\<rparr>)))" using e by simp
      from walked_trans [OF this conjunct1 [OF "3.IH"(1) [OF False st _ c]]] r
      have "walked (1 + dir_entries child) (dir_bytes child) 0 s s3" by simp
      from walked_trans [OF this conjunct1 [OF "3.IH"(2) [OF w]]] "3.IH"(1) [OF False st _ c] "3.IH"(2) [OF w] st r False dd
      show ?thesis by auto
    qed
  qed
qed

subsection \<open>The inventory\<close>

lemma measure_final_COMPLETE:
  assumes "proc17_qa_scratch_measure_final fd (Some baseline) limit_bytes limit_entries replies
      = (SCRATCH_COMPLETE, Some m)"
  obtains root s bavail favail where
    "identity_from_descriptor fd (fr_root_fstat replies) = Some root"
    "same_identity root (sb_root baseline)"
    "walk_directory baseline (fr_scan replies) 0 (walk_start limit_bytes limit_entries) = (0, s)"
    "ws_home_seen s = 1" "ws_temporary_seen s = 1"
    "fr_capacity replies = Sys_ok (bavail, favail)"
    "m = (ws_measurement s)\<lparr>sc_byte_capacity_exhausted := (if bavail = 0 then 1 else 0),
            sc_entry_capacity_exhausted := (if favail = 0 then 1 else 0), sc_inventory_complete := 1\<rparr>"
    "scratch_measurement_valid (Some m)"
  using assms
  by (auto simp: proc17_qa_scratch_measure_final_def Let_def split: if_splits option.splits prod.splits sys.splits)

text \<open>C35. A completed inventory counts exactly what the scratch directory holds: every object of the
  scanned tree but the two baseline directories is one stored entry, the stored bytes are the sum of
  the sizes of its regular files (computed without wrap-around), both are within the limits that were
  asked for, no object lies deeper than the policy's depth, the root, \<open>home\<close> and \<open>tmp\<close> are the directories
  of the baseline, and the two exhaustion flags say whether the file system has no free block or file
  left.\<close>

theorem scratch_inventory_exact:
  assumes "proc17_qa_scratch_measure_final fd (Some baseline) limit_bytes limit_entries replies
      = (SCRATCH_COMPLETE, Some m)"
  shows "unat (sc_stored_entries m) + 2 = dir_entries (fr_scan replies)
    \<and> unat (sc_stored_regular_bytes m) = dir_bytes (fr_scan replies)
    \<and> dir_bytes (fr_scan replies) \<le> unat limit_bytes
    \<and> dir_entries (fr_scan replies) \<le> unat limit_entries + 2
    \<and> dir_height (fr_scan replies) \<le> unat PROC17_QA_SCRATCH_MAX_DEPTH
    \<and> identity_from_descriptor fd (fr_root_fstat replies) = Some (sb_root baseline)
    \<and> (\<exists>bavail favail. fr_capacity replies = Sys_ok (bavail, favail)
        \<and> sc_byte_capacity_exhausted m = (if bavail = 0 then 1 else 0)
        \<and> sc_entry_capacity_exhausted m = (if favail = 0 then 1 else 0))"
proof -
  obtain root s bavail favail where
    r: "identity_from_descriptor fd (fr_root_fstat replies) = Some root" "same_identity root (sb_root baseline)"
    and w: "walk_directory baseline (fr_scan replies) 0 (walk_start limit_bytes limit_entries) = (0, s)"
    and seen: "ws_home_seen s = 1" "ws_temporary_seen s = 1"
    and c: "fr_capacity replies = Sys_ok (bavail, favail)"
    and m: "m = (ws_measurement s)\<lparr>sc_byte_capacity_exhausted := (if bavail = 0 then 1 else 0),
            sc_entry_capacity_exhausted := (if favail = 0 then 1 else 0), sc_inventory_complete := 1\<rparr>"
    by (rule measure_final_COMPLETE [OF assms])
  from r have "root = sb_root baseline" by (simp add: same_identity_def)
  moreover note walk_counts(1) [OF w]
  ultimately show ?thesis
    using r seen c m
    by (auto simp: walked_def Let_def walk_start_def seen_def PROC17_QA_SCRATCH_MAX_DEPTH_def word_le_nat_alt)
qed

text \<open>A scratch directory with one file of three bytes in \<open>tmp\<close>.\<close>

definition sample_id :: "u64 \<Rightarrow> u32 \<Rightarrow> proc17_qa_scratch_identity" where
  "sample_id ino mode = \<lparr>sid_device = 1, sid_inode = ino, sid_mode = mode\<rparr>"

definition sample_stat :: "u64 \<Rightarrow> u32 \<Rightarrow> int \<Rightarrow> scratch_stat sys" where
  "sample_stat ino mode len = Sys_ok \<lparr>st_dev = 1, st_ino = ino, st_mode = mode, st_size = len\<rparr>"

definition sample_baseline :: proc17_qa_scratch_baseline where
  "sample_baseline = \<lparr>sb_root = sample_id 2 0x41c0, sb_home = sample_id 3 0x41c0,
     sb_temporary = sample_id 4 0x41c0, sb_captured = 1\<rparr>"

definition sample_dir :: "scan_entry list \<Rightarrow> scan_dir" where
  "sample_dir entries = Scan_dir True entries False 0"

definition sample_entry :: "string \<Rightarrow> u64 \<Rightarrow> u32 \<Rightarrow> int \<Rightarrow> scan_dir \<Rightarrow> scan_entry" where
  "sample_entry name ino mode len child =
     Scan_entry (ascii name) 9 (sample_stat ino mode len) (sample_stat ino mode len) 0 10
       (sample_stat ino mode len) child"

definition sample_replies :: final_replies where
  "sample_replies = \<lparr>fr_root_fstat = sample_stat 2 0x41c0 0, fr_open_reply = 8,
     fr_scan = sample_dir [sample_entry ''home'' 3 0x41c0 0 (sample_dir []),
       sample_entry ''tmp'' 4 0x41c0 0 (sample_dir [sample_entry ''a'' 5 0x8180 3 (sample_dir [])])],
     fr_capacity = Sys_ok (7, 0)\<rparr>"

lemmas sample_scratch_defs = sample_id_def sample_stat_def sample_baseline_def sample_dir_def sample_entry_def

lemma sample_scratch_run:
  "proc17_qa_scratch_measure_final 7 (Some sample_baseline) 4096 8 sample_replies
   = (SCRATCH_COMPLETE, Some \<lparr>sc_stored_regular_bytes = 3, sc_stored_entries = 1, sc_limit_bytes = 4096,
        sc_limit_entries = 8, sc_byte_capacity_exhausted = 0, sc_entry_capacity_exhausted = 1,
        sc_inventory_complete = 1\<rparr>)"
  by code_simp

theorem scratch_inventory_exact_witness:
  "dir_entries (fr_scan sample_replies) = 3 \<and> dir_bytes (fr_scan sample_replies) = 3"
  using scratch_inventory_exact [OF sample_scratch_run] by simp

text \<open>A walk that succeeds has closed every descriptor it opened, the one of the directory it was
  given included, and nothing else.\<close>

theorem scratch_walk_closes_descriptors:
  assumes "walk_directory baseline d depth s = (0, s')"
  shows "ws_open s' = ws_open s - 1"
  using walk_counts(1) [OF assms] by (simp add: walked_def Let_def)

theorem scratch_walk_closes_descriptors_witness:
  "ws_open (snd (walk_directory sample_baseline (fr_scan sample_replies) 0 (walk_start 4096 8))) = 0"
proof -
  have "walk_directory sample_baseline (fr_scan sample_replies) 0 (walk_start 4096 8)
      = (0, snd (walk_directory sample_baseline (fr_scan sample_replies) 0 (walk_start 4096 8)))"
    by code_simp
  from scratch_walk_closes_descriptors [OF this] show ?thesis by (simp add: walk_start_def)
qed

text \<open>The failing branch for a subdirectory does not: when the directory cannot be opened again for
  reading, the walk fails and the descriptor opened on the object (\<open>O_PATH\<close>) stays open.\<close>

theorem scratch_walk_leaks_object_descriptor:
  "walk_directory baseline (Scan_dir True [Scan_entry (ascii ''d'') 9 (sample_stat 5 0x41c0 0)
       (sample_stat 5 0x41c0 0) 0 (- 1) child_fstat child] False 0) 0 (walk_start limit_bytes 1)
   = (- 1, (walk_start limit_bytes 1)\<lparr>ws_measurement := (ws_measurement (walk_start limit_bytes 1))
              \<lparr>sc_stored_entries := 1\<rparr>, ws_open := 1\<rparr>)"
  by (simp add: dot_name_def ascii_def open_beneath_def c_strlen_def PROC17_QA_SCRATCH_MAX_DEPTH_def u64_max_def
      identity_from_descriptor_def sample_stat_def check_baseline_def walk_start_def opened_def closed_def
      count_candidate_entry_def S_ISREG_def S_ISDIR_def close_directory_def)

subsection \<open>The initial layout is exact\<close>

lemma empty_loop_0: "empty_loop names read_error = 0 \<Longrightarrow> \<not> read_error \<and> (\<forall>n \<in> set names. dot_name n)"
  by (induction names read_error rule: empty_loop.induct) (auto split: if_splits)

lemma directory_is_empty_0:
  "directory_is_empty fd scan = 0 \<Longrightarrow> \<not> fs_read_error scan \<and> filter (\<lambda>n. \<not> dot_name n) (fs_names scan) = []"
  by (auto simp: directory_is_empty_def close_directory_def filter_empty_conv dest!: empty_loop_0 split: if_splits)

lemma home_tmp_distinct [simp]: "ascii ''home'' \<noteq> ascii ''tmp''" "ascii ''tmp'' \<noteq> ascii ''home''"
  "\<not> dot_name (ascii ''home'')" "\<not> dot_name (ascii ''tmp'')"
  by (simp_all add: ascii_def dot_name_def)

definition root_names :: "u32 \<Rightarrow> bytes list" where
  "root_names bits = (if bits AND 1 = 0 then [ascii ''home''] else []) @ (if bits AND 2 = 0 then [ascii ''tmp''] else [])"

lemma root_loop_0:
  assumes "root_loop names read_error s = (0, 3)" "s \<in> {0, 1, 2, 3}"
  shows "\<not> read_error \<and> mset (filter (\<lambda>n. \<not> dot_name n) names) = mset (root_names s)"
  using assms
proof (induction names read_error s rule: root_loop.induct)
  case (1 read_error s)
  then show ?case by (auto simp: root_names_def split: if_splits)
next
  case (2 name names read_error s)
  show ?case
  proof (cases "dot_name name")
    case True
    with 2 show ?thesis by simp
  next
    case False
    from "2.prems"(2) consider "s = 0" | "s = 1" | "s = 2" | "s = 3" by auto
    then show ?thesis using 2 False by cases (auto simp: root_names_def split: if_splits)
  qed
qed

text \<open>A baseline is captured only of a scratch directory whose root holds \<open>home\<close> and \<open>tmp\<close>, each
  exactly once, and nothing else, and only when both are empty directories with mode 0700; it records
  the identities of these three directories.\<close>

theorem baseline_captures_exact_layout:
  assumes "proc17_qa_scratch_capture_baseline fd root_fstat root_scan home tmp = Some b"
  shows "identity_from_descriptor fd root_fstat = Some (sb_root b) \<and> S_ISDIR (sid_mode (sb_root b))
    \<and> mset (filter (\<lambda>n. \<not> dot_name n) (fs_names root_scan)) = {# ascii ''home'', ascii ''tmp'' #}
    \<and> filter (\<lambda>n. \<not> dot_name n) (fs_names (ir_scan home)) = []
    \<and> filter (\<lambda>n. \<not> dot_name n) (fs_names (ir_scan tmp)) = []
    \<and> identity_from_descriptor (ir_open_reply home) (ir_fstat_reply home) = Some (sb_home b)
    \<and> identity_from_descriptor (ir_open_reply tmp) (ir_fstat_reply tmp) = Some (sb_temporary b)
    \<and> S_ISDIR (sid_mode (sb_home b)) \<and> sid_mode (sb_home b) AND 0xfff = 0x1c0
    \<and> S_ISDIR (sid_mode (sb_temporary b)) \<and> sid_mode (sb_temporary b) AND 0xfff = 0x1c0
    \<and> sb_captured b = 1"
proof -
  have root: "initial_root_is_exact fd root_scan = 0"
    and h: "capture_initial_directory fd (ascii ''home'') (ir_open_reply home) (ir_fstat_reply home)
      (ir_scan home) (ir_close_reply home) = Some (sb_home b)"
    and t: "capture_initial_directory fd (ascii ''tmp'') (ir_open_reply tmp) (ir_fstat_reply tmp)
      (ir_scan tmp) (ir_close_reply tmp) = Some (sb_temporary b)"
    and r: "identity_from_descriptor fd root_fstat = Some (sb_root b)" "S_ISDIR (sid_mode (sb_root b))"
      "sb_captured b = 1"
    using assms by (auto simp: proc17_qa_scratch_capture_baseline_def split: if_splits option.splits)
  have "root_loop (fs_names root_scan) (fs_read_error root_scan) 0 = (0, 3)"
    using root by (auto simp: initial_root_is_exact_def close_directory_def split: if_splits prod.splits)
  from root_loop_0 [OF this] have
    "mset (filter (\<lambda>n. \<not> dot_name n) (fs_names root_scan)) = {# ascii ''home'', ascii ''tmp'' #}"
    by (simp add: root_names_def)
  moreover have "directory_is_empty (ir_open_reply home) (ir_scan home) = 0"
    "identity_from_descriptor (ir_open_reply home) (ir_fstat_reply home) = Some (sb_home b)"
    "S_ISDIR (sid_mode (sb_home b))" "sid_mode (sb_home b) AND 0xfff = 0x1c0"
    using h by (auto simp: capture_initial_directory_def open_beneath_def Let_def split: if_splits option.splits)
  moreover have "directory_is_empty (ir_open_reply tmp) (ir_scan tmp) = 0"
    "identity_from_descriptor (ir_open_reply tmp) (ir_fstat_reply tmp) = Some (sb_temporary b)"
    "S_ISDIR (sid_mode (sb_temporary b))" "sid_mode (sb_temporary b) AND 0xfff = 0x1c0"
    using t by (auto simp: capture_initial_directory_def open_beneath_def Let_def split: if_splits option.splits)
  ultimately show ?thesis using r by (simp add: directory_is_empty_0)
qed

definition sample_flat :: "string list \<Rightarrow> flat_scan" where
  "sample_flat names = \<lparr>fs_open_reply = 9, fs_opendir_ok = True, fs_names = map ascii names,
     fs_read_error = False, fs_closedir_reply = 0\<rparr>"

definition sample_initial :: "u64 \<Rightarrow> initial_replies" where
  "sample_initial ino = \<lparr>ir_open_reply = 8, ir_fstat_reply = sample_stat ino 0x41c0 0,
     ir_scan = sample_flat [''.'', ''..''], ir_close_reply = 0\<rparr>"

theorem baseline_captures_exact_layout_witness:
  "mset (filter (\<lambda>n. \<not> dot_name n) (fs_names (sample_flat [''tmp'', ''.'', ''..'', ''home''])))
   = {# ascii ''home'', ascii ''tmp'' #}"
proof -
  have "proc17_qa_scratch_capture_baseline 7 (sample_stat 2 0x41c0 0) (sample_flat [''tmp'', ''.'', ''..'', ''home''])
      (sample_initial 3) (sample_initial 4) = Some sample_baseline"
    by code_simp
  from baseline_captures_exact_layout [OF this] show ?thesis by blast
qed

subsection \<open>The codec of the measurement\<close>

definition scratch_bytes :: "proc17_qa_scratch_measurement \<Rightarrow> bytes" where
  "scratch_bytes m =
     be64 (sc_stored_regular_bytes m) @ be64 (sc_stored_entries m) @ be64 (sc_limit_bytes m)
     @ be64 (sc_limit_entries m)
     @ [sc_byte_capacity_exhausted m, sc_entry_capacity_exhausted m, sc_inventory_complete m] @ replicate 5 0"

lemma scratch_bytes_slices:
  "length (scratch_bytes m) = 40"
  "slice 0 8 (scratch_bytes m) = be64 (sc_stored_regular_bytes m)"
  "slice 8 8 (scratch_bytes m) = be64 (sc_stored_entries m)"
  "slice 16 8 (scratch_bytes m) = be64 (sc_limit_bytes m)"
  "slice 24 8 (scratch_bytes m) = be64 (sc_limit_entries m)"
  "scratch_bytes m ! 32 = sc_byte_capacity_exhausted m"
  "scratch_bytes m ! 33 = sc_entry_capacity_exhausted m"
  "scratch_bytes m ! 34 = sc_inventory_complete m"
  "slice 35 5 (scratch_bytes m) = replicate 5 0"
  by (simp_all add: scratch_bytes_def slice_append_fst slice_append_snd slice_eq_self
      slice_replicate slice_Cons nth_append)

lemma scratch_bytes_reads:
  "proc17_qa_wire_get_u64 (scratch_bytes m) = sc_stored_regular_bytes m"
  "proc17_qa_wire_get_u64 (drop 8 (scratch_bytes m)) = sc_stored_entries m"
  "proc17_qa_wire_get_u64 (drop 16 (scratch_bytes m)) = sc_limit_bytes m"
  "proc17_qa_wire_get_u64 (drop 24 (scratch_bytes m)) = sc_limit_entries m"
  using get_u64_slice [of 0 "scratch_bytes m"]
  by (simp_all add: codec_simps scratch_bytes_slices)

lemma scratch_bytes_valid:
  "proc17_qa_wire_v1_scratch_valid (Some (scratch_bytes m)) = scratch_measurement_valid (Some m)"
proof -
  have "b \<le> 1 \<longleftrightarrow> b = 0 \<or> b = 1" for b :: byte
    by (auto simp: word_le_nat_alt le_Suc_eq word_unat_eq_iff)
  then show ?thesis
    by (auto simp: proc17_qa_wire_v1_scratch_valid_def Let_def scratch_bytes_reads scratch_bytes_slices
        codec_simps scratch_measurement_valid_def proc17_qa_wire_boolean_def)
qed

lemma scratch_encode_eq:
  assumes out: "length buffer = 40"
  shows "proc17_qa_scratch_encode_v1 (Some m) (Some buffer) =
    (if scratch_measurement_valid (Some m) then Some (scratch_bytes m) else None)"
proof -
  define o0 where "o0 = write_at buffer 0 (replicate 40 0)"
  define o1 where "o1 = write_at o0 0 (be64 (sc_stored_regular_bytes m))"
  define o2 where "o2 = write_at o1 8 (be64 (sc_stored_entries m))"
  define o3 where "o3 = write_at o2 16 (be64 (sc_limit_bytes m))"
  define o4 where "o4 = write_at o3 24 (be64 (sc_limit_entries m))"
  define o5 where "o5 = write_at o4 32 [sc_byte_capacity_exhausted m]"
  define o6 where "o6 = write_at o5 33 [sc_entry_capacity_exhausted m]"
  define o7 where "o7 = write_at o6 34 [sc_inventory_complete m]"
  have len: "length o7 = 40"
    using out by (simp add: o0_def o1_def o2_def o3_def o4_def o5_def o6_def o7_def)
  have sl: "slice 0 8 o7 = be64 (sc_stored_regular_bytes m)" "slice 8 8 o7 = be64 (sc_stored_entries m)"
    "slice 16 8 o7 = be64 (sc_limit_bytes m)" "slice 24 8 o7 = be64 (sc_limit_entries m)"
    "slice 32 1 o7 = [sc_byte_capacity_exhausted m]" "slice 33 1 o7 = [sc_entry_capacity_exhausted m]"
    "slice 34 1 o7 = [sc_inventory_complete m]" "slice 35 5 o7 = replicate 5 0"
    using out by (simp_all add: o0_def o1_def o2_def o3_def o4_def o5_def o6_def o7_def buf_simps slice_eq_self)
  have "take 40 o7 = take 8 o7 @ slice 8 8 o7 @ slice 16 8 o7 @ slice 24 8 o7 @ slice 32 1 o7 @ slice 33 1 o7
      @ slice 34 1 o7 @ slice 35 5 o7"
    by (simp add: take_split [of 35 5 40] take_split [of 34 1 35] take_split [of 33 1 34] take_split [of 32 1 33]
        take_split [of 24 8 32] take_split [of 16 8 24] take_split [of 8 8 16])
  then have "o7 = scratch_bytes m" using len sl by (simp add: scratch_bytes_def take_eq_slice [of 8])
  then show ?thesis
    unfolding o7_def o6_def o5_def o4_def o3_def o2_def o1_def o0_def
    by (simp add: proc17_qa_scratch_encode_v1_def Let_def proc17_qa_wire_put_u64_def scratch_bytes_valid)
qed

lemma scratch_decode_bytes:
  "proc17_qa_scratch_decode_v1 (Some (scratch_bytes m)) = (if scratch_measurement_valid (Some m) then Some m else None)"
  by (cases m) (simp add: proc17_qa_scratch_decode_v1_def scratch_bytes_valid scratch_bytes_reads scratch_bytes_slices Let_def)

lemma scratch_decode_sound:
  assumes len: "length input = 40" and dec: "proc17_qa_scratch_decode_v1 (Some input) = Some m"
  shows "scratch_measurement_valid (Some m) \<and> input = scratch_bytes m"
proof -
  have v: "proc17_qa_wire_v1_scratch_valid (Some input)" and mv: "scratch_measurement_valid (Some m)"
    and f: "sc_stored_regular_bytes m = proc17_qa_wire_get_u64 input"
      "sc_stored_entries m = proc17_qa_wire_get_u64 (drop 8 input)"
      "sc_limit_bytes m = proc17_qa_wire_get_u64 (drop 16 input)"
      "sc_limit_entries m = proc17_qa_wire_get_u64 (drop 24 input)"
      "sc_byte_capacity_exhausted m = input ! 32" "sc_entry_capacity_exhausted m = input ! 33"
      "sc_inventory_complete m = input ! 34"
    using dec by (auto simp: proc17_qa_scratch_decode_v1_def Let_def split: if_splits)
  have b: "be64 (sc_stored_regular_bytes m) = slice 0 8 input" "be64 (sc_stored_entries m) = slice 8 8 input"
    "be64 (sc_limit_bytes m) = slice 16 8 input" "be64 (sc_limit_entries m) = slice 24 8 input"
    using len get_u64_slice [of 0 input] by (simp_all add: f codec_simps be_of_get)
  have z: "slice 35 5 input = replicate 5 0"
    using v len by (simp add: proc17_qa_wire_v1_scratch_valid_def Let_def codec_simps)
  have "take 40 input = take 8 input @ slice 8 8 input @ slice 16 8 input @ slice 24 8 input @ slice 32 1 input
      @ slice 33 1 input @ slice 34 1 input @ slice 35 5 input"
    by (simp add: take_split [of 35 5 40] take_split [of 34 1 35] take_split [of 33 1 34] take_split [of 32 1 33]
        take_split [of 24 8 32] take_split [of 16 8 24] take_split [of 8 8 16])
  then have "input = scratch_bytes m"
    using len b z by (simp add: scratch_bytes_def take_eq_slice [of 8] f nth_eq_slice [simplified])
  with mv show ?thesis by simp
qed

text \<open>The codec on blocks of forty bytes is exact.\<close>

definition scratch_enc :: "proc17_qa_scratch_measurement \<Rightarrow> bytes option" where
  "scratch_enc m = proc17_qa_scratch_encode_v1 (Some m) (Some (replicate 40 0))"

definition scratch_dec :: "bytes \<Rightarrow> proc17_qa_scratch_measurement option" where
  "scratch_dec block = (if length block = 40 then proc17_qa_scratch_decode_v1 (Some block) else None)"

interpretation scratch_codec: exact_codec scratch_enc scratch_dec
proof
  show "scratch_enc m = Some f \<Longrightarrow> scratch_dec f = Some m" for m f
    by (auto simp: scratch_enc_def scratch_dec_def scratch_encode_eq scratch_decode_bytes scratch_bytes_slices(1)
        split: if_splits)
  show "scratch_dec f = Some m \<Longrightarrow> scratch_enc m = Some f" for m f
    using scratch_decode_sound [of f m] by (auto simp: scratch_enc_def scratch_dec_def scratch_encode_eq split: if_splits)
qed

text \<open>The block a measurement is encoded to, in any forty-byte buffer, is the only block that decodes
  to it: encoding and decoding are inverse to each other, and exactly the valid measurements have a
  block.\<close>

theorem scratch_codec_exact:
  assumes "length buffer = 40" "length block = 40"
  shows "proc17_qa_scratch_encode_v1 (Some m) (Some buffer) = Some block
     \<longleftrightarrow> proc17_qa_scratch_decode_v1 (Some block) = Some m"
  using scratch_codec.enc_iff_dec [of m block] assms
  by (simp add: scratch_enc_def scratch_dec_def scratch_encode_eq)

theorem scratch_codec_exact_witness:
  "proc17_qa_scratch_decode_v1 (Some (scratch_bytes \<lparr>sc_stored_regular_bytes = 3, sc_stored_entries = 1,
      sc_limit_bytes = 4096, sc_limit_entries = 8, sc_byte_capacity_exhausted = 0,
      sc_entry_capacity_exhausted = 1, sc_inventory_complete = 1\<rparr>)) \<noteq> None"
  using scratch_codec_exact [of "replicate 40 7" "scratch_bytes \<lparr>sc_stored_regular_bytes = 3, sc_stored_entries = 1,
      sc_limit_bytes = 4096, sc_limit_entries = 8, sc_byte_capacity_exhausted = 0,
      sc_entry_capacity_exhausted = 1, sc_inventory_complete = 1\<rparr>" "\<lparr>sc_stored_regular_bytes = 3, sc_stored_entries = 1,
      sc_limit_bytes = 4096, sc_limit_entries = 8, sc_byte_capacity_exhausted = 0,
      sc_entry_capacity_exhausted = 1, sc_inventory_complete = 1\<rparr>"]
  by (simp add: scratch_encode_eq scratch_bytes_slices(1) scratch_measurement_valid_def)

end
