(* ===== verification/Qa_Report.thy ===== *)
theory Qa_Report
  imports Qa_Phase Qa_Stream Qa_Allocator Qa_Controller Qa_Scratch
begin

text \<open>
  The private controller report (\<open>native/proc17_qa_report.c\<close>): the record of 572 bytes the controller
  hands to the supervisor when the candidate has ended, its two validators, and the finalisation that
  turns a report and the observation of the namespace into one public RUN v1 frame.

  A function that fills a caller's buffer returns its C result and the buffer.  The buffers are C
  arrays of the sizes the prototypes give; the encoders called on a part of the report get the slice
  they are handed.
\<close>

unbundle bit_operations_syntax

definition PROC17_QA_CONTROLLER_REPORT_VERSION :: u16 where
  [simp]: "PROC17_QA_CONTROLLER_REPORT_VERSION = 2"
definition PROC17_QA_CONTROLLER_REPORT_BYTES :: nat where
  [simp]: "PROC17_QA_CONTROLLER_REPORT_BYTES = 572"
definition PROC17_QA_CONTROLLER_TERMINAL_RESULT :: u16 where
  [simp]: "PROC17_QA_CONTROLLER_TERMINAL_RESULT = 1"
definition PROC17_QA_CONTROLLER_TERMINAL_ERROR :: u16 where
  [simp]: "PROC17_QA_CONTROLLER_TERMINAL_ERROR = 2"
definition PROC17_QA_CONTROLLER_ERROR_STDOUT :: u16 where [simp]: "PROC17_QA_CONTROLLER_ERROR_STDOUT = 1"
definition PROC17_QA_CONTROLLER_ERROR_STDERR :: u16 where [simp]: "PROC17_QA_CONTROLLER_ERROR_STDERR = 2"
definition PROC17_QA_CONTROLLER_ERROR_SCRATCH :: u16 where [simp]: "PROC17_QA_CONTROLLER_ERROR_SCRATCH = 3"

definition PROC17_QA_REPORT_KIND_OFFSET :: nat where [simp]: "PROC17_QA_REPORT_KIND_OFFSET = 12"
definition PROC17_QA_REPORT_IDENTITY_OFFSET :: nat where [simp]: "PROC17_QA_REPORT_IDENTITY_OFFSET = 16"
definition PROC17_QA_REPORT_TOKEN_OFFSET :: nat where [simp]: "PROC17_QA_REPORT_TOKEN_OFFSET = 144"
definition PROC17_QA_REPORT_REASON_OFFSET :: nat where [simp]: "PROC17_QA_REPORT_REASON_OFFSET = 176"
definition PROC17_QA_REPORT_ERROR_CODE_OFFSET :: nat where [simp]: "PROC17_QA_REPORT_ERROR_CODE_OFFSET = 176"
definition PROC17_QA_REPORT_ERROR_SUBJECT_OFFSET :: nat where
  [simp]: "PROC17_QA_REPORT_ERROR_SUBJECT_OFFSET = 178"
definition PROC17_QA_REPORT_CAUSE_OFFSET :: nat where [simp]: "PROC17_QA_REPORT_CAUSE_OFFSET = 188"
definition PROC17_QA_REPORT_FINALITY_OFFSET :: nat where [simp]: "PROC17_QA_REPORT_FINALITY_OFFSET = 208"
definition PROC17_QA_REPORT_STATUS_EOF_OFFSET :: nat where [simp]: "PROC17_QA_REPORT_STATUS_EOF_OFFSET = 215"
definition PROC17_QA_REPORT_ALLOCATOR_STABLE_OFFSET :: nat where
  [simp]: "PROC17_QA_REPORT_ALLOCATOR_STABLE_OFFSET = 216"
definition PROC17_QA_REPORT_HEAP_NOTIFICATION_OFFSET :: nat where
  [simp]: "PROC17_QA_REPORT_HEAP_NOTIFICATION_OFFSET = 217"
definition PROC17_QA_REPORT_SYSTEM_FAILURE_OFFSET :: nat where
  [simp]: "PROC17_QA_REPORT_SYSTEM_FAILURE_OFFSET = 218"
definition PROC17_QA_REPORT_NOTIFICATION_FAILURE_OFFSET :: nat where
  [simp]: "PROC17_QA_REPORT_NOTIFICATION_FAILURE_OFFSET = 219"
definition PROC17_QA_REPORT_ALLOCATOR_CURRENT_OFFSET :: nat where
  [simp]: "PROC17_QA_REPORT_ALLOCATOR_CURRENT_OFFSET = 224"
definition PROC17_QA_REPORT_STDOUT_OFFSET :: nat where [simp]: "PROC17_QA_REPORT_STDOUT_OFFSET = 232"
definition PROC17_QA_REPORT_STDERR_OFFSET :: nat where [simp]: "PROC17_QA_REPORT_STDERR_OFFSET = 296"
definition PROC17_QA_REPORT_RESOURCE_OFFSET :: nat where [simp]: "PROC17_QA_REPORT_RESOURCE_OFFSET = 360"
definition PROC17_QA_REPORT_SCRATCH_OFFSET :: nat where [simp]: "PROC17_QA_REPORT_SCRATCH_OFFSET = 448"
definition PROC17_QA_REPORT_STAGE_OFFSET :: nat where [simp]: "PROC17_QA_REPORT_STAGE_OFFSET = 488"

text \<open>The number of signals of the C library on Linux.\<close>

definition NSIG :: u32 where [simp]: "NSIG = 65"

record proc17_qa_candidate_termination =
  term_kind :: u16
  term_exit_code :: u32
  term_signal_number :: u32

record proc17_qa_controller_report_input =
  ri_identity :: "proc17_qa_phase_identity ptr"
  ri_process_token :: "bytes ptr"
  ri_phase :: "proc17_qa_phase_state ptr"
  ri_termination :: proc17_qa_candidate_termination
  ri_stdout_measurement :: "proc17_qa_stream_measurement ptr"
  ri_stderr_measurement :: "proc17_qa_stream_measurement ptr"
  ri_candidate_metrics :: "proc17_qa_candidate_metrics ptr"
  ri_allocator :: "proc17_qa_allocator_snapshot_data ptr"
  ri_scratch :: "proc17_qa_scratch_measurement ptr"
  ri_source_stage :: "bytes ptr"
  ri_status_eof_observed :: byte
  ri_allocator_observation_stable :: byte
  ri_heap_denied_notifications :: byte

record proc17_qa_controller_error_input =
  ei_identity :: "proc17_qa_phase_identity ptr"
  ei_process_token :: "bytes ptr"
  ei_source_stage :: "bytes ptr"
  ei_error_code :: u16
  ei_subject :: u16
  ei_candidate_terminal_observed :: byte
  ei_process_tree_reaped :: byte
  ei_stdout_eof_observed :: byte
  ei_stderr_eof_observed :: byte
  ei_scratch_observation_complete :: byte
  ei_status_eof_observed :: byte

record proc17_qa_namespace_observation =
  no_controller_pidfd_identity_retained :: byte
  no_terminal_record_complete :: byte
  no_terminal_record_eof_observed :: byte
  no_controller_reaped :: byte
  no_controller_authority_closed :: byte

definition report_magic :: bytes where
  "report_magic = ascii ''P17QACR'' @ [0]"

subsection \<open>Shape and evidence\<close>

definition termination_shape_valid :: "proc17_qa_candidate_termination ptr \<Rightarrow> bool" where
  "termination_shape_valid termination_ptr =
     (case termination_ptr of
        None \<Rightarrow> False
      | Some termination \<Rightarrow>
          if term_kind termination = PROC17_QA_TERMINATION_EXIT
          then term_exit_code termination \<le> 255 \<and> term_signal_number termination = u32_max
          else if term_kind termination = PROC17_QA_TERMINATION_SIGNAL
          then term_exit_code termination = u32_max \<and> term_signal_number termination > 0
               \<and> term_signal_number termination < NSIG
          else term_kind termination = PROC17_QA_TERMINATION_SUPERVISOR_KILL
               \<and> term_exit_code termination = u32_max \<and> term_signal_number termination = SIGKILL)"

definition stream_shape_valid :: "proc17_qa_stream_measurement ptr \<Rightarrow> u64 \<Rightarrow> bool" where
  "stream_shape_valid measurement exact_limit =
     (case measurement of
        None \<Rightarrow> False
      | Some m \<Rightarrow>
          sm_limit_bytes m = exact_limit
          \<and> proc17_qa_stream_encode_v1 (Some m) (Some (replicate PROC17_QA_STREAM_MEASUREMENT_V1_BYTES 0))
              \<noteq> None)"

definition scratch_shape_valid :: "proc17_qa_scratch_measurement ptr \<Rightarrow> bool" where
  "scratch_shape_valid measurement =
     (case measurement of
        None \<Rightarrow> False
      | Some m \<Rightarrow>
          sc_limit_bytes m = PROC17_QA_SCRATCH_BYTES
          \<and> sc_limit_entries m = PROC17_QA_SCRATCH_ENTRIES
          \<and> proc17_qa_scratch_encode_v1 (Some m) (Some (replicate PROC17_QA_SCRATCH_MEASUREMENT_V1_BYTES 0))
              \<noteq> None)"

definition allocator_shape_valid :: "proc17_qa_allocator_snapshot_data ptr \<Rightarrow> byte \<Rightarrow> u16 \<Rightarrow> bool" where
  "allocator_shape_valid allocator_ptr notifications reason =
     (case allocator_ptr of
        None \<Rightarrow> False
      | Some a \<Rightarrow>
          \<not> (as_ceiling_bytes a \<noteq> PROC17_QA_RUNTIME_HEAP_BYTES
             \<or> as_current_bytes a > as_peak_bytes a
             \<or> as_peak_bytes a > as_ceiling_bytes a
             \<or> as_ceiling_denied a > 1
             \<or> as_system_allocation_failed a \<noteq> 0
             \<or> as_status_notification_failed a \<noteq> 0
             \<or> notifications > 1
             \<or> notifications \<noteq> as_ceiling_denied a
             \<or> (as_ceiling_denied a \<noteq> 0 \<and> as_system_allocation_failed a \<noteq> 0)
             \<or> (reason = PROC17_QA_RUN_MEMORY_LIMIT) \<noteq> (as_ceiling_denied a \<noteq> 0)))"

definition reason_evidence_valid ::
  "u16 \<Rightarrow> proc17_qa_first_cause ptr \<Rightarrow> proc17_qa_candidate_termination ptr
   \<Rightarrow> proc17_qa_stream_measurement \<Rightarrow> proc17_qa_stream_measurement
   \<Rightarrow> proc17_qa_candidate_metrics ptr \<Rightarrow> proc17_qa_allocator_snapshot_data \<Rightarrow> bool" where
  "reason_evidence_valid reason cause_ptr termination_ptr stdout_measurement stderr_measurement metrics_ptr
     allocator =
     (case (cause_ptr, metrics_ptr, termination_ptr) of
        (Some cause, Some metrics, Some termination) \<Rightarrow>
          if cause_kind cause \<noteq> reason
             \<or> cause_monotonic_sequence cause = 0
             \<or> reason < PROC17_QA_RUN_EXPECTED_EXIT
             \<or> reason > PROC17_QA_RUN_SANDBOX_POLICY_VIOLATION
             \<or> reason = PROC17_QA_RUN_SCRATCH_LIMIT
             \<or> \<not> termination_shape_valid (Some termination)
          then False
          else
            (let output_crossed = (sm_limit_crossed stdout_measurement \<noteq> 0
                                   \<or> sm_limit_crossed stderr_measurement \<noteq> 0);
                 maximum0 = (if sm_limit_crossed stdout_measurement \<noteq> 0
                             then sm_observed_bytes stdout_measurement else 0);
                 maximum_output = (if sm_limit_crossed stderr_measurement \<noteq> 0
                                      \<and> sm_observed_bytes stderr_measurement > maximum0
                                   then sm_observed_bytes stderr_measurement else maximum0)
             in if (reason = PROC17_QA_RUN_OUTPUT_LIMIT) \<noteq> output_crossed then False
                else if reason = PROC17_QA_RUN_EXPECTED_EXIT
                then term_kind termination = PROC17_QA_TERMINATION_EXIT
                     \<and> term_exit_code termination = 0 \<and> cause_observed_value cause = 0
                else if reason = PROC17_QA_RUN_UNEXPECTED_EXIT
                then term_kind termination = PROC17_QA_TERMINATION_EXIT
                     \<and> term_exit_code termination \<noteq> 0
                     \<and> cause_observed_value cause = ucast (term_exit_code termination)
                else if reason = PROC17_QA_RUN_SIGNAL
                then term_kind termination = PROC17_QA_TERMINATION_SIGNAL
                     \<and> term_signal_number termination \<noteq> SIGXCPU
                     \<and> term_signal_number termination \<noteq> SIGSYS
                     \<and> cause_observed_value cause = ucast (term_signal_number termination)
                else if reason = PROC17_QA_RUN_WALL_TIMEOUT
                then term_kind termination = PROC17_QA_TERMINATION_SUPERVISOR_KILL
                     \<and> cause_observed_value cause = PROC17_QA_WALL_TIME_MS
                     \<and> cm_wall_time_ms metrics \<ge> PROC17_QA_WALL_TIME_MS
                else if reason = PROC17_QA_RUN_CPU_LIMIT
                then term_kind termination = PROC17_QA_TERMINATION_SIGNAL
                     \<and> term_signal_number termination = SIGXCPU
                     \<and> cause_observed_value cause = ucast SIGXCPU
                else if reason = PROC17_QA_RUN_MEMORY_LIMIT
                then (term_kind termination = PROC17_QA_TERMINATION_SUPERVISOR_KILL
                      \<or> (term_kind termination = PROC17_QA_TERMINATION_EXIT
                         \<and> term_exit_code termination \<noteq> 0))
                     \<and> cause_observed_value cause \<noteq> 0
                     \<and> cause_observed_value cause \<le> as_peak_bytes allocator
                else if reason = PROC17_QA_RUN_OUTPUT_LIMIT
                then term_kind termination = PROC17_QA_TERMINATION_SUPERVISOR_KILL
                     \<and> cause_observed_value cause \<noteq> 0
                     \<and> cause_observed_value cause \<le> maximum_output
                else if reason = PROC17_QA_RUN_SANDBOX_POLICY_VIOLATION
                then term_kind termination = PROC17_QA_TERMINATION_SIGNAL
                     \<and> term_signal_number termination = SIGSYS
                     \<and> cause_observed_value cause = ucast SIGSYS
                else False)
      | _ \<Rightarrow> False)"

definition encode_resource ::
  "proc17_qa_candidate_metrics ptr \<Rightarrow> proc17_qa_allocator_snapshot_data ptr \<Rightarrow> bytes ptr \<Rightarrow> bytes option" where
  "encode_resource metrics_ptr allocator_ptr output_ptr =
     (case (metrics_ptr, allocator_ptr, output_ptr) of
        (Some metrics, Some allocator, Some output) \<Rightarrow>
          (let o0 = write_at output 0 (replicate PROC17_QA_RESOURCE_MEASUREMENT_V1_BYTES 0);
               o1 = proc17_qa_wire_put_u64 o0 0 (cm_wall_time_ms metrics);
               o2 = proc17_qa_wire_put_u64 o1 8 (cm_cpu_user_ms metrics);
               o3 = proc17_qa_wire_put_u64 o2 16 (cm_cpu_system_ms metrics);
               o4 = proc17_qa_wire_put_u64 o3 24 (cm_max_rss_bytes metrics);
               o5 = proc17_qa_wire_put_u64 o4 32 PROC17_QA_ADDRESS_SPACE_BYTES;
               o6 = proc17_qa_wire_put_u64 o5 40 (as_peak_bytes allocator);
               o7 = proc17_qa_wire_put_u64 o6 48 (as_ceiling_bytes allocator);
               o8 = proc17_qa_wire_put_u64 o7 56 PROC17_QA_MAX_PROCESSES;
               o9 = proc17_qa_wire_put_u64 o8 64 PROC17_QA_MAX_OPEN_FILES;
               o10 = proc17_qa_wire_put_u64 o9 72 PROC17_QA_MAX_FILE_BYTES;
               o11 = write_at o10 80 [as_ceiling_denied allocator]
           in if proc17_qa_wire_v1_resource_valid (Some o11) then Some o11 else None)
      | _ \<Rightarrow> None)"

text \<open>The write of \<open>encode_termination\<close> at an offset of the buffer.\<close>

definition encode_termination :: "bytes \<Rightarrow> nat \<Rightarrow> proc17_qa_candidate_termination \<Rightarrow> bytes" where
  "encode_termination output off termination =
     (let o1 = proc17_qa_wire_put_u16 output off (term_kind termination);
          o2 = proc17_qa_wire_put_u32 o1 (off + 2) (term_exit_code termination)
      in proc17_qa_wire_put_u32 o2 (off + 6) (term_signal_number termination))"

subsection \<open>Building a report\<close>

text \<open>The common front of both kinds of report: zeroed record, magic, version, size, kind, identity and
  process token.\<close>

definition report_front :: "bytes \<Rightarrow> u16 \<Rightarrow> proc17_qa_phase_identity \<Rightarrow> bytes \<Rightarrow> bytes" where
  "report_front output kind identity process_token =
     (let o0 = write_at output 0 (replicate PROC17_QA_CONTROLLER_REPORT_BYTES 0);
          o1 = write_at o0 0 report_magic;
          o2 = proc17_qa_wire_put_u16 o1 8 PROC17_QA_CONTROLLER_REPORT_VERSION;
          o3 = proc17_qa_wire_put_u16 o2 10 (of_nat PROC17_QA_CONTROLLER_REPORT_BYTES);
          o4 = proc17_qa_wire_put_u16 o3 PROC17_QA_REPORT_KIND_OFFSET kind;
          o5 = write_at o4 PROC17_QA_REPORT_IDENTITY_OFFSET
                 (take PROC17_QA_V1_IDENTITY_BYTES (identity_bytes identity))
      in write_at o5 PROC17_QA_REPORT_TOKEN_OFFSET (take PROC17_QA_WIRE_DIGEST_BYTES process_token))"

text \<open>The fields of a result report that are written before the measurements.\<close>

definition report_scalars ::
  "bytes \<Rightarrow> proc17_qa_candidate_termination \<Rightarrow> proc17_qa_first_cause \<Rightarrow> byte
   \<Rightarrow> proc17_qa_allocator_snapshot_data \<Rightarrow> bytes" where
  "report_scalars o6 termination cause notifications allocator =
     (let reason = cause_kind cause;
          o7 = proc17_qa_wire_put_u16 o6 PROC17_QA_REPORT_REASON_OFFSET reason;
          o8 = encode_termination o7 (PROC17_QA_REPORT_REASON_OFFSET + 2) termination;
          o9 = proc17_qa_wire_put_u16 o8 PROC17_QA_REPORT_CAUSE_OFFSET reason;
          o10 = proc17_qa_wire_put_u64 o9 (PROC17_QA_REPORT_CAUSE_OFFSET + 4) (cause_monotonic_sequence cause);
          o11 = proc17_qa_wire_put_u64 o10 (PROC17_QA_REPORT_CAUSE_OFFSET + 12) (cause_observed_value cause);
          o12 = write_at o11 PROC17_QA_REPORT_FINALITY_OFFSET (replicate 7 1);
          o13 = write_at o12 PROC17_QA_REPORT_STATUS_EOF_OFFSET [1];
          o14 = write_at o13 PROC17_QA_REPORT_ALLOCATOR_STABLE_OFFSET [1];
          o15 = write_at o14 PROC17_QA_REPORT_HEAP_NOTIFICATION_OFFSET [notifications];
          o16 = write_at o15 PROC17_QA_REPORT_SYSTEM_FAILURE_OFFSET [as_system_allocation_failed allocator];
          o17 = write_at o16 PROC17_QA_REPORT_NOTIFICATION_FAILURE_OFFSET
                  [as_status_notification_failed allocator]
      in proc17_qa_wire_put_u64 o17 PROC17_QA_REPORT_ALLOCATOR_CURRENT_OFFSET (as_current_bytes allocator))"

definition proc17_qa_controller_report_build ::
  "proc17_qa_controller_report_input ptr \<Rightarrow> bytes ptr \<Rightarrow> int \<times> bytes ptr" where
  "proc17_qa_controller_report_build input_ptr output_ptr =
     (case (input_ptr, output_ptr) of
        (Some input, Some output) \<Rightarrow>
          (case (ri_identity input, ri_process_token input, ri_phase input, ri_stdout_measurement input,
                 ri_stderr_measurement input, ri_candidate_metrics input, ri_allocator input,
                 ri_scratch input, ri_source_stage input) of
             (Some identity, Some token, Some phase, Some out_m, Some err_m, Some metrics, Some allocator,
              Some scratch, Some stage) \<Rightarrow>
               if ri_status_eof_observed input \<noteq> 1
                  \<or> ri_allocator_observation_stable input \<noteq> 1
                  \<or> \<not> proc17_qa_phase_identity_valid (Some identity)
                  \<or> \<not> proc17_qa_wire_digest_nonzero (Some token)
                  \<or> \<not> proc17_qa_phase_controller_report_ready phase
                  \<or> \<not> stream_shape_valid (Some out_m) PROC17_QA_STDOUT_BYTES
                  \<or> \<not> stream_shape_valid (Some err_m) PROC17_QA_STDERR_BYTES
                  \<or> \<not> scratch_shape_valid (Some scratch)
                  \<or> \<not> proc17_qa_wire_v1_source_stage_valid (Some stage)
                  \<or> stage ! 80 \<noteq> 1
                  \<or> stage ! 81 \<noteq> 1
               then (- 1, Some output)
               else
                 (let reason = cause_kind (first_cause phase)
                  in if \<not> allocator_shape_valid (Some allocator) (ri_heap_denied_notifications input) reason
                        \<or> \<not> reason_evidence_valid reason (Some (first_cause phase))
                             (Some (ri_termination input)) out_m err_m (Some metrics) allocator
                     then (- 1, Some output)
                     else
                       (let o6 = report_front output PROC17_QA_CONTROLLER_TERMINAL_RESULT identity token;
                            o18 = report_scalars o6 (ri_termination input) (first_cause phase)
                                    (ri_heap_denied_notifications input) allocator;
                            failed = (- 1, Some (write_at output 0
                                            (replicate PROC17_QA_CONTROLLER_REPORT_BYTES 0)))
                        in case proc17_qa_stream_encode_v1 (Some out_m)
                                  (Some (slice PROC17_QA_REPORT_STDOUT_OFFSET
                                           PROC17_QA_STREAM_MEASUREMENT_V1_BYTES o18)) of
                             None \<Rightarrow> failed
                           | Some out_b \<Rightarrow>
                               (let o19 = write_at o18 PROC17_QA_REPORT_STDOUT_OFFSET out_b
                                in case proc17_qa_stream_encode_v1 (Some err_m)
                                          (Some (slice PROC17_QA_REPORT_STDERR_OFFSET
                                                   PROC17_QA_STREAM_MEASUREMENT_V1_BYTES o19)) of
                                     None \<Rightarrow> failed
                                   | Some err_b \<Rightarrow>
                                       (let o20 = write_at o19 PROC17_QA_REPORT_STDERR_OFFSET err_b
                                        in case encode_resource (Some metrics) (Some allocator)
                                                  (Some (slice PROC17_QA_REPORT_RESOURCE_OFFSET
                                                           PROC17_QA_RESOURCE_MEASUREMENT_V1_BYTES o20)) of
                                             None \<Rightarrow> failed
                                           | Some res_b \<Rightarrow>
                                               (let o21 = write_at o20 PROC17_QA_REPORT_RESOURCE_OFFSET res_b
                                                in case proc17_qa_scratch_encode_v1 (Some scratch)
                                                          (Some (slice PROC17_QA_REPORT_SCRATCH_OFFSET
                                                                   PROC17_QA_SCRATCH_MEASUREMENT_V1_BYTES o21)) of
                                                     None \<Rightarrow> failed
                                                   | Some scr_b \<Rightarrow>
                                                       (let o22 = write_at o21 PROC17_QA_REPORT_SCRATCH_OFFSET scr_b
                                                        in (0, Some (write_at o22 PROC17_QA_REPORT_STAGE_OFFSET
                                                                 (take PROC17_QA_SOURCE_STAGE_V1_BYTES stage)))))))))
           | _ \<Rightarrow> (- 1, Some output))
      | _ \<Rightarrow> (- 1, output_ptr))"

text \<open>What an error report must have observed: end of standard output, of standard error and the
  scratch inventory; \<open>None\<close> for a code and subject that do not belong together.\<close>

definition expected_observations :: "u16 \<Rightarrow> u16 \<Rightarrow> (byte \<times> byte \<times> byte) option" where
  "expected_observations error_code subject =
     (if error_code = PROC17_QA_RUN_V1_OUTPUT_OBSERVATION_INCOMPLETE
         \<and> (subject = PROC17_QA_CONTROLLER_ERROR_STDOUT \<or> subject = PROC17_QA_CONTROLLER_ERROR_STDERR)
      then Some (if subject = PROC17_QA_CONTROLLER_ERROR_STDOUT then 0 else 1,
                 if subject = PROC17_QA_CONTROLLER_ERROR_STDERR then 0 else 1, 1)
      else if error_code = PROC17_QA_RUN_V1_SCRATCH_OBSERVATION_INCOMPLETE
              \<and> subject = PROC17_QA_CONTROLLER_ERROR_SCRATCH
      then Some (1, 1, 0)
      else None)"

definition proc17_qa_controller_error_build ::
  "proc17_qa_controller_error_input ptr \<Rightarrow> bytes ptr \<Rightarrow> int \<times> bytes ptr" where
  "proc17_qa_controller_error_build input_ptr output_ptr =
     (case (input_ptr, output_ptr) of
        (Some input, Some output) \<Rightarrow>
          (case (ei_identity input, ei_process_token input, ei_source_stage input) of
             (Some identity, Some token, Some stage) \<Rightarrow>
               if \<not> proc17_qa_phase_identity_valid (Some identity)
                  \<or> \<not> proc17_qa_wire_digest_nonzero (Some token)
                  \<or> \<not> proc17_qa_wire_v1_source_stage_valid (Some stage)
                  \<or> stage ! 80 \<noteq> 1
                  \<or> stage ! 81 \<noteq> 1
                  \<or> ei_candidate_terminal_observed input \<noteq> 1
                  \<or> ei_process_tree_reaped input \<noteq> 1
                  \<or> ei_status_eof_observed input \<noteq> 1
               then (- 1, Some output)
               else
                 (case expected_observations (ei_error_code input) (ei_subject input) of
                    None \<Rightarrow> (- 1, Some output)
                  | Some (expected_stdout, expected_stderr, expected_scratch) \<Rightarrow>
                      if ei_stdout_eof_observed input \<noteq> expected_stdout
                         \<or> ei_stderr_eof_observed input \<noteq> expected_stderr
                         \<or> ei_scratch_observation_complete input \<noteq> expected_scratch
                      then (- 1, Some output)
                      else
                        (let o6 = report_front output PROC17_QA_CONTROLLER_TERMINAL_ERROR identity token;
                             o7 = proc17_qa_wire_put_u16 o6 PROC17_QA_REPORT_ERROR_CODE_OFFSET
                                    (ei_error_code input);
                             o8 = proc17_qa_wire_put_u16 o7 PROC17_QA_REPORT_ERROR_SUBJECT_OFFSET
                                    (ei_subject input);
                             o9 = write_at o8 PROC17_QA_REPORT_FINALITY_OFFSET [1];
                             o10 = write_at o9 (PROC17_QA_REPORT_FINALITY_OFFSET + 1) [1];
                             o11 = write_at o10 (PROC17_QA_REPORT_FINALITY_OFFSET + 2)
                                     [ei_candidate_terminal_observed input];
                             o12 = write_at o11 (PROC17_QA_REPORT_FINALITY_OFFSET + 3)
                                     [ei_process_tree_reaped input];
                             o13 = write_at o12 (PROC17_QA_REPORT_FINALITY_OFFSET + 4)
                                     [ei_stdout_eof_observed input];
                             o14 = write_at o13 (PROC17_QA_REPORT_FINALITY_OFFSET + 5)
                                     [ei_stderr_eof_observed input];
                             o15 = write_at o14 (PROC17_QA_REPORT_FINALITY_OFFSET + 6)
                                     [ei_scratch_observation_complete input];
                             o16 = write_at o15 PROC17_QA_REPORT_STATUS_EOF_OFFSET
                                     [ei_status_eof_observed input]
                         in (0, Some (write_at o16 PROC17_QA_REPORT_STAGE_OFFSET
                                  (take PROC17_QA_SOURCE_STAGE_V1_BYTES stage)))))
           | _ \<Rightarrow> (- 1, Some output))
      | _ \<Rightarrow> (- 1, output_ptr))"

subsection \<open>Validating a report\<close>

text \<open>The envelope checks the two validators share.\<close>

definition report_front_valid :: "bytes \<Rightarrow> u16 \<Rightarrow> bool" where
  "report_front_valid report kind \<longleftrightarrow>
     take 8 report = report_magic
     \<and> proc17_qa_wire_get_u16 (drop 8 report) = PROC17_QA_CONTROLLER_REPORT_VERSION
     \<and> proc17_qa_wire_get_u16 (drop 10 report) = of_nat PROC17_QA_CONTROLLER_REPORT_BYTES
     \<and> proc17_qa_wire_get_u16 (drop PROC17_QA_REPORT_KIND_OFFSET report) = kind
     \<and> proc17_qa_wire_bytes_zero (Some (drop 14 report)) 2
     \<and> proc17_qa_wire_v1_identity_valid (Some (drop PROC17_QA_REPORT_IDENTITY_OFFSET report))
     \<and> proc17_qa_wire_digest_nonzero (Some (drop PROC17_QA_REPORT_TOKEN_OFFSET report))"

definition report_stage_valid :: "bytes \<Rightarrow> bool" where
  "report_stage_valid report \<longleftrightarrow>
     proc17_qa_wire_v1_source_stage_valid (Some (drop PROC17_QA_REPORT_STAGE_OFFSET report))
     \<and> report ! (PROC17_QA_REPORT_STAGE_OFFSET + 80) = 1
     \<and> report ! (PROC17_QA_REPORT_STAGE_OFFSET + 81) = 1"

text \<open>The structures the validator reads back from a report.\<close>

definition report_termination :: "bytes \<Rightarrow> proc17_qa_candidate_termination" where
  "report_termination report =
     \<lparr>term_kind = proc17_qa_wire_get_u16 (drop (PROC17_QA_REPORT_REASON_OFFSET + 2) report),
      term_exit_code = proc17_qa_wire_get_u32 (drop (PROC17_QA_REPORT_REASON_OFFSET + 4) report),
      term_signal_number = proc17_qa_wire_get_u32 (drop (PROC17_QA_REPORT_REASON_OFFSET + 8) report)\<rparr>"

definition report_cause :: "bytes \<Rightarrow> proc17_qa_first_cause" where
  "report_cause report =
     \<lparr>cause_kind = proc17_qa_wire_get_u16 (drop PROC17_QA_REPORT_CAUSE_OFFSET report),
      cause_monotonic_sequence = proc17_qa_wire_get_u64 (drop (PROC17_QA_REPORT_CAUSE_OFFSET + 4) report),
      cause_observed_value = proc17_qa_wire_get_u64 (drop (PROC17_QA_REPORT_CAUSE_OFFSET + 12) report)\<rparr>"

definition report_stream :: "bytes \<Rightarrow> nat \<Rightarrow> proc17_qa_stream_measurement" where
  "report_stream report off =
     \<lparr>sm_observed_bytes = proc17_qa_wire_get_u64 (drop off report),
      sm_hashed_bytes = proc17_qa_wire_get_u64 (drop (off + 8) report),
      sm_limit_bytes = proc17_qa_wire_get_u64 (drop (off + 16) report),
      sm_prefix_digest = slice (off + 24) PROC17_QA_WIRE_DIGEST_BYTES report,
      sm_limit_crossed = report ! (off + 56),
      sm_eof_observed = report ! (off + 57)\<rparr>"

definition report_metrics :: "bytes \<Rightarrow> proc17_qa_candidate_metrics" where
  "report_metrics resource =
     \<lparr>cm_wall_time_ms = proc17_qa_wire_get_u64 resource,
      cm_cpu_user_ms = proc17_qa_wire_get_u64 (drop 8 resource),
      cm_cpu_system_ms = proc17_qa_wire_get_u64 (drop 16 resource),
      cm_max_rss_bytes = proc17_qa_wire_get_u64 (drop 24 resource)\<rparr>"

definition report_allocator :: "bytes \<Rightarrow> proc17_qa_allocator_snapshot_data" where
  "report_allocator report =
     (let resource = drop PROC17_QA_REPORT_RESOURCE_OFFSET report
      in \<lparr>as_ceiling_bytes = proc17_qa_wire_get_u64 (drop 48 resource),
          as_current_bytes = proc17_qa_wire_get_u64 (drop PROC17_QA_REPORT_ALLOCATOR_CURRENT_OFFSET report),
          as_peak_bytes = proc17_qa_wire_get_u64 (drop 40 resource),
          as_ceiling_denied = resource ! 80,
          as_system_allocation_failed = report ! PROC17_QA_REPORT_SYSTEM_FAILURE_OFFSET,
          as_status_notification_failed = report ! PROC17_QA_REPORT_NOTIFICATION_FAILURE_OFFSET\<rparr>)"

text \<open>The limits a result report repeats are those of the policy.\<close>

definition report_limits_valid :: "bytes \<Rightarrow> bool" where
  "report_limits_valid report \<longleftrightarrow>
     (let resource = drop PROC17_QA_REPORT_RESOURCE_OFFSET report
      in proc17_qa_wire_get_u64 (drop 32 resource) = PROC17_QA_ADDRESS_SPACE_BYTES
         \<and> proc17_qa_wire_get_u64 (drop 48 resource) = PROC17_QA_RUNTIME_HEAP_BYTES
         \<and> proc17_qa_wire_get_u64 (drop 56 resource) = PROC17_QA_MAX_PROCESSES
         \<and> proc17_qa_wire_get_u64 (drop 64 resource) = PROC17_QA_MAX_OPEN_FILES
         \<and> proc17_qa_wire_get_u64 (drop 72 resource) = PROC17_QA_MAX_FILE_BYTES
         \<and> proc17_qa_wire_get_u64 (drop (PROC17_QA_REPORT_SCRATCH_OFFSET + 16) report)
             = PROC17_QA_SCRATCH_BYTES
         \<and> proc17_qa_wire_get_u64 (drop (PROC17_QA_REPORT_SCRATCH_OFFSET + 24) report)
             = PROC17_QA_SCRATCH_ENTRIES)"

definition private_result_valid :: "bytes ptr \<Rightarrow> bool" where
  "private_result_valid report_ptr =
     (case report_ptr of
        None \<Rightarrow> False
      | Some report \<Rightarrow>
          if \<not> report_front_valid report PROC17_QA_CONTROLLER_TERMINAL_RESULT
             \<or> \<not> proc17_qa_wire_bytes_zero (Some (drop 190 report)) 2
             \<or> report ! PROC17_QA_REPORT_STATUS_EOF_OFFSET \<noteq> 1
             \<or> report ! PROC17_QA_REPORT_ALLOCATOR_STABLE_OFFSET \<noteq> 1
             \<or> report ! PROC17_QA_REPORT_HEAP_NOTIFICATION_OFFSET > 1
             \<or> \<not> proc17_qa_wire_boolean (report ! PROC17_QA_REPORT_SYSTEM_FAILURE_OFFSET)
             \<or> report ! PROC17_QA_REPORT_NOTIFICATION_FAILURE_OFFSET \<noteq> 0
             \<or> \<not> proc17_qa_wire_bytes_zero (Some (drop 220 report)) 4
          then False
          else if list_ex (\<lambda>index. report ! (PROC17_QA_REPORT_FINALITY_OFFSET + index) \<noteq> 1) [0..<7]
          then False
          else if \<not> proc17_qa_wire_v1_stream_valid (Some (drop PROC17_QA_REPORT_STDOUT_OFFSET report))
             \<or> \<not> proc17_qa_wire_v1_stream_valid (Some (drop PROC17_QA_REPORT_STDERR_OFFSET report))
             \<or> \<not> proc17_qa_wire_v1_resource_valid (Some (drop PROC17_QA_REPORT_RESOURCE_OFFSET report))
             \<or> \<not> proc17_qa_wire_v1_scratch_valid (Some (drop PROC17_QA_REPORT_SCRATCH_OFFSET report))
             \<or> \<not> report_stage_valid report
          then False
          else if \<not> report_limits_valid report then False
          else
            (let reason = proc17_qa_wire_get_u16 (drop PROC17_QA_REPORT_REASON_OFFSET report);
                 stdout_measurement = report_stream report PROC17_QA_REPORT_STDOUT_OFFSET;
                 stderr_measurement = report_stream report PROC17_QA_REPORT_STDERR_OFFSET;
                 allocator = report_allocator report
             in sm_limit_bytes stdout_measurement = PROC17_QA_STDOUT_BYTES
                \<and> sm_limit_bytes stderr_measurement = PROC17_QA_STDERR_BYTES
                \<and> allocator_shape_valid (Some allocator)
                    (report ! PROC17_QA_REPORT_HEAP_NOTIFICATION_OFFSET) reason
                \<and> reason_evidence_valid reason (Some (report_cause report)) (Some (report_termination report))
                    stdout_measurement stderr_measurement
                    (Some (report_metrics (drop PROC17_QA_REPORT_RESOURCE_OFFSET report))) allocator))"

definition private_error_valid :: "bytes ptr \<Rightarrow> bool" where
  "private_error_valid report_ptr =
     (case report_ptr of
        None \<Rightarrow> False
      | Some report \<Rightarrow>
          if \<not> report_front_valid report PROC17_QA_CONTROLLER_TERMINAL_ERROR
             \<or> \<not> proc17_qa_wire_bytes_zero (Some (drop 180 report)) 28
             \<or> report ! PROC17_QA_REPORT_STATUS_EOF_OFFSET \<noteq> 1
             \<or> \<not> proc17_qa_wire_bytes_zero (Some (drop 216 report)) (PROC17_QA_REPORT_STAGE_OFFSET - 216)
             \<or> \<not> report_stage_valid report
          then False
          else
            (let code = proc17_qa_wire_get_u16 (drop PROC17_QA_REPORT_ERROR_CODE_OFFSET report);
                 subject = proc17_qa_wire_get_u16 (drop PROC17_QA_REPORT_ERROR_SUBJECT_OFFSET report);
                 finality = drop PROC17_QA_REPORT_FINALITY_OFFSET report
             in if finality ! 0 \<noteq> 1 \<or> finality ! 1 \<noteq> 1 \<or> finality ! 2 \<noteq> 1 \<or> finality ! 3 \<noteq> 1
                then False
                else if code = PROC17_QA_RUN_V1_OUTPUT_OBSERVATION_INCOMPLETE
                        \<and> subject = PROC17_QA_CONTROLLER_ERROR_STDOUT
                then finality ! 4 = 0 \<and> finality ! 5 = 1 \<and> finality ! 6 = 1
                else if code = PROC17_QA_RUN_V1_OUTPUT_OBSERVATION_INCOMPLETE
                        \<and> subject = PROC17_QA_CONTROLLER_ERROR_STDERR
                then finality ! 4 = 1 \<and> finality ! 5 = 0 \<and> finality ! 6 = 1
                else code = PROC17_QA_RUN_V1_SCRATCH_OBSERVATION_INCOMPLETE
                     \<and> subject = PROC17_QA_CONTROLLER_ERROR_SCRATCH
                     \<and> finality ! 4 = 1 \<and> finality ! 5 = 1 \<and> finality ! 6 = 0))"

definition private_report_kind :: "bytes ptr \<Rightarrow> u16" where
  "private_report_kind report_ptr =
     (case report_ptr of
        None \<Rightarrow> 0
      | Some report \<Rightarrow>
          (let kind = proc17_qa_wire_get_u16 (drop PROC17_QA_REPORT_KIND_OFFSET report)
           in if kind = PROC17_QA_CONTROLLER_TERMINAL_RESULT
              then (if private_result_valid (Some report) then kind else 0)
              else if kind = PROC17_QA_CONTROLLER_TERMINAL_ERROR
              then (if private_error_valid (Some report) then kind else 0)
              else 0))"

subsection \<open>Finalisation\<close>

definition observation_bytes :: "proc17_qa_namespace_observation \<Rightarrow> bytes" where
  "observation_bytes obs = [no_controller_pidfd_identity_retained obs, no_terminal_record_complete obs,
     no_terminal_record_eof_observed obs, no_controller_reaped obs, no_controller_authority_closed obs]"

definition proc17_qa_namespace_cleanup_observe ::
  "proc17_qa_namespace_observation ptr \<Rightarrow> u32 \<Rightarrow> byte option" where
  "proc17_qa_namespace_cleanup_observe observation_ptr controller_wait_status =
     (case observation_ptr of
        None \<Rightarrow> None
      | Some observation \<Rightarrow>
          if list_ex (\<lambda>b. b > 1) (observation_bytes observation) then None
          else if no_terminal_record_complete observation \<noteq> 1 then None
          else if no_controller_reaped observation \<noteq> 0
                  \<and> (\<not> WIFEXITED controller_wait_status \<or> WEXITSTATUS controller_wait_status \<noteq> 0)
          then None
          else Some (if no_controller_pidfd_identity_retained observation \<noteq> 0
                        \<and> no_terminal_record_eof_observed observation \<noteq> 0
                        \<and> no_controller_reaped observation \<noteq> 0
                        \<and> no_controller_authority_closed observation \<noteq> 0 then 1 else 0))"

definition public_error_payload :: "bytes \<Rightarrow> proc17_qa_phase_identity \<Rightarrow> u16 \<Rightarrow> u16 \<Rightarrow> bytes" where
  "public_error_payload report identity code stage =
     (let p0 = replicate PROC17_QA_RUN_ERROR_V1_BYTES 0;
          p1 = write_at p0 0 (take PROC17_QA_V1_IDENTITY_BYTES (identity_bytes identity));
          p2 = proc17_qa_wire_put_u16 p1 PROC17_QA_V1_PHASE_OFFSET PROC17_QA_RUN_V1_PHASE_TERMINAL;
          p3 = proc17_qa_wire_put_u16 p2 130 PROC17_QA_RUN_V1_ERROR_AMBIGUOUS;
          p4 = proc17_qa_wire_put_u16 p3 132 code;
          p5 = proc17_qa_wire_put_u16 p4 134 stage;
          p6 = write_at p5 136 [PROC17_QA_RUN_V1_TRUE];
          p7 = write_at p6 137 [PROC17_QA_RUN_V1_FALSE];
          p8 = write_at p7 139 [1]
      in write_at p8 PROC17_QA_V1_ERROR_STAGE_OFFSET
           (slice PROC17_QA_REPORT_STAGE_OFFSET PROC17_QA_SOURCE_STAGE_V1_BYTES report))"

definition encode_public_error ::
  "bytes \<Rightarrow> proc17_qa_phase_identity \<Rightarrow> u16 \<Rightarrow> u16 \<Rightarrow> bytes ptr \<Rightarrow> (bytes \<times> nat) option" where
  "encode_public_error report identity code stage frame =
     (let payload = public_error_payload report identity code stage
      in if \<not> proc17_qa_wire_v1_error_valid (Some payload) (of_nat PROC17_QA_RUN_ERROR_V1_BYTES) then None
         else proc17_qa_wire_encode_run_v1 PROC17_QA_WIRE_RUN_ERROR_V1 (Some (id_transaction identity))
                (Some payload) (of_nat PROC17_QA_RUN_ERROR_V1_BYTES) frame)"

definition public_result_payload :: "bytes \<Rightarrow> proc17_qa_phase_identity \<Rightarrow> bytes" where
  "public_result_payload report identity =
     (let p0 = replicate PROC17_QA_RUN_RESULT_V1_BYTES 0;
          p1 = write_at p0 0 (take PROC17_QA_V1_IDENTITY_BYTES (identity_bytes identity));
          p2 = proc17_qa_wire_put_u16 p1 PROC17_QA_V1_PHASE_OFFSET PROC17_QA_RUN_V1_PHASE_TERMINAL;
          p3 = proc17_qa_wire_put_u16 p2 130 PROC17_QA_RUN_CONTAINED;
          p4 = write_at p3 132 (slice PROC17_QA_REPORT_REASON_OFFSET 12 report);
          p5 = write_at p4 144 (slice PROC17_QA_REPORT_CAUSE_OFFSET 20 report);
          p6 = write_at p5 PROC17_QA_V1_RESULT_FINALITY_OFFSET (replicate 8 1);
          p7 = write_at p6 PROC17_QA_V1_RESULT_STDOUT_OFFSET
                 (slice PROC17_QA_REPORT_STDOUT_OFFSET PROC17_QA_STREAM_MEASUREMENT_V1_BYTES report);
          p8 = write_at p7 PROC17_QA_V1_RESULT_STDERR_OFFSET
                 (slice PROC17_QA_REPORT_STDERR_OFFSET PROC17_QA_STREAM_MEASUREMENT_V1_BYTES report);
          p9 = write_at p8 PROC17_QA_V1_RESULT_RESOURCE_OFFSET
                 (slice PROC17_QA_REPORT_RESOURCE_OFFSET PROC17_QA_RESOURCE_MEASUREMENT_V1_BYTES report);
          p10 = write_at p9 PROC17_QA_V1_RESULT_SCRATCH_OFFSET
                 (slice PROC17_QA_REPORT_SCRATCH_OFFSET PROC17_QA_SCRATCH_MEASUREMENT_V1_BYTES report)
      in write_at p10 PROC17_QA_V1_RESULT_STAGE_OFFSET
           (slice PROC17_QA_REPORT_STAGE_OFFSET PROC17_QA_SOURCE_STAGE_V1_BYTES report))"

definition proc17_qa_controller_report_finalize ::
  "bytes ptr \<Rightarrow> proc17_qa_phase_identity ptr \<Rightarrow> bytes ptr \<Rightarrow> u32 \<Rightarrow> proc17_qa_namespace_observation ptr
   \<Rightarrow> bytes ptr \<Rightarrow> (bytes \<times> nat) option" where
  "proc17_qa_controller_report_finalize report_ptr expected_identity expected_process_token
     controller_wait_status namespace_observation frame =
     (let kind = private_report_kind report_ptr
      in case (report_ptr, expected_identity, expected_process_token) of
           (Some report, Some identity, Some token) \<Rightarrow>
             if kind = 0 \<or> \<not> proc17_qa_phase_identity_valid (Some identity)
                \<or> \<not> proc17_qa_wire_digest_nonzero (Some token)
                \<or> slice PROC17_QA_REPORT_IDENTITY_OFFSET PROC17_QA_V1_IDENTITY_BYTES report
                    \<noteq> take PROC17_QA_V1_IDENTITY_BYTES (identity_bytes identity)
                \<or> slice PROC17_QA_REPORT_TOKEN_OFFSET PROC17_QA_WIRE_DIGEST_BYTES report
                    \<noteq> take PROC17_QA_WIRE_DIGEST_BYTES token
                \<or> frame = NULL
             then None
             else
               (case proc17_qa_namespace_cleanup_observe namespace_observation controller_wait_status of
                  None \<Rightarrow> None
                | Some namespace_complete \<Rightarrow>
                    if kind = PROC17_QA_CONTROLLER_TERMINAL_ERROR
                    then if namespace_complete \<noteq> 1 then None
                         else encode_public_error report identity
                                (proc17_qa_wire_get_u16 (drop PROC17_QA_REPORT_ERROR_CODE_OFFSET report))
                                PROC17_QA_RUN_V1_ERROR_POSTFLIGHT frame
                    else if namespace_complete \<noteq> 1
                    then encode_public_error report identity PROC17_QA_RUN_V1_NAMESPACE_CLEANUP_INCOMPLETE
                           PROC17_QA_RUN_V1_ERROR_CLEANUP frame
                    else
                      (let payload = public_result_payload report identity
                       in if \<not> proc17_qa_wire_v1_result_valid (Some payload)
                                (of_nat PROC17_QA_RUN_RESULT_V1_BYTES)
                          then None
                          else proc17_qa_wire_encode_run_v1 PROC17_QA_WIRE_RUN_RESULT_V1
                                 (Some (id_transaction identity)) (Some payload)
                                 (of_nat PROC17_QA_RUN_RESULT_V1_BYTES) frame))
         | _ \<Rightarrow> None)"

subsection \<open>The published payloads\<close>

lemma take_identity_bytes: "identity_wf i \<Longrightarrow> take 128 (identity_bytes i) = identity_bytes i"
  by (simp add: length_identity_bytes)

lemma public_result_slices:
  assumes r: "length report = 572" and i: "identity_wf identity"
  shows "length (public_result_payload report identity) = 512"
    "slice 0 128 (public_result_payload report identity) = identity_bytes identity"
    "slice 128 2 (public_result_payload report identity) = be16 PROC17_QA_RUN_V1_PHASE_TERMINAL"
    "slice 130 2 (public_result_payload report identity) = be16 PROC17_QA_RUN_CONTAINED"
    "slice 132 12 (public_result_payload report identity) = slice 176 12 report"
    "slice 144 20 (public_result_payload report identity) = slice 188 20 report"
    "slice 164 8 (public_result_payload report identity) = replicate 8 1"
    "slice 172 64 (public_result_payload report identity) = slice 232 64 report"
    "slice 236 64 (public_result_payload report identity) = slice 296 64 report"
    "slice 300 88 (public_result_payload report identity) = slice 360 88 report"
    "slice 388 40 (public_result_payload report identity) = slice 448 40 report"
    "slice 428 84 (public_result_payload report identity) = slice 488 84 report"
  using r length_identity_bytes [OF i]
  by (simp_all add: public_result_payload_def Let_def proc17_qa_wire_put_u16_def buf_simps slice_eq_self)

lemma public_error_slices:
  assumes r: "length report = 572" and i: "identity_wf identity"
  shows "length (public_error_payload report identity code stage) = 268"
    "slice 0 128 (public_error_payload report identity code stage) = identity_bytes identity"
    "slice 128 2 (public_error_payload report identity code stage) = be16 PROC17_QA_RUN_V1_PHASE_TERMINAL"
    "slice 130 2 (public_error_payload report identity code stage) = be16 PROC17_QA_RUN_V1_ERROR_AMBIGUOUS"
    "slice 132 2 (public_error_payload report identity code stage) = be16 code"
    "slice 134 2 (public_error_payload report identity code stage) = be16 stage"
    "public_error_payload report identity code stage ! 136 = PROC17_QA_RUN_V1_TRUE"
    "public_error_payload report identity code stage ! 137 = PROC17_QA_RUN_V1_FALSE"
    "public_error_payload report identity code stage ! 138 = 0"
    "public_error_payload report identity code stage ! 139 = 1"
    "slice 140 44 (public_error_payload report identity code stage) = replicate 44 0"
    "slice 184 84 (public_error_payload report identity code stage) = slice 488 84 report"
  using r length_identity_bytes [OF i]
  by (simp_all add: public_error_payload_def Let_def proc17_qa_wire_put_u16_def buf_simps slice_eq_self)

lemma agree_of_slices:
  "slice i n p = slice j n q \<Longrightarrow> i + n \<le> length p \<Longrightarrow> j + n \<le> length q \<Longrightarrow> agree n (drop i p) (drop j q)"
  by (auto simp: agree_def slice_def)

lemma get_u16_of_slice: "slice i 2 p = slice j 2 q \<Longrightarrow> i + 2 \<le> length p \<Longrightarrow> j + 2 \<le> length q \<Longrightarrow>
    proc17_qa_wire_get_u16 (drop i p) = proc17_qa_wire_get_u16 (drop j q)"
  by (simp add: get_u16_slice)

lemma get_u32_of_slice: "slice i 4 p = slice j 4 q \<Longrightarrow> i + 4 \<le> length p \<Longrightarrow> j + 4 \<le> length q \<Longrightarrow>
    proc17_qa_wire_get_u32 (drop i p) = proc17_qa_wire_get_u32 (drop j q)"
  by (simp add: get_u32_slice)

lemma get_u64_of_slice: "slice i 8 p = slice j 8 q \<Longrightarrow> i + 8 \<le> length p \<Longrightarrow> j + 8 \<le> length q \<Longrightarrow>
    proc17_qa_wire_get_u64 (drop i p) = proc17_qa_wire_get_u64 (drop j q)"
  by (simp add: get_u64_slice)

lemma slice_within:
  "slice i n p = slice j n q \<Longrightarrow> k + m \<le> n \<Longrightarrow> slice (i + k) m p = slice (j + k) m q"
  by (metis slice_slice)

text \<open>The fields of a published result are the fields of the report.\<close>

lemma public_result_fields:
  assumes r: "length report = 572" and i: "identity_wf identity"
  defines "p \<equiv> public_result_payload report identity"
  shows "proc17_qa_wire_get_u16 (drop 132 p) = proc17_qa_wire_get_u16 (drop 176 report)"
    "proc17_qa_wire_get_u16 (drop 134 p) = proc17_qa_wire_get_u16 (drop 178 report)"
    "proc17_qa_wire_get_u32 (drop 136 p) = proc17_qa_wire_get_u32 (drop 180 report)"
    "proc17_qa_wire_get_u32 (drop 140 p) = proc17_qa_wire_get_u32 (drop 184 report)"
    "proc17_qa_wire_get_u16 (drop 144 p) = proc17_qa_wire_get_u16 (drop 188 report)"
    "proc17_qa_wire_get_u16 (drop 146 p) = proc17_qa_wire_get_u16 (drop 190 report)"
    "proc17_qa_wire_get_u64 (drop 148 p) = proc17_qa_wire_get_u64 (drop 192 report)"
    "proc17_qa_wire_get_u64 (drop 156 p) = proc17_qa_wire_get_u64 (drop 200 report)"
    "agree 64 (drop 172 p) (drop 232 report)" "agree 64 (drop 236 p) (drop 296 report)"
    "agree 88 (drop 300 p) (drop 360 report)" "agree 40 (drop 388 p) (drop 448 report)"
    "agree 84 (drop 428 p) (drop 488 report)"
proof -
  note sl = public_result_slices [OF r i, folded p_def]
  show "proc17_qa_wire_get_u16 (drop 132 p) = proc17_qa_wire_get_u16 (drop 176 report)"
    "proc17_qa_wire_get_u16 (drop 134 p) = proc17_qa_wire_get_u16 (drop 178 report)"
    "proc17_qa_wire_get_u32 (drop 136 p) = proc17_qa_wire_get_u32 (drop 180 report)"
    "proc17_qa_wire_get_u32 (drop 140 p) = proc17_qa_wire_get_u32 (drop 184 report)"
    using sl(1) r slice_within [OF sl(5), of 0 2] slice_within [OF sl(5), of 2 2]
      slice_within [OF sl(5), of 4 4] slice_within [OF sl(5), of 8 4]
    by (auto intro!: get_u16_of_slice get_u32_of_slice)
  show "proc17_qa_wire_get_u16 (drop 144 p) = proc17_qa_wire_get_u16 (drop 188 report)"
    "proc17_qa_wire_get_u16 (drop 146 p) = proc17_qa_wire_get_u16 (drop 190 report)"
    "proc17_qa_wire_get_u64 (drop 148 p) = proc17_qa_wire_get_u64 (drop 192 report)"
    "proc17_qa_wire_get_u64 (drop 156 p) = proc17_qa_wire_get_u64 (drop 200 report)"
    using sl(1) r slice_within [OF sl(6), of 0 2] slice_within [OF sl(6), of 2 2]
      slice_within [OF sl(6), of 4 8] slice_within [OF sl(6), of 12 8]
    by (auto intro!: get_u16_of_slice get_u64_of_slice)
  show "agree 64 (drop 172 p) (drop 232 report)" "agree 64 (drop 236 p) (drop 296 report)"
    "agree 88 (drop 300 p) (drop 360 report)" "agree 40 (drop 388 p) (drop 448 report)"
    "agree 84 (drop 428 p) (drop 488 report)"
    using sl r by (simp_all add: agree_of_slices)
qed

lemma termination_kind_range:
  "termination_shape_valid (Some t) \<Longrightarrow> PROC17_QA_TERMINATION_EXIT \<le> term_kind t
     \<and> term_kind t \<le> PROC17_QA_TERMINATION_SUPERVISOR_KILL"
  by (auto simp: termination_shape_valid_def split: if_splits)

lemma evidence_basics:
  assumes "reason_evidence_valid reason (Some cause) (Some t) o_m e_m (Some metrics) allocator"
  shows "cause_kind cause = reason" "cause_monotonic_sequence cause \<noteq> 0"
    "PROC17_QA_RUN_EXPECTED_EXIT \<le> reason" "reason \<le> PROC17_QA_RUN_SANDBOX_POLICY_VIOLATION"
    "reason \<noteq> PROC17_QA_RUN_SCRATCH_LIMIT" "termination_shape_valid (Some t)"
  using assms by (auto simp: reason_evidence_valid_def Let_def not_less split: if_splits)

lemma slice_replicate_nth: "slice off n p = replicate n x \<Longrightarrow> off + n \<le> length p \<Longrightarrow> k < n \<Longrightarrow> p ! (off + k) = x"
  by (metis nth_replicate nth_slice add_less_cancel_left order_less_le_trans)

lemma u16_zero: "length p \<ge> off + 2 \<Longrightarrow> slice off 2 p = [0, 0] \<Longrightarrow> proc17_qa_wire_get_u16 (drop off p) = 0"
  using get_be16 [of 0 "[]"] by (simp add: get_u16_slice be16_def)

lemma u16_range: "(1 :: u16) \<le> w \<Longrightarrow> w \<noteq> 0"
  by auto

lemma public_result_valid:
  assumes r: "length report = 572" and i: "identity_wf identity" "proc17_qa_phase_identity_valid (Some identity)"
    and v: "private_result_valid (Some report)"
  shows "proc17_qa_wire_v1_result_valid (Some (public_result_payload report identity)) 512"
proof -
  let ?p = "public_result_payload report identity"
  note sl = public_result_slices [OF r i(1)] and f = public_result_fields [OF r i(1)]
  have id: "proc17_qa_wire_v1_identity_valid (Some ?p)"
    using identity_valid_wire [OF i(1) _ sl(2)] sl(1) i(2) by simp
  have ev: "reason_evidence_valid (proc17_qa_wire_get_u16 (drop 176 report)) (Some (report_cause report))
      (Some (report_termination report)) (report_stream report 232) (report_stream report 296)
      (Some (report_metrics (drop 360 report))) (report_allocator report)"
    and z: "slice 190 2 report = [0, 0]"
    and parts: "proc17_qa_wire_v1_stream_valid (Some (drop 232 report))" "proc17_qa_wire_v1_stream_valid (Some (drop 296 report))"
      "proc17_qa_wire_v1_resource_valid (Some (drop 360 report))" "proc17_qa_wire_v1_scratch_valid (Some (drop 448 report))"
      "proc17_qa_wire_v1_source_stage_valid (Some (drop 488 report))"
    using v r by (auto simp: private_result_valid_def Let_def report_stage_valid_def bytes_zero_slice numeral_2_eq_2
        split: if_splits)
  note eb = evidence_basics [OF ev, unfolded report_cause_def, simplified]
  have fin: "\<not> list_ex (\<lambda>index. ?p ! (PROC17_QA_V1_RESULT_FINALITY_OFFSET + index) \<noteq> 1) [0..<8]"
    using sl(1) slice_replicate_nth [OF sl(7)] by (simp add: list_ex_iff)
  have hd: "proc17_qa_wire_get_u16 (drop 128 ?p) = 2" "proc17_qa_wire_get_u16 (drop 130 ?p) = 1"
    using sl(1,3,4) by (simp_all add: codec_simps)
  have rs: "proc17_qa_wire_get_u16 (drop 132 ?p) \<noteq> 0" "\<not> 9 < proc17_qa_wire_get_u16 (drop 132 ?p)"
    "proc17_qa_wire_get_u16 (drop 144 ?p) = proc17_qa_wire_get_u16 (drop 132 ?p)"
    "proc17_qa_wire_get_u64 (drop 148 ?p) \<noteq> 0" "proc17_qa_wire_get_u16 (drop 146 ?p) = 0"
    using eb(1-4) u16_zero [of 190 report] z r u16_range by (simp_all add: f not_less)
  have tk: "proc17_qa_wire_get_u16 (drop 134 ?p) \<noteq> 0" "\<not> 3 < proc17_qa_wire_get_u16 (drop 134 ?p)"
    using termination_kind_range [OF eb(6)] u16_range by (auto simp: report_termination_def not_less f)
  have pv: "proc17_qa_wire_v1_stream_valid (Some (drop 172 ?p))" "proc17_qa_wire_v1_stream_valid (Some (drop 236 ?p))"
    "proc17_qa_wire_v1_resource_valid (Some (drop 300 ?p))" "proc17_qa_wire_v1_scratch_valid (Some (drop 388 ?p))"
    "proc17_qa_wire_v1_source_stage_valid (Some (drop 428 ?p))"
    using parts agree_stream_valid [OF f(9)] agree_stream_valid [OF f(10)] agree_resource_valid [OF f(11)]
      agree_scratch_valid [OF f(12)] agree_stage_valid [OF f(13)] by blast+
  show ?thesis
    unfolding proc17_qa_wire_v1_result_valid_def Let_def using fin
    by (simp add: id hd rs tk pv del: upt_rec_numeral)
qed

lemma public_error_valid:
  assumes r: "length report = 572" and i: "identity_wf identity" "proc17_qa_phase_identity_valid (Some identity)"
    and stage: "report_stage_valid report"
    and code: "PROC17_QA_RUN_V1_SUPERVISOR_UNAVAILABLE \<le> code" "code \<le> PROC17_QA_RUN_V1_NAMESPACE_CLEANUP_INCOMPLETE"
    and st: "PROC17_QA_RUN_V1_ERROR_PREFLIGHT \<le> st" "st \<le> PROC17_QA_RUN_V1_ERROR_CLEANUP"
  shows "proc17_qa_wire_v1_error_valid (Some (public_error_payload report identity code st)) 268"
proof -
  let ?p = "public_error_payload report identity code st"
  note sl = public_error_slices [OF r i(1), of code st]
  have id: "proc17_qa_wire_v1_identity_valid (Some ?p)"
    using identity_valid_wire [OF i(1) _ sl(2)] sl(1) i(2) by simp
  have "slice 140 4 ?p = replicate 4 0" "slice 144 40 ?p = replicate 40 0"
    using slice_slice [of 0 4 44 140 ?p] slice_slice [of 4 40 44 140 ?p] sl(11) by (simp_all add: slice_replicate)
  moreover have "proc17_qa_wire_v1_source_stage_valid (Some (drop 184 ?p))"
    using agree_stage_valid [OF agree_of_slices [OF sl(12)]] sl(1) r stage by (simp add: report_stage_valid_def)
  ultimately show ?thesis
    using id sl code st u16_range [of code] u16_range [of st] by (simp add: proc17_qa_wire_v1_error_valid_def Let_def codec_simps not_less
        proc17_qa_wire_tri_state_def proc17_qa_wire_boolean_def)
qed

subsection \<open>What finalisation publishes\<close>

text \<open>The verdict on a report: nothing, or the kind and payload of one public frame.\<close>

definition finalize_verdict ::
  "bytes \<Rightarrow> proc17_qa_phase_identity \<Rightarrow> bytes \<Rightarrow> u32 \<Rightarrow> proc17_qa_namespace_observation ptr
   \<Rightarrow> (u16 \<times> bytes) option" where
  "finalize_verdict report identity token status observation =
     (if private_report_kind (Some report) = 0
         \<or> slice 16 128 report \<noteq> identity_bytes identity \<or> slice 144 32 report \<noteq> token
      then None
      else
        (case (proc17_qa_namespace_cleanup_observe observation status, private_report_kind (Some report) = 1) of
           (None, _) \<Rightarrow> None
         | (Some clean, True) \<Rightarrow>
             Some (if clean = 1 then (PROC17_QA_WIRE_RUN_RESULT_V1, public_result_payload report identity)
                   else (PROC17_QA_WIRE_RUN_ERROR_V1,
                         public_error_payload report identity PROC17_QA_RUN_V1_NAMESPACE_CLEANUP_INCOMPLETE
                           PROC17_QA_RUN_V1_ERROR_CLEANUP))
         | (Some clean, False) \<Rightarrow>
             if clean = 1
             then Some (PROC17_QA_WIRE_RUN_ERROR_V1,
                        public_error_payload report identity (proc17_qa_wire_get_u16 (drop 176 report))
                          PROC17_QA_RUN_V1_ERROR_POSTFLIGHT)
             else None))"

lemma private_report_kind_cases:
  "private_report_kind (Some report) = 0
   \<or> private_report_kind (Some report) = 1 \<and> private_result_valid (Some report)
   \<or> private_report_kind (Some report) = 2 \<and> private_error_valid (Some report)"
  by (simp add: private_report_kind_def Let_def)

lemma private_report_front:
  assumes "private_report_kind (Some report) \<noteq> 0"
  shows "report_front_valid report (private_report_kind (Some report)) \<and> report_stage_valid report"
proof (cases "private_report_kind (Some report) = 1")
  case True
  then have "private_result_valid (Some report)" using private_report_kind_cases [of report] by auto
  then show ?thesis using True by (auto simp: private_result_valid_def split: if_splits)
next
  case False
  then have k: "private_report_kind (Some report) = 2" and "private_error_valid (Some report)"
    using private_report_kind_cases [of report] assms by auto
  then show ?thesis by (auto simp: private_error_valid_def split: if_splits)
qed

lemma private_error_code:
  assumes "private_error_valid (Some report)"
  shows "proc17_qa_wire_get_u16 (drop 176 report) \<in> {7, 8}"
  using assms by (auto simp: private_error_valid_def Let_def split: if_splits)

lemma verdict_payload_valid:
  assumes r: "length report = 572" and i: "identity_wf identity"
    and v: "finalize_verdict report identity token status observation = Some (k, p)"
  shows "proc17_qa_wire_v1_payload_valid k (Some p) (of_nat (length p)) \<and> take 32 p = id_transaction identity
    \<and> (k = PROC17_QA_WIRE_RUN_RESULT_V1 \<and> length p = 512 \<or> k = PROC17_QA_WIRE_RUN_ERROR_V1 \<and> length p = 268)"
proof -
  have k0: "private_report_kind (Some report) \<noteq> 0" and id: "slice 16 128 report = identity_bytes identity"
    using v by (auto simp: finalize_verdict_def split: if_splits)
  note fr = private_report_front [OF k0]
  have iv: "proc17_qa_phase_identity_valid (Some identity)"
    using identity_valid_wire [OF i, of "drop 16 report"] fr id r by (simp add: report_front_valid_def)
  have tr: "take 32 p = id_transaction identity" if "slice 0 128 p = identity_bytes identity" for p
    using slice_slice [of 0 32 128 0 p] that identity_bytes_slices(1) [OF i] by (simp add: take_eq_slice)
  note er = public_error_valid [OF r i iv conjunct2 [OF fr]] and es = public_error_slices [OF r i]
  consider "private_result_valid (Some report)" "private_report_kind (Some report) = 1"
    | "private_error_valid (Some report)" "private_report_kind (Some report) = 2"
    using private_report_kind_cases [of report] k0 by auto
  then show ?thesis
  proof cases
    case 1
    then show ?thesis
      using v public_result_valid [OF r i iv 1(1)] public_result_slices(1,2) [OF r i] er es(1,2) tr
      by (auto simp: finalize_verdict_def proc17_qa_wire_v1_payload_valid_def split: if_splits option.splits)
  next
    case 2
    then show ?thesis
      using v private_error_code [OF 2(1)] er es(1,2) tr
      by (auto simp: finalize_verdict_def proc17_qa_wire_v1_payload_valid_def split: if_splits option.splits)
  qed
qed

lemma finalize_eq_verdict:
  assumes r: "length report = 572" and i: "identity_wf identity" and t: "length token = 32"
  shows "proc17_qa_controller_report_finalize (Some report) (Some identity) (Some token) status observation (Some frame) =
    (case finalize_verdict report identity token status observation of
       None \<Rightarrow> None
     | Some (k, p) \<Rightarrow> proc17_qa_wire_encode_run_v1 k (Some (id_transaction identity)) (Some p)
                       (of_nat (length p)) (Some frame))"
proof (cases "private_report_kind (Some report) = 0 \<or> slice 16 128 report \<noteq> identity_bytes identity
    \<or> slice 144 32 report \<noteq> token")
  case True
  then show ?thesis
    using t by (auto simp: proc17_qa_controller_report_finalize_def finalize_verdict_def take_identity_bytes [OF i])
next
  case False
  then have k0: "private_report_kind (Some report) \<noteq> 0" and id: "slice 16 128 report = identity_bytes identity"
    and tk: "slice 144 32 report = token" by auto
  note fr = private_report_front [OF k0]
  have iv: "proc17_qa_phase_identity_valid (Some identity)"
    using identity_valid_wire [OF i, of "drop 16 report"] fr id r by (simp add: report_front_valid_def)
  have tv: "proc17_qa_wire_digest_nonzero (Some token)"
    using fr tk r t by (simp add: report_front_valid_def codec_simps slice_eq_self)
  note er = public_error_valid [OF r i iv conjunct2 [OF fr]] and es = public_error_slices(1) [OF r i]
  note rest = proc17_qa_controller_report_finalize_def finalize_verdict_def encode_public_error_def Let_def
    take_identity_bytes [OF i] id tk iv tv t
  consider "private_result_valid (Some report)" "private_report_kind (Some report) = 1"
    | "private_error_valid (Some report)" "private_report_kind (Some report) = 2"
    using private_report_kind_cases [of report] k0 by auto
  then show ?thesis
  proof cases
    case 1
    then show ?thesis
      using public_result_valid [OF r i iv 1(1)] public_result_slices(1) [OF r i] er es
      by (simp add: rest split: option.splits)
  next
    case 2
    then show ?thesis
      using private_error_code [OF 2(1)] er es by (auto simp: rest split: option.splits)
  qed
qed

text \<open>C19. Finalisation refines the verdict: it returns nothing exactly when the verdict is empty, and
  otherwise one frame that the receiver of RUN v1 frames accepts and reads back as the kind and payload
  of the verdict, under the transaction of the expected identity.  A RESULT is thus published only for
  a valid result report of this very run whose namespace was observed clean, and every report of this
  run with a clean namespace is published.\<close>

theorem finalize_refines_verdict:
  assumes "length report = 572" "identity_wf identity" "length token = 32"
    and "length frame = PROC17_QA_WIRE_MAX_FRAME_BYTES"
  shows "case finalize_verdict report identity token status observation of
      None \<Rightarrow> proc17_qa_controller_report_finalize (Some report) (Some identity) (Some token) status
                observation (Some frame) = None
    | Some (k, p) \<Rightarrow> (\<exists>out v.
        proc17_qa_controller_report_finalize (Some report) (Some identity) (Some token) status
          observation (Some frame) = Some (out, 80 + length p)
        \<and> take (80 + length p) out = wire_frame k (id_transaction identity) p
        \<and> proc17_qa_wire_decode_run_v1 (Some out) (80 + length p) = Some v
        \<and> view_kind v = k \<and> take (length p) (view_payload v) = p)"
proof (cases "finalize_verdict report identity token status observation")
  case None
  then show ?thesis using finalize_eq_verdict [OF assms(1-3)] by simp
next
  case (Some kp)
  obtain k p where kp: "kp = (k, p)" by (cases kp)
  note v = verdict_payload_valid [OF assms(1,2) Some [unfolded kp]]
  have n: "unat (of_nat (length p) :: u32) = length p" using v by auto
  obtain out w where
    "proc17_qa_wire_encode_run_v1 k (Some (take 32 p)) (Some p) (of_nat (length p)) (Some frame)
       = Some (out, 80 + length p)"
    "take (80 + length p) out = wire_frame k (take 32 p) p"
    "proc17_qa_wire_decode_run_v1 (Some out) (80 + length p) = Some w"
    "view_kind w = k" "agree (length p) (view_payload w) p"
    by (rule run_v1_encode_decode [of k p "of_nat (length p)" frame]) (use v n assms(4) in simp_all)
  with Some kp v finalize_eq_verdict [OF assms(1-3)] show ?thesis
    by (auto simp: agree_def)
qed

subsection \<open>The evidence behind a published result\<close>

text \<open>What the fields of a result payload say.\<close>

record result_fields =
  rf_reason :: u16
  rf_kind :: u16
  rf_exit_code :: u32
  rf_signal :: u32
  rf_stdout_over :: bool
  rf_stderr_over :: bool
  rf_wall_ms :: u64
  rf_heap_denied :: bool

definition result_fields_of :: "bytes \<Rightarrow> result_fields" where
  "result_fields_of p =
     \<lparr>rf_reason = proc17_qa_wire_get_u16 (drop 132 p),
      rf_kind = proc17_qa_wire_get_u16 (drop 134 p),
      rf_exit_code = proc17_qa_wire_get_u32 (drop 136 p),
      rf_signal = proc17_qa_wire_get_u32 (drop 140 p),
      rf_stdout_over = (proc17_qa_wire_get_u64 (drop 172 p) > PROC17_QA_STDOUT_BYTES),
      rf_stderr_over = (proc17_qa_wire_get_u64 (drop 236 p) > PROC17_QA_STDERR_BYTES),
      rf_wall_ms = proc17_qa_wire_get_u64 (drop 300 p),
      rf_heap_denied = (p ! 380 \<noteq> 0)\<rparr>"

definition evidenced :: "result_fields \<Rightarrow> bool" where
  "evidenced f \<longleftrightarrow>
     rf_reason f \<noteq> PROC17_QA_RUN_SCRATCH_LIMIT
     \<and> (rf_reason f = PROC17_QA_RUN_OUTPUT_LIMIT \<longleftrightarrow> rf_stdout_over f \<or> rf_stderr_over f)
     \<and> (rf_reason f = PROC17_QA_RUN_MEMORY_LIMIT \<longleftrightarrow> rf_heap_denied f)
     \<and> (rf_reason f = PROC17_QA_RUN_EXPECTED_EXIT \<longrightarrow>
          rf_kind f = PROC17_QA_TERMINATION_EXIT \<and> rf_exit_code f = 0)
     \<and> (rf_reason f = PROC17_QA_RUN_UNEXPECTED_EXIT \<longrightarrow>
          rf_kind f = PROC17_QA_TERMINATION_EXIT \<and> 0 < rf_exit_code f \<and> rf_exit_code f \<le> 255)
     \<and> (rf_reason f = PROC17_QA_RUN_SIGNAL \<longrightarrow>
          rf_kind f = PROC17_QA_TERMINATION_SIGNAL \<and> rf_signal f \<noteq> SIGXCPU \<and> rf_signal f \<noteq> SIGSYS
          \<and> 0 < rf_signal f \<and> rf_signal f < NSIG)
     \<and> (rf_reason f = PROC17_QA_RUN_CPU_LIMIT \<longrightarrow>
          rf_kind f = PROC17_QA_TERMINATION_SIGNAL \<and> rf_signal f = SIGXCPU)
     \<and> (rf_reason f = PROC17_QA_RUN_SANDBOX_POLICY_VIOLATION \<longrightarrow>
          rf_kind f = PROC17_QA_TERMINATION_SIGNAL \<and> rf_signal f = SIGSYS)
     \<and> (rf_reason f = PROC17_QA_RUN_WALL_TIMEOUT \<longrightarrow>
          rf_kind f = PROC17_QA_TERMINATION_SUPERVISOR_KILL \<and> rf_signal f = SIGKILL
          \<and> PROC17_QA_WALL_TIME_MS \<le> rf_wall_ms f)"

lemma stream_valid_crossed:
  assumes "proc17_qa_wire_v1_stream_valid (Some (drop off report))" "off + 64 \<le> length report"
  shows "sm_limit_crossed (report_stream report off) \<noteq> 0 \<longleftrightarrow>
    sm_observed_bytes (report_stream report off) > sm_limit_bytes (report_stream report off)"
  using assms by (simp add: proc17_qa_wire_v1_stream_valid_def report_stream_def Let_def add.commute)

lemma evidence_fields:
  assumes ev: "reason_evidence_valid reason (Some cause) (Some t) o_m e_m (Some metrics) allocator"
    and o: "sm_limit_crossed o_m \<noteq> 0 \<longleftrightarrow> so" and e: "sm_limit_crossed e_m \<noteq> 0 \<longleftrightarrow> se"
    and a: "allocator_shape_valid (Some allocator) notes reason"
  shows "evidenced \<lparr>rf_reason = reason, rf_kind = term_kind t, rf_exit_code = term_exit_code t,
    rf_signal = term_signal_number t, rf_stdout_over = so, rf_stderr_over = se,
    rf_wall_ms = cm_wall_time_ms metrics, rf_heap_denied = (as_ceiling_denied allocator \<noteq> 0)\<rparr>"
proof -
  have x: "(reason = PROC17_QA_RUN_OUTPUT_LIMIT) = (so \<or> se)"
    using ev by (auto simp: reason_evidence_valid_def Let_def simp flip: o e split: if_splits)
  have m: "(reason = PROC17_QA_RUN_MEMORY_LIMIT) = (as_ceiling_denied allocator \<noteq> 0)"
    using a by (simp add: allocator_shape_valid_def)
  have c: "reason = PROC17_QA_RUN_EXPECTED_EXIT \<Longrightarrow> term_kind t = 1 \<and> term_exit_code t = 0"
    "reason = PROC17_QA_RUN_UNEXPECTED_EXIT \<Longrightarrow> term_kind t = 1 \<and> term_exit_code t \<noteq> 0"
    "reason = PROC17_QA_RUN_SIGNAL \<Longrightarrow> term_kind t = 2 \<and> term_signal_number t \<noteq> SIGXCPU \<and> term_signal_number t \<noteq> SIGSYS"
    "reason = PROC17_QA_RUN_CPU_LIMIT \<Longrightarrow> term_kind t = 2 \<and> term_signal_number t = SIGXCPU"
    "reason = PROC17_QA_RUN_SANDBOX_POLICY_VIOLATION \<Longrightarrow> term_kind t = 2 \<and> term_signal_number t = SIGSYS"
    "reason = PROC17_QA_RUN_WALL_TIMEOUT \<Longrightarrow> term_kind t = 3 \<and> PROC17_QA_WALL_TIME_MS \<le> cm_wall_time_ms metrics"
    using ev by (auto simp: reason_evidence_valid_def Let_def split: if_splits)
  have s: "term_kind t = 1 \<Longrightarrow> term_exit_code t \<le> 255"
    "term_kind t = 2 \<Longrightarrow> 0 < term_signal_number t \<and> term_signal_number t < NSIG"
    "term_kind t = 3 \<Longrightarrow> term_signal_number t = SIGKILL"
    using evidence_basics(6) [OF ev] by (auto simp: termination_shape_valid_def split: if_splits)
  show ?thesis
    using x m c s evidence_basics(5) [OF ev] by (auto simp: evidenced_def word_greater_zero_iff)
qed

lemma private_result_evidenced:
  assumes r: "length report = 572" and i: "identity_wf identity" and v: "private_result_valid (Some report)"
  shows "evidenced (result_fields_of (public_result_payload report identity))"
proof -
  note f = public_result_fields [OF r i]
  let ?reason = "proc17_qa_wire_get_u16 (drop 176 report)"
  have ev: "reason_evidence_valid ?reason (Some (report_cause report))
      (Some (report_termination report)) (report_stream report 232) (report_stream report 296)
      (Some (report_metrics (drop 360 report))) (report_allocator report)"
    and st: "proc17_qa_wire_v1_stream_valid (Some (drop 232 report))" "proc17_qa_wire_v1_stream_valid (Some (drop 296 report))"
    and lim: "sm_limit_bytes (report_stream report 232) = PROC17_QA_STDOUT_BYTES"
      "sm_limit_bytes (report_stream report 296) = PROC17_QA_STDERR_BYTES"
    and al: "allocator_shape_valid (Some (report_allocator report)) (report ! 217) ?reason"
    using v by (auto simp: private_result_valid_def Let_def split: if_splits)
  have rd: "proc17_qa_wire_get_u64 (drop 172 (public_result_payload report identity)) = proc17_qa_wire_get_u64 (drop 232 report)"
    "proc17_qa_wire_get_u64 (drop 236 (public_result_payload report identity)) = proc17_qa_wire_get_u64 (drop 296 report)"
    "proc17_qa_wire_get_u64 (drop 300 (public_result_payload report identity)) = proc17_qa_wire_get_u64 (drop 360 report)"
    using agree_reads(5) [OF f(9)] agree_reads(5) [OF f(10)] agree_reads(5) [OF f(11)] by simp_all
  have hp: "public_result_payload report identity ! 380 = report ! 440"
    using agree_nth [OF f(11), of 80] r public_result_slices(1) [OF r i] by simp
  from evidence_fields [OF ev stream_valid_crossed [OF st(1)] stream_valid_crossed [OF st(2)] al] r lim
  show ?thesis
    by (simp add: result_fields_of_def f rd hp report_termination_def report_metrics_def report_allocator_def
        report_stream_def)
qed

text \<open>C18. No RESULT frame contradicts its own evidence: in every RESULT frame that finalisation
  publishes, the stated reason is supported by the termination and the measurements in the same
  frame.  Exits carry their code, signals their number, a wall timeout a supervisor kill after at least
  the wall limit; the output limit is the reason exactly when one stream exceeds its limit, the memory
  limit exactly when the allocator denied a request, and the scratch limit never is.\<close>

theorem published_result_is_evidenced:
  assumes len: "length report = 572" "identity_wf identity" "length token = 32"
      "length frame = PROC17_QA_WIRE_MAX_FRAME_BYTES"
    and fin: "proc17_qa_controller_report_finalize (Some report) (Some identity) (Some token) status
          observation (Some frame) = Some (out, n)"
    and dec: "proc17_qa_wire_decode_run_v1 (Some out) n = Some v" "view_kind v = PROC17_QA_WIRE_RUN_RESULT_V1"
  shows "evidenced (result_fields_of (view_payload v)) \<and> take 128 (view_payload v) = identity_bytes identity"
proof -
  obtain k p where vd: "finalize_verdict report identity token status observation = Some (k, p)"
    using fin finalize_eq_verdict [OF len(1-3)] by (auto split: option.splits)
  note pv = verdict_payload_valid [OF len(1,2) vd]
  have n: "unat (of_nat (length p) :: u32) = length p" using pv by auto
  obtain out' w where
    "proc17_qa_wire_encode_run_v1 k (Some (take 32 p)) (Some p) (of_nat (length p)) (Some frame)
       = Some (out', 80 + length p)"
    "proc17_qa_wire_decode_run_v1 (Some out') (80 + length p) = Some w"
    "view_kind w = k" and ag: "agree (length p) (view_payload w) p"
    by (rule run_v1_encode_decode [of k p "of_nat (length p)" frame]) (use pv n len(4) in simp_all)
  with fin dec pv vd finalize_eq_verdict [OF len(1-3)]
  have w: "w = v" "k = PROC17_QA_WIRE_RUN_RESULT_V1" "length p = 512" by auto
  have p: "p = public_result_payload report identity" and pr: "private_result_valid (Some report)"
    using vd w(2) private_report_kind_cases [of report]
    by (auto simp: finalize_verdict_def split: if_splits option.splits)
  have a: "agree 512 (view_payload v) p" using ag w by simp
  have "result_fields_of (view_payload v) = result_fields_of p"
    using agree_reads [OF a] agree_nth [OF a] by (simp add: result_fields_of_def)
  moreover have "take 128 (view_payload v) = identity_bytes identity"
    using agree_slice [OF a, of 0 128] public_result_slices(2) [OF len(1,2)] p by (simp add: take_eq_slice)
  ultimately show ?thesis using private_result_evidenced [OF len(1,2) pr] p by simp
qed

subsection \<open>A built report is valid\<close>

definition resource_bytes :: "proc17_qa_candidate_metrics \<Rightarrow> proc17_qa_allocator_snapshot_data \<Rightarrow> bytes" where
  "resource_bytes m a =
     be64 (cm_wall_time_ms m) @ be64 (cm_cpu_user_ms m) @ be64 (cm_cpu_system_ms m) @ be64 (cm_max_rss_bytes m)
     @ be64 PROC17_QA_ADDRESS_SPACE_BYTES @ be64 (as_peak_bytes a) @ be64 (as_ceiling_bytes a)
     @ be64 PROC17_QA_MAX_PROCESSES @ be64 PROC17_QA_MAX_OPEN_FILES @ be64 PROC17_QA_MAX_FILE_BYTES
     @ [as_ceiling_denied a] @ replicate 7 0"

lemma resource_bytes_slices:
  "length (resource_bytes m a) = 88"
  "slice 0 8 (resource_bytes m a) = be64 (cm_wall_time_ms m)"
  "slice 8 8 (resource_bytes m a) = be64 (cm_cpu_user_ms m)"
  "slice 16 8 (resource_bytes m a) = be64 (cm_cpu_system_ms m)"
  "slice 24 8 (resource_bytes m a) = be64 (cm_max_rss_bytes m)"
  "slice 32 8 (resource_bytes m a) = be64 PROC17_QA_ADDRESS_SPACE_BYTES"
  "slice 40 8 (resource_bytes m a) = be64 (as_peak_bytes a)"
  "slice 48 8 (resource_bytes m a) = be64 (as_ceiling_bytes a)"
  "slice 56 8 (resource_bytes m a) = be64 PROC17_QA_MAX_PROCESSES"
  "slice 64 8 (resource_bytes m a) = be64 PROC17_QA_MAX_OPEN_FILES"
  "slice 72 8 (resource_bytes m a) = be64 PROC17_QA_MAX_FILE_BYTES"
  "resource_bytes m a ! 80 = as_ceiling_denied a"
  "slice 81 7 (resource_bytes m a) = replicate 7 0"
  by (simp_all add: resource_bytes_def slice_append_fst slice_append_snd slice_eq_self
      slice_replicate slice_Cons nth_append)

lemma encode_resource_eq:
  assumes out: "length buffer = 88"
  shows "encode_resource (Some m) (Some a) (Some buffer) =
    (if proc17_qa_wire_v1_resource_valid (Some (resource_bytes m a)) then Some (resource_bytes m a) else None)"
proof -
  define o0 where "o0 = write_at buffer 0 (replicate 88 0)"
  define o4 where "o4 = write_at (write_at (write_at (write_at o0 0 (be64 (cm_wall_time_ms m))) 8 (be64 (cm_cpu_user_ms m)))
      16 (be64 (cm_cpu_system_ms m))) 24 (be64 (cm_max_rss_bytes m))"
  define o7 where "o7 = write_at (write_at (write_at o4 32 (be64 PROC17_QA_ADDRESS_SPACE_BYTES)) 40 (be64 (as_peak_bytes a)))
      48 (be64 (as_ceiling_bytes a))"
  define o11 where "o11 = write_at (write_at (write_at (write_at o7 56 (be64 PROC17_QA_MAX_PROCESSES))
      64 (be64 PROC17_QA_MAX_OPEN_FILES)) 72 (be64 PROC17_QA_MAX_FILE_BYTES)) 80 [as_ceiling_denied a]"
  have len: "length o0 = 88" "length o4 = 88" "length o7 = 88" "length o11 = 88"
    using out by (simp_all add: o0_def o4_def o7_def o11_def)
  have s0: "slice off n o0 = replicate n 0" if "off + n \<le> 88" for off n
    using out that by (simp add: o0_def buf_simps)
  have s4: "slice 0 8 o4 = be64 (cm_wall_time_ms m)" "slice 8 8 o4 = be64 (cm_cpu_user_ms m)"
    "slice 16 8 o4 = be64 (cm_cpu_system_ms m)" "slice 24 8 o4 = be64 (cm_max_rss_bytes m)"
    "slice 81 7 o4 = replicate 7 0"
    using len by (simp_all add: o4_def buf_simps slice_eq_self s0)
  have s7: "slice 0 32 o7 = slice 0 32 o4" "slice 32 8 o7 = be64 PROC17_QA_ADDRESS_SPACE_BYTES"
    "slice 40 8 o7 = be64 (as_peak_bytes a)" "slice 48 8 o7 = be64 (as_ceiling_bytes a)" "slice 81 7 o7 = replicate 7 0"
    using len s4 by (simp_all add: o7_def buf_simps slice_eq_self)
  have s11: "slice 0 32 o11 = slice 0 32 o4" "slice 32 24 o11 = slice 32 24 o7"
    "slice 56 8 o11 = be64 PROC17_QA_MAX_PROCESSES" "slice 64 8 o11 = be64 PROC17_QA_MAX_OPEN_FILES"
    "slice 72 8 o11 = be64 PROC17_QA_MAX_FILE_BYTES" "slice 80 1 o11 = [as_ceiling_denied a]"
    "slice 81 7 o11 = replicate 7 0"
    using len s7 by (simp_all add: o11_def buf_simps slice_eq_self)
  have a: "slice 0 32 o4 = slice 0 8 o4 @ slice 8 8 o4 @ slice 16 8 o4 @ slice 24 8 o4"
    "slice 32 24 o7 = slice 32 8 o7 @ slice 40 8 o7 @ slice 48 8 o7"
    using slice_concat [of 0 8 o4 8] slice_concat [of 0 16 o4 8] slice_concat [of 0 24 o4 8]
      slice_concat [of 32 8 o7 8] slice_concat [of 32 16 o7 8] by (simp_all flip: append_assoc)
  have "take 88 o11 = slice 0 32 o11 @ slice 32 24 o11 @ slice 56 8 o11 @ slice 64 8 o11 @ slice 72 8 o11
      @ slice 80 1 o11 @ slice 81 7 o11"
    by (simp add: take_split [of 81 7 88] take_split [of 80 1 81] take_split [of 72 8 80] take_split [of 64 8 72]
        take_split [of 56 8 64] take_split [of 32 24 56] take_eq_slice [of 32])
  then have "o11 = resource_bytes m a"
    unfolding s11 a s4 s7 using len(4) by (simp add: resource_bytes_def)
  then show ?thesis
    unfolding o11_def o7_def o4_def o0_def
    by (simp add: encode_resource_def Let_def proc17_qa_wire_put_u64_def)
qed

lemma resource_bytes_valid:
  "as_ceiling_denied a \<le> 1 \<Longrightarrow> as_ceiling_bytes a \<noteq> 0 \<Longrightarrow> proc17_qa_wire_v1_resource_valid (Some (resource_bytes m a))"
proof -
  assume "as_ceiling_denied a \<le> 1" "as_ceiling_bytes a \<noteq> 0"
  moreover from this have "as_ceiling_denied a = 0 \<or> as_ceiling_denied a = 1"
    by (auto simp: word_le_nat_alt le_Suc_eq word_unat_eq_iff)
  ultimately show ?thesis
    by (auto simp: proc17_qa_wire_v1_resource_valid_def codec_simps resource_bytes_slices proc17_qa_wire_boolean_def)
qed

lemma report_front_slices:
  fixes kind :: u16
  assumes "length buffer = 572" "identity_wf i" "length token = 32"
  defines "b \<equiv> report_front buffer kind i token"
  shows "length b = 572" "slice 0 8 b = report_magic" "slice 8 2 b = be16 2" "slice 10 2 b = be16 572"
    "slice 12 2 b = be16 kind" "slice 14 2 b = replicate 2 0" "slice 16 128 b = identity_bytes i"
    "slice 144 32 b = token" "slice 176 396 b = replicate 396 0"
proof -
  have m: "length report_magic = 8" by (simp add: report_magic_def ascii_def)
  show "length b = 572" "slice 0 8 b = report_magic" "slice 8 2 b = be16 2" "slice 10 2 b = be16 572"
    "slice 12 2 b = be16 kind" "slice 14 2 b = replicate 2 0" "slice 16 128 b = identity_bytes i"
    "slice 144 32 b = token" "slice 176 396 b = replicate 396 0"
    using assms m length_identity_bytes [OF assms(2)]
    by (simp_all add: b_def report_front_def Let_def proc17_qa_wire_put_u16_def buf_simps slice_eq_self)
qed

lemma report_scalars_slices:
  fixes t :: proc17_qa_candidate_termination and cause :: proc17_qa_first_cause and denials :: byte
    and a :: proc17_qa_allocator_snapshot_data
  assumes "length b = 572" "slice 176 396 b = replicate 396 0"
  defines "c \<equiv> report_scalars b t cause denials a"
  shows "length c = 572" "slice 0 176 c = slice 0 176 b"
    "slice 176 2 c = be16 (cause_kind cause)" "slice 178 2 c = be16 (term_kind t)"
    "slice 180 4 c = be32 (term_exit_code t)" "slice 184 4 c = be32 (term_signal_number t)"
    "slice 188 2 c = be16 (cause_kind cause)" "slice 190 2 c = replicate 2 0"
    "slice 192 8 c = be64 (cause_monotonic_sequence cause)" "slice 200 8 c = be64 (cause_observed_value cause)"
    "slice 208 7 c = replicate 7 1" "c ! 215 = 1" "c ! 216 = 1" "c ! 217 = denials"
    "c ! 218 = as_system_allocation_failed a" "c ! 219 = as_status_notification_failed a"
    "slice 220 4 c = replicate 4 0" "slice 224 8 c = be64 (as_current_bytes a)"
proof -
  have z: "slice (176 + k) n b = replicate n 0" if "k + n \<le> 396" for k n
    using slice_slice [of k n 396 176 b] that assms(2) by (simp add: slice_replicate)
  show "length c = 572" "slice 0 176 c = slice 0 176 b"
    "slice 176 2 c = be16 (cause_kind cause)" "slice 178 2 c = be16 (term_kind t)"
    "slice 180 4 c = be32 (term_exit_code t)" "slice 184 4 c = be32 (term_signal_number t)"
    "slice 188 2 c = be16 (cause_kind cause)" "slice 190 2 c = replicate 2 0"
    "slice 192 8 c = be64 (cause_monotonic_sequence cause)" "slice 200 8 c = be64 (cause_observed_value cause)"
    "slice 208 7 c = replicate 7 1" "c ! 215 = 1" "c ! 216 = 1" "c ! 217 = denials"
    "c ! 218 = as_system_allocation_failed a" "c ! 219 = as_status_notification_failed a"
    "slice 220 4 c = replicate 4 0" "slice 224 8 c = be64 (as_current_bytes a)"
    using assms(1) z [of 14 2] z [of 44 4]
    by (simp_all add: c_def report_scalars_def encode_termination_def Let_def proc17_qa_wire_put_u16_def
        proc17_qa_wire_put_u32_def proc17_qa_wire_put_u64_def buf_simps slice_eq_self)
qed

text \<open>The C types of the arrays in the inputs.\<close>

definition report_input_wf :: "proc17_qa_controller_report_input \<Rightarrow> bool" where
  "report_input_wf input \<longleftrightarrow>
     pred_option identity_wf (ri_identity input)
     \<and> pred_option (\<lambda>t. length t = 32) (ri_process_token input)
     \<and> pred_option (\<lambda>m. length (sm_prefix_digest m) = 32) (ri_stdout_measurement input)
     \<and> pred_option (\<lambda>m. length (sm_prefix_digest m) = 32) (ri_stderr_measurement input)
     \<and> pred_option (\<lambda>s. length s = 84) (ri_source_stage input)"

lemma stream_shape_encode:
  assumes "stream_shape_valid (Some m) limit" "length (sm_prefix_digest m) = 32"
  shows "sm_limit_bytes m = limit" "proc17_qa_wire_v1_stream_valid (Some (stream_bytes m))"
    "length buffer = 64 \<Longrightarrow> proc17_qa_stream_encode_v1 (Some m) (Some buffer) = Some (stream_bytes m)"
proof -
  have l: "sm_limit_bytes m = limit" and e: "proc17_qa_stream_encode_v1 (Some m) (Some (replicate 64 0)) \<noteq> None"
    using assms(1) by (simp_all add: stream_shape_valid_def)
  have v: "stream_measurement_valid (Some m)" using e by (auto simp: proc17_qa_stream_encode_v1_def split: if_splits)
  note eq = stream_encode_eq [OF assms(2) v]
  show "sm_limit_bytes m = limit" by (rule l)
  show w: "proc17_qa_wire_v1_stream_valid (Some (stream_bytes m))"
    using e eq [of "replicate 64 0"] by (auto split: if_splits)
  show "length buffer = 64 \<Longrightarrow> proc17_qa_stream_encode_v1 (Some m) (Some buffer) = Some (stream_bytes m)"
    using eq w by simp
qed

lemma scratch_shape_encode:
  assumes "scratch_shape_valid (Some m)"
  shows "sc_limit_bytes m = PROC17_QA_SCRATCH_BYTES" "sc_limit_entries m = PROC17_QA_SCRATCH_ENTRIES"
    "scratch_measurement_valid (Some m)"
    "length buffer = 40 \<Longrightarrow> proc17_qa_scratch_encode_v1 (Some m) (Some buffer) = Some (scratch_bytes m)"
proof -
  show "sc_limit_bytes m = PROC17_QA_SCRATCH_BYTES" "sc_limit_entries m = PROC17_QA_SCRATCH_ENTRIES"
    and v: "scratch_measurement_valid (Some m)"
    using assms scratch_encode_eq [of "replicate 40 0" m] by (auto simp: scratch_shape_valid_def split: if_splits)
  show "length buffer = 40 \<Longrightarrow> proc17_qa_scratch_encode_v1 (Some m) (Some buffer) = Some (scratch_bytes m)"
    using scratch_encode_eq v by simp
qed

text \<open>A successful build, its guards and the report it leaves.\<close>

definition built_report ::
  "bytes \<Rightarrow> proc17_qa_stream_measurement \<Rightarrow> proc17_qa_stream_measurement \<Rightarrow> bytes
   \<Rightarrow> proc17_qa_scratch_measurement \<Rightarrow> bytes \<Rightarrow> bytes" where
  "built_report c out_m err_m res scratch stage =
     write_at (write_at (write_at (write_at (write_at c 232 (stream_bytes out_m)) 296 (stream_bytes err_m))
       360 res) 448 (scratch_bytes scratch)) 488 (take 84 stage)"

lemma built_report_slices:
  fixes scratch :: proc17_qa_scratch_measurement
  assumes "length c = 572" "length (sm_prefix_digest out_m) = 32" "length (sm_prefix_digest err_m) = 32"
    "length res = 88" "length stage = 84"
  defines "b \<equiv> built_report c out_m err_m res scratch stage"
  shows "length b = 572" "slice 0 232 b = slice 0 232 c" "slice 232 64 b = stream_bytes out_m"
    "slice 296 64 b = stream_bytes err_m" "slice 360 88 b = res" "slice 448 40 b = scratch_bytes scratch"
    "slice 488 84 b = stage"
  using assms length_stream_bytes [OF assms(2)] length_stream_bytes [OF assms(3)]
  by (simp_all add: b_def built_report_def buf_simps slice_eq_self scratch_bytes_slices(1))

lemma report_build_complete:
  assumes wf: "report_input_wf input" and buf: "length buffer = 572"
    and fields: "ri_identity input = Some identity" "ri_process_token input = Some token" "ri_phase input = Some phase"
    "ri_stdout_measurement input = Some out_m" "ri_stderr_measurement input = Some err_m"
    "ri_candidate_metrics input = Some metrics" "ri_allocator input = Some allocator"
    "ri_scratch input = Some scratch" "ri_source_stage input = Some stage"
    and g: "proc17_qa_phase_identity_valid (Some identity)" "proc17_qa_wire_digest_nonzero (Some token)"
    "proc17_qa_phase_controller_report_ready phase"
    "stream_shape_valid (Some out_m) PROC17_QA_STDOUT_BYTES" "stream_shape_valid (Some err_m) PROC17_QA_STDERR_BYTES"
    "scratch_shape_valid (Some scratch)" "proc17_qa_wire_v1_source_stage_valid (Some stage)"
    "stage ! 80 = 1" "stage ! 81 = 1" "ri_status_eof_observed input = 1" "ri_allocator_observation_stable input = 1"
    "allocator_shape_valid (Some allocator) (ri_heap_denied_notifications input) (cause_kind (first_cause phase))"
    "reason_evidence_valid (cause_kind (first_cause phase)) (Some (first_cause phase))
       (Some (ri_termination input)) out_m err_m (Some metrics) allocator"
  shows "proc17_qa_controller_report_build (Some input) (Some buffer) =
      (0, Some (built_report (report_scalars (report_front buffer 1 identity token) (ri_termination input)
         (first_cause phase) (ri_heap_denied_notifications input) allocator) out_m err_m
         (resource_bytes metrics allocator) scratch stage))"
proof -
  have lens: "length (sm_prefix_digest out_m) = 32" "length (sm_prefix_digest err_m) = 32" "identity_wf identity"
    "length token = 32"
    using wf by (simp_all add: report_input_wf_def fields)
  have rv: "proc17_qa_wire_v1_resource_valid (Some (resource_bytes metrics allocator))"
    using g(12) by (intro resource_bytes_valid) (auto simp: allocator_shape_valid_def)
  let ?c = "report_scalars (report_front buffer 1 identity token) (ri_termination input) (first_cause phase)
      (ri_heap_denied_notifications input) allocator"
  note front = report_front_slices [OF buf lens(3,4)]
  have c: "length ?c = 572" using front by (intro report_scalars_slices(1)) simp_all
  show ?thesis
    unfolding proc17_qa_controller_report_build_def
    using c rv g stream_shape_encode(3) [OF g(4) lens(1)] stream_shape_encode(3) [OF g(5) lens(2)]
      scratch_shape_encode(4) [OF g(6)]
    by (simp add: fields built_report_def encode_resource_eq Let_def)
qed

lemma report_build_success:
  assumes wf: "report_input_wf input" and buf: "length buffer = 572"
    and ok: "proc17_qa_controller_report_build (Some input) (Some buffer) = (0, Some report)"
  obtains identity token phase out_m err_m metrics allocator scratch stage where
    "ri_identity input = Some identity" "ri_process_token input = Some token" "ri_phase input = Some phase"
    "ri_stdout_measurement input = Some out_m" "ri_stderr_measurement input = Some err_m"
    "ri_candidate_metrics input = Some metrics" "ri_allocator input = Some allocator"
    "ri_scratch input = Some scratch" "ri_source_stage input = Some stage"
    "proc17_qa_phase_identity_valid (Some identity)" "proc17_qa_wire_digest_nonzero (Some token)"
    "proc17_qa_phase_controller_report_ready phase"
    "stream_shape_valid (Some out_m) PROC17_QA_STDOUT_BYTES" "stream_shape_valid (Some err_m) PROC17_QA_STDERR_BYTES"
    "scratch_shape_valid (Some scratch)" "proc17_qa_wire_v1_source_stage_valid (Some stage)"
    "stage ! 80 = 1" "stage ! 81 = 1"
    "allocator_shape_valid (Some allocator) (ri_heap_denied_notifications input) (cause_kind (first_cause phase))"
    "reason_evidence_valid (cause_kind (first_cause phase)) (Some (first_cause phase))
       (Some (ri_termination input)) out_m err_m (Some metrics) allocator"
    "report = built_report (report_scalars (report_front buffer 1 identity token) (ri_termination input)
       (first_cause phase) (ri_heap_denied_notifications input) allocator) out_m err_m
       (resource_bytes metrics allocator) scratch stage"
proof -
  note d = proc17_qa_controller_report_build_def
  from ok obtain identity where i: "ri_identity input = Some identity"
    by (cases "ri_identity input") (simp_all add: d)
  from ok i obtain token where t: "ri_process_token input = Some token"
    by (cases "ri_process_token input") (simp_all add: d)
  from ok i t obtain phase where ph: "ri_phase input = Some phase"
    by (cases "ri_phase input") (simp_all add: d)
  from ok i t ph obtain out_m where om: "ri_stdout_measurement input = Some out_m"
    by (cases "ri_stdout_measurement input") (simp_all add: d)
  from ok i t ph om obtain err_m where em: "ri_stderr_measurement input = Some err_m"
    by (cases "ri_stderr_measurement input") (simp_all add: d)
  from ok i t ph om em obtain metrics where me: "ri_candidate_metrics input = Some metrics"
    by (cases "ri_candidate_metrics input") (simp_all add: d)
  from ok i t ph om em me obtain allocator where al: "ri_allocator input = Some allocator"
    by (cases "ri_allocator input") (simp_all add: d)
  from ok i t ph om em me al obtain scratch where sc: "ri_scratch input = Some scratch"
    by (cases "ri_scratch input") (simp_all add: d)
  from ok i t ph om em me al sc obtain stage where st: "ri_source_stage input = Some stage"
    by (cases "ri_source_stage input") (simp_all add: d)
  note fields = i t ph om em me al sc st
  have g: "proc17_qa_phase_identity_valid (Some identity)" "proc17_qa_wire_digest_nonzero (Some token)"
    "proc17_qa_phase_controller_report_ready phase"
    "stream_shape_valid (Some out_m) PROC17_QA_STDOUT_BYTES" "stream_shape_valid (Some err_m) PROC17_QA_STDERR_BYTES"
    "scratch_shape_valid (Some scratch)" "proc17_qa_wire_v1_source_stage_valid (Some stage)"
    "stage ! 80 = 1" "stage ! 81 = 1" "ri_status_eof_observed input = 1" "ri_allocator_observation_stable input = 1"
    "allocator_shape_valid (Some allocator) (ri_heap_denied_notifications input) (cause_kind (first_cause phase))"
    "reason_evidence_valid (cause_kind (first_cause phase)) (Some (first_cause phase))
       (Some (ri_termination input)) out_m err_m (Some metrics) allocator"
    using ok unfolding d by (simp_all add: fields Let_def split: if_splits)
  have "proc17_qa_controller_report_build (Some input) (Some buffer) =
      (0, Some (built_report (report_scalars (report_front buffer 1 identity token) (ri_termination input)
         (first_cause phase) (ri_heap_denied_notifications input) allocator) out_m err_m
         (resource_bytes metrics allocator) scratch stage))"
    by (rule report_build_complete [OF wf buf fields g])
  with ok have "report = built_report (report_scalars (report_front buffer 1 identity token) (ri_termination input)
       (first_cause phase) (ri_heap_denied_notifications input) allocator) out_m err_m
       (resource_bytes metrics allocator) scratch stage" by simp
  with that fields g show ?thesis by blast
qed

text \<open>Reading back a stream and the resources from a report that holds their encodings.\<close>

lemma read_stream:
  assumes sl: "slice off 64 b = stream_bytes m" and len: "off + 64 \<le> length b" "length (sm_prefix_digest m) = 32"
  shows "report_stream b off = m" and "agree 64 (drop off b) (stream_bytes m)"
proof -
  have s: "slice (off + k) n b = slice k n (stream_bytes m)" if "k + n \<le> 64" for k n
    using slice_slice [of k n 64 off b] that sl by simp
  have t: "slice 0 8 (stream_bytes m) = be64 (sm_observed_bytes m)" "slice 8 8 (stream_bytes m) = be64 (sm_hashed_bytes m)"
    "slice 16 8 (stream_bytes m) = be64 (sm_limit_bytes m)" "slice 24 32 (stream_bytes m) = sm_prefix_digest m"
    "slice 56 1 (stream_bytes m) = [sm_limit_crossed m]" "slice 57 1 (stream_bytes m) = [sm_eof_observed m]"
    using len(2) by (simp_all add: stream_bytes_def slice_append_fst slice_append_snd slice_eq_self, simp_all add: slice_def)
  have f: "slice off 8 b = be64 (sm_observed_bytes m)" "slice (off + 8) 8 b = be64 (sm_hashed_bytes m)"
    "slice (off + 16) 8 b = be64 (sm_limit_bytes m)" "slice (off + 24) 32 b = sm_prefix_digest m"
    "slice (off + 56) 1 b = [sm_limit_crossed m]" "slice (off + 57) 1 b = [sm_eof_observed m]"
    using s [of 0 8] s [of 8 8] s [of 16 8] s [of 24 32] s [of 56 1] s [of 57 1] t by simp_all
  have n: "b ! (off + 56) = sm_limit_crossed m" "b ! (off + 57) = sm_eof_observed m"
    using f(5,6) nth_eq_slice [of "off + 56" b] nth_eq_slice [of "off + 57" b] len(1) by simp_all
  show "report_stream b off = m"
    using f n len(1) by (simp add: report_stream_def codec_simps)
  show "agree 64 (drop off b) (stream_bytes m)"
    using agree_of_slices [of off 64 b 0 "stream_bytes m"] sl len length_stream_bytes [OF len(2)]
    by (simp add: slice_eq_self)
qed

lemma read_resource:
  assumes sl: "slice off 88 b = resource_bytes m a" and len: "off + 88 \<le> length b"
  shows "report_metrics (drop off b) = m"
    and "proc17_qa_wire_get_u64 (drop (off + 32) b) = PROC17_QA_ADDRESS_SPACE_BYTES"
    and "proc17_qa_wire_get_u64 (drop (off + 40) b) = as_peak_bytes a"
    and "proc17_qa_wire_get_u64 (drop (off + 48) b) = as_ceiling_bytes a"
    and "proc17_qa_wire_get_u64 (drop (off + 56) b) = PROC17_QA_MAX_PROCESSES"
    and "proc17_qa_wire_get_u64 (drop (off + 64) b) = PROC17_QA_MAX_OPEN_FILES"
    and "proc17_qa_wire_get_u64 (drop (off + 72) b) = PROC17_QA_MAX_FILE_BYTES"
    and "b ! (off + 80) = as_ceiling_denied a"
    and "agree 88 (drop off b) (resource_bytes m a)"
proof -
  have s: "slice (off + k) n b = slice k n (resource_bytes m a)" if "k + n \<le> 88" for k n
    using slice_slice [of k n 88 off b] that sl by simp
  have g: "proc17_qa_wire_get_u64 (drop (off + k) b) = v" if "slice k 8 (resource_bytes m a) = be64 v" "k + 8 \<le> 88" for k v
    using get_u64_slice [of "off + k" b] s [of k 8] that len by (simp add: codec_simps)
  note r = resource_bytes_slices [of m a]
  show "report_metrics (drop off b) = m"
    using g [OF r(2)] g [OF r(3)] g [OF r(4)] g [OF r(5)] by (simp add: report_metrics_def add.commute)
  show "proc17_qa_wire_get_u64 (drop (off + 32) b) = PROC17_QA_ADDRESS_SPACE_BYTES" by (rule g [OF r(6)]) simp
  show "proc17_qa_wire_get_u64 (drop (off + 40) b) = as_peak_bytes a" by (rule g [OF r(7)]) simp
  show "proc17_qa_wire_get_u64 (drop (off + 48) b) = as_ceiling_bytes a" by (rule g [OF r(8)]) simp
  show "proc17_qa_wire_get_u64 (drop (off + 56) b) = PROC17_QA_MAX_PROCESSES" by (rule g [OF r(9)]) simp
  show "proc17_qa_wire_get_u64 (drop (off + 64) b) = PROC17_QA_MAX_OPEN_FILES" by (rule g [OF r(10)]) simp
  show "proc17_qa_wire_get_u64 (drop (off + 72) b) = PROC17_QA_MAX_FILE_BYTES" by (rule g [OF r(11)]) simp
  show "b ! (off + 80) = as_ceiling_denied a"
    using r(1,12) s [of 80 1] nth_eq_slice [of "off + 80" b] nth_eq_slice [of 80 "resource_bytes m a"] len by simp
  show "agree 88 (drop off b) (resource_bytes m a)"
    using agree_of_slices [of off 88 b 0 "resource_bytes m a"] sl len r(1) by (simp add: slice_eq_self)
qed

text \<open>The front of any record of this format.\<close>

lemma report_front_valid_of_slices:
  assumes "length b = 572" "slice 0 8 b = report_magic" "slice 8 2 b = be16 2" "slice 10 2 b = be16 572"
    "slice 12 2 b = be16 kind" "slice 14 2 b = replicate 2 0" "slice 16 128 b = identity_bytes i"
    "slice 144 32 b = token" "identity_wf i" "proc17_qa_phase_identity_valid (Some i)"
    "proc17_qa_wire_digest_nonzero (Some token)" "length token = 32"
  shows "report_front_valid b kind"
  using identity_valid_wire [OF assms(9), of "drop 16 b"] assms(1-8,10-12)
  by (simp add: report_front_valid_def codec_simps take_eq_slice slice_eq_self)

text \<open>The layout of a result report, field by field.\<close>

definition report_layout ::
  "bytes \<Rightarrow> proc17_qa_phase_identity \<Rightarrow> bytes \<Rightarrow> proc17_qa_candidate_termination \<Rightarrow> proc17_qa_first_cause \<Rightarrow> byte
   \<Rightarrow> proc17_qa_stream_measurement \<Rightarrow> proc17_qa_stream_measurement \<Rightarrow> proc17_qa_candidate_metrics
   \<Rightarrow> proc17_qa_allocator_snapshot_data \<Rightarrow> proc17_qa_scratch_measurement \<Rightarrow> bytes \<Rightarrow> bool" where
  "report_layout b i token t cause denials out_m err_m metrics a scratch stage \<longleftrightarrow>
     length b = 572 \<and> slice 0 8 b = report_magic \<and> slice 8 2 b = be16 2 \<and> slice 10 2 b = be16 572
     \<and> slice 12 2 b = be16 1 \<and> slice 14 2 b = replicate 2 0 \<and> slice 16 128 b = identity_bytes i
     \<and> slice 144 32 b = token \<and> slice 176 2 b = be16 (cause_kind cause) \<and> slice 178 2 b = be16 (term_kind t)
     \<and> slice 180 4 b = be32 (term_exit_code t) \<and> slice 184 4 b = be32 (term_signal_number t)
     \<and> slice 188 2 b = be16 (cause_kind cause) \<and> slice 190 2 b = replicate 2 0
     \<and> slice 192 8 b = be64 (cause_monotonic_sequence cause) \<and> slice 200 8 b = be64 (cause_observed_value cause)
     \<and> slice 208 7 b = replicate 7 1 \<and> b ! 215 = 1 \<and> b ! 216 = 1 \<and> b ! 217 = denials
     \<and> b ! 218 = as_system_allocation_failed a \<and> b ! 219 = as_status_notification_failed a
     \<and> slice 220 4 b = replicate 4 0 \<and> slice 224 8 b = be64 (as_current_bytes a)
     \<and> slice 232 64 b = stream_bytes out_m \<and> slice 296 64 b = stream_bytes err_m
     \<and> slice 360 88 b = resource_bytes metrics a \<and> slice 448 40 b = scratch_bytes scratch \<and> slice 488 84 b = stage"

lemma built_report_layout:
  assumes buf: "length buffer = 572" and w: "identity_wf i" "length token = 32"
    "length (sm_prefix_digest out_m) = 32" "length (sm_prefix_digest err_m) = 32" "length stage = 84"
  shows "report_layout (built_report (report_scalars (report_front buffer 1 i token) t cause denials a) out_m err_m
      (resource_bytes metrics a) scratch stage) i token t cause denials out_m err_m metrics a scratch stage"
proof -
  define f where "f = report_front buffer 1 i token"
  define c where "c = report_scalars f t cause denials a"
  define b where "b = built_report c out_m err_m (resource_bytes metrics a) scratch stage"
  note fr = report_front_slices [OF buf w(1,2), of 1, folded f_def]
  note sc = report_scalars_slices [OF fr(1,9), of t cause denials a, folded c_def]
  note bs = built_report_slices [OF sc(1) w(3,4) resource_bytes_slices(1) [of metrics a] w(5), of scratch, folded b_def]
  have lo: "slice k n b = slice k n c" if "k + n \<le> 232" for k n
    using slice_slice [of k n 232 0 b] slice_slice [of k n 232 0 c] that bs(2) by simp
  have nth: "b ! k = c ! k" if "k < 232" for k
    using lo [of k 1] nth_eq_slice [of k b] nth_eq_slice [of k c] that bs(1) sc(1) by simp
  have lf: "slice k n b = slice k n f" if "k + n \<le> 176" for k n
    using lo [of k n] slice_slice [of k n 176 0 c] slice_slice [of k n 176 0 f] that sc(2) by simp
  have "report_layout b i token t cause denials out_m err_m metrics a scratch stage"
    unfolding report_layout_def by (simp add: bs lf fr, simp add: lo nth sc)
  then show ?thesis unfolding b_def c_def f_def .
qed

lemma report_layout_reads:
  assumes l: "report_layout b i token t cause denials out_m err_m metrics a scratch stage"
    and w: "length (sm_prefix_digest out_m) = 32" "length (sm_prefix_digest err_m) = 32"
  shows "report_cause b = cause" "report_termination b = t" "report_stream b 232 = out_m"
    "report_stream b 296 = err_m" "report_metrics (drop 360 b) = metrics" "report_allocator b = a"
proof -
  have b: "length b = 572" using l by (simp add: report_layout_def)
  have res: "slice 360 88 b = resource_bytes metrics a" using l by (simp add: report_layout_def)
  note rs = read_resource [OF res]
  show "report_cause b = cause" "report_termination b = t"
    using l by (simp_all add: report_layout_def report_cause_def report_termination_def codec_simps)
  show "report_stream b 232 = out_m" "report_stream b 296 = err_m"
    using l w by (auto simp: report_layout_def intro!: read_stream(1))
  show "report_metrics (drop 360 b) = metrics" using rs(1) b by simp
  show "report_allocator b = a" using rs b l by (simp add: report_allocator_def report_layout_def codec_simps)
qed

lemma report_layout_valid:
  assumes l: "report_layout b i token t cause denials out_m err_m metrics a scratch stage"
    and w: "identity_wf i" "length token = 32" "length (sm_prefix_digest out_m) = 32"
      "length (sm_prefix_digest err_m) = 32" "length stage = 84"
    and g: "proc17_qa_phase_identity_valid (Some i)" "proc17_qa_wire_digest_nonzero (Some token)"
    and sh: "stream_shape_valid (Some out_m) PROC17_QA_STDOUT_BYTES" "stream_shape_valid (Some err_m) PROC17_QA_STDERR_BYTES"
      "scratch_shape_valid (Some scratch)"
    and stg: "proc17_qa_wire_v1_source_stage_valid (Some stage)" "stage ! 80 = 1" "stage ! 81 = 1"
    and al: "allocator_shape_valid (Some a) denials (cause_kind cause)"
    and ev: "reason_evidence_valid (cause_kind cause) (Some cause) (Some t) out_m err_m (Some metrics) a"
  shows "private_report_kind (Some b) = 1"
proof -
  have b: "length b = 572" and sl: "slice 232 64 b = stream_bytes out_m" "slice 296 64 b = stream_bytes err_m"
    "slice 360 88 b = resource_bytes metrics a" "slice 448 40 b = scratch_bytes scratch" "slice 488 84 b = stage"
    "slice 208 7 b = replicate 7 1"
    using l by (simp_all add: report_layout_def)
  have front: "report_front_valid b 1"
    by (rule report_front_valid_of_slices [OF b _ _ _ _ _ _ _ w(1) g w(2)]) (use l in \<open>simp_all add: report_layout_def\<close>)
  note rd = report_layout_reads [OF l w(3,4)] and rs = read_resource [OF sl(3)]
  note om = read_stream(2) [OF sl(1) _ w(3)] and em = read_stream(2) [OF sl(2) _ w(4)]
  note se = scratch_shape_encode [OF sh(3)]
  have hi: "slice (448 + k) n b = slice k n (scratch_bytes scratch)" if "k + n \<le> 40" for k n
    using slice_slice [of k n 40 448 b] that sl(4) by simp
  have lim: "report_limits_valid b"
    using rs b hi [of 16 8] hi [of 24 8] se al
    by (simp add: report_limits_valid_def codec_simps scratch_bytes_slices allocator_shape_valid_def)
  have parts: "proc17_qa_wire_v1_stream_valid (Some (drop 232 b))" "proc17_qa_wire_v1_stream_valid (Some (drop 296 b))"
    "proc17_qa_wire_v1_scratch_valid (Some (drop 448 b))"
    using agree_stream_valid [OF om] agree_stream_valid [OF em] b sl(4)
      agree_scratch_valid [OF agree_of_slices [of 448 40 b 0 "scratch_bytes scratch"]]
      stream_shape_encode(2) [OF sh(1) w(3)] stream_shape_encode(2) [OF sh(2) w(4)] se(3)
    by (simp_all add: scratch_bytes_slices(1) slice_eq_self scratch_bytes_valid)
  have res: "proc17_qa_wire_v1_resource_valid (Some (drop 360 b))"
    using agree_resource_valid [OF rs(9)] b resource_bytes_valid [of a metrics] al
    by (auto simp: allocator_shape_valid_def not_less)
  note ags = agree_of_slices [of 488 84 b 0 stage]
  have stage: "report_stage_valid b"
    using agree_stage_valid [OF ags] agree_nth [OF ags, of 80] agree_nth [OF ags, of 81] b sl(5) w(5) stg
    by (simp add: report_stage_valid_def slice_eq_self)
  have fin: "\<not> list_ex (\<lambda>index. b ! (PROC17_QA_REPORT_FINALITY_OFFSET + index) \<noteq> 1) [0..<7]"
    using slice_replicate_nth [OF sl(6)] b by (simp add: list_ex_iff)
  have flags: "b ! 215 = 1" "b ! 216 = 1" "b ! 217 = denials" "\<not> 1 < denials" "b ! 218 = 0" "b ! 219 = 0"
    "slice 190 2 b = replicate 2 0" "slice 220 4 b = replicate 4 0" "slice 176 2 b = be16 (cause_kind cause)"
    using l al by (auto simp: report_layout_def allocator_shape_valid_def)
  have "private_result_valid (Some b)"
    unfolding private_result_valid_def Let_def option.case if_not_P [OF fin]
    using front lim parts res stage flags al ev b stream_shape_encode(1) [OF sh(1) w(3)]
      stream_shape_encode(1) [OF sh(2) w(4)]
    by (simp add: rd codec_simps proc17_qa_wire_boolean_def)
  then show ?thesis using front by (simp add: private_report_kind_def report_front_valid_def)
qed

lemma report_build_layout:
  assumes wf: "report_input_wf input" and buf: "length buffer = 572"
    and ok: "proc17_qa_controller_report_build (Some input) (Some buffer) = (0, Some report)"
  obtains identity token phase out_m err_m metrics allocator scratch stage where
    "ri_identity input = Some identity" "ri_process_token input = Some token" "ri_phase input = Some phase"
    "ri_stdout_measurement input = Some out_m" "ri_stderr_measurement input = Some err_m"
    "ri_candidate_metrics input = Some metrics" "ri_allocator input = Some allocator"
    "ri_scratch input = Some scratch" "ri_source_stage input = Some stage"
    "length (sm_prefix_digest out_m) = 32" "length (sm_prefix_digest err_m) = 32"
    "scratch_measurement_valid (Some scratch)" "private_report_kind (Some report) = 1"
    "report_layout report identity token (ri_termination input) (first_cause phase)
       (ri_heap_denied_notifications input) out_m err_m metrics allocator scratch stage"
proof (rule report_build_success [OF wf buf ok])
  fix identity token phase out_m err_m metrics allocator scratch stage
  assume f: "ri_identity input = Some identity" "ri_process_token input = Some token" "ri_phase input = Some phase"
    "ri_stdout_measurement input = Some out_m" "ri_stderr_measurement input = Some err_m"
    "ri_candidate_metrics input = Some metrics" "ri_allocator input = Some allocator"
    "ri_scratch input = Some scratch" "ri_source_stage input = Some stage"
    and g: "proc17_qa_phase_identity_valid (Some identity)" "proc17_qa_wire_digest_nonzero (Some token)"
    and sh: "stream_shape_valid (Some out_m) PROC17_QA_STDOUT_BYTES" "stream_shape_valid (Some err_m) PROC17_QA_STDERR_BYTES"
      "scratch_shape_valid (Some scratch)"
    and stg: "proc17_qa_wire_v1_source_stage_valid (Some stage)" "stage ! 80 = 1" "stage ! 81 = 1"
    and al: "allocator_shape_valid (Some allocator) (ri_heap_denied_notifications input) (cause_kind (first_cause phase))"
    and ev: "reason_evidence_valid (cause_kind (first_cause phase)) (Some (first_cause phase))
       (Some (ri_termination input)) out_m err_m (Some metrics) allocator"
    and r: "report = built_report (report_scalars (report_front buffer 1 identity token) (ri_termination input)
       (first_cause phase) (ri_heap_denied_notifications input) allocator) out_m err_m
       (resource_bytes metrics allocator) scratch stage"
  have w: "identity_wf identity" "length token = 32" "length (sm_prefix_digest out_m) = 32"
    "length (sm_prefix_digest err_m) = 32" "length stage = 84"
    using wf by (simp_all add: report_input_wf_def f)
  note l = built_report_layout [OF buf w, of "ri_termination input" "first_cause phase"
      "ri_heap_denied_notifications input" allocator metrics scratch, folded r]
  show ?thesis
    by (rule that [OF f w(3,4) scratch_shape_encode(3) [OF sh(3)] report_layout_valid [OF l w g sh stg al ev] l])
qed

text \<open>C21. What the controller builds, the supervisor accepts and reads back: a successfully built
  result report is a valid private result report, and termination, first cause, both streams, metrics,
  allocator snapshot, scratch measurement and source stage read from it are those of the input.\<close>

theorem built_report_reads_back:
  assumes wf: "report_input_wf input" and buf: "length buffer = 572"
    and ok: "proc17_qa_controller_report_build (Some input) (Some buffer) = (0, Some report)"
  shows "length report = 572 \<and> private_report_kind (Some report) = PROC17_QA_CONTROLLER_TERMINAL_RESULT
    \<and> map_option identity_bytes (ri_identity input) = Some (slice 16 128 report)
    \<and> ri_process_token input = Some (slice 144 32 report)
    \<and> report_termination report = ri_termination input
    \<and> map_option first_cause (ri_phase input) = Some (report_cause report)
    \<and> ri_stdout_measurement input = Some (report_stream report 232)
    \<and> ri_stderr_measurement input = Some (report_stream report 296)
    \<and> ri_candidate_metrics input = Some (report_metrics (drop 360 report))
    \<and> ri_allocator input = Some (report_allocator report)
    \<and> ri_scratch input = proc17_qa_scratch_decode_v1 (Some (slice 448 40 report))
    \<and> ri_source_stage input = Some (slice 488 84 report)"
proof (rule report_build_layout [OF wf buf ok])
  fix identity token phase out_m err_m metrics allocator scratch stage
  assume f: "ri_identity input = Some identity" "ri_process_token input = Some token" "ri_phase input = Some phase"
    "ri_stdout_measurement input = Some out_m" "ri_stderr_measurement input = Some err_m"
    "ri_candidate_metrics input = Some metrics" "ri_allocator input = Some allocator"
    "ri_scratch input = Some scratch" "ri_source_stage input = Some stage"
    and w: "length (sm_prefix_digest out_m) = 32" "length (sm_prefix_digest err_m) = 32"
    and sv: "scratch_measurement_valid (Some scratch)" and k: "private_report_kind (Some report) = 1"
    and l: "report_layout report identity token (ri_termination input) (first_cause phase)
       (ri_heap_denied_notifications input) out_m err_m metrics allocator scratch stage"
  have "proc17_qa_scratch_decode_v1 (Some (slice 448 40 report)) = Some scratch"
    using scratch_decode_bytes [of scratch] sv l by (simp add: report_layout_def)
  then show ?thesis using report_layout_reads [OF l w] k l f by (simp add: report_layout_def)
qed

subsection \<open>Error reports\<close>

definition error_input_wf :: "proc17_qa_controller_error_input \<Rightarrow> bool" where
  "error_input_wf input \<longleftrightarrow>
     pred_option identity_wf (ei_identity input)
     \<and> pred_option (\<lambda>t. length t = 32) (ei_process_token input)
     \<and> pred_option (\<lambda>s. length s = 84) (ei_source_stage input)"

text \<open>The record an error build leaves.\<close>

definition built_error :: "bytes \<Rightarrow> u16 \<Rightarrow> u16 \<Rightarrow> byte \<Rightarrow> byte \<Rightarrow> byte \<Rightarrow> bytes \<Rightarrow> bytes" where
  "built_error f code subject so se sc stage =
     write_at (write_at (write_at (write_at (write_at (write_at (write_at (write_at (write_at (write_at
       (write_at f 176 (be16 code)) 178 (be16 subject)) 208 [1]) 209 [1]) 210 [1]) 211 [1]) 212 [so]) 213 [se])
       214 [sc]) 215 [1]) 488 (take 84 stage)"

lemma built_error_slices:
  fixes code subject :: u16 and so se sc :: byte
  assumes "length f = 572" "slice 176 396 f = replicate 396 0" "length stage = 84"
  defines "b \<equiv> built_error f code subject so se sc stage"
  shows "length b = 572" "slice 0 176 b = slice 0 176 f" "slice 176 2 b = be16 code" "slice 178 2 b = be16 subject"
    "slice 180 28 b = replicate 28 0" "b ! 208 = 1" "b ! 209 = 1" "b ! 210 = 1" "b ! 211 = 1" "b ! 212 = so"
    "b ! 213 = se" "b ! 214 = sc" "b ! 215 = 1" "slice 216 272 b = replicate 272 0" "slice 488 84 b = stage"
proof -
  have z: "slice (176 + k) n f = replicate n 0" if "k + n \<le> 396" for k n
    using slice_slice [of k n 396 176 f] that assms(2) by (simp add: slice_replicate)
  show "length b = 572" "slice 0 176 b = slice 0 176 f" "slice 176 2 b = be16 code" "slice 178 2 b = be16 subject"
    "slice 180 28 b = replicate 28 0" "b ! 208 = 1" "b ! 209 = 1" "b ! 210 = 1" "b ! 211 = 1" "b ! 212 = so"
    "b ! 213 = se" "b ! 214 = sc" "b ! 215 = 1" "slice 216 272 b = replicate 272 0" "slice 488 84 b = stage"
    using assms(1,3) z [of 4 28] z [of 40 272] by (simp_all add: b_def built_error_def buf_simps slice_eq_self)
qed

lemma error_build_success:
  assumes "proc17_qa_controller_error_build (Some input) (Some buffer) = (0, Some report)"
  obtains identity token stage so se sc where
    "ei_identity input = Some identity" "ei_process_token input = Some token" "ei_source_stage input = Some stage"
    "proc17_qa_phase_identity_valid (Some identity)" "proc17_qa_wire_digest_nonzero (Some token)"
    "proc17_qa_wire_v1_source_stage_valid (Some stage)" "stage ! 80 = 1" "stage ! 81 = 1"
    "expected_observations (ei_error_code input) (ei_subject input) = Some (so, se, sc)"
    "ei_stdout_eof_observed input = so" "ei_stderr_eof_observed input = se" "ei_scratch_observation_complete input = sc"
    "report = built_error (report_front buffer 2 identity token) (ei_error_code input) (ei_subject input) so se sc stage"
proof -
  note d = proc17_qa_controller_error_build_def
  from assms obtain identity where i: "ei_identity input = Some identity"
    by (cases "ei_identity input") (simp_all add: d)
  from assms i obtain token where t: "ei_process_token input = Some token"
    by (cases "ei_process_token input") (simp_all add: d)
  from assms i t obtain stage where s: "ei_source_stage input = Some stage"
    by (cases "ei_source_stage input") (simp_all add: d)
  from assms i t s obtain so se sc where "expected_observations (ei_error_code input) (ei_subject input) = Some (so, se, sc)"
    by (cases "expected_observations (ei_error_code input) (ei_subject input)") (auto simp: d split: if_splits)
  with assms i t s that show ?thesis
    by (auto simp: d built_error_def Let_def proc17_qa_wire_put_u16_def split: if_splits)
qed

text \<open>What the controller builds as an error report is a valid private error report: it names one of
  the two incomplete observations, for the subject that was incomplete, and claims every other
  observation as made.\<close>

theorem built_error_is_valid:
  assumes wf: "error_input_wf input" and buf: "length buffer = 572"
    and ok: "proc17_qa_controller_error_build (Some input) (Some buffer) = (0, Some report)"
  shows "length report = 572 \<and> private_report_kind (Some report) = PROC17_QA_CONTROLLER_TERMINAL_ERROR
    \<and> map_option identity_bytes (ei_identity input) = Some (slice 16 128 report)
    \<and> ei_process_token input = Some (slice 144 32 report) \<and> ei_source_stage input = Some (slice 488 84 report)
    \<and> proc17_qa_wire_get_u16 (drop 176 report) = ei_error_code input
    \<and> proc17_qa_wire_get_u16 (drop 178 report) = ei_subject input
    \<and> (ei_error_code input, ei_subject input, slice 208 7 report) \<in>
        {(7, 1, [1, 1, 1, 1, 0, 1, 1]), (7, 2, [1, 1, 1, 1, 1, 0, 1]), (8, 3, [1, 1, 1, 1, 1, 1, 0])}"
proof (rule error_build_success [OF ok])
  fix identity token stage so se sc
  assume f: "ei_identity input = Some identity" "ei_process_token input = Some token" "ei_source_stage input = Some stage"
    and g: "proc17_qa_phase_identity_valid (Some identity)" "proc17_qa_wire_digest_nonzero (Some token)"
    and stg: "proc17_qa_wire_v1_source_stage_valid (Some stage)" "stage ! 80 = 1" "stage ! 81 = 1"
    and ex: "expected_observations (ei_error_code input) (ei_subject input) = Some (so, se, sc)"
    and r: "report = built_error (report_front buffer 2 identity token) (ei_error_code input) (ei_subject input) so se sc stage"
  have w: "identity_wf identity" "length token = 32" "length stage = 84"
    using wf by (simp_all add: error_input_wf_def f)
  note fr = report_front_slices [OF buf w(1,2), of 2]
  note b = built_error_slices [OF fr(1,9) w(3), of "ei_error_code input" "ei_subject input" so se sc, folded r]
  have lf: "slice k n report = slice k n (report_front buffer 2 identity token)" if "k + n \<le> 176" for k n
    using slice_slice [of k n 176 0 report] slice_slice [of k n 176 0 "report_front buffer 2 identity token"]
      that b(2) by simp
  have front: "report_front_valid report 2"
    by (rule report_front_valid_of_slices [OF b(1) _ _ _ _ _ _ _ w(1) g w(2)]) (simp_all add: lf fr)
  note ags = agree_of_slices [of 488 84 report 0 stage]
  have stage: "report_stage_valid report"
    using agree_stage_valid [OF ags] agree_nth [OF ags, of 80] agree_nth [OF ags, of 81] b(1,15) w(3) stg
    by (simp add: report_stage_valid_def slice_eq_self)
  have cs: "(ei_error_code input, ei_subject input, so, se, sc) \<in> {(7, 1, 0, 1, 1), (7, 2, 1, 0, 1), (8, 3, 1, 1, 0)}"
    using ex by (auto simp: expected_observations_def split: if_splits)
  have rd: "proc17_qa_wire_get_u16 (drop 176 report) = ei_error_code input"
    "proc17_qa_wire_get_u16 (drop 178 report) = ei_subject input"
    by (simp_all add: codec_simps b)
  have "private_error_valid (Some report)"
    using front stage cs b rd by (auto simp: private_error_valid_def bytes_zero_slice)
  then have "private_report_kind (Some report) = 2"
    using front by (simp add: private_report_kind_def report_front_valid_def)
  moreover have "slice 208 7 report = [1, 1, 1, 1, so, se, sc]"
    using b by (intro nth_equalityI) (auto simp: nth_slice less_Suc_eq numeral_eq_Suc)
  ultimately show ?thesis using f b rd cs by (auto simp: lf fr)
qed

subsection \<open>A sample run\<close>

definition sample_measurement :: "u64 \<Rightarrow> proc17_qa_stream_measurement" where
  "sample_measurement limit = \<lparr>sm_observed_bytes = 3, sm_hashed_bytes = 3, sm_limit_bytes = limit,
     sm_prefix_digest = replicate 32 9, sm_limit_crossed = 0, sm_eof_observed = 1\<rparr>"

definition sample_phase :: proc17_qa_phase_state where
  "sample_phase = \<lparr>next_sequence = 1,
     first_cause = \<lparr>cause_kind = PROC17_QA_RUN_EXPECTED_EXIT, cause_monotonic_sequence = 1, cause_observed_value = 0\<rparr>,
     finality_mask = PROC17_QA_CONTROLLER_FINALITY_MASK, started_attested = 1, candidate_release_authorized = 1\<rparr>"

definition sample_report_input :: proc17_qa_controller_report_input where
  "sample_report_input =
     \<lparr>ri_identity = Some sample_identity, ri_process_token = Some (replicate 32 7), ri_phase = Some sample_phase,
      ri_termination = \<lparr>term_kind = PROC17_QA_TERMINATION_EXIT, term_exit_code = 0, term_signal_number = u32_max\<rparr>,
      ri_stdout_measurement = Some (sample_measurement PROC17_QA_STDOUT_BYTES),
      ri_stderr_measurement = Some (sample_measurement PROC17_QA_STDERR_BYTES),
      ri_candidate_metrics = Some \<lparr>cm_wall_time_ms = 12, cm_cpu_user_ms = 5, cm_cpu_system_ms = 1, cm_max_rss_bytes = 4096\<rparr>,
      ri_allocator = Some \<lparr>as_ceiling_bytes = PROC17_QA_RUNTIME_HEAP_BYTES, as_current_bytes = 10, as_peak_bytes = 20,
        as_ceiling_denied = 0, as_system_allocation_failed = 0, as_status_notification_failed = 0\<rparr>,
      ri_scratch = Some \<lparr>sc_stored_regular_bytes = 3, sc_stored_entries = 1, sc_limit_bytes = PROC17_QA_SCRATCH_BYTES,
        sc_limit_entries = PROC17_QA_SCRATCH_ENTRIES, sc_byte_capacity_exhausted = 0,
        sc_entry_capacity_exhausted = 0, sc_inventory_complete = 1\<rparr>,
      ri_source_stage = Some sample_stage, ri_status_eof_observed = 1, ri_allocator_observation_stable = 1,
      ri_heap_denied_notifications = 0\<rparr>"

lemma sample_input_wf: "report_input_wf sample_report_input"
  by (simp add: report_input_wf_def sample_report_input_def sample_identity_ok sample_stage_ok sample_measurement_def)

lemma sample_measurement_shape:
  assumes "3 \<le> limit"
  shows "stream_shape_valid (Some (sample_measurement limit)) limit"
proof -
  let ?m = "sample_measurement limit"
  have d: "length (sm_prefix_digest ?m) = 32" by (simp add: sample_measurement_def)
  have v: "stream_measurement_valid (Some ?m)"
    using assms by (auto simp: stream_measurement_valid_def sample_measurement_def)
  have "sm_prefix_digest ?m \<noteq> replicate 32 0" by (simp add: sample_measurement_def)
  from stream_bytes_valid [OF d v this] stream_encode_eq [OF d v, of "replicate 64 0"] show ?thesis
    by (simp add: stream_shape_valid_def) (simp add: sample_measurement_def)
qed

lemma sample_build:
  obtains report where
    "proc17_qa_controller_report_build (Some sample_report_input) (Some (replicate 572 0)) = (0, Some report)"
proof -
  note d = sample_report_input_def
  have ready: "proc17_qa_phase_controller_report_ready sample_phase" by code_simp
  have scr: "scratch_shape_valid (ri_scratch sample_report_input)"
    by (simp add: d scratch_shape_valid_def scratch_encode_eq scratch_measurement_valid_def)
  have tok: "proc17_qa_wire_digest_nonzero (Some (replicate 32 7))"
    by (simp add: codec_simps slice_replicate)
  have stg: "sample_stage ! 80 = 1" "sample_stage ! 81 = 1" by (simp_all add: sample_stage_def nth_append length_concat sum_list_replicate)
  have "proc17_qa_controller_report_build (Some sample_report_input) (Some (replicate 572 0)) = (0, Some
      (built_report (report_scalars (report_front (replicate 572 0) 1 sample_identity (replicate 32 7))
        (ri_termination sample_report_input) (first_cause sample_phase) (ri_heap_denied_notifications sample_report_input)
        (the (ri_allocator sample_report_input))) (sample_measurement PROC17_QA_STDOUT_BYTES)
        (sample_measurement PROC17_QA_STDERR_BYTES)
        (resource_bytes (the (ri_candidate_metrics sample_report_input)) (the (ri_allocator sample_report_input)))
        (the (ri_scratch sample_report_input)) sample_stage))"
    by (rule report_build_complete [OF sample_input_wf])
      (use sample_identity_ok(2) sample_stage_ok(2) ready scr tok stg sample_measurement_shape in
        \<open>simp_all add: d allocator_shape_valid_def reason_evidence_valid_def sample_phase_def
           termination_shape_valid_def sample_measurement_def\<close>)
  with that show ?thesis by blast
qed

theorem built_report_reads_back_witness:
  "\<exists>report. proc17_qa_controller_report_build (Some sample_report_input) (Some (replicate 572 0)) = (0, Some report)
    \<and> private_report_kind (Some report) = PROC17_QA_CONTROLLER_TERMINAL_RESULT
    \<and> report_termination report = ri_termination sample_report_input"
proof -
  obtain report where
    r: "proc17_qa_controller_report_build (Some sample_report_input) (Some (replicate 572 0)) = (0, Some report)"
    by (rule sample_build)
  with built_report_reads_back [OF sample_input_wf _ r] show ?thesis by simp
qed

definition clean_namespace :: proc17_qa_namespace_observation where
  "clean_namespace = \<lparr>no_controller_pidfd_identity_retained = 1, no_terminal_record_complete = 1,
     no_terminal_record_eof_observed = 1, no_controller_reaped = 1, no_controller_authority_closed = 1\<rparr>"

lemma sample_verdict:
  obtains report where "length report = 572"
    "finalize_verdict report sample_identity (replicate 32 7) 0 (Some clean_namespace)
       = Some (PROC17_QA_WIRE_RUN_RESULT_V1, public_result_payload report sample_identity)"
proof -
  obtain report where
    r: "proc17_qa_controller_report_build (Some sample_report_input) (Some (replicate 572 0)) = (0, Some report)"
    by (rule sample_build)
  have "length report = 572" "private_report_kind (Some report) = 1"
    "slice 16 128 report = identity_bytes sample_identity" "slice 144 32 report = replicate 32 7"
    by (rule report_build_layout [OF sample_input_wf _ r]; auto simp: report_layout_def sample_report_input_def)+
  moreover have "proc17_qa_namespace_cleanup_observe (Some clean_namespace) 0 = Some 1" by code_simp
  ultimately show ?thesis using that by (simp add: finalize_verdict_def)
qed

theorem finalize_refines_verdict_witness:
  "\<exists>report out v. proc17_qa_controller_report_finalize (Some report) (Some sample_identity) (Some (replicate 32 7)) 0
      (Some clean_namespace) (Some (replicate 4096 0)) = Some (out, 592)
    \<and> proc17_qa_wire_decode_run_v1 (Some out) 592 = Some v \<and> view_kind v = PROC17_QA_WIRE_RUN_RESULT_V1"
proof -
  obtain report where l: "length report = 572"
    and v: "finalize_verdict report sample_identity (replicate 32 7) 0 (Some clean_namespace)
       = Some (PROC17_QA_WIRE_RUN_RESULT_V1, public_result_payload report sample_identity)"
    by (rule sample_verdict)
  from finalize_refines_verdict [OF l sample_identity_ok(1), of "replicate 32 7" "replicate 4096 0" 0 "Some clean_namespace"]
    v public_result_slices(1) [OF l sample_identity_ok(1)]
  show ?thesis by auto
qed

theorem published_result_is_evidenced_witness:
  "\<exists>report out v. proc17_qa_controller_report_finalize (Some report) (Some sample_identity) (Some (replicate 32 7)) 0
      (Some clean_namespace) (Some (replicate 4096 0)) = Some (out, 592)
    \<and> proc17_qa_wire_decode_run_v1 (Some out) 592 = Some v \<and> view_kind v = PROC17_QA_WIRE_RUN_RESULT_V1
    \<and> evidenced (result_fields_of (view_payload v))"
proof -
  obtain report where l: "length report = 572"
    and v: "finalize_verdict report sample_identity (replicate 32 7) 0 (Some clean_namespace)
       = Some (PROC17_QA_WIRE_RUN_RESULT_V1, public_result_payload report sample_identity)"
    by (rule sample_verdict)
  note eq = finalize_eq_verdict [OF l sample_identity_ok(1), of "replicate 32 7" 0 "Some clean_namespace" "replicate 4096 0"]
  note pv = verdict_payload_valid [OF l sample_identity_ok(1) v] and len = public_result_slices(1) [OF l sample_identity_ok(1)]
  obtain out w where e: "proc17_qa_wire_encode_run_v1 PROC17_QA_WIRE_RUN_RESULT_V1
      (Some (take 32 (public_result_payload report sample_identity))) (Some (public_result_payload report sample_identity))
      512 (Some (replicate 4096 0)) = Some (out, 592)"
    and d: "proc17_qa_wire_decode_run_v1 (Some out) 592 = Some w" "view_kind w = PROC17_QA_WIRE_RUN_RESULT_V1"
    by (rule run_v1_encode_decode [of PROC17_QA_WIRE_RUN_RESULT_V1 "public_result_payload report sample_identity" 512
          "replicate 4096 0"]) (use pv len in simp_all)
  have f: "proc17_qa_controller_report_finalize (Some report) (Some sample_identity) (Some (replicate 32 7)) 0
      (Some clean_namespace) (Some (replicate 4096 0)) = Some (out, 592)"
    using eq v e pv len by simp
  from published_result_is_evidenced [OF l sample_identity_ok(1) _ _ f d] f d show ?thesis by auto
qed

definition sample_error_input :: proc17_qa_controller_error_input where
  "sample_error_input = \<lparr>ei_identity = Some sample_identity, ei_process_token = Some (replicate 32 7),
     ei_source_stage = Some sample_stage, ei_error_code = PROC17_QA_RUN_V1_SCRATCH_OBSERVATION_INCOMPLETE,
     ei_subject = PROC17_QA_CONTROLLER_ERROR_SCRATCH, ei_candidate_terminal_observed = 1, ei_process_tree_reaped = 1,
     ei_stdout_eof_observed = 1, ei_stderr_eof_observed = 1, ei_scratch_observation_complete = 0,
     ei_status_eof_observed = 1\<rparr>"

theorem built_error_is_valid_witness:
  "\<exists>report. proc17_qa_controller_error_build (Some sample_error_input) (Some (replicate 572 0)) = (0, Some report)
    \<and> private_report_kind (Some report) = PROC17_QA_CONTROLLER_TERMINAL_ERROR"
proof -
  have stg: "sample_stage ! 80 = 1" "sample_stage ! 81 = 1"
    by (simp_all add: sample_stage_def nth_append length_concat sum_list_replicate)
  have tok: "proc17_qa_wire_digest_nonzero (Some (replicate 32 7))" by (simp add: codec_simps slice_replicate)
  obtain report where r: "proc17_qa_controller_error_build (Some sample_error_input) (Some (replicate 572 0)) = (0, Some report)"
    using stg tok sample_identity_ok(2) sample_stage_ok(2)
    by (simp add: proc17_qa_controller_error_build_def sample_error_input_def expected_observations_def)
  have wf: "error_input_wf sample_error_input"
    by (simp add: error_input_wf_def sample_error_input_def sample_identity_ok sample_stage_ok)
  from built_error_is_valid [OF wf _ r] r show ?thesis by simp
qed

end
