(* ===== verification/Qa_Launcher_V1.thy ===== *)
theory Qa_Launcher_V1
  imports Qa_Report
begin

text \<open>
  The launcher's collector of RUN v1 frames (\<open>native/proc17_qa_launcher_v1.c\<close>): the machine that
  reassembles the public frames from the bytes of the result pipe, checks their order and their binding
  to the expected run and source, and the loop that polls the pipe, the supervisor and the watchdog and
  derives the terminal record.

  The kernel is not part of the program: the loop takes the replies of \<open>poll\<close>, \<open>read\<close> and \<open>waitpid\<close>
  as lists.  \<open>None\<close> as the value of a loop means that it has not returned on these replies.
\<close>

datatype proc17_qa_launcher_v1_collect_status =
  LAUNCHER_V1_OK | LAUNCHER_V1_INVALID_ARGUMENT | LAUNCHER_V1_SYSTEM_FAILURE | LAUNCHER_V1_TRUSTED_INVARIANT

text \<open>The kinds of a terminal record; a zeroed record has none of them.\<close>

datatype proc17_qa_launcher_v1_terminal_kind =
  TERMINAL_NONE | TERMINAL_RESULT | TERMINAL_ERROR | TERMINAL_DERIVED_ERROR

record proc17_qa_launcher_v1_expectation =
  ex_identity :: bytes
  ex_source_device :: u64
  ex_source_inode :: u64
  ex_source_mount_id :: u64
  ex_source_mount_policy_flags :: u32

record proc17_qa_launcher_v1_terminal =
  lt_kind :: proc17_qa_launcher_v1_terminal_kind
  lt_frame :: bytes
  lt_frame_bytes :: nat
  lt_phase :: u16
  lt_error_class :: u16
  lt_error_code :: u16
  lt_error_stage :: u16
  lt_candidate_start_state :: byte
  lt_cleanup_state :: byte
  lt_started_attested :: byte
  lt_launcher_reap_state :: byte
  lt_result_eof_state :: byte
  lt_supervisor_wait_status :: u32

record proc17_qa_launcher_v1_machine =
  mc_pending :: bytes
  mc_pending_bytes :: nat
  mc_expected_frame_bytes :: nat
  mc_started_token :: bytes
  mc_started_stage :: bytes
  mc_terminal_frame :: bytes
  mc_terminal_bytes :: nat
  mc_terminal_kind :: u16
  mc_started_seen :: byte
  mc_terminal_seen :: byte
  mc_invariant_failed :: byte

definition zero_terminal :: proc17_qa_launcher_v1_terminal where
  "zero_terminal = \<lparr>lt_kind = TERMINAL_NONE, lt_frame = replicate PROC17_QA_WIRE_MAX_FRAME_BYTES 0,
     lt_frame_bytes = 0, lt_phase = 0, lt_error_class = 0, lt_error_code = 0, lt_error_stage = 0,
     lt_candidate_start_state = 0, lt_cleanup_state = 0, lt_started_attested = 0, lt_launcher_reap_state = 0,
     lt_result_eof_state = 0, lt_supervisor_wait_status = 0\<rparr>"

definition machine_init :: proc17_qa_launcher_v1_machine where
  "machine_init = \<lparr>mc_pending = replicate PROC17_QA_WIRE_MAX_FRAME_BYTES 0, mc_pending_bytes = 0,
     mc_expected_frame_bytes = 0, mc_started_token = replicate PROC17_QA_WIRE_DIGEST_BYTES 0,
     mc_started_stage = replicate PROC17_QA_SOURCE_STAGE_V1_BYTES 0,
     mc_terminal_frame = replicate PROC17_QA_WIRE_MAX_FRAME_BYTES 0, mc_terminal_bytes = 0,
     mc_terminal_kind = 0, mc_started_seen = 0, mc_terminal_seen = 0, mc_invariant_failed = 0\<rparr>"

subsection \<open>Frames\<close>

definition expectation_valid :: "proc17_qa_launcher_v1_expectation ptr \<Rightarrow> bool" where
  "expectation_valid expectation =
     (case expectation of
        None \<Rightarrow> False
      | Some e \<Rightarrow>
          proc17_qa_wire_v1_identity_valid (Some (ex_identity e))
          \<and> ex_source_device e \<noteq> 0 \<and> ex_source_inode e \<noteq> 0 \<and> ex_source_mount_id e \<noteq> 0
          \<and> ex_source_mount_policy_flags e \<noteq> 0)"

definition stage_matches_source :: "bytes \<Rightarrow> proc17_qa_launcher_v1_expectation \<Rightarrow> bool" where
  "stage_matches_source stage e \<longleftrightarrow>
     \<not> (\<not> proc17_qa_wire_v1_source_stage_valid (Some stage)
        \<or> proc17_qa_wire_get_u32 (drop 4 stage) \<noteq> ex_source_mount_policy_flags e
        \<or> proc17_qa_wire_get_u64 (drop 8 stage) \<noteq> ex_source_device e
        \<or> proc17_qa_wire_get_u64 (drop 16 stage) \<noteq> ex_source_inode e
        \<or> proc17_qa_wire_get_u64 (drop 24 stage) \<noteq> ex_source_mount_id e
        \<or> proc17_qa_wire_get_u64 (drop 32 stage) \<noteq> ex_source_device e
        \<or> proc17_qa_wire_get_u64 (drop 40 stage) \<noteq> ex_source_inode e
        \<or> proc17_qa_wire_get_u64 (drop 56 stage) \<noteq> proc17_qa_wire_get_u64 (drop 32 stage)
        \<or> proc17_qa_wire_get_u64 (drop 64 stage) \<noteq> proc17_qa_wire_get_u64 (drop 40 stage)
        \<or> proc17_qa_wire_get_u64 (drop 72 stage) \<noteq> proc17_qa_wire_get_u64 (drop 48 stage)
        \<or> stage ! 80 \<noteq> 1 \<or> stage ! 81 \<noteq> 1)"

definition machine_fail :: "proc17_qa_launcher_v1_machine \<Rightarrow> proc17_qa_launcher_v1_machine" where
  "machine_fail machine = machine\<lparr>mc_invariant_failed := 1\<rparr>"

text \<open>The end of \<open>accept_complete_frame\<close>: the pending frame becomes the terminal frame.\<close>

definition store_terminal ::
  "proc17_qa_launcher_v1_machine \<Rightarrow> u16 \<Rightarrow> proc17_qa_launcher_v1_machine" where
  "store_terminal machine kind =
     machine\<lparr>mc_terminal_frame := write_at (mc_terminal_frame machine) 0
                (take (mc_pending_bytes machine) (mc_pending machine)),
             mc_terminal_bytes := mc_pending_bytes machine,
             mc_terminal_kind := kind,
             mc_terminal_seen := 1\<rparr>"

definition accept_complete_frame ::
  "proc17_qa_launcher_v1_expectation \<Rightarrow> proc17_qa_launcher_v1_machine \<Rightarrow> int \<times> proc17_qa_launcher_v1_machine" where
  "accept_complete_frame e machine =
     (if mc_terminal_seen machine \<noteq> 0 then (- 1, machine)
      else
        (case proc17_qa_wire_decode_run_v1 (Some (mc_pending machine)) (mc_pending_bytes machine) of
           None \<Rightarrow> (- 1, machine)
         | Some view \<Rightarrow>
             (let payload = view_payload view;
                  phase = proc17_qa_wire_get_u16 (drop PROC17_QA_V1_PHASE_OFFSET payload)
              in if take PROC17_QA_V1_IDENTITY_BYTES payload
                      \<noteq> take PROC17_QA_V1_IDENTITY_BYTES (ex_identity e)
                 then (- 1, machine)
                 else if view_kind view = PROC17_QA_WIRE_RUN_STARTED_V1
                 then
                   (let stage = drop PROC17_QA_V1_STARTED_STAGE_OFFSET payload
                    in if mc_started_seen machine \<noteq> 0 \<or> phase \<noteq> PROC17_QA_RUN_V1_PHASE_STARTED
                          \<or> \<not> stage_matches_source stage e
                       then (- 1, machine)
                       else (0, machine\<lparr>mc_started_token := take PROC17_QA_WIRE_DIGEST_BYTES (drop 136 payload),
                                        mc_started_stage := take PROC17_QA_SOURCE_STAGE_V1_BYTES stage,
                                        mc_started_seen := 1\<rparr>))
                 else if view_kind view = PROC17_QA_WIRE_RUN_RESULT_V1
                 then
                   (let stage = drop PROC17_QA_V1_RESULT_STAGE_OFFSET payload
                    in if mc_started_seen machine \<noteq> 1 \<or> phase \<noteq> PROC17_QA_RUN_V1_PHASE_TERMINAL
                          \<or> \<not> stage_matches_source stage e
                          \<or> take PROC17_QA_SOURCE_STAGE_V1_BYTES stage \<noteq> mc_started_stage machine
                       then (- 1, machine)
                       else (0, store_terminal machine (view_kind view)))
                 else if view_kind view = PROC17_QA_WIRE_RUN_ERROR_V1
                 then
                   (let source_known = (payload ! 139 \<noteq> 0);
                        stage = drop PROC17_QA_V1_ERROR_STAGE_OFFSET payload
                    in if phase = PROC17_QA_RUN_V1_PHASE_STARTED
                       then if mc_started_seen machine \<noteq> 0 then (- 1, machine)
                            else if source_known \<and> \<not> stage_matches_source stage e then (- 1, machine)
                            else (0, store_terminal machine (view_kind view))
                       else if mc_started_seen machine \<noteq> 1 \<or> \<not> source_known
                               \<or> \<not> stage_matches_source stage e
                               \<or> take PROC17_QA_SOURCE_STAGE_V1_BYTES stage \<noteq> mc_started_stage machine
                       then (- 1, machine)
                       else (0, store_terminal machine (view_kind view)))
                 else (- 1, machine))))"

text \<open>The steps of one turn of the loop of \<open>feed_public_bytes\<close>: the number of bytes the pending frame
  can have next, the copy of the bytes taken, and the reset after a frame.\<close>

definition feed_target :: "proc17_qa_launcher_v1_machine \<Rightarrow> nat" where
  "feed_target machine = (if mc_expected_frame_bytes machine = 0 then 16 else mc_expected_frame_bytes machine)"

definition absorb :: "proc17_qa_launcher_v1_machine \<Rightarrow> bytes \<Rightarrow> proc17_qa_launcher_v1_machine" where
  "absorb machine taken =
     machine\<lparr>mc_pending := write_at (mc_pending machine) (mc_pending_bytes machine) taken,
             mc_pending_bytes := mc_pending_bytes machine + length taken\<rparr>"

definition reset_pending :: "proc17_qa_launcher_v1_machine \<Rightarrow> proc17_qa_launcher_v1_machine" where
  "reset_pending machine =
     machine\<lparr>mc_pending := write_at (mc_pending machine) 0 (replicate (mc_pending_bytes machine) 0),
             mc_pending_bytes := 0, mc_expected_frame_bytes := 0\<rparr>"

text \<open>One turn of the loop: a failure with the machine, or the machine and the bytes that are left.\<close>

definition feed_step ::
  "proc17_qa_launcher_v1_expectation \<Rightarrow> proc17_qa_launcher_v1_machine \<Rightarrow> bytes
   \<Rightarrow> proc17_qa_launcher_v1_machine + proc17_qa_launcher_v1_machine \<times> bytes" where
  "feed_step e machine bytes =
     (if mc_invariant_failed machine \<noteq> 0 \<or> mc_terminal_seen machine \<noteq> 0 then Inl (machine_fail machine)
      else
        (let taken = take (feed_target machine - mc_pending_bytes machine) bytes;
             rest = drop (length taken) bytes;
             m1 = absorb machine taken;
             payload_bytes = proc17_qa_wire_get_u32 (drop 12 (mc_pending m1));
             header_complete = (mc_expected_frame_bytes m1 = 0 \<and> mc_pending_bytes m1 = 16)
         in if header_complete
               \<and> payload_bytes > of_nat (PROC17_QA_WIRE_MAX_FRAME_BYTES - PROC17_QA_WIRE_ENVELOPE_BYTES)
            then Inl (machine_fail m1)
            else
              (let m2 = (if header_complete
                         then m1\<lparr>mc_expected_frame_bytes := PROC17_QA_WIRE_ENVELOPE_BYTES + unat payload_bytes\<rparr>
                         else m1)
               in if mc_expected_frame_bytes m2 \<noteq> 0 \<and> mc_pending_bytes m2 = mc_expected_frame_bytes m2
                  then
                    (case accept_complete_frame e m2 of
                       (result, m3) \<Rightarrow>
                         if result \<noteq> 0 then Inl (machine_fail m3) else Inr (reset_pending m3, rest))
                  else Inr (m2, rest))))"

partial_function (option) feed_public_bytes ::
  "proc17_qa_launcher_v1_expectation \<Rightarrow> proc17_qa_launcher_v1_machine \<Rightarrow> bytes
   \<Rightarrow> (int \<times> proc17_qa_launcher_v1_machine) option" where
  "feed_public_bytes e machine bytes =
     (if bytes = [] then Some (0, machine)
      else
        (case feed_step e machine bytes of
           Inl failed \<Rightarrow> Some (- 1, failed)
         | Inr (m, rest) \<Rightarrow> feed_public_bytes e m rest))"

declare feed_public_bytes.simps [code]

definition child_wait_is_clean :: "u32 \<Rightarrow> bool" where
  "child_wait_is_clean wait_status \<longleftrightarrow> WIFEXITED wait_status \<and> WEXITSTATUS wait_status = 0"

subsection \<open>The terminal record\<close>

definition finish_machine ::
  "proc17_qa_launcher_v1_machine \<Rightarrow> u32 \<Rightarrow> bool \<Rightarrow> bool \<Rightarrow> bool \<Rightarrow> proc17_qa_launcher_v1_terminal
   \<Rightarrow> proc17_qa_launcher_v1_collect_status \<times> proc17_qa_launcher_v1_terminal" where
  "finish_machine machine wait_status supervisor_reaped result_eof watchdog_fired terminal =
     (if mc_invariant_failed machine \<noteq> 0 \<or> mc_pending_bytes machine \<noteq> 0
         \<or> \<not> supervisor_reaped \<or> \<not> result_eof
      then (LAUNCHER_V1_TRUSTED_INVARIANT, terminal)
      else
        (let t = zero_terminal
                 \<lparr>lt_started_attested := mc_started_seen machine,
                  lt_launcher_reap_state := PROC17_QA_RUN_V1_TRUE,
                  lt_result_eof_state := PROC17_QA_RUN_V1_TRUE,
                  lt_supervisor_wait_status := wait_status\<rparr>
         in if mc_terminal_seen machine \<noteq> 0
            then
              (if \<not> child_wait_is_clean wait_status then (LAUNCHER_V1_TRUSTED_INVARIANT, t)
               else
                 (case proc17_qa_wire_decode_run_v1 (Some (mc_terminal_frame machine)) (mc_terminal_bytes machine) of
                    None \<Rightarrow> (LAUNCHER_V1_TRUSTED_INVARIANT, t)
                  | Some view \<Rightarrow>
                      (let t1 = t\<lparr>lt_kind := (if mc_terminal_kind machine = PROC17_QA_WIRE_RUN_RESULT_V1
                                              then TERMINAL_RESULT else TERMINAL_ERROR),
                                  lt_frame_bytes := mc_terminal_bytes machine,
                                  lt_frame := write_at (lt_frame t) 0
                                    (take (mc_terminal_bytes machine) (mc_terminal_frame machine)),
                                  lt_phase := proc17_qa_wire_get_u16
                                    (drop PROC17_QA_V1_PHASE_OFFSET (view_payload view))\<rparr>
                       in (LAUNCHER_V1_OK,
                           if view_kind view = PROC17_QA_WIRE_RUN_ERROR_V1
                           then t1\<lparr>lt_error_class := proc17_qa_wire_get_u16 (drop 130 (view_payload view)),
                                   lt_error_code := proc17_qa_wire_get_u16 (drop 132 (view_payload view)),
                                   lt_error_stage := proc17_qa_wire_get_u16 (drop 134 (view_payload view)),
                                   lt_candidate_start_state := view_payload view ! 136,
                                   lt_cleanup_state := view_payload view ! 137\<rparr>
                           else t1))))
            else
              (let t2 = t\<lparr>lt_kind := TERMINAL_DERIVED_ERROR,
                          lt_phase := (if mc_started_seen machine \<noteq> 0 then PROC17_QA_RUN_V1_PHASE_TERMINAL
                                       else PROC17_QA_RUN_V1_PHASE_STARTED),
                          lt_candidate_start_state := (if mc_started_seen machine \<noteq> 0
                                                       then PROC17_QA_RUN_V1_TRUE else PROC17_QA_RUN_V1_FALSE),
                          lt_cleanup_state := PROC17_QA_RUN_V1_UNKNOWN\<rparr>
               in (LAUNCHER_V1_OK,
                   if watchdog_fired \<or> \<not> child_wait_is_clean wait_status
                   then t2\<lparr>lt_error_class := PROC17_QA_RUN_V1_ERROR_UNAVAILABLE,
                           lt_error_code := PROC17_QA_RUN_V1_SUPERVISOR_CRASHED,
                           lt_error_stage := PROC17_QA_RUN_V1_ERROR_SUPERVISION\<rparr>
                   else t2\<lparr>lt_error_class := PROC17_QA_RUN_V1_ERROR_AMBIGUOUS,
                           lt_error_code := PROC17_QA_RUN_V1_TERMINAL_FRAME_MISSING,
                           lt_error_stage := PROC17_QA_RUN_V1_ERROR_POSTFLIGHT\<rparr>))))"

definition set_infrastructure_error ::
  "proc17_qa_launcher_v1_machine \<Rightarrow> u16 \<Rightarrow> u16 \<Rightarrow> bool \<Rightarrow> bool \<Rightarrow> u32 \<Rightarrow> proc17_qa_launcher_v1_terminal" where
  "set_infrastructure_error machine error_code error_stage supervisor_reaped result_eof wait_status =
     zero_terminal
     \<lparr>lt_kind := TERMINAL_DERIVED_ERROR,
      lt_phase := (if mc_started_seen machine \<noteq> 0 then PROC17_QA_RUN_V1_PHASE_TERMINAL
                   else PROC17_QA_RUN_V1_PHASE_STARTED),
      lt_error_class := PROC17_QA_RUN_V1_ERROR_AMBIGUOUS,
      lt_error_code := error_code,
      lt_error_stage := error_stage,
      lt_candidate_start_state := (if mc_started_seen machine \<noteq> 0 then PROC17_QA_RUN_V1_TRUE
                                   else PROC17_QA_RUN_V1_FALSE),
      lt_cleanup_state := PROC17_QA_RUN_V1_UNKNOWN,
      lt_started_attested := mc_started_seen machine,
      lt_launcher_reap_state := (if supervisor_reaped then PROC17_QA_RUN_V1_TRUE else PROC17_QA_RUN_V1_UNKNOWN),
      lt_result_eof_state := (if result_eof then PROC17_QA_RUN_V1_TRUE else PROC17_QA_RUN_V1_UNKNOWN),
      lt_supervisor_wait_status := (if supervisor_reaped then wait_status else 0)\<rparr>"

subsection \<open>The collecting loop\<close>

text \<open>The local variables of \<open>proc17_qa_launcher_collect_v1\<close> that the loop changes, with the number of
  kill signals sent and the bytes read from the result pipe.\<close>

record collect_state =
  cs_machine :: proc17_qa_launcher_v1_machine
  cs_wait_observation_complete :: bool
  cs_child_reaped :: bool
  cs_result_eof :: bool
  cs_wait_status :: u32
  cs_watchdog_fired :: bool
  cs_kill_sent :: bool
  cs_invariant_failed :: bool
  cs_infrastructure_error_code :: u16
  cs_infrastructure_error_stage :: u16
  cs_kills :: nat
  cs_delivered :: bytes

definition collect_init :: collect_state where
  "collect_init = \<lparr>cs_machine = machine_init, cs_wait_observation_complete = False, cs_child_reaped = False,
     cs_result_eof = False, cs_wait_status = 0, cs_watchdog_fired = False, cs_kill_sent = False,
     cs_invariant_failed = False, cs_infrastructure_error_code = 0, cs_infrastructure_error_stage = 0,
     cs_kills = 0, cs_delivered = []\<rparr>"

text \<open>The collector's arguments are checked to be positive, so one of the two ways to signal the
  supervisor is always taken.\<close>

definition kill_supervisor_once :: "int \<Rightarrow> int \<Rightarrow> collect_state \<Rightarrow> collect_state" where
  "kill_supervisor_once supervisor supervisor_pidfd s =
     (if cs_kill_sent s then s
      else
        (let signalled = (if supervisor_pidfd \<ge> 0 then s\<lparr>cs_kills := cs_kills s + 1\<rparr>
                          else if supervisor > 0 then s\<lparr>cs_kills := cs_kills s + 1\<rparr> else s)
         in signalled\<lparr>cs_kill_sent := True\<rparr>))"

text \<open>The replies of one turn: \<open>poll\<close> is interrupted, fails or reports; for each of the three
  descriptors the replies that follow when it is ready.  A read of the timer answers with the eight
  bytes as a number or fewer bytes; \<open>waitpid\<close> answers with the supervisor and its status, with
  another value, or with an error.\<close>

datatype wait_reply = Wait_reaped u32 | Wait_nothing | Wait_error errno

datatype poll_reply =
  Poll_interrupted
| Poll_failed
| Poll_ready "u64 option sys list option" "bytes sys list option" "wait_reply option"

fun drain_result ::
  "int \<Rightarrow> int \<Rightarrow> proc17_qa_launcher_v1_expectation \<Rightarrow> bytes sys list \<Rightarrow> collect_state \<Rightarrow> collect_state option" where
  "drain_result supervisor pidfd e [] s = None"
| "drain_result supervisor pidfd e (Sys_ok bytes # replies) s =
     (if bytes = [] then Some (s\<lparr>cs_result_eof := True\<rparr>)
      else
        (let s1 = s\<lparr>cs_delivered := cs_delivered s @ bytes\<rparr>
         in if cs_invariant_failed s1 then drain_result supervisor pidfd e replies s1
            else
              (case feed_public_bytes e (cs_machine s1) bytes of
                 None \<Rightarrow> None
               | Some (result, m) \<Rightarrow>
                   drain_result supervisor pidfd e replies
                     (if result \<noteq> 0
                      then kill_supervisor_once supervisor pidfd (s1\<lparr>cs_machine := m, cs_invariant_failed := True\<rparr>)
                      else s1\<lparr>cs_machine := m\<rparr>))))"
| "drain_result supervisor pidfd e (Sys_err err # replies) s =
     (if err = EINTR then drain_result supervisor pidfd e replies s
      else if err = EAGAIN then Some s
      else Some (kill_supervisor_once supervisor pidfd
             (if cs_infrastructure_error_code s = 0
              then s\<lparr>cs_infrastructure_error_code := PROC17_QA_RUN_V1_RESULT_PIPE_LOST,
                     cs_infrastructure_error_stage := PROC17_QA_RUN_V1_ERROR_SUPERVISION\<rparr>
              else s)))"

definition observe_wait :: "int \<Rightarrow> int \<Rightarrow> wait_reply \<Rightarrow> collect_state \<Rightarrow> collect_state" where
  "observe_wait supervisor pidfd reply s =
     (case reply of
        Wait_reaped status \<Rightarrow>
          s\<lparr>cs_wait_status := status, cs_child_reaped := True, cs_wait_observation_complete := True\<rparr>
      | Wait_nothing \<Rightarrow> s
      | Wait_error err \<Rightarrow>
          if err = EINTR then s
          else
            (let s1 = s\<lparr>cs_wait_observation_complete := True\<rparr>;
                 s2 = (if cs_infrastructure_error_code s1 = 0
                       then s1\<lparr>cs_infrastructure_error_code := PROC17_QA_RUN_V1_REAP_AMBIGUOUS,
                               cs_infrastructure_error_stage := PROC17_QA_RUN_V1_ERROR_CLEANUP\<rparr>
                       else s1)
             in kill_supervisor_once supervisor pidfd s2))"

text \<open>The timer: \<open>None\<close> when the read has not returned, \<open>Some (Inl s)\<close> for the exit to
  \<open>cleanup_kill\<close>.\<close>

definition observe_timer ::
  "int \<Rightarrow> int \<Rightarrow> u64 option sys list \<Rightarrow> collect_state \<Rightarrow> (collect_state + collect_state) option" where
  "observe_timer supervisor pidfd replies s =
     (case retry_eintr replies of
        None \<Rightarrow> None
      | Some (Sys_ok (Some expirations), _) \<Rightarrow>
          Some (if expirations = 0 then Inl s
                else Inr (kill_supervisor_once supervisor pidfd (s\<lparr>cs_watchdog_fired := True\<rparr>)))
      | Some (_, _) \<Rightarrow> Some (Inl s))"

definition collect_done :: "collect_state \<Rightarrow> bool" where
  "collect_done s \<longleftrightarrow>
     \<not> (\<not> cs_wait_observation_complete s
        \<or> (\<not> cs_result_eof s \<and> cs_infrastructure_error_code s \<noteq> PROC17_QA_RUN_V1_RESULT_PIPE_LOST))"

text \<open>One turn after \<open>poll\<close> reported: a descriptor replaced by \<open>-1\<close> reports nothing.\<close>

definition collect_turn ::
  "int \<Rightarrow> int \<Rightarrow> proc17_qa_launcher_v1_expectation \<Rightarrow> u64 option sys list option \<Rightarrow> bytes sys list option
   \<Rightarrow> wait_reply option \<Rightarrow> collect_state \<Rightarrow> (collect_state + collect_state) option" where
  "collect_turn supervisor pidfd e timer reads waited s =
     (let read_ready = (if cs_result_eof s
                           \<or> cs_infrastructure_error_code s = PROC17_QA_RUN_V1_RESULT_PIPE_LOST
                        then None else reads);
          wait_ready = (if cs_wait_observation_complete s then None else waited);
          timer_ready = (if cs_watchdog_fired s then None else timer)
      in case (case timer_ready of None \<Rightarrow> Some (Inr s) | Some replies \<Rightarrow> observe_timer supervisor pidfd replies s) of
           None \<Rightarrow> None
         | Some (Inl s1) \<Rightarrow> Some (Inl s1)
         | Some (Inr s1) \<Rightarrow>
             (case (case read_ready of None \<Rightarrow> Some s1 | Some replies \<Rightarrow> drain_result supervisor pidfd e replies s1) of
                None \<Rightarrow> None
              | Some s2 \<Rightarrow>
                  Some (Inr (case wait_ready of None \<Rightarrow> s2 | Some reply \<Rightarrow> observe_wait supervisor pidfd reply s2))))"

fun collect_loop ::
  "int \<Rightarrow> int \<Rightarrow> proc17_qa_launcher_v1_expectation \<Rightarrow> poll_reply list \<Rightarrow> collect_state
   \<Rightarrow> (collect_state + collect_state) option" where
  "collect_loop supervisor pidfd e [] s = (if collect_done s then Some (Inr s) else None)"
| "collect_loop supervisor pidfd e (reply # replies) s =
     (if collect_done s then Some (Inr s)
      else
        (case reply of
           Poll_interrupted \<Rightarrow> collect_loop supervisor pidfd e replies s
         | Poll_failed \<Rightarrow> Some (Inl s)
         | Poll_ready timer reads waited \<Rightarrow>
             (case collect_turn supervisor pidfd e timer reads waited s of
                None \<Rightarrow> None
              | Some (Inl s1) \<Rightarrow> Some (Inl s1)
              | Some (Inr s1) \<Rightarrow> collect_loop supervisor pidfd e replies s1)))"

text \<open>The part after \<open>cleanup_kill\<close>: the supervisor is killed and, unless its end was already observed,
  waited for; the replies are those of the blocking \<open>waitpid\<close>.\<close>

definition cleanup_kill ::
  "int \<Rightarrow> int \<Rightarrow> u32 option sys list \<Rightarrow> collect_state \<Rightarrow> collect_state option" where
  "cleanup_kill supervisor pidfd wait_replies s =
     (let s1 = kill_supervisor_once supervisor pidfd s
      in if cs_wait_observation_complete s1 then Some s1
         else
           (case retry_eintr wait_replies of
              None \<Rightarrow> None
            | Some (Sys_ok (Some status), _) \<Rightarrow> Some (s1\<lparr>cs_wait_status := status, cs_child_reaped := True\<rparr>)
            | Some (_, _) \<Rightarrow> Some s1))"

text \<open>The replies of a whole collection: \<open>F_GETFL\<close>, \<open>F_SETFL\<close>, \<open>timerfd_create\<close>, \<open>timerfd_settime\<close>,
  the turns, and the waits of the cleanup.\<close>

record collect_replies =
  cr_getfl :: int
  cr_setfl :: int
  cr_timerfd :: int
  cr_settime :: int
  cr_polls :: "poll_reply list"
  cr_waits :: "u32 option sys list"

text \<open>What a collection leaves: its result, the terminal record and the final state; the timer
  descriptor is closed, the flags of the pipe are restored and the machine's buffers are wiped at the
  common exit.\<close>

record collect_outcome =
  co_result :: proc17_qa_launcher_v1_collect_status
  co_terminal :: proc17_qa_launcher_v1_terminal
  co_state :: collect_state

definition collect_failed ::
  "int \<Rightarrow> int \<Rightarrow> collect_replies \<Rightarrow> collect_state \<Rightarrow> collect_outcome option" where
  "collect_failed supervisor pidfd replies s =
     map_option (\<lambda>s1. \<lparr>co_result = LAUNCHER_V1_SYSTEM_FAILURE, co_terminal = zero_terminal, co_state = s1\<rparr>)
       (cleanup_kill supervisor pidfd (cr_waits replies) s)"

definition collect_verdict :: "collect_state \<Rightarrow> collect_outcome" where
  "collect_verdict s =
     (if cs_invariant_failed s
      then \<lparr>co_result = LAUNCHER_V1_TRUSTED_INVARIANT, co_terminal = zero_terminal, co_state = s\<rparr>
      else if cs_infrastructure_error_code s \<noteq> 0
      then \<lparr>co_result = LAUNCHER_V1_OK,
            co_terminal = set_infrastructure_error (cs_machine s) (cs_infrastructure_error_code s)
              (cs_infrastructure_error_stage s) (cs_child_reaped s) (cs_result_eof s) (cs_wait_status s),
            co_state = s\<rparr>
      else
        (case finish_machine (cs_machine s) (cs_wait_status s) (cs_child_reaped s) (cs_result_eof s)
                (cs_watchdog_fired s) zero_terminal of
           (result, terminal) \<Rightarrow> \<lparr>co_result = result, co_terminal = terminal, co_state = s\<rparr>))"

definition proc17_qa_launcher_collect_v1 ::
  "int \<Rightarrow> int \<Rightarrow> int \<Rightarrow> u32 \<Rightarrow> proc17_qa_launcher_v1_expectation ptr \<Rightarrow> proc17_qa_launcher_v1_terminal ptr
   \<Rightarrow> collect_replies \<Rightarrow> collect_outcome option" where
  "proc17_qa_launcher_collect_v1 supervisor supervisor_pidfd result_descriptor watchdog_seconds expectation
     terminal replies =
     (case (expectation, terminal) of
        (Some e, Some t) \<Rightarrow>
          if supervisor \<le> 0 \<or> supervisor_pidfd < 0 \<or> result_descriptor < 0 \<or> watchdog_seconds = 0
             \<or> \<not> expectation_valid (Some e)
          then Some \<lparr>co_result = LAUNCHER_V1_INVALID_ARGUMENT, co_terminal = t, co_state = collect_init\<rparr>
          else if cr_getfl replies < 0 \<or> cr_setfl replies \<noteq> 0
          then collect_failed supervisor supervisor_pidfd replies collect_init
          else if cr_timerfd replies < 0
          then collect_failed supervisor supervisor_pidfd replies collect_init
          else if cr_settime replies \<noteq> 0
          then collect_failed supervisor supervisor_pidfd replies collect_init
          else
            (case collect_loop supervisor supervisor_pidfd e (cr_polls replies) collect_init of
               None \<Rightarrow> None
             | Some (Inl s) \<Rightarrow> collect_failed supervisor supervisor_pidfd replies s
             | Some (Inr s) \<Rightarrow> Some (collect_verdict s))
      | _ \<Rightarrow> Some \<lparr>co_result = LAUNCHER_V1_INVALID_ARGUMENT,
                   co_terminal = (case terminal of None \<Rightarrow> zero_terminal | Some t \<Rightarrow> t),
                   co_state = collect_init\<rparr>)"

subsection \<open>The protocol on the result pipe\<close>

text \<open>The frames a run may put on the pipe, as predicates on their bytes.  The payload of a frame
  starts at byte 48.\<close>

definition run_frame :: "u16 \<Rightarrow> proc17_qa_launcher_v1_expectation \<Rightarrow> bytes \<Rightarrow> bool" where
  "run_frame kind e f \<longleftrightarrow>
     (\<exists>v. proc17_qa_wire_decode_run_v1 (Some f) (length f) = Some v \<and> view_kind v = kind)
     \<and> slice 48 128 f = take 128 (ex_identity e)"

definition started_frame :: "proc17_qa_launcher_v1_expectation \<Rightarrow> bytes \<Rightarrow> bool" where
  "started_frame e f \<longleftrightarrow> run_frame PROC17_QA_WIRE_RUN_STARTED_V1 e f \<and> stage_matches_source (slice 216 84 f) e"

definition result_frame :: "proc17_qa_launcher_v1_expectation \<Rightarrow> bytes \<Rightarrow> bytes \<Rightarrow> bool" where
  "result_frame e started f \<longleftrightarrow>
     run_frame PROC17_QA_WIRE_RUN_RESULT_V1 e f \<and> stage_matches_source (slice 476 84 f) e
     \<and> slice 476 84 f = slice 216 84 started"

definition early_error_frame :: "proc17_qa_launcher_v1_expectation \<Rightarrow> bytes \<Rightarrow> bool" where
  "early_error_frame e f \<longleftrightarrow>
     run_frame PROC17_QA_WIRE_RUN_ERROR_V1 e f
     \<and> proc17_qa_wire_get_u16 (drop 176 f) = PROC17_QA_RUN_V1_PHASE_STARTED
     \<and> (f ! 187 \<noteq> 0 \<longrightarrow> stage_matches_source (slice 232 84 f) e)"

definition late_error_frame :: "proc17_qa_launcher_v1_expectation \<Rightarrow> bytes \<Rightarrow> bytes \<Rightarrow> bool" where
  "late_error_frame e started f \<longleftrightarrow>
     run_frame PROC17_QA_WIRE_RUN_ERROR_V1 e f
     \<and> proc17_qa_wire_get_u16 (drop 176 f) = PROC17_QA_RUN_V1_PHASE_TERMINAL
     \<and> f ! 187 \<noteq> 0 \<and> stage_matches_source (slice 232 84 f) e \<and> slice 232 84 f = slice 216 84 started"

lemma decode_run_transfer:
  assumes d: "proc17_qa_wire_decode_run_v1 (Some p) n = Some v"
    and t: "take n p = take n q" and len: "n \<le> length p" "n \<le> length q"
  shows "proc17_qa_wire_decode_run_v1 (Some q) n = Some
     \<lparr>view_kind = view_kind v, view_nonce = drop 16 q, view_payload = drop 48 q,
      view_payload_bytes = view_payload_bytes v\<rparr>"
    and "view_payload v = drop 48 p" "n = 80 + unat (view_payload_bytes v)" "n \<le> 4096"
    and "proc17_qa_wire_v1_payload_valid (view_kind v) (Some (drop 48 q)) (view_payload_bytes v)"
proof -
  have dec: "proc17_qa_wire_decode (Some p) n = Some v"
    and pv: "proc17_qa_wire_v1_payload_valid (view_kind v) (Some (view_payload v)) (view_payload_bytes v)"
    and nonce: "take 32 (view_nonce v) = take 32 (view_payload v)"
    using d by (auto simp: proc17_qa_wire_decode_run_v1_def split: option.splits if_splits)
  note s = decode_sound [OF dec len(1)]
  let ?k = "unat (view_payload_bytes v)"
  have sl: "slice i m p = slice i m q" if "i + m \<le> n" for i m
    using slice_take [OF that, of p] slice_take [OF that, of q] t by simp
  have k: "238 \<le> ?k" using payload_valid_bounds pv by (metis s(4))
  have lk: "length (slice 48 ?k p) = ?k" using s(5) len by simp
  have dq: "proc17_qa_wire_decode (Some q) n = Some \<lparr>view_kind = view_kind v, view_nonce = drop 16 q,
      view_payload = drop 48 q, view_payload_bytes = view_payload_bytes v\<rparr>"
    using decode_complete [OF s(1) _ len(2)] s(2) t lk by simp
  have "agree ?k (drop 48 p) (drop 48 q)"
    using sl [of 48 ?k] s(5) len by (auto simp: agree_def slice_def)
  then show pq: "proc17_qa_wire_v1_payload_valid (view_kind v) (Some (drop 48 q)) (view_payload_bytes v)"
    using agree_payload_valid pv s(4) by metis
  have "take 32 (drop 16 q) = take 32 (drop 48 q)"
    using nonce s(3,4,5) k sl [of 16 32] sl [of 48 32] by (simp add: slice_def)
  then show "proc17_qa_wire_decode_run_v1 (Some q) n = Some
     \<lparr>view_kind = view_kind v, view_nonce = drop 16 q, view_payload = drop 48 q,
      view_payload_bytes = view_payload_bytes v\<rparr>"
    using dq pq by (simp add: proc17_qa_wire_decode_run_v1_def)
  show "view_payload v = drop 48 p" "n = 80 + ?k" "n \<le> 4096" using s by simp_all
qed

lemma agree_stage_matches:
  assumes "agree 84 p q"
  shows "stage_matches_source p e = stage_matches_source q e"
  unfolding stage_matches_source_def
  using agree_stage_valid [OF assms] by (simp add: agree_reads(2,3) [OF assms] agree_nth [OF assms])

lemma get_u16_of_take: "off + 2 \<le> n \<Longrightarrow> n \<le> length p \<Longrightarrow>
    proc17_qa_wire_get_u16 (drop off p) = proc17_qa_wire_get_u16 (drop off (take n p))"
  by (simp add: proc17_qa_wire_get_u16_def)

lemma payload_size:
  "proc17_qa_wire_v1_payload_valid PROC17_QA_WIRE_RUN_STARTED_V1 (Some p) k \<Longrightarrow> unat k = 252"
  "proc17_qa_wire_v1_payload_valid PROC17_QA_WIRE_RUN_RESULT_V1 (Some p) k \<Longrightarrow> unat k = 512"
  "proc17_qa_wire_v1_payload_valid PROC17_QA_WIRE_RUN_ERROR_V1 (Some p) k \<Longrightarrow> unat k = 268"
  by (auto simp: proc17_qa_wire_v1_payload_valid_def proc17_qa_wire_v1_started_valid_def
      proc17_qa_wire_v1_result_valid_def proc17_qa_wire_v1_error_valid_def split: if_splits)

lemma error_phase:
  "proc17_qa_wire_v1_payload_valid PROC17_QA_WIRE_RUN_ERROR_V1 (Some p) k \<Longrightarrow>
     proc17_qa_wire_get_u16 (drop 128 p) = PROC17_QA_RUN_V1_PHASE_STARTED
     \<or> proc17_qa_wire_get_u16 (drop 128 p) = PROC17_QA_RUN_V1_PHASE_TERMINAL"
  by (auto simp: proc17_qa_wire_v1_payload_valid_def proc17_qa_wire_v1_error_valid_def Let_def split: if_splits)

text \<open>What an accepted frame is, and what accepting it does to the machine.\<close>

definition accepts ::
  "proc17_qa_launcher_v1_expectation \<Rightarrow> proc17_qa_launcher_v1_machine \<Rightarrow> bytes \<Rightarrow> proc17_qa_launcher_v1_machine \<Rightarrow> bool" where
  "accepts e m f m' \<longleftrightarrow>
     mc_terminal_seen m = 0
     \<and> (mc_started_seen m = 0 \<and> started_frame e f
          \<and> m' = m\<lparr>mc_started_token := slice 184 32 f, mc_started_stage := slice 216 84 f, mc_started_seen := 1\<rparr>
        \<or> mc_started_seen m = 1 \<and> run_frame PROC17_QA_WIRE_RUN_RESULT_V1 e f \<and> stage_matches_source (slice 476 84 f) e
          \<and> slice 476 84 f = mc_started_stage m \<and> m' = store_terminal m PROC17_QA_WIRE_RUN_RESULT_V1
        \<or> mc_started_seen m = 0 \<and> early_error_frame e f \<and> m' = store_terminal m PROC17_QA_WIRE_RUN_ERROR_V1
        \<or> mc_started_seen m = 1 \<and> run_frame PROC17_QA_WIRE_RUN_ERROR_V1 e f
          \<and> proc17_qa_wire_get_u16 (drop 176 f) = PROC17_QA_RUN_V1_PHASE_TERMINAL \<and> f ! 187 \<noteq> 0
          \<and> stage_matches_source (slice 232 84 f) e \<and> slice 232 84 f = mc_started_stage m
          \<and> m' = store_terminal m PROC17_QA_WIRE_RUN_ERROR_V1)"

lemma accept_complete_frame_accepts:
  assumes a: "accept_complete_frame e m = (0, m')" and len: "mc_pending_bytes m \<le> length (mc_pending m)"
  shows "accepts e m (take (mc_pending_bytes m) (mc_pending m)) m'"
proof -
  let ?n = "mc_pending_bytes m" and ?p = "mc_pending m"
  define f where "f = take ?n ?p"
  obtain v where d: "proc17_qa_wire_decode_run_v1 (Some ?p) ?n = Some v" and ts: "mc_terminal_seen m = 0"
    using a by (cases "proc17_qa_wire_decode_run_v1 (Some ?p) ?n")
      (auto simp: accept_complete_frame_def split: if_splits)
  have lf: "length f = ?n" using len by (simp add: f_def)
  have tf: "take ?n ?p = take ?n f" "?n \<le> length f" using len by (simp_all add: f_def)
  note tr = decode_run_transfer [OF d tf(1) len tf(2)]
  have v: "view_payload v = drop 48 ?p" and n: "?n = 80 + unat (view_payload_bytes v)"
    and pv: "proc17_qa_wire_v1_payload_valid (view_kind v) (Some (drop 48 f)) (view_payload_bytes v)"
    using tr by auto
  have k: "238 \<le> unat (view_payload_bytes v)" using payload_valid_bounds [OF pv] by simp
  have sl: "take m (drop i ?p) = slice i m f" if "i + m \<le> ?n" for i m
    using slice_take [OF that, of ?p] by (simp add: slice_def f_def)
  have ag: "agree m (drop i ?p) (slice i m f)" if "i + m \<le> ?n" for i m
    using sl [OF that] len that lf by (simp add: agree_def)
  have ide: "take 128 (drop 48 ?p) = take 128 (ex_identity e)"
    using a d ts v by (simp add: accept_complete_frame_def Let_def split: if_splits)
  then have id: "slice 48 128 f = take 128 (ex_identity e)" using sl [of 48 128] n k by simp
  have dn: "drop 48 ?p ! 139 = ?p ! 187" using n k len by simp
  note body = accept_complete_frame_def d ts v ide dn Let_def
  have rf: "run_frame kind e f" if "view_kind v = kind" for kind
    using tr(1) id that lf by (simp add: run_frame_def)
  have ph: "proc17_qa_wire_get_u16 (drop 176 ?p) = proc17_qa_wire_get_u16 (drop 176 f)"
    unfolding f_def by (rule get_u16_of_take) (use n k len in simp_all)
  have n187: "?p ! 187 = f ! 187" using n k by (simp add: f_def)
  consider "view_kind v = PROC17_QA_WIRE_RUN_STARTED_V1" | "view_kind v = PROC17_QA_WIRE_RUN_RESULT_V1"
    | "view_kind v = PROC17_QA_WIRE_RUN_ERROR_V1"
    using a by (simp add: body split: if_splits)
  then have "accepts e m f m'"
  proof cases
    case 1
    then have "?n = 332" using payload_size(1) pv n by simp
    moreover have "mc_started_seen m = 0" "stage_matches_source (drop 216 ?p) e"
      "m' = m\<lparr>mc_started_token := take 32 (drop 184 ?p), mc_started_stage := take 84 (drop 216 ?p), mc_started_seen := 1\<rparr>"
      using a by (simp_all add: body 1 split: if_splits)
    ultimately show ?thesis
      using ts rf [OF 1] sl [of 184 32] sl [of 216 84] agree_stage_matches [OF ag [of 216 84]]
      by (simp add: accepts_def started_frame_def)
  next
    case 2
    then have "?n = 592" using payload_size(2) pv n by simp
    moreover have "mc_started_seen m = 1" "stage_matches_source (drop 476 ?p) e"
      "take 84 (drop 476 ?p) = mc_started_stage m" "m' = store_terminal m PROC17_QA_WIRE_RUN_RESULT_V1"
      using a by (simp_all add: body 2 split: if_splits)
    ultimately show ?thesis
      using ts rf [OF 2] sl [of 476 84] agree_stage_matches [OF ag [of 476 84]]
      by (simp add: accepts_def)
  next
    case 3
    then have n3: "?n = 348" using payload_size(3) pv n by simp
    note rest = ts rf [OF 3] sl [of 232 84] agree_stage_matches [OF ag [of 232 84]] ph n187 n3
    show ?thesis
    proof (cases "proc17_qa_wire_get_u16 (drop 176 ?p) = PROC17_QA_RUN_V1_PHASE_STARTED")
      case True
      then have "mc_started_seen m = 0" "?p ! 187 \<noteq> 0 \<Longrightarrow> stage_matches_source (drop 232 ?p) e"
        "m' = store_terminal m PROC17_QA_WIRE_RUN_ERROR_V1"
        using a by (simp_all add: body 3 split: if_splits)
      then show ?thesis using rest True by (simp add: accepts_def early_error_frame_def)
    next
      case False
      then have "mc_started_seen m = 1" "?p ! 187 \<noteq> 0" "stage_matches_source (drop 232 ?p) e"
        "take 84 (drop 232 ?p) = mc_started_stage m" "m' = store_terminal m PROC17_QA_WIRE_RUN_ERROR_V1"
        using a by (simp_all add: body 3 split: if_splits)
      moreover have "proc17_qa_wire_get_u16 (drop 176 f) = PROC17_QA_RUN_V1_PHASE_TERMINAL"
        using error_phase [of "drop 48 f" "view_payload_bytes v"] pv 3 False ph by simp
      ultimately show ?thesis using rest by (simp add: accepts_def)
    qed
  qed
  then show ?thesis unfolding f_def .
qed

subsection \<open>What the machine has read\<close>

definition machine_wf :: "proc17_qa_launcher_v1_machine \<Rightarrow> bool" where
  "machine_wf m \<longleftrightarrow>
     length (mc_pending m) = 4096 \<and> length (mc_terminal_frame m) = 4096 \<and> mc_invariant_failed m = 0
     \<and> (mc_expected_frame_bytes m = 0 \<and> mc_pending_bytes m < 16
        \<or> 80 \<le> mc_expected_frame_bytes m \<and> mc_expected_frame_bytes m \<le> 4096
          \<and> 16 \<le> mc_pending_bytes m \<and> mc_pending_bytes m < mc_expected_frame_bytes m)"

definition terminal_read :: "proc17_qa_launcher_v1_expectation \<Rightarrow> proc17_qa_launcher_v1_machine \<Rightarrow> bytes \<Rightarrow> bytes \<Rightarrow> bool" where
  "terminal_read e m f1 f \<longleftrightarrow>
     mc_terminal_bytes m = length f \<and> length f \<le> 4096 \<and> take (length f) (mc_terminal_frame m) = f
     \<and> (mc_started_seen m = 1 \<and> started_frame e f1
          \<and> (mc_terminal_kind m = PROC17_QA_WIRE_RUN_RESULT_V1 \<and> result_frame e f1 f
             \<or> mc_terminal_kind m = PROC17_QA_WIRE_RUN_ERROR_V1 \<and> late_error_frame e f1 f)
        \<or> mc_started_seen m = 0 \<and> f1 = [] \<and> mc_terminal_kind m = PROC17_QA_WIRE_RUN_ERROR_V1 \<and> early_error_frame e f)"

text \<open>The machine has read \<open>bs\<close>: nothing but a part of the first frame, a STARTED frame and a part of
  the next, or a complete conversation.\<close>

definition has_read :: "proc17_qa_launcher_v1_expectation \<Rightarrow> proc17_qa_launcher_v1_machine \<Rightarrow> bytes \<Rightarrow> bool" where
  "has_read e m bs \<longleftrightarrow> machine_wf m
     \<and> (mc_terminal_seen m = 0 \<and> mc_started_seen m = 0 \<and> bs = take (mc_pending_bytes m) (mc_pending m)
        \<or> mc_terminal_seen m = 0 \<and> mc_started_seen m = 1
          \<and> (\<exists>f1. bs = f1 @ take (mc_pending_bytes m) (mc_pending m) \<and> started_frame e f1
                 \<and> mc_started_stage m = slice 216 84 f1)
        \<or> mc_terminal_seen m = 1 \<and> mc_pending_bytes m = 0
          \<and> (\<exists>f1 f. bs = f1 @ f \<and> terminal_read e m f1 f))"

lemma has_read_init: "has_read e machine_init []"
  by (simp add: has_read_def machine_wf_def machine_init_def)

lemma accepts_has_read:
  assumes a: "accepts e m f m'" and wf: "length (mc_pending m) = 4096" "length (mc_terminal_frame m) = 4096"
      "mc_invariant_failed m = 0" "mc_pending_bytes m \<le> 4096"
    and f: "f = take (mc_pending_bytes m) (mc_pending m)"
    and bs: "mc_started_seen m = 0 \<and> pre = [] \<or>
      mc_started_seen m = 1 \<and> started_frame e pre \<and> mc_started_stage m = slice 216 84 pre"
  shows "has_read e (reset_pending m') (pre @ f)"
proof -
  have lf: "length f = mc_pending_bytes m" using f wf by simp
  have st: "take (length f) (mc_terminal_frame (store_terminal m k)) = f"
    "mc_terminal_bytes (store_terminal m k) = length f" for k
    using wf lf f by (simp_all add: store_terminal_def write_at_in_range)
  have keep: "machine_wf (reset_pending m')"
    using a wf by (auto simp: accepts_def machine_wf_def reset_pending_def store_terminal_def)
  from a bs show ?thesis
    unfolding accepts_def
  proof (elim conjE disjE)
    assume "mc_started_seen m = 0" "started_frame e f" "mc_terminal_seen m = 0" "pre = []"
      "m' = m\<lparr>mc_started_token := slice 184 32 f, mc_started_stage := slice 216 84 f, mc_started_seen := 1\<rparr>"
    then show ?thesis using keep by (simp add: has_read_def reset_pending_def)
  next
    assume "mc_started_seen m = 1" "run_frame PROC17_QA_WIRE_RUN_RESULT_V1 e f" "stage_matches_source (slice 476 84 f) e"
      "slice 476 84 f = mc_started_stage m" "m' = store_terminal m PROC17_QA_WIRE_RUN_RESULT_V1"
      "started_frame e pre" "mc_started_stage m = slice 216 84 pre"
    then have "terminal_read e (reset_pending m') pre f"
      using st wf lf by (simp add: terminal_read_def result_frame_def reset_pending_def)
        (simp add: store_terminal_def)
    then show ?thesis using keep \<open>m' = _\<close> by (auto simp: has_read_def reset_pending_def store_terminal_def)
  next
    assume "mc_started_seen m = 0" "early_error_frame e f" "m' = store_terminal m PROC17_QA_WIRE_RUN_ERROR_V1" "pre = []"
    then have "terminal_read e (reset_pending m') pre f"
      using st wf lf by (simp add: terminal_read_def reset_pending_def) (simp add: store_terminal_def)
    then show ?thesis using keep \<open>m' = _\<close> by (auto simp: has_read_def reset_pending_def store_terminal_def)
  next
    assume "mc_started_seen m = 1" "run_frame PROC17_QA_WIRE_RUN_ERROR_V1 e f"
      "proc17_qa_wire_get_u16 (drop 176 f) = PROC17_QA_RUN_V1_PHASE_TERMINAL" "f ! 187 \<noteq> 0"
      "stage_matches_source (slice 232 84 f) e" "slice 232 84 f = mc_started_stage m"
      "m' = store_terminal m PROC17_QA_WIRE_RUN_ERROR_V1"
      "started_frame e pre" "mc_started_stage m = slice 216 84 pre"
    then have "terminal_read e (reset_pending m') pre f"
      using st wf lf by (simp add: terminal_read_def late_error_frame_def reset_pending_def)
        (simp add: store_terminal_def)
    then show ?thesis using keep \<open>m' = _\<close> by (auto simp: has_read_def reset_pending_def store_terminal_def)
  qed simp_all
qed

text \<open>The frames already accepted by a machine that has not seen the terminal frame.\<close>

definition accepted_prefix :: "proc17_qa_launcher_v1_expectation \<Rightarrow> proc17_qa_launcher_v1_machine \<Rightarrow> bytes \<Rightarrow> bool" where
  "accepted_prefix e m pre \<longleftrightarrow>
     mc_started_seen m = 0 \<and> pre = [] \<or>
     mc_started_seen m = 1 \<and> started_frame e pre \<and> mc_started_stage m = slice 216 84 pre"

lemma has_read_open:
  "mc_terminal_seen m = 0 \<Longrightarrow> has_read e m bs \<longleftrightarrow> machine_wf m \<and>
     (\<exists>pre. bs = pre @ take (mc_pending_bytes m) (mc_pending m) \<and> accepted_prefix e m pre)"
  by (auto simp: has_read_def accepted_prefix_def)

lemma feed_step_Inr:
  assumes wf: "machine_wf m" and ne: "xs \<noteq> []" and st: "feed_step e m xs = Inr (m', rest)"
  obtains ys where "xs = ys @ rest" "ys \<noteq> []" "mc_terminal_seen m = 0"
    "mc_pending_bytes m + length ys \<le> feed_target m"
    "m' = absorb m ys \<and> mc_pending_bytes m + length ys \<noteq> feed_target m
     \<or> (\<exists>k. m' = (absorb m ys)\<lparr>mc_expected_frame_bytes := 80 + k\<rparr> \<and> k \<le> 4016
          \<and> mc_expected_frame_bytes m = 0 \<and> mc_pending_bytes m + length ys = 16)
     \<or> (\<exists>m3. accept_complete_frame e (absorb m ys) = (0, m3) \<and> m' = reset_pending m3
          \<and> mc_pending_bytes m + length ys = mc_expected_frame_bytes m)"
proof -
  define ys where "ys = take (feed_target m - mc_pending_bytes m) xs"
  let ?pb = "proc17_qa_wire_get_u32 (drop 12 (mc_pending (absorb m ys)))"
  have ok: "mc_terminal_seen m = 0" "mc_invariant_failed m = 0"
    using st by (auto simp: feed_step_def split: if_splits)
  have t: "mc_pending_bytes m < feed_target m" using wf by (auto simp: machine_wf_def feed_target_def)
  have ys: "xs = ys @ drop (length ys) xs" "ys \<noteq> []" "mc_pending_bytes m + length ys \<le> feed_target m"
    using t ne by (auto simp: ys_def min_def)
  have fields: "mc_expected_frame_bytes (absorb m ys) = mc_expected_frame_bytes m"
    "mc_pending_bytes (absorb m ys) = mc_pending_bytes m + length ys" by (simp_all add: absorb_def)
  note st' = st [unfolded feed_step_def Let_def ys_def [symmetric] fields]
  consider "mc_expected_frame_bytes m = 0 \<and> mc_pending_bytes m + length ys = 16"
    | "mc_expected_frame_bytes m \<noteq> 0 \<and> mc_pending_bytes m + length ys = mc_expected_frame_bytes m"
    | "mc_pending_bytes m + length ys \<noteq> feed_target m"
    by (cases "mc_expected_frame_bytes m = 0") (auto simp: feed_target_def)
  then show ?thesis
  proof cases
    case 1
    then have "\<not> ?pb > 4016" "m' = (absorb m ys)\<lparr>mc_expected_frame_bytes := 80 + unat ?pb\<rparr>" "rest = drop (length ys) xs"
      using st' ok by (auto simp: fields split: if_splits)
    moreover from this have "unat ?pb \<le> 4016" by (simp add: not_less word_le_nat_alt)
    ultimately show ?thesis using that [of ys] ys ok(1) 1 by auto
  next
    case 2
    obtain r m3 where acc: "accept_complete_frame e (absorb m ys) = (r, m3)" by (cases "accept_complete_frame e (absorb m ys)")
    then have "r = 0" "m' = reset_pending m3" "rest = drop (length ys) xs"
      using st' ok 2 by (auto simp: fields split: if_splits)
    then show ?thesis using that [of ys] ys ok(1) 2 acc by auto
  next
    case 3
    then have "m' = absorb m ys" "rest = drop (length ys) xs"
      using st' ok by (auto simp: fields feed_target_def split: if_splits)
    then show ?thesis using that [of ys] ys ok(1) 3 by auto
  qed
qed

lemma take_absorb:
  "mc_pending_bytes m + length ys \<le> length (mc_pending m) \<Longrightarrow>
     take (mc_pending_bytes m + length ys) (mc_pending (absorb m ys)) = take (mc_pending_bytes m) (mc_pending m) @ ys"
  using take_write_at_append [of "take (mc_pending_bytes m) (mc_pending m)" "mc_pending_bytes m" "mc_pending m" ys]
  by (simp add: absorb_def)

lemma feed_step_has_read:
  assumes h: "has_read e m bs" and ne: "xs \<noteq> []" and st: "feed_step e m xs = Inr (m', rest)"
  obtains ys where "xs = ys @ rest" "ys \<noteq> []" "has_read e m' (bs @ ys)"
proof (rule feed_step_Inr [OF _ ne st])
  show wf: "machine_wf m" using h by (simp add: has_read_def)
  fix ys
  assume xs: "xs = ys @ rest" "ys \<noteq> []" and ts: "mc_terminal_seen m = 0"
    and le: "mc_pending_bytes m + length ys \<le> feed_target m"
    and cases: "m' = absorb m ys \<and> mc_pending_bytes m + length ys \<noteq> feed_target m
     \<or> (\<exists>k. m' = (absorb m ys)\<lparr>mc_expected_frame_bytes := 80 + k\<rparr> \<and> k \<le> 4016
          \<and> mc_expected_frame_bytes m = 0 \<and> mc_pending_bytes m + length ys = 16)
     \<or> (\<exists>m3. accept_complete_frame e (absorb m ys) = (0, m3) \<and> m' = reset_pending m3
          \<and> mc_pending_bytes m + length ys = mc_expected_frame_bytes m)"
  obtain pre where pre: "bs = pre @ take (mc_pending_bytes m) (mc_pending m)" "accepted_prefix e m pre"
    using h has_read_open [OF ts] by blast
  have b: "mc_pending_bytes m + length ys \<le> 4096" "length (mc_pending m) = 4096"
    using wf le by (auto simp: machine_wf_def feed_target_def split: if_splits)
  have bs: "bs @ ys = pre @ take (mc_pending_bytes m + length ys) (mc_pending (absorb m ys))"
    using pre take_absorb [of m ys] b by simp
  have "has_read e m' (bs @ ys)"
    using cases
  proof (elim disjE exE conjE)
    assume "m' = absorb m ys" "mc_pending_bytes m + length ys \<noteq> feed_target m"
    moreover from this have "machine_wf m'" using wf le by (auto simp: machine_wf_def absorb_def feed_target_def split: if_splits)
    ultimately show ?thesis using bs pre(2) ts by (auto simp: has_read_open absorb_def accepted_prefix_def)
  next
    fix k assume "m' = (absorb m ys)\<lparr>mc_expected_frame_bytes := 80 + k\<rparr>" "k \<le> 4016" "mc_expected_frame_bytes m = 0"
      "mc_pending_bytes m + length ys = 16"
    moreover from this have "machine_wf m'" using wf by (auto simp: machine_wf_def absorb_def)
    ultimately show ?thesis using bs pre(2) ts by (auto simp: has_read_open absorb_def accepted_prefix_def)
  next
    fix m3 assume acc: "accept_complete_frame e (absorb m ys) = (0, m3)" and m': "m' = reset_pending m3"
    have "accepts e (absorb m ys) (take (mc_pending_bytes m + length ys) (mc_pending (absorb m ys))) m3"
      using accept_complete_frame_accepts [OF acc] b by (simp add: absorb_def)
    from accepts_has_read [OF this, of pre] wf b pre(2) show ?thesis
      unfolding bs m' by (simp add: absorb_def machine_wf_def accepted_prefix_def)
  qed
  with that xs show thesis by blast
qed

text \<open>Feeding always ends, and what it has accepted is what it was fed.\<close>

lemma feed_has_read:
  assumes "has_read e m bs"
  obtains r m' where "feed_public_bytes e m xs = Some (r, m')" "r = 0 \<Longrightarrow> has_read e m' (bs @ xs)"
proof -
  have "\<exists>r m'. feed_public_bytes e m xs = Some (r, m') \<and> (r = 0 \<longrightarrow> has_read e m' (bs @ xs))"
    using assms
  proof (induction "length xs" arbitrary: xs m bs rule: less_induct)
    case less
    show ?case
    proof (cases "xs = []")
      case True
      then show ?thesis using less.prems by (simp add: feed_public_bytes.simps)
    next
      case False
      show ?thesis
      proof (cases "feed_step e m xs")
        case (Inl failed)
        then show ?thesis using False by (simp add: feed_public_bytes.simps)
      next
        case (Inr mr)
        obtain m1 rest where mr: "mr = (m1, rest)" by (cases mr)
        obtain ys where ys: "xs = ys @ rest" "ys \<noteq> []" "has_read e m1 (bs @ ys)"
          by (rule feed_step_has_read [OF less.prems False Inr [unfolded mr]])
        then have "length rest < length xs" by simp
        from less.hyps [OF this ys(3)] ys(1,2) False Inr mr show ?thesis
          by (subst feed_public_bytes.simps) simp
      qed
    qed
  qed
  with that show ?thesis by blast
qed

subsection \<open>Reading does not depend on how the pipe delivers\<close>

lemma write_at_write_at:
  "off + length a + length b \<le> length out \<Longrightarrow> write_at (write_at out off a) (off + length a) b = write_at out off (a @ b)"
  by (simp add: write_at_in_range ac_simps)

lemma absorb_absorb:
  "mc_pending_bytes m + length a + length b \<le> length (mc_pending m) \<Longrightarrow> absorb (absorb m a) b = absorb m (a @ b)"
  by (simp add: absorb_def write_at_write_at add.assoc)

lemma feed_step_enough:
  assumes "feed_target m - mc_pending_bytes m \<le> length xs"
  shows "feed_step e m (xs @ ys) =
    (case feed_step e m xs of Inl f \<Rightarrow> Inl f | Inr (m', rest) \<Rightarrow> Inr (m', rest @ ys))"
  using assms by (simp add: feed_step_def Let_def split: if_splits prod.splits)

lemma feed_step_short:
  assumes wf: "machine_wf m" "mc_terminal_seen m = 0" and short: "length xs < feed_target m - mc_pending_bytes m"
  shows "feed_step e m xs = Inr (absorb m xs, [])"
    and "feed_step e (absorb m xs) ys = feed_step e m (xs @ ys)"
proof -
  have inv: "mc_invariant_failed m = 0" "feed_target m \<le> 4096" "length (mc_pending m) = 4096"
    using wf(1) by (auto simp: machine_wf_def feed_target_def)
  have f: "mc_expected_frame_bytes (absorb m a) = mc_expected_frame_bytes m" "feed_target (absorb m a) = feed_target m"
    "mc_pending_bytes (absorb m a) = mc_pending_bytes m + length a" "mc_invariant_failed (absorb m a) = mc_invariant_failed m"
    "mc_terminal_seen (absorb m a) = mc_terminal_seen m" for a
    by (simp_all add: absorb_def feed_target_def)
  have nz: "mc_pending_bytes m + length xs \<noteq> feed_target m" using short by simp
  then have n: "\<not> (mc_expected_frame_bytes m = 0 \<and> mc_pending_bytes m + length xs = 16)"
    "\<not> (mc_expected_frame_bytes m \<noteq> 0 \<and> mc_pending_bytes m + length xs = mc_expected_frame_bytes m)"
    by (auto simp: feed_target_def)
  show "feed_step e m xs = Inr (absorb m xs, [])"
    using wf inv short n by (auto simp: feed_step_def Let_def f)
  let ?k = "feed_target m - (mc_pending_bytes m + length xs)"
  have aa: "absorb (absorb m xs) (take ?k ys) = absorb m (xs @ take ?k ys)"
    by (rule absorb_absorb) (use inv short in simp)
  have tk: "take (feed_target m - mc_pending_bytes m) (xs @ ys) = xs @ take ?k ys" using short by simp
  have dr: "drop (length (xs @ take ?k ys)) (xs @ ys) = drop (length (take ?k ys)) ys" by simp
  show "feed_step e (absorb m xs) ys = feed_step e m (xs @ ys)"
    unfolding feed_step_def [of e m] feed_step_def [of e "absorb m xs"] Let_def tk dr
    by (simp only: f aa inv(1) wf(2) simp_thms if_False)
qed

lemma feed_append:
  assumes "has_read e m bs"
  shows "feed_public_bytes e m (xs @ ys) =
    (case feed_public_bytes e m xs of
       None \<Rightarrow> None
     | Some (r, m') \<Rightarrow> if r \<noteq> 0 then Some (r, m') else feed_public_bytes e m' ys)"
  using assms
proof (induction "length xs" arbitrary: xs m bs rule: less_induct)
  case less
  show ?case
  proof (cases "xs = []")
    case True
    then show ?thesis by (simp add: feed_public_bytes.simps [of e m "[]"])
  next
    case False
    have wf: "machine_wf m" using less.prems by (simp add: has_read_def)
    show ?thesis
    proof (cases "mc_terminal_seen m = 0 \<and> length xs < feed_target m - mc_pending_bytes m")
      case True
      note sh = feed_step_short [OF wf, of xs e]
      show ?thesis
        using True False sh
        by (simp add: feed_public_bytes.simps [of e m] feed_public_bytes.simps [of e _ "[]"]
            feed_public_bytes.simps [of e "absorb m xs"])
    next
      case long: False
      have app: "feed_step e m (xs @ ys) =
          (case feed_step e m xs of Inl f \<Rightarrow> Inl f | Inr (m', rest) \<Rightarrow> Inr (m', rest @ ys))"
      proof (cases "mc_terminal_seen m = 0")
        case True
        then show ?thesis using long by (intro feed_step_enough) simp
      next
        case False
        then show ?thesis by (simp add: feed_step_def)
      qed
      show ?thesis
      proof (cases "feed_step e m xs")
        case (Inl failed)
        then show ?thesis using False app by (simp add: feed_public_bytes.simps [of e m])
      next
        case (Inr mr)
        obtain m1 rest where mr: "mr = (m1, rest)" by (cases mr)
        obtain zs where zs: "xs = zs @ rest" "zs \<noteq> []" "has_read e m1 (bs @ zs)"
          by (rule feed_step_has_read [OF less.prems False Inr [unfolded mr]])
        then have "length rest < length xs" by simp
        from less.hyps [OF this zs(3)] Inr mr False app show ?thesis
          by (simp add: feed_public_bytes.simps [of e m])
      qed
    qed
  qed
qed

text \<open>C22. Reassembly does not depend on how the pipe cuts the stream: feeding two chunks one after the
  other gives the result and the machine that feeding their concatenation gives, failures included.\<close>

theorem feed_chunk_independent:
  assumes "has_read e m bs"
  shows "feed_public_bytes e m (xs @ ys) =
    (case feed_public_bytes e m xs of
       None \<Rightarrow> None
     | Some (r, m') \<Rightarrow> if r \<noteq> 0 then Some (r, m') else feed_public_bytes e m' ys)"
  using assms by (rule feed_append)

definition sample_expectation :: proc17_qa_launcher_v1_expectation where
  "sample_expectation = \<lparr>ex_identity = identity_bytes sample_identity, ex_source_device = 5, ex_source_inode = 5,
     ex_source_mount_id = 5, ex_source_mount_policy_flags = 7\<rparr>"

theorem feed_chunk_independent_witness:
  "feed_public_bytes sample_expectation machine_init ([1, 2] @ [3]) =
    (case feed_public_bytes sample_expectation machine_init [1, 2] of
       None \<Rightarrow> None
     | Some (r, m') \<Rightarrow> if r \<noteq> 0 then Some (r, m') else feed_public_bytes sample_expectation m' [3])"
  by (rule feed_chunk_independent [OF has_read_init])

subsection \<open>The collection\<close>

text \<open>The invariant of the collecting loop: as long as no violation was seen, the machine has read
  exactly what the pipe delivered; the supervisor is signalled at most once.\<close>

definition collect_inv :: "proc17_qa_launcher_v1_expectation \<Rightarrow> collect_state \<Rightarrow> bool" where
  "collect_inv e s \<longleftrightarrow>
     (\<not> cs_invariant_failed s \<longrightarrow> has_read e (cs_machine s) (cs_delivered s))
     \<and> cs_kills s = (if cs_kill_sent s then 1 else 0)
     \<and> (cs_invariant_failed s \<longrightarrow> cs_kill_sent s)
     \<and> (cs_infrastructure_error_code s \<noteq> 0 \<longrightarrow> cs_kill_sent s)
     \<and> (cs_watchdog_fired s \<longrightarrow> cs_kill_sent s)"

lemma collect_inv_init: "collect_inv e collect_init"
  using has_read_init by (simp add: collect_inv_def collect_init_def)

lemma kill_once_fields [simp]:
  "cs_kill_sent (kill_supervisor_once p fd s)"
  "cs_machine (kill_supervisor_once p fd s) = cs_machine s"
  "cs_delivered (kill_supervisor_once p fd s) = cs_delivered s"
  "cs_invariant_failed (kill_supervisor_once p fd s) = cs_invariant_failed s"
  "cs_infrastructure_error_code (kill_supervisor_once p fd s) = cs_infrastructure_error_code s"
  "cs_result_eof (kill_supervisor_once p fd s) = cs_result_eof s"
  "cs_wait_observation_complete (kill_supervisor_once p fd s) = cs_wait_observation_complete s"
  "cs_watchdog_fired (kill_supervisor_once p fd s) = cs_watchdog_fired s"
  "0 \<le> fd \<Longrightarrow> cs_kills (kill_supervisor_once p fd s) = (if cs_kill_sent s then cs_kills s else cs_kills s + 1)"
  by (simp_all add: kill_supervisor_once_def)

lemma drain_result_inv:
  assumes fd: "0 \<le> fd"
  shows "collect_inv e s \<Longrightarrow> drain_result p fd e replies s = Some s' \<Longrightarrow> collect_inv e s'"
proof (induction replies arbitrary: s)
  case (Cons reply replies)
  show ?case
  proof (cases reply)
    case (Sys_err err)
    show ?thesis
    proof (cases "err = EINTR")
      case True
      then show ?thesis using Cons Sys_err by simp
    next
      case False
      then show ?thesis using Cons.prems Sys_err fd by (auto simp: collect_inv_def split: if_splits)
    qed
  next
    case (Sys_ok bytes)
    let ?s1 = "s\<lparr>cs_delivered := cs_delivered s @ bytes\<rparr>"
    consider "bytes = []" | "bytes \<noteq> []" "cs_invariant_failed s" | "bytes \<noteq> []" "\<not> cs_invariant_failed s" by blast
    then show ?thesis
    proof cases
      case 1
      then show ?thesis using Cons.prems Sys_ok by (auto simp: collect_inv_def)
    next
      case 2
      then have "collect_inv e ?s1" using Cons.prems(1) by (simp add: collect_inv_def)
      then show ?thesis using Cons.IH [of ?s1] Cons.prems(2) Sys_ok 2 by simp
    next
      case 3
      then have h: "has_read e (cs_machine s) (cs_delivered s)" using Cons.prems(1) by (simp add: collect_inv_def)
      obtain r m where f: "feed_public_bytes e (cs_machine s) bytes = Some (r, m)"
        and hr: "r = 0 \<Longrightarrow> has_read e m (cs_delivered s @ bytes)"
        by (rule feed_has_read [OF h, of bytes]) blast
      define s2 where "s2 = (if r \<noteq> 0 then kill_supervisor_once p fd (?s1\<lparr>cs_machine := m, cs_invariant_failed := True\<rparr>)
          else ?s1\<lparr>cs_machine := m\<rparr>)"
      have "collect_inv e s2" using Cons.prems(1) hr fd 3 by (auto simp: s2_def collect_inv_def)
      moreover have "drain_result p fd e replies s2 = Some s'"
        using Cons.prems(2) Sys_ok 3 f by (simp add: s2_def Let_def)
      ultimately show ?thesis by (rule Cons.IH)
    qed
  qed
qed simp

lemma observe_timer_inv:
  "0 \<le> fd \<Longrightarrow> collect_inv e s \<Longrightarrow> observe_timer p fd replies s = Some r \<Longrightarrow>
     collect_inv e (case r of Inl s' \<Rightarrow> s' | Inr s' \<Rightarrow> s')"
  by (auto simp: observe_timer_def collect_inv_def split: option.splits sys.splits if_splits)

lemma observe_wait_inv: "0 \<le> fd \<Longrightarrow> collect_inv e s \<Longrightarrow> collect_inv e (observe_wait p fd reply s)"
  by (cases reply) (auto simp: observe_wait_def collect_inv_def Let_def)

text \<open>The stages of one turn.\<close>

lemma collect_turn_cases:
  assumes "collect_turn p fd e timer reads waited s = Some r"
  obtains (timer_failed) s1 where "r = Inl s1" "\<exists>replies. observe_timer p fd replies s = Some (Inl s1)"
    | (served) s1 s2 where "s1 = s \<or> (\<exists>replies. observe_timer p fd replies s = Some (Inr s1))"
        "s2 = s1 \<or> (\<exists>replies. drain_result p fd e replies s1 = Some s2)"
        "r = Inr s2 \<or> (\<exists>reply. r = Inr (observe_wait p fd reply s2))"
proof -
  define tr where "tr = (if cs_watchdog_fired s then None else timer)"
  define rr where "rr = (if cs_result_eof s \<or> cs_infrastructure_error_code s = PROC17_QA_RUN_V1_RESULT_PIPE_LOST then None else reads)"
  define wr where "wr = (if cs_wait_observation_complete s then None else waited)"
  note eq = assms [unfolded collect_turn_def Let_def, folded tr_def rr_def wr_def]
  obtain t where t: "(case tr of None \<Rightarrow> Some (Inr s) | Some replies \<Rightarrow> observe_timer p fd replies s) = Some t"
    using eq by (auto split: option.splits)
  show ?thesis
  proof (cases t)
    case (Inl s1)
    then show ?thesis using timer_failed [of s1] t eq by (auto split: option.splits)
  next
    case (Inr s1)
    obtain s2 where s2: "(case rr of None \<Rightarrow> Some s1 | Some replies \<Rightarrow> drain_result p fd e replies s1) = Some s2"
      using eq t Inr by (auto split: option.splits)
    have "s1 = s \<or> (\<exists>replies. observe_timer p fd replies s = Some (Inr s1))" using t Inr by (auto split: option.splits)
    moreover have "s2 = s1 \<or> (\<exists>replies. drain_result p fd e replies s1 = Some s2)" using s2 by (auto split: option.splits)
    moreover have "r = Inr s2 \<or> (\<exists>reply. r = Inr (observe_wait p fd reply s2))"
      using eq t Inr s2 by (cases wr) auto
    ultimately show ?thesis by (rule served)
  qed
qed

lemma collect_turn_inv:
  assumes "0 \<le> fd" "collect_inv e s" "collect_turn p fd e timer reads waited s = Some r"
  shows "collect_inv e (case r of Inl s' \<Rightarrow> s' | Inr s' \<Rightarrow> s')"
  using assms(3)
proof (cases rule: collect_turn_cases)
  case (timer_failed s1)
  then show ?thesis using observe_timer_inv [OF assms(1,2)] by fastforce
next
  case (served s1 s2)
  have "collect_inv e s1" using served(1) observe_timer_inv [OF assms(1,2)] assms(2) by fastforce
  then have "collect_inv e s2" using served(2) drain_result_inv [OF assms(1)] by blast
  then show ?thesis using served(3) observe_wait_inv [OF assms(1)] by auto
qed

lemma collect_loop_inv:
  assumes "0 \<le> fd"
  shows "collect_inv e s \<Longrightarrow> collect_loop p fd e replies s = Some r \<Longrightarrow>
    collect_inv e (case r of Inl s' \<Rightarrow> s' | Inr s' \<Rightarrow> s') \<and> (\<forall>s'. r = Inr s' \<longrightarrow> collect_done s')"
proof (induction replies arbitrary: s)
  case (Cons reply replies)
  show ?case
  proof (cases "collect_done s \<or> reply = Poll_interrupted \<or> reply = Poll_failed")
    case True
    then show ?thesis using Cons by (auto split: if_splits)
  next
    case False
    then obtain timer reads waited where r: "reply = Poll_ready timer reads waited" by (cases reply) auto
    then obtain t where t: "collect_turn p fd e timer reads waited s = Some t"
      using Cons.prems(2) False by (auto split: option.splits)
    from collect_turn_inv [OF assms Cons.prems(1) this] Cons r False t show ?thesis
      by (cases t) auto
  qed
qed (auto split: if_splits)

lemma collect_final_inv:
  assumes "proc17_qa_launcher_collect_v1 p fd rd wd (Some e) (Some t) replies = Some oc"
    and "co_result oc = LAUNCHER_V1_OK"
  shows "collect_inv e (co_state oc) \<and> oc = collect_verdict (co_state oc)"
proof -
  have fd: "0 \<le> fd" and loop: "\<exists>s. collect_loop p fd e (cr_polls replies) collect_init = Some (Inr s) \<and> oc = collect_verdict s"
    using assms by (auto simp: proc17_qa_launcher_collect_v1_def collect_failed_def split: if_splits option.splits sum.splits)
  then obtain s where s: "collect_loop p fd e (cr_polls replies) collect_init = Some (Inr s)" "oc = collect_verdict s" by blast
  have "co_state oc = s" using s(2) by (auto simp: collect_verdict_def split: if_splits prod.splits)
  with collect_loop_inv [OF fd collect_inv_init s(1)] s(2) show ?thesis by simp
qed

lemma has_read_terminal:
  assumes "has_read e m bs" "mc_terminal_seen m \<noteq> 0"
  obtains f1 f where "bs = f1 @ f" "terminal_read e m f1 f"
  using assms by (auto simp: has_read_def)

text \<open>The reports of a machine that ended normally.\<close>

lemma finish_machine_frame:
  assumes fin: "finish_machine m st reaped eof watchdog t0 = (LAUNCHER_V1_OK, t)"
    and kind: "lt_kind t = TERMINAL_RESULT \<or> lt_kind t = TERMINAL_ERROR" and h: "has_read e m bs"
  obtains f1 f where "bs = f1 @ f" "terminal_read e m f1 f" "reaped" "eof" "child_wait_is_clean st"
    "lt_supervisor_wait_status t = st" "take (lt_frame_bytes t) (lt_frame t) = f"
    "lt_kind t = TERMINAL_RESULT \<longleftrightarrow> mc_terminal_kind m = PROC17_QA_WIRE_RUN_RESULT_V1"
proof -
  have re: "reaped" "eof" using fin by (auto simp: finish_machine_def split: if_splits)
  have ts: "mc_terminal_seen m \<noteq> 0"
  proof
    assume "mc_terminal_seen m = 0"
    then show False using fin kind by (auto simp: finish_machine_def Let_def zero_terminal_def split: if_splits)
  qed
  have cl: "child_wait_is_clean st" using fin ts by (auto simp: finish_machine_def Let_def split: if_splits)
  obtain v where v: "proc17_qa_wire_decode_run_v1 (Some (mc_terminal_frame m)) (mc_terminal_bytes m) = Some v"
    using fin ts cl by (auto simp: finish_machine_def Let_def split: if_splits option.splits)
  have t: "lt_supervisor_wait_status t = st" "lt_frame_bytes t = mc_terminal_bytes m"
    "lt_frame t = write_at (replicate 4096 0) 0 (take (mc_terminal_bytes m) (mc_terminal_frame m))"
    "lt_kind t = (if mc_terminal_kind m = PROC17_QA_WIRE_RUN_RESULT_V1 then TERMINAL_RESULT else TERMINAL_ERROR)"
    using fin ts cl v by (auto simp: finish_machine_def Let_def zero_terminal_def split: if_splits)
  obtain f1 f where f: "bs = f1 @ f" "terminal_read e m f1 f" by (rule has_read_terminal [OF h ts])
  have "take (lt_frame_bytes t) (lt_frame t) = f"
    using t(2,3) f(2) by (simp add: terminal_read_def write_at_in_range)
  with that f re cl t(1,4) show ?thesis by (auto split: if_splits)
qed

text \<open>C17. A collected RESULT is the end of a complete conversation of the expected run: what the pipe
  delivered is exactly one STARTED frame followed by one RESULT frame, both for the expected identity,
  both naming the expected source and the same stage; the frame in the terminal record is that RESULT
  frame; the pipe was at its end, and the supervisor was reaped after a clean exit.\<close>

theorem launcher_result_follows_protocol:
  assumes ret: "proc17_qa_launcher_collect_v1 p fd rd wd (Some e) (Some t) replies = Some oc"
    and ok: "co_result oc = LAUNCHER_V1_OK" "lt_kind (co_terminal oc) = TERMINAL_RESULT"
  shows "\<exists>f1 f2. cs_delivered (co_state oc) = f1 @ f2 \<and> started_frame e f1 \<and> result_frame e f1 f2
    \<and> take (lt_frame_bytes (co_terminal oc)) (lt_frame (co_terminal oc)) = f2
    \<and> cs_result_eof (co_state oc) \<and> cs_child_reaped (co_state oc)
    \<and> child_wait_is_clean (lt_supervisor_wait_status (co_terminal oc))"
proof -
  define s where "s = co_state oc"
  have inv: "collect_inv e s" and oc: "oc = collect_verdict s"
    using collect_final_inv [OF ret ok(1)] by (simp_all add: s_def)
  have nf: "\<not> cs_invariant_failed s" using oc ok(1) by (auto simp: collect_verdict_def split: if_splits)
  have nc: "cs_infrastructure_error_code s = 0"
    using oc ok nf by (auto simp: collect_verdict_def set_infrastructure_error_def split: if_splits)
  have fin: "finish_machine (cs_machine s) (cs_wait_status s) (cs_child_reaped s) (cs_result_eof s)
      (cs_watchdog_fired s) zero_terminal = (LAUNCHER_V1_OK, co_terminal oc)"
    using oc ok(1) nf nc by (simp add: collect_verdict_def split: prod.splits)
  have h: "has_read e (cs_machine s) (cs_delivered s)" using inv nf by (simp add: collect_inv_def)
  obtain f1 f where f: "cs_delivered s = f1 @ f" "terminal_read e (cs_machine s) f1 f" "cs_child_reaped s" "cs_result_eof s"
    "child_wait_is_clean (cs_wait_status s)" "lt_supervisor_wait_status (co_terminal oc) = cs_wait_status s"
    "take (lt_frame_bytes (co_terminal oc)) (lt_frame (co_terminal oc)) = f"
    "lt_kind (co_terminal oc) = TERMINAL_RESULT \<longleftrightarrow> mc_terminal_kind (cs_machine s) = PROC17_QA_WIRE_RUN_RESULT_V1"
    by (rule finish_machine_frame [OF fin _ h]) (use ok(2) in auto)
  then have "started_frame e f1 \<and> result_frame e f1 f" using ok(2) by (auto simp: terminal_read_def)
  with f show ?thesis unfolding s_def by metis
qed

text \<open>The supervisor is signalled at most once in a collection, and whenever the collector derives an
  infrastructure error, rejects the conversation or its watchdog has fired, it was signalled.\<close>

theorem launcher_kills_at_most_once:
  assumes ret: "proc17_qa_launcher_collect_v1 p fd rd wd (Some e) (Some t) replies = Some oc"
  shows "cs_kills (co_state oc) \<le> 1
    \<and> (co_result oc = LAUNCHER_V1_SYSTEM_FAILURE \<or> cs_invariant_failed (co_state oc)
        \<or> cs_infrastructure_error_code (co_state oc) \<noteq> 0 \<or> cs_watchdog_fired (co_state oc)
       \<longrightarrow> cs_kills (co_state oc) = 1)"
proof -
  have k: "cs_kills s' = 1" if "collect_failed p fd replies s = Some oc" "collect_inv e s" "co_state oc = s'" "0 \<le> fd" for s s'
    using that by (auto simp: collect_failed_def cleanup_kill_def collect_inv_def Let_def split: if_splits option.splits sys.splits)
  have sf: "co_result (collect_verdict s) \<noteq> LAUNCHER_V1_SYSTEM_FAILURE" "co_state (collect_verdict s) = s" for s
    by (auto simp: collect_verdict_def finish_machine_def Let_def split: if_splits prod.splits option.splits)
  consider "co_result oc = LAUNCHER_V1_INVALID_ARGUMENT" "co_state oc = collect_init"
    | s where "collect_failed p fd replies s = Some oc" "collect_inv e s" "0 \<le> fd"
    | s where "collect_inv e s" "oc = collect_verdict s"
  proof -
    show ?thesis
    proof (cases "p \<le> 0 \<or> fd < 0 \<or> rd < 0 \<or> wd = 0 \<or> \<not> expectation_valid (Some e)")
      case True
      then show ?thesis using that(1) ret by (auto simp: proc17_qa_launcher_collect_v1_def)
    next
      case False
      then have fd: "0 \<le> fd" by simp
      show ?thesis
      proof (cases "cr_getfl replies < 0 \<or> cr_setfl replies \<noteq> 0 \<or> cr_timerfd replies < 0 \<or> cr_settime replies \<noteq> 0")
        case True
        then have "collect_failed p fd replies collect_init = Some oc"
          using ret False by (auto simp: proc17_qa_launcher_collect_v1_def split: if_splits)
        then show ?thesis using that(2) collect_inv_init fd by blast
      next
        case ok: False
        then obtain r where r: "collect_loop p fd e (cr_polls replies) collect_init = Some r"
          using ret False by (auto simp: proc17_qa_launcher_collect_v1_def split: if_splits option.splits)
        note li = collect_loop_inv [OF fd collect_inv_init r]
        show ?thesis
          using ret False ok r li that(2,3) fd
          by (cases r) (auto simp: proc17_qa_launcher_collect_v1_def)
      qed
    qed
  qed
  then show ?thesis
  proof cases
    case 1
    then show ?thesis by (simp add: collect_init_def)
  next
    case (2 s)
    then show ?thesis using k [OF 2(1,2) refl 2(3)] by simp
  next
    case (3 s)
    then show ?thesis using sf [of s] by (auto simp: collect_inv_def)
  qed
qed

subsection \<open>Every conforming conversation is collected\<close>

lemma decode_payload_bytes:
  "proc17_qa_wire_decode (Some p) n = Some v \<Longrightarrow> view_payload_bytes v = proc17_qa_wire_get_u32 (drop 12 p)"
  by (auto simp: proc17_qa_wire_decode_def Let_def split: if_splits)

lemma run_frame_shape:
  assumes "run_frame kind e f"
  shows "80 \<le> length f" "length f \<le> 4096" "length f = 80 + unat (proc17_qa_wire_get_u32 (drop 12 f))"
    "\<not> proc17_qa_wire_get_u32 (drop 12 f) > 4016"
proof -
  obtain v where d: "proc17_qa_wire_decode_run_v1 (Some f) (length f) = Some v" using assms by (auto simp: run_frame_def)
  then have dec: "proc17_qa_wire_decode (Some f) (length f) = Some v"
    by (auto simp: proc17_qa_wire_decode_run_v1_def split: option.splits if_splits)
  note s = decode_sound [OF dec order_refl]
  have vp: "view_payload_bytes v = proc17_qa_wire_get_u32 (drop 12 f)"
    using dec by (rule decode_payload_bytes)
  show "80 \<le> length f" "length f \<le> 4096" using s(5,6) by simp_all
  show "length f = 80 + unat (proc17_qa_wire_get_u32 (drop 12 f))" using s(5) unfolding vp .
  show "\<not> proc17_qa_wire_get_u32 (drop 12 f) > 4016"
    using s(6) by (simp add: vp [symmetric] not_less word_le_nat_alt)
qed

text \<open>A machine between two frames.\<close>

definition between_frames :: "proc17_qa_launcher_v1_machine \<Rightarrow> bool" where
  "between_frames m \<longleftrightarrow> machine_wf m \<and> mc_pending_bytes m = 0 \<and> mc_expected_frame_bytes m = 0 \<and> mc_terminal_seen m = 0"

text \<open>The machine when the last byte of the frame \<open>f\<close> has arrived.\<close>

definition frame_pending :: "proc17_qa_launcher_v1_machine \<Rightarrow> bytes \<Rightarrow> proc17_qa_launcher_v1_machine" where
  "frame_pending m f = (absorb m f)\<lparr>mc_expected_frame_bytes := length f\<rparr>"

lemma feed_frame:
  assumes m: "between_frames m" and f: "80 \<le> length f" "length f \<le> 4096"
      "length f = 80 + unat (proc17_qa_wire_get_u32 (drop 12 f))" "\<not> proc17_qa_wire_get_u32 (drop 12 f) > 4016"
    and acc: "accept_complete_frame e (frame_pending m f) = (0, m')"
  shows "feed_public_bytes e m f = Some (0, reset_pending m')"
proof -
  have b: "mc_pending_bytes m = 0" "mc_expected_frame_bytes m = 0" "mc_terminal_seen m = 0" "mc_invariant_failed m = 0"
    "length (mc_pending m) = 4096"
    using m by (simp_all add: between_frames_def machine_wf_def)
  let ?m1 = "(absorb m (take 16 f))\<lparr>mc_expected_frame_bytes := length f\<rparr>"
  have p12: "proc17_qa_wire_get_u32 (drop 12 (mc_pending (absorb m (take 16 f)))) = proc17_qa_wire_get_u32 (drop 12 f)"
    using b f(1,2) by (simp add: absorb_def get_u32_slice buf_simps slice_take)
  have fne: "f \<noteq> []" using f(1) by auto
  have s1: "feed_step e m f = Inr (?m1, drop 16 f)"
    using b f(1,4) p12 f(3) [symmetric] fne by (simp add: feed_step_def Let_def feed_target_def) (simp add: absorb_def)
  have a2: "absorb ?m1 (drop 16 f) = frame_pending m f"
    using b f(1,2) write_at_write_at [of 0 "take 16 f" "drop 16 f" "mc_pending m"]
    by (simp add: absorb_def frame_pending_def min_def)
  have f1: "mc_invariant_failed ?m1 = 0" "mc_terminal_seen ?m1 = 0" "feed_target ?m1 = length f" "mc_pending_bytes ?m1 = 16"
    using b f(1) fne by (simp_all add: absorb_def feed_target_def)
  have f2: "mc_expected_frame_bytes (frame_pending m f) = length f" "mc_pending_bytes (frame_pending m f) = length f"
    using b by (simp_all add: frame_pending_def absorb_def)
  have t2: "take (feed_target ?m1 - mc_pending_bytes ?m1) (drop 16 f) = drop 16 f" using f1 by simp
  have nz: "\<not> (length f = 0 \<and> length f = 16)" "length f \<noteq> 0" using f(1) by auto
  have s2: "feed_step e ?m1 (drop 16 f) = Inr (reset_pending m', [])"
    using f1 f2 nz acc unfolding feed_step_def Let_def t2 a2 by simp
  have ne: "f \<noteq> []" "drop 16 f \<noteq> []" using f(1) by auto
  show ?thesis
    using s1 s2 ne
    by (simp add: feed_public_bytes.simps [of e m f] feed_public_bytes.simps [of e ?m1] feed_public_bytes.simps [of e _ "[]"])
qed

lemma frame_pending_take:
  assumes "between_frames m" "length f \<le> 4096"
  shows "take (length f) (mc_pending (frame_pending m f)) = f" "mc_pending_bytes (frame_pending m f) = length f"
    "length (mc_pending (frame_pending m f)) = 4096"
  using assms by (simp_all add: between_frames_def frame_pending_def absorb_def machine_wf_def write_at_in_range)

lemma pending_view:
  assumes m: "between_frames m" and f: "run_frame kind e f"
  defines "P \<equiv> mc_pending (frame_pending m f)"
  obtains v where "proc17_qa_wire_decode_run_v1 (Some P) (length f) = Some v" "view_kind v = kind"
    "view_payload v = drop 48 P" "take 128 (drop 48 P) = take 128 (ex_identity e)"
    "proc17_qa_wire_v1_payload_valid kind (Some (drop 48 P)) (view_payload_bytes v)"
    "length f = 80 + unat (view_payload_bytes v)"
    "\<And>i n. i + n \<le> length f \<Longrightarrow> take n (drop i P) = slice i n f"
    "\<And>i n. i + n \<le> length f \<Longrightarrow> agree n (drop i P) (slice i n f)"
proof -
  note sh = run_frame_shape [OF f]
  have P: "take (length f) P = f" "length P = 4096" using frame_pending_take [OF m sh(2)] by (simp_all add: P_def)
  obtain w where w: "proc17_qa_wire_decode_run_v1 (Some f) (length f) = Some w" "view_kind w = kind"
    and id: "slice 48 128 f = take 128 (ex_identity e)"
    using f by (auto simp: run_frame_def)
  have "take (length f) f = take (length f) P" using P by simp
  note tr = decode_run_transfer [OF w(1) this order_refl] 
  have k: "238 \<le> unat (view_payload_bytes w)" using payload_valid_bounds tr(5) P sh(2) by simp
  have tk: "take n (drop i P) = slice i n f" if "i + n \<le> length f" for i n
    using slice_take [OF that, of P] P(1) by (simp add: slice_def)
  moreover have "agree n (drop i P) (slice i n f)" if "i + n \<le> length f" for i n
    using tk [OF that] that P sh(2) by (simp add: agree_def)
  moreover have "take 128 (drop 48 P) = take 128 (ex_identity e)"
    using tk [of 48 128] tr(3) k P sh(2) id by simp
  ultimately show ?thesis
    using that [of "\<lparr>view_kind = view_kind w, view_nonce = drop 16 P, view_payload = drop 48 P,
      view_payload_bytes = view_payload_bytes w\<rparr>"] tr w(2) P sh(2) by simp
qed

lemma started_phase:
  "proc17_qa_wire_v1_payload_valid PROC17_QA_WIRE_RUN_STARTED_V1 (Some p) k \<Longrightarrow>
     proc17_qa_wire_get_u16 (drop 128 p) = PROC17_QA_RUN_V1_PHASE_STARTED"
  "proc17_qa_wire_v1_payload_valid PROC17_QA_WIRE_RUN_RESULT_V1 (Some p) k \<Longrightarrow>
     proc17_qa_wire_get_u16 (drop 128 p) = PROC17_QA_RUN_V1_PHASE_TERMINAL"
  by (auto simp: proc17_qa_wire_v1_payload_valid_def proc17_qa_wire_v1_started_valid_def
      proc17_qa_wire_v1_result_valid_def split: if_splits)

lemma accept_started:
  assumes m: "between_frames m" "mc_started_seen m = 0" and f: "started_frame e f"
  shows "accept_complete_frame e (frame_pending m f) = (0, (frame_pending m f)
    \<lparr>mc_started_token := slice 184 32 f, mc_started_stage := slice 216 84 f, mc_started_seen := 1\<rparr>)"
proof -
  have rf: "run_frame PROC17_QA_WIRE_RUN_STARTED_V1 e f" "stage_matches_source (slice 216 84 f) e"
    using f by (simp_all add: started_frame_def)
  let ?P = "mc_pending (frame_pending m f)"
  have pb: "mc_pending_bytes (frame_pending m f) = length f" "mc_terminal_seen (frame_pending m f) = 0"
    "mc_started_seen (frame_pending m f) = 0"
    using m by (simp_all add: frame_pending_def absorb_def between_frames_def)
  show ?thesis
  proof (rule pending_view [OF m(1) rf(1)])
    fix v
    assume v: "proc17_qa_wire_decode_run_v1 (Some ?P) (length f) = Some v" "view_kind v = PROC17_QA_WIRE_RUN_STARTED_V1"
      "view_payload v = drop 48 ?P" "take 128 (drop 48 ?P) = take 128 (ex_identity e)"
      and pv: "proc17_qa_wire_v1_payload_valid PROC17_QA_WIRE_RUN_STARTED_V1 (Some (drop 48 ?P)) (view_payload_bytes v)"
      and n: "length f = 80 + unat (view_payload_bytes v)"
      and tk: "\<And>i n. i + n \<le> length f \<Longrightarrow> take n (drop i ?P) = slice i n f"
      and ag: "\<And>i n. i + n \<le> length f \<Longrightarrow> agree n (drop i ?P) (slice i n f)"
    have l: "length f = 332" using n payload_size(1) [OF pv] by simp
    have "stage_matches_source (drop 216 ?P) e"
      using agree_stage_matches [OF ag [of 216 84]] rf(2) l by simp
    moreover have "take 32 (drop 184 ?P) = slice 184 32 f" "take 84 (drop 216 ?P) = slice 216 84 f"
      using tk [of 184 32] tk [of 216 84] l by simp_all
    ultimately show ?thesis
      using v pb started_phase(1) [OF pv] by (simp add: accept_complete_frame_def Let_def)
  qed
qed

lemma accept_result:
  assumes m: "between_frames m" "mc_started_seen m = 1" "mc_started_stage m = slice 476 84 f"
    and rf: "run_frame PROC17_QA_WIRE_RUN_RESULT_V1 e f" "stage_matches_source (slice 476 84 f) e"
  shows "accept_complete_frame e (frame_pending m f)
    = (0, store_terminal (frame_pending m f) PROC17_QA_WIRE_RUN_RESULT_V1)"
proof -
  let ?P = "mc_pending (frame_pending m f)"
  have pb: "mc_pending_bytes (frame_pending m f) = length f" "mc_terminal_seen (frame_pending m f) = 0"
    "mc_started_seen (frame_pending m f) = 1" "mc_started_stage (frame_pending m f) = slice 476 84 f"
    using m by (simp_all add: frame_pending_def absorb_def between_frames_def)
  show ?thesis
  proof (rule pending_view [OF m(1) rf(1)])
    fix v
    assume v: "proc17_qa_wire_decode_run_v1 (Some ?P) (length f) = Some v" "view_kind v = PROC17_QA_WIRE_RUN_RESULT_V1"
      "view_payload v = drop 48 ?P" "take 128 (drop 48 ?P) = take 128 (ex_identity e)"
      and pv: "proc17_qa_wire_v1_payload_valid PROC17_QA_WIRE_RUN_RESULT_V1 (Some (drop 48 ?P)) (view_payload_bytes v)"
      and n: "length f = 80 + unat (view_payload_bytes v)"
      and tk: "\<And>i n. i + n \<le> length f \<Longrightarrow> take n (drop i ?P) = slice i n f"
      and ag: "\<And>i n. i + n \<le> length f \<Longrightarrow> agree n (drop i ?P) (slice i n f)"
    have l: "length f = 592" using n payload_size(2) [OF pv] by simp
    have "stage_matches_source (drop 476 ?P) e"
      using agree_stage_matches [OF ag [of 476 84]] rf(2) l by simp
    moreover have "take 84 (drop 476 ?P) = slice 476 84 f" using tk [of 476 84] l by simp
    ultimately show ?thesis
      using v pb started_phase(2) [OF pv] by (simp add: accept_complete_frame_def Let_def)
  qed
qed

lemma conversation_feed:
  assumes f1: "started_frame e f1" and f2: "result_frame e f1 f2"
  obtains m where "feed_public_bytes e machine_init (f1 @ f2) = Some (0, m)"
    "mc_terminal_seen m = 1" "mc_pending_bytes m = 0" "mc_invariant_failed m = 0" "mc_started_seen m = 1"
    "mc_terminal_bytes m = length f2" "take (length f2) (mc_terminal_frame m) = f2" "length (mc_terminal_frame m) = 4096"
    "mc_terminal_kind m = PROC17_QA_WIRE_RUN_RESULT_V1"
proof -
  have r1: "run_frame PROC17_QA_WIRE_RUN_STARTED_V1 e f1" using f1 by (simp add: started_frame_def)
  have r2: "run_frame PROC17_QA_WIRE_RUN_RESULT_V1 e f2" "stage_matches_source (slice 476 84 f2) e"
    "slice 476 84 f2 = slice 216 84 f1" using f2 unfolding result_frame_def by blast+
  note s1 = run_frame_shape [OF r1] and s2 = run_frame_shape [OF r2(1)]
  have i: "between_frames machine_init" "mc_started_seen machine_init = 0"
    by (simp_all add: between_frames_def machine_wf_def machine_init_def)
  define m1 where "m1 = reset_pending ((frame_pending machine_init f1)
    \<lparr>mc_started_token := slice 184 32 f1, mc_started_stage := slice 216 84 f1, mc_started_seen := 1\<rparr>)"
  have fd1: "feed_public_bytes e machine_init f1 = Some (0, m1)"
    unfolding m1_def by (rule feed_frame [OF i(1) s1 accept_started [OF i f1]])
  have b1: "between_frames m1" "mc_started_seen m1 = 1" "mc_started_stage m1 = slice 476 84 f2"
    "length (mc_terminal_frame m1) = 4096"
    by (simp_all add: m1_def reset_pending_def frame_pending_def absorb_def between_frames_def machine_wf_def
        machine_init_def r2(3))
  define m2 where "m2 = reset_pending (store_terminal (frame_pending m1 f2) PROC17_QA_WIRE_RUN_RESULT_V1)"
  have fd2: "feed_public_bytes e m1 f2 = Some (0, m2)"
    unfolding m2_def by (rule feed_frame [OF b1(1) s2 accept_result [OF b1(1-3) r2(1,2)]])
  have "feed_public_bytes e machine_init (f1 @ f2) = Some (0, m2)"
    using feed_append [OF has_read_init, of e f1 f2] fd1 fd2 by simp
  moreover have "mc_terminal_frame m2 = write_at (mc_terminal_frame m1) 0 f2"
    using frame_pending_take [OF b1(1) s2(2)]
    by (simp add: m2_def reset_pending_def store_terminal_def) (simp add: frame_pending_def absorb_def)
  ultimately show ?thesis
    using that [of m2] b1 s2(2) frame_pending_take(2) [OF b1(1) s2(2)]
    by (simp add: m2_def reset_pending_def store_terminal_def write_at_in_range)
      (simp add: frame_pending_def absorb_def between_frames_def machine_wf_def)
qed

lemma drain_chunks:
  assumes "[] \<notin> set chunks" "has_read e (cs_machine s) (cs_delivered s)" "\<not> cs_invariant_failed s"
    "feed_public_bytes e (cs_machine s) (concat chunks) = Some (0, m)"
  shows "drain_result p fd e (map Sys_ok chunks @ [Sys_ok []]) s
    = Some (s\<lparr>cs_machine := m, cs_delivered := cs_delivered s @ concat chunks, cs_result_eof := True\<rparr>)"
  using assms
proof (induction chunks arbitrary: s)
  case Nil
  then show ?case by (simp add: feed_public_bytes.simps [of e _ "[]"])
next
  case (Cons c chunks)
  obtain r m1 where f: "feed_public_bytes e (cs_machine s) c = Some (r, m1)"
    and h: "r = 0 \<Longrightarrow> has_read e m1 (cs_delivered s @ c)"
    by (rule feed_has_read [OF Cons.prems(2), of c]) blast
  have "r = 0" "feed_public_bytes e m1 (concat chunks) = Some (0, m)"
    using Cons.prems(4) feed_append [OF Cons.prems(2), of c "concat chunks"] f by (auto split: if_splits)
  then show ?case
    using Cons.IH [of "s\<lparr>cs_delivered := cs_delivered s @ c, cs_machine := m1\<rparr>"] Cons.prems(1,3) f h
    by (cases s) (auto simp: Let_def)
qed

lemma conversation_collected:
  assumes args: "0 < p" "0 \<le> fd" "0 \<le> rd" "wd \<noteq> 0" "expectation_valid (Some e)"
    and prep: "0 \<le> cr_getfl replies" "cr_setfl replies = 0" "0 \<le> cr_timerfd replies" "cr_settime replies = 0"
    and polls: "cr_polls replies = [Poll_ready None (Some (map Sys_ok chunks @ [Sys_ok []])) (Some (Wait_reaped st))]"
    and conv: "started_frame e f1" "result_frame e f1 f2" "concat chunks = f1 @ f2" "[] \<notin> set chunks"
    and clean: "child_wait_is_clean st"
  shows "\<exists>oc. proc17_qa_launcher_collect_v1 p fd rd wd (Some e) (Some t) replies = Some oc
    \<and> co_result oc = LAUNCHER_V1_OK \<and> lt_kind (co_terminal oc) = TERMINAL_RESULT
    \<and> take (lt_frame_bytes (co_terminal oc)) (lt_frame (co_terminal oc)) = f2 \<and> cs_kills (co_state oc) = 0"
proof -
  obtain m where fd: "feed_public_bytes e machine_init (f1 @ f2) = Some (0, m)" and m: "mc_terminal_seen m = 1"
    "mc_pending_bytes m = 0" "mc_invariant_failed m = 0" "mc_started_seen m = 1" "mc_terminal_bytes m = length f2"
    "take (length f2) (mc_terminal_frame m) = f2" "length (mc_terminal_frame m) = 4096"
    "mc_terminal_kind m = PROC17_QA_WIRE_RUN_RESULT_V1"
    by (rule conversation_feed [OF conv(1,2)])
  define s where "s = collect_init\<lparr>cs_machine := m, cs_delivered := f1 @ f2, cs_result_eof := True, cs_wait_status := st,
    cs_child_reaped := True, cs_wait_observation_complete := True\<rparr>"
  have i: "cs_machine collect_init = machine_init" "cs_delivered collect_init = []" "\<not> cs_invariant_failed collect_init"
    "\<not> cs_result_eof collect_init" "cs_infrastructure_error_code collect_init = 0"
    "\<not> cs_wait_observation_complete collect_init" "\<not> collect_done collect_init"
    by (simp_all add: collect_init_def collect_done_def)
  have dr: "drain_result p fd' e (map Sys_ok chunks @ [Sys_ok []]) collect_init
      = Some (collect_init\<lparr>cs_machine := m, cs_delivered := f1 @ f2, cs_result_eof := True\<rparr>)" for fd'
    using drain_chunks [OF conv(4), of e collect_init m p fd'] has_read_init i fd conv(3) by simp
  have turn: "collect_turn p fd' e None (Some (map Sys_ok chunks @ [Sys_ok []])) (Some (Wait_reaped st)) collect_init
      = Some (Inr s)" for fd'
    using i dr by (simp add: collect_turn_def Let_def observe_wait_def s_def)
  have fields: "cs_machine s = m" "cs_wait_status s = st" "cs_child_reaped s" "cs_result_eof s" "\<not> cs_watchdog_fired s"
    "\<not> cs_invariant_failed s" "cs_infrastructure_error_code s = 0" "cs_wait_observation_complete s" "cs_kills s = 0"
    by (simp_all add: s_def collect_init_def)
  have run: "proc17_qa_launcher_collect_v1 p fd rd wd (Some e) (Some t) replies = Some (collect_verdict s)"
    using args prep polls turn i(7) fields(4,8) by (simp add: proc17_qa_launcher_collect_v1_def collect_done_def)
  have r2: "run_frame PROC17_QA_WIRE_RUN_RESULT_V1 e f2" using conv(2) by (simp add: result_frame_def)
  note sh = run_frame_shape(2) [OF r2]
  obtain v where v: "proc17_qa_wire_decode_run_v1 (Some f2) (length f2) = Some v" "view_kind v = PROC17_QA_WIRE_RUN_RESULT_V1"
    using r2 by (auto simp: run_frame_def)
  have dt: "proc17_qa_wire_decode_run_v1 (Some (mc_terminal_frame m)) (length f2) = Some \<lparr>view_kind = PROC17_QA_WIRE_RUN_RESULT_V1,
      view_nonce = drop 16 (mc_terminal_frame m), view_payload = drop 48 (mc_terminal_frame m),
      view_payload_bytes = view_payload_bytes v\<rparr>"
    using decode_run_transfer(1) [OF v(1), of "mc_terminal_frame m"] m(6,7) sh v(2) by simp
  have "\<exists>t'. finish_machine m st True True False zero_terminal = (LAUNCHER_V1_OK, t') \<and> lt_kind t' = TERMINAL_RESULT
      \<and> take (lt_frame_bytes t') (lt_frame t') = f2"
    using m dt clean sh by (simp add: finish_machine_def Let_def zero_terminal_def write_at_in_range)
  then obtain t' where "finish_machine m st True True False zero_terminal = (LAUNCHER_V1_OK, t')" "lt_kind t' = TERMINAL_RESULT"
    "take (lt_frame_bytes t') (lt_frame t') = f2" by blast
  then show ?thesis using run fields by (simp add: collect_verdict_def)
qed


text \<open>C40. A collection need not return: once \<open>waitpid\<close> has failed, a result pipe whose reads keep
  failing keeps the loop running, because the recorded error hides the loss of the pipe that would
  end it.\<close>

theorem launcher_spins_on_lost_pipe:
  assumes v: "expectation_valid (Some e)"
  shows "proc17_qa_launcher_collect_v1 42 3 4 1 (Some e) (Some t)
     \<lparr>cr_getfl = 0, cr_setfl = 0, cr_timerfd = 5, cr_settime = 0,
      cr_polls = Poll_ready None None (Some (Wait_error ECHILD)) # replicate n (Poll_ready None (Some [Sys_err EIO]) None),
      cr_waits = []\<rparr> = None"
proof -
  define s0 where "s0 = observe_wait 42 3 (Wait_error ECHILD) collect_init"
  have s0: "cs_infrastructure_error_code s0 = PROC17_QA_RUN_V1_REAP_AMBIGUOUS" "cs_kill_sent s0" "\<not> cs_result_eof s0"
    by (simp_all add: s0_def observe_wait_def Let_def collect_init_def)
  have kill: "kill_supervisor_once 42 3 s0 = s0" using s0(2) by (simp add: kill_supervisor_once_def)
  have turn: "collect_turn 42 3 e None (Some [Sys_err EIO]) None s0 = Some (Inr s0)"
    using s0 kill by (simp add: collect_turn_def Let_def)
  have "collect_loop 42 3 e (replicate n (Poll_ready None (Some [Sys_err EIO]) None)) s0 = None"
    by (induction n) (use s0 turn in \<open>simp_all add: collect_done_def\<close>)
  moreover have "collect_turn 42 3 e None None (Some (Wait_error ECHILD)) collect_init = Some (Inr s0)"
    by (simp add: collect_turn_def s0_def) (simp add: collect_init_def)
  moreover have "\<not> collect_done collect_init" by (simp add: collect_done_def collect_init_def)
  ultimately show ?thesis using v by (simp add: proc17_qa_launcher_collect_v1_def)
qed

subsection \<open>Frames of the senders\<close>

lemma wire_run_frame:
  assumes pv: "proc17_qa_wire_v1_payload_valid kind (Some p) (of_nat (length p))" and len: "length p \<le> 4016"
    and id: "take 128 p = take 128 (ex_identity e)"
  defines "f \<equiv> wire_frame kind (take 32 p) p"
  shows "run_frame kind e f" "length f = 80 + length p" "i + n \<le> length p \<Longrightarrow> slice (48 + i) n f = slice i n p"
proof -
  have n: "unat (of_nat (length p) :: u32) = length p" using len by (simp add: unat_u32_of_length)
  obtain out v where out: "length out = 4096" "take (80 + length p) out = f"
    and d: "proc17_qa_wire_decode_run_v1 (Some out) (80 + length p) = Some v" "view_kind v = kind"
      "agree (length p) (view_payload v) p"
    by (rule run_v1_encode_decode [OF pv, of "replicate 4096 0"]) (simp_all add: n f_def)
  show lf: "length f = 80 + length p" using out len by auto
  have "take (80 + length p) out = take (80 + length p) f" using out lf by simp
  note tr = decode_run_transfer [OF d(1) this]
  have tr1: "proc17_qa_wire_decode_run_v1 (Some f) (80 + length p) = Some \<lparr>view_kind = kind, view_nonce = drop 16 f,
      view_payload = drop 48 f, view_payload_bytes = view_payload_bytes v\<rparr>"
    using tr(1) out lf len d(2) by simp
  have vp: "view_payload v = drop 48 out" using tr(2) out lf len by simp
  have sl: "slice (48 + i) n f = slice i n p" if "i + n \<le> length p" for i n
  proof -
    have "slice i n (drop 48 out) = slice i n p" using agree_slice [OF d(3) [unfolded vp] that] .
    moreover have "slice (48 + i) n f = slice (48 + i) n out"
      unfolding out(2) [symmetric] using that by (intro slice_take) simp
    ultimately show ?thesis by simp
  qed
  then show "i + n \<le> length p \<Longrightarrow> slice (48 + i) n f = slice i n p" .
  have "238 \<le> length p" using payload_valid_bounds [OF pv] n by simp
  then have "slice 48 128 f = take 128 (ex_identity e)" using sl [of 0 128] id by (simp add: take_eq_slice)
  then show "run_frame kind e f" using tr1 lf by (simp add: run_frame_def)
qed

text \<open>The frame the phase machine emits is a STARTED frame for every launcher that expects its identity
  and its source.\<close>

lemma emitted_started_frame:
  assumes wf: "identity_wf i" "length token = 32" "length stage = 84"
    and valid: "proc17_qa_phase_identity_valid (Some i)" "proc17_qa_wire_digest_nonzero (Some token)"
    and e: "take 128 (ex_identity e) = identity_bytes i" "stage_matches_source stage e"
  defines "f \<equiv> wire_frame PROC17_QA_WIRE_RUN_STARTED_V1 (id_transaction i) (started_payload i token stage)"
  shows "started_frame e f" "slice 216 84 f = stage"
proof -
  let ?p = "started_payload i token stage"
  have sv: "proc17_qa_wire_v1_source_stage_valid (Some stage)" using e(2) by (simp add: stage_matches_source_def)
  note sl = started_payload_slices [OF wf] and pv = started_payload_valid [OF wf valid sv]
  have t128: "take 128 ?p = take 128 (ex_identity e)" using sl(1) e(1) by (simp add: take_eq_slice)
  have "take 32 ?p = id_transaction i"
    using slice_slice [of 0 32 128 0 ?p] sl(1) identity_bytes_slices(1) [OF wf(1)] by (simp add: take_eq_slice)
  then have f: "f = wire_frame PROC17_QA_WIRE_RUN_STARTED_V1 (take 32 ?p) ?p" by (simp add: f_def)
  note w = wire_run_frame [of PROC17_QA_WIRE_RUN_STARTED_V1 ?p e, folded f]
  show st: "slice 216 84 f = stage" using w(3) [of 168 84] pv t128 sl(9) by simp
  show "started_frame e f" using w(1) pv t128 st e(2) by (simp add: started_frame_def)
qed

text \<open>The frame finalisation publishes for a valid result report is the RESULT frame that belongs to it.\<close>

lemma published_result_frame:
  assumes r: "length report = 572" and i: "identity_wf i" "proc17_qa_phase_identity_valid (Some i)"
    and v: "private_result_valid (Some report)" and e: "take 128 (ex_identity e) = identity_bytes i"
    and s: "stage_matches_source (slice 488 84 report) e" "slice 216 84 f1 = slice 488 84 report"
  shows "result_frame e f1 (wire_frame PROC17_QA_WIRE_RUN_RESULT_V1 (id_transaction i) (public_result_payload report i))"
proof -
  let ?p = "public_result_payload report i"
  note sl = public_result_slices [OF r i(1)]
  have pv: "proc17_qa_wire_v1_payload_valid PROC17_QA_WIRE_RUN_RESULT_V1 (Some ?p) (of_nat (length ?p))"
    using public_result_valid [OF r i v] sl(1) by (simp add: proc17_qa_wire_v1_payload_valid_def)
  have t128: "take 128 ?p = take 128 (ex_identity e)" using sl(2) e by (simp add: take_eq_slice)
  have tr: "take 32 ?p = id_transaction i"
    using slice_slice [of 0 32 128 0 ?p] sl(2) identity_bytes_slices(1) [OF i(1)] by (simp add: take_eq_slice)
  note w = wire_run_frame [OF pv _ t128, unfolded tr sl(1)]
  show ?thesis using w(1) w(3) [of 428 84] sl(12) s by (simp add: result_frame_def)
qed

lemma sample_stage_matches: "stage_matches_source sample_stage sample_expectation"
proof -
  let ?e = "be64 5"
  have s: "sample_stage = [0, 1, 0, 0] @ be32 7 @ ?e @ ?e @ ?e @ ?e @ ?e @ ?e @ ?e @ ?e @ ?e @ [1, 1, 0, 0]"
    by (simp add: sample_stage_def numeral_eq_Suc)
  have "slice 4 4 sample_stage = be32 7" "slice 8 8 sample_stage = ?e" "slice 16 8 sample_stage = ?e"
    "slice 24 8 sample_stage = ?e" "slice 32 8 sample_stage = ?e" "slice 40 8 sample_stage = ?e"
    "slice 48 8 sample_stage = ?e" "slice 56 8 sample_stage = ?e" "slice 64 8 sample_stage = ?e"
    "slice 72 8 sample_stage = ?e"
    by (simp_all add: s slice_def)
  moreover have "sample_stage ! 80 = 1" "sample_stage ! 81 = 1" by (simp_all add: s nth_append)
  ultimately show ?thesis
    using sample_stage_ok by (simp add: stage_matches_source_def codec_simps sample_expectation_def)
qed

lemma sample_expectation_ok:
  "expectation_valid (Some sample_expectation)" "take 128 (ex_identity sample_expectation) = identity_bytes sample_identity"
  using identity_valid_wire [OF sample_identity_ok(1), of "identity_bytes sample_identity"]
    length_identity_bytes [OF sample_identity_ok(1)] sample_identity_ok(2)
  by (simp_all add: expectation_valid_def sample_expectation_def slice_eq_self)

lemma sample_conversation:
  obtains f1 f2 where "started_frame sample_expectation f1" "result_frame sample_expectation f1 f2"
proof -
  have tok: "proc17_qa_wire_digest_nonzero (Some (replicate 32 7))" by (simp add: codec_simps slice_replicate)
  note st = emitted_started_frame [OF sample_identity_ok(1) _ sample_stage_ok(1) sample_identity_ok(2) tok
      sample_expectation_ok(2) sample_stage_matches, simplified]
  obtain report where
    r: "proc17_qa_controller_report_build (Some sample_report_input) (Some (replicate 572 0)) = (0, Some report)"
    by (rule sample_build)
  have k: "length report = 572" "private_report_kind (Some report) = 1" "slice 488 84 report = sample_stage"
    by (rule report_build_layout [OF sample_input_wf _ r]; auto simp: report_layout_def sample_report_input_def)+
  then have "private_result_valid (Some report)" using private_report_kind_cases [of report] by auto
  from published_result_frame [OF k(1) sample_identity_ok this sample_expectation_ok(2)] k(3) sample_stage_matches st that
  show ?thesis by (simp, blast)
qed

lemma clean_zero: "child_wait_is_clean 0"
  by code_simp

lemma chunk_frame: "run_frame k e f \<Longrightarrow> f \<noteq> []"
  using run_frame_shape(1) [of k e f] by auto


theorem launcher_result_follows_protocol_witness:
  "\<exists>replies oc f1 f2. proc17_qa_launcher_collect_v1 42 3 4 60 (Some sample_expectation) (Some zero_terminal) replies = Some oc
    \<and> cs_delivered (co_state oc) = f1 @ f2 \<and> result_frame sample_expectation f1 f2"
proof -
  obtain f1 f2 where f: "started_frame sample_expectation f1" "result_frame sample_expectation f1 f2"
    by (rule sample_conversation)
  let ?r = "\<lparr>cr_getfl = 0, cr_setfl = 0, cr_timerfd = 5, cr_settime = 0,
      cr_polls = [Poll_ready None (Some (map Sys_ok [f1, f2] @ [Sys_ok []])) (Some (Wait_reaped 0))], cr_waits = []\<rparr>"
  have ne: "[] \<notin> set [f1, f2]" using f chunk_frame by (auto simp: started_frame_def result_frame_def)
  obtain oc where oc: "proc17_qa_launcher_collect_v1 42 3 4 60 (Some sample_expectation) (Some zero_terminal) ?r = Some oc"
    "co_result oc = LAUNCHER_V1_OK" "lt_kind (co_terminal oc) = TERMINAL_RESULT"
    using conversation_collected [of 42 3 4 60 sample_expectation ?r "[f1, f2]" 0 f1 f2 zero_terminal] f ne
      sample_expectation_ok(1) clean_zero by auto
  from launcher_result_follows_protocol [OF oc] oc(1) show ?thesis by blast
qed

theorem launcher_kills_at_most_once_witness:
  "cs_kills (co_state (the (proc17_qa_launcher_collect_v1 42 3 4 60 (Some sample_expectation) (Some zero_terminal)
     \<lparr>cr_getfl = - 1, cr_setfl = 0, cr_timerfd = 5, cr_settime = 0, cr_polls = [], cr_waits = [Sys_ok (Some 9)]\<rparr>))) \<le> 1"
proof -
  obtain oc where "proc17_qa_launcher_collect_v1 42 3 4 60 (Some sample_expectation) (Some zero_terminal)
     \<lparr>cr_getfl = - 1, cr_setfl = 0, cr_timerfd = 5, cr_settime = 0, cr_polls = [], cr_waits = [Sys_ok (Some 9)]\<rparr> = Some oc"
    using sample_expectation_ok(1)
    by (simp add: proc17_qa_launcher_collect_v1_def collect_failed_def cleanup_kill_def Let_def kill_supervisor_once_def
        collect_init_def)
  with launcher_kills_at_most_once [OF this] show ?thesis by simp
qed

theorem launcher_spins_on_lost_pipe_witness:
  "proc17_qa_launcher_collect_v1 42 3 4 1 (Some sample_expectation) (Some zero_terminal)
     \<lparr>cr_getfl = 0, cr_setfl = 0, cr_timerfd = 5, cr_settime = 0,
      cr_polls = Poll_ready None None (Some (Wait_error ECHILD)) # replicate 1000 (Poll_ready None (Some [Sys_err EIO]) None),
      cr_waits = []\<rparr> = None"
  by (rule launcher_spins_on_lost_pipe [OF sample_expectation_ok(1)])

end
