(* ===== verification/Repo_Paths.thy ===== *)
theory Repo_Paths
  imports Proc17_Prelude
begin

text \<open>
  The text and path checks of the repository provider (\<open>native/proc17_repository_fs.c\<close>): which project
  bases, repository paths and contents a request may name, and how a target path is split into its
  parent directory and its final name.

  A string with its length is the list of its bytes.  The loops run over indices as in the code.  The
  lemmas relate them to grammars: a repository path is a joined list of admissible components, and a
  text is the UTF-8 encoding of a list of nonzero Unicode scalar values.
\<close>

subsection \<open>The limits\<close>

definition PROC17_MAX_PROJECT_BASE_BYTES :: nat where [simp]: "PROC17_MAX_PROJECT_BASE_BYTES = 4096"
definition PROC17_MAX_RELATIVE_PATH_BYTES :: nat where [simp]: "PROC17_MAX_RELATIVE_PATH_BYTES = 1024"
definition PROC17_MAX_COMPONENT_BYTES :: nat where [simp]: "PROC17_MAX_COMPONENT_BYTES = 255"
definition PROC17_MAX_COMPONENTS :: nat where [simp]: "PROC17_MAX_COMPONENTS = 64"
definition PROC17_MAX_CONTENT_BYTES :: nat where [simp]: "PROC17_MAX_CONTENT_BYTES = 1048576"
definition PROC17_MAX_READ_BYTES :: nat where [simp]: "PROC17_MAX_READ_BYTES = PROC17_MAX_CONTENT_BYTES + 1"

text \<open>The bytes the code names by character constants.\<close>

abbreviation slash :: byte where "slash \<equiv> 0x2f"
abbreviation dot :: byte where "dot \<equiv> 0x2e"
abbreviation underscore :: byte where "underscore \<equiv> 0x5f"
abbreviation minus_sign :: byte where "minus_sign \<equiv> 0x2d"

subsection \<open>Paths\<close>

definition ascii_alnum :: "byte \<Rightarrow> bool" where
  "ascii_alnum b \<longleftrightarrow> (0x61 \<le> b \<and> b \<le> 0x7a) \<or> (0x41 \<le> b \<and> b \<le> 0x5a) \<or> (0x30 \<le> b \<and> b \<le> 0x39)"

definition forbidden_names :: "bytes list" where
  "forbidden_names = map ascii [''.git'', ''.agents'', ''.codex'', ''packets'', ''graves'', ''compost'', ''trace'']"

definition forbidden_repository_component :: "bytes \<Rightarrow> bool" where
  "forbidden_repository_component component \<longleftrightarrow>
     list_ex (\<lambda>forbidden. length component = length forbidden \<and> component = forbidden) forbidden_names"

function project_base_loop :: "bytes \<Rightarrow> nat \<Rightarrow> nat \<Rightarrow> bool" where
  "project_base_loop path component_start index =
     (if index > length path then True
      else
        (let b = (if index < length path then path ! index else slash)
         in if index < length path \<and> (b = 0 \<or> b < 32) then False
            else if b = slash
            then
              (let component_length = index - component_start
               in if component_length = 0
                     \<or> (component_length = 1 \<and> path ! component_start = dot)
                     \<or> (component_length = 2 \<and> path ! component_start = dot
                        \<and> path ! (component_start + 1) = dot)
                  then False
                  else project_base_loop path (index + 1) (index + 1))
            else project_base_loop path component_start (index + 1)))"
  by pat_completeness auto

termination
  by (relation "measure (\<lambda>(path, component_start, index). Suc (length path) - index)") auto

definition valid_project_base :: "bytes \<Rightarrow> bool" where
  "valid_project_base path =
     (if length path < 2 \<or> length path > PROC17_MAX_PROJECT_BASE_BYTES
         \<or> path ! 0 \<noteq> slash \<or> path ! (length path - 1) = slash \<or> 0 \<in> set path
      then False
      else project_base_loop path 1 1)"

function component_loop :: "bytes \<Rightarrow> nat \<Rightarrow> nat \<Rightarrow> nat \<Rightarrow> bool" where
  "component_loop path component_start component_length component_index =
     (if component_index < component_length
      then
        (let b = path ! (component_start + component_index)
         in if \<not> ascii_alnum b \<and> b \<noteq> dot \<and> b \<noteq> underscore \<and> b \<noteq> minus_sign then False
            else component_loop path component_start component_length (component_index + 1))
      else True)"
  by pat_completeness auto

termination
  by (relation "measure (\<lambda>(path, component_start, component_length, component_index).
        component_length - component_index)") auto

function repository_path_loop :: "bytes \<Rightarrow> nat \<Rightarrow> nat \<Rightarrow> nat \<Rightarrow> bool" where
  "repository_path_loop path component_start components index =
     (if index > length path then True
      else
        (let b = (if index < length path then path ! index else slash)
         in if b = slash
            then
              (let component_length = index - component_start;
                   counted = components + 1
               in if component_length = 0 \<or> component_length > PROC17_MAX_COMPONENT_BYTES
                     \<or> counted > PROC17_MAX_COMPONENTS
                     \<or> \<not> ascii_alnum (path ! component_start)
                     \<or> forbidden_repository_component (slice component_start component_length path)
                  then False
                  else if \<not> component_loop path component_start component_length 1 then False
                  else repository_path_loop path (index + 1) counted (index + 1))
            else if b = 0 \<or> b < 32 then False
            else repository_path_loop path component_start components (index + 1)))"
  by pat_completeness auto

termination
  by (relation "measure (\<lambda>(path, component_start, components, index). Suc (length path) - index)") auto

definition valid_repository_path :: "bytes \<Rightarrow> bool" where
  "valid_repository_path path =
     (if length path = 0 \<or> length path > PROC17_MAX_RELATIVE_PATH_BYTES
         \<or> path ! 0 = slash \<or> path ! (length path - 1) = slash \<or> 0 \<in> set path
      then False
      else repository_path_loop path 0 0 0)"

text \<open>The backward search for the last slash, and the split of a target path.  The result is the
  parent and the base name (the strings the two buffers hold); \<open>parent_size\<close> and \<open>basename_size\<close> are
  the sizes of the buffers.\<close>

fun last_slash :: "bytes \<Rightarrow> nat \<Rightarrow> nat" where
  "last_slash path 0 = 0"
| "last_slash path (Suc n) = (if path ! n \<noteq> slash then last_slash path n else Suc n)"

definition split_target_path :: "bytes \<Rightarrow> nat \<Rightarrow> nat \<Rightarrow> (bytes \<times> bytes) option" where
  "split_target_path path parent_size basename_size =
     (let s = last_slash path (length path);
          basename_length = length path - s
      in if (if s = 0 then parent_size < 2 else s - 1 + 1 > parent_size) then None
         else if basename_length = 0 \<or> basename_length + 1 > basename_size then None
         else Some (if s = 0 then [dot] else take (s - 1) path, slice s basename_length path))"

subsection \<open>Text\<close>

function utf8_loop :: "bytes \<Rightarrow> nat \<Rightarrow> bool" where
  "utf8_loop v index =
     (if index < length v
      then
        (let b = v ! index
         in if b = 0 then False
            else if b \<le> 0x7f then utf8_loop v (index + 1)
            else if 0xc2 \<le> b \<and> b \<le> 0xdf
            then
              (if index + 1 \<ge> length v \<or> v ! (index + 1) < 0x80 \<or> v ! (index + 1) > 0xbf then False
               else utf8_loop v (index + 2))
            else if 0xe0 \<le> b \<and> b \<le> 0xef
            then
              (if index + 2 \<ge> length v then False
               else
                 (let second = v ! (index + 1); third = v ! (index + 2)
                  in if third < 0x80 \<or> third > 0xbf
                        \<or> (b = 0xe0 \<and> (second < 0xa0 \<or> second > 0xbf))
                        \<or> (b = 0xed \<and> (second < 0x80 \<or> second > 0x9f))
                        \<or> ((b \<noteq> 0xe0 \<and> b \<noteq> 0xed) \<and> (second < 0x80 \<or> second > 0xbf))
                     then False
                     else utf8_loop v (index + 3)))
            else if 0xf0 \<le> b \<and> b \<le> 0xf4
            then
              (if index + 3 \<ge> length v then False
               else
                 (let second = v ! (index + 1); third = v ! (index + 2); fourth = v ! (index + 3)
                  in if third < 0x80 \<or> third > 0xbf \<or> fourth < 0x80 \<or> fourth > 0xbf
                        \<or> (b = 0xf0 \<and> (second < 0x90 \<or> second > 0xbf))
                        \<or> (b = 0xf4 \<and> (second < 0x80 \<or> second > 0x8f))
                        \<or> ((b \<noteq> 0xf0 \<and> b \<noteq> 0xf4) \<and> (second < 0x80 \<or> second > 0xbf))
                     then False
                     else utf8_loop v (index + 4)))
            else False)
      else True)"
  by pat_completeness auto

termination
  by (relation "measure (\<lambda>(v, index). length v - index)") auto

definition valid_utf8_text :: "bytes \<Rightarrow> bool" where
  "valid_utf8_text v = utf8_loop v 0"

declare project_base_loop.simps [simp del] component_loop.simps [simp del]
  repository_path_loop.simps [simp del] utf8_loop.simps [simp del]

subsection \<open>The path grammar\<close>

definition component_admissible :: "bytes \<Rightarrow> bool" where
  "component_admissible c \<longleftrightarrow> c \<noteq> [] \<and> length c \<le> 255 \<and> ascii_alnum (hd c)
     \<and> (\<forall>b \<in> set (tl c). ascii_alnum b \<or> b \<in> {dot, underscore, minus_sign})
     \<and> c \<notin> set (map ascii [''packets'', ''graves'', ''compost'', ''trace''])"

fun path_join :: "bytes list \<Rightarrow> bytes" where
  "path_join [] = []"
| "path_join [c] = c"
| "path_join (c # cs) = c @ slash # path_join cs"

definition path_grammar :: "bytes \<Rightarrow> bool" where
  "path_grammar path \<longleftrightarrow> length path \<le> 1024
     \<and> (\<exists>cs. cs \<noteq> [] \<and> length cs \<le> 64 \<and> (\<forall>c \<in> set cs. component_admissible c) \<and> path = path_join cs)"

lemma ascii_alnum_range: "ascii_alnum b \<Longrightarrow> 32 \<le> b \<and> b \<noteq> 0 \<and> b \<noteq> slash \<and> b \<noteq> dot"
  by (simp add: ascii_alnum_def word_le_nat_alt) force

lemma component_admissible_bytes:
  assumes "component_admissible c" "b \<in> set c"
  shows "32 \<le> b" "b \<noteq> 0" "b \<noteq> slash"
proof -
  have "ascii_alnum b \<or> b \<in> {dot, underscore, minus_sign}"
    using assms by (cases c) (auto simp: component_admissible_def)
  then have "32 \<le> b \<and> b \<noteq> 0 \<and> b \<noteq> slash" using ascii_alnum_range by auto
  then show "32 \<le> b" "b \<noteq> 0" "b \<noteq> slash" by auto
qed

lemma component_loop_iff:
  "component_loop path s n i \<longleftrightarrow>
     (\<forall>j. i \<le> j \<and> j < n \<longrightarrow> ascii_alnum (path ! (s + j)) \<or> path ! (s + j) \<in> {dot, underscore, minus_sign})"
proof (induction path s n i rule: component_loop.induct)
  case (1 path s n i)
  show ?case
  proof (cases "i < n")
    case True
    have split: "(\<forall>j. i \<le> j \<and> j < n \<longrightarrow> P j) \<longleftrightarrow> P i \<and> (\<forall>j. i + 1 \<le> j \<and> j < n \<longrightarrow> P j)" for P
      using True by (metis Suc_eq_plus1 Suc_leI le_neq_implies_less less_imp_le_nat order_refl Suc_leD)
    show ?thesis
      using 1 True by (subst component_loop.simps) (subst split, auto simp: Let_def)
  next
    case False
    then show ?thesis by (subst component_loop.simps) auto
  qed
qed

text \<open>The check of one component, on the slice the loop looks at.\<close>

lemma component_check_iff:
  assumes "s \<le> i" "i \<le> length path"
  shows "(\<not> (i - s = 0 \<or> i - s > 255 \<or> \<not> ascii_alnum (path ! s)
        \<or> forbidden_repository_component (slice s (i - s) path)) \<and> component_loop path s (i - s) 1)
      \<longleftrightarrow> component_admissible (slice s (i - s) path)"
proof (cases "i - s = 0")
  case True
  then show ?thesis by (simp add: component_admissible_def slice_def)
next
  case False
  let ?c = "slice s (i - s) path"
  have len: "length ?c = i - s" using assms by simp
  have ne: "?c \<noteq> []" using False len by (metis list.size(3))
  have hd: "hd ?c = path ! s" using ne assms False by (simp add: hd_conv_nth nth_slice)
  have tl: "(\<forall>b \<in> set (tl ?c). P b) \<longleftrightarrow> (\<forall>j. 1 \<le> j \<and> j < i - s \<longrightarrow> P (path ! (s + j)))" for P
  proof -
    have "(\<forall>b \<in> set (tl ?c). P b) \<longleftrightarrow> (\<forall>k < i - s - 1. P (path ! (s + Suc k)))"
      using assms by (auto simp: all_set_conv_all_nth nth_tl nth_slice len)
    also have "\<dots> \<longleftrightarrow> (\<forall>j. 1 \<le> j \<and> j < i - s \<longrightarrow> P (path ! (s + j)))"
    proof (intro iffI allI impI)
      fix j assume a: "\<forall>k < i - s - 1. P (path ! (s + Suc k))" "1 \<le> j \<and> j < i - s"
      then show "P (path ! (s + j))" using a(1) [rule_format, of "j - 1"] by (cases j) auto
    next
      fix k assume a: "\<forall>j. 1 \<le> j \<and> j < i - s \<longrightarrow> P (path ! (s + j))" "k < i - s - 1"
      then show "P (path ! (s + Suc k))" using a(1) [rule_format, of "Suc k"] by simp
    qed
    finally show ?thesis .
  qed
  have "forbidden_repository_component ?c \<longleftrightarrow> ?c \<in> set forbidden_names"
    by (auto simp: forbidden_repository_component_def list_ex_iff)
  moreover have "?c \<in> set forbidden_names \<longleftrightarrow> ?c \<in> set (map ascii [''packets'', ''graves'', ''compost'', ''trace''])"
    if "ascii_alnum (hd ?c)"
    using that by (auto simp: forbidden_names_def ascii_def ascii_alnum_def)
  ultimately show ?thesis
    unfolding component_admissible_def component_loop_iff tl len hd [symmetric] using ne False len by auto
qed

text \<open>The loop, on what is left of the path: the bytes of the current component and the rest.\<close>

fun path_scan :: "nat \<Rightarrow> bytes \<Rightarrow> bytes \<Rightarrow> bool" where
  "path_scan n cur [] \<longleftrightarrow> n < 64 \<and> component_admissible cur"
| "path_scan n cur (b # bs) \<longleftrightarrow>
     (if b = slash then n < 64 \<and> component_admissible cur \<and> path_scan (Suc n) [] bs
      else 32 \<le> b \<and> path_scan n (cur @ [b]) bs)"

lemma repository_path_loop_scan:
  "s \<le> i \<Longrightarrow> i \<le> length path \<Longrightarrow>
     repository_path_loop path s n i \<longleftrightarrow> path_scan n (slice s (i - s) path) (drop i path)"
proof (induction path s n i rule: repository_path_loop.induct)
  case (1 path s n i)
  note chk = component_check_iff [OF 1(3,4)]
  show ?case
  proof (cases "i < length path")
    case False
    then have i: "i = length path" using 1(4) by simp
    have "repository_path_loop path (i + 1) (n + 1) (i + 1)" by (subst repository_path_loop.simps) (simp add: i)
    then show ?thesis
      using chk by (subst repository_path_loop.simps) (auto simp: i Let_def)
  next
    case True
    have d: "drop i path = path ! i # drop (Suc i) path" using True by (simp add: Cons_nth_drop_Suc)
    show ?thesis
    proof (cases "path ! i = slash")
      case sl: True
      have "repository_path_loop path (i + 1) (n + 1) (i + 1) \<longleftrightarrow> path_scan (Suc n) [] (drop (Suc i) path)"
        if "\<not> (i - s = 0 \<or> i - s > PROC17_MAX_COMPONENT_BYTES \<or> n + 1 > PROC17_MAX_COMPONENTS
              \<or> \<not> ascii_alnum (path ! s) \<or> forbidden_repository_component (slice s (i - s) path))"
          "component_loop path s (i - s) 1"
        using 1(1) [OF _ refl _ refl refl] that sl True by (simp add: slice_def)
      then show ?thesis
        using chk sl True by (subst repository_path_loop.simps) (auto simp: d Let_def)
    next
      case ns: False
      have "slice s (Suc i - s) path = slice s (i - s) path @ [path ! i]"
        using True 1(3) by (simp add: slice_def Suc_diff_le take_Suc_conv_app_nth)
      then have "repository_path_loop path s n (i + 1)
          \<longleftrightarrow> path_scan n (slice s (i - s) path @ [path ! i]) (drop (Suc i) path)"
        if "\<not> (path ! i = 0 \<or> path ! i < 32)"
        using 1(2) [OF _ refl] that ns True 1(3) by simp
      then show ?thesis
        using ns True by (subst repository_path_loop.simps) (auto simp: d Let_def)
    qed
  qed
qed


lemma path_scan_iff:
  assumes "n \<le> 64"
  shows "path_scan n cur bs \<longleftrightarrow>
     (\<exists>c cs. bs = drop (length cur) (path_join (c # cs)) \<and> take (length cur) c = cur \<and> length (c # cs) + n \<le> 64
        \<and> (\<forall>x \<in> set (c # cs). component_admissible x))"
  (is "_ \<longleftrightarrow> ?R n cur bs")
  using assms
proof (induction n cur bs rule: path_scan.induct)
  case (1 n cur)
  show ?case
  proof
    assume "path_scan n cur []"
    then show "?R n cur []" by (intro exI [of _ cur] exI [of _ "[]"]) simp
  next
    assume "?R n cur []"
    then obtain c cs where c: "[] = drop (length cur) (path_join (c # cs))" "take (length cur) c = cur"
      "length (c # cs) + n \<le> 64" "\<forall>x \<in> set (c # cs). component_admissible x" by blast
    have "length cur \<le> length c" using c(2) by (metis length_take min.cobounded1)
    then have "c = cur" using c(1,2) by (cases cs) auto
    with c show "path_scan n cur []" by simp
  qed
next
  case (2 n cur b bs)
  show ?case
  proof (cases "b = slash")
    case True
    show ?thesis
    proof
      assume p: "path_scan n cur (b # bs)"
      with True 2 obtain c cs where "bs = path_join (c # cs)" "length (c # cs) + Suc n \<le> 64"
        "\<forall>x \<in> set (c # cs). component_admissible x" by (auto simp: Suc_le_eq)
      then show "?R n cur (b # bs)"
        using p True by (intro exI [of _ cur] exI [of _ "c # cs"]) auto
    next
      assume "?R n cur (b # bs)"
      then obtain c cs where c: "b # bs = drop (length cur) (path_join (c # cs))" "take (length cur) c = cur"
        "length (c # cs) + n \<le> 64" "\<forall>x \<in> set (c # cs). component_admissible x" by blast
      have le: "length cur \<le> length c" using c(2) by (metis length_take min.cobounded1)
      have ns: "slash \<notin> set c" using c(4) component_admissible_bytes(3) by auto
      have eq: "length cur = length c"
      proof (rule ccontr)
        assume "length cur \<noteq> length c"
        then have "drop (length cur) c = c ! length cur # drop (Suc (length cur)) c" "length cur < length c"
          using le by (auto simp: Cons_nth_drop_Suc)
        then have "b = c ! length cur" using c(1) by (cases cs) auto
        with True ns \<open>length cur < length c\<close> show False by (metis nth_mem)
      qed
      then have cc: "c = cur" using c(2) by simp
      obtain d ds where "cs = d # ds" using c(1) cc by (cases cs) auto
      with c cc True have "?R (Suc n) [] bs" by (intro exI [of _ d] exI [of _ ds]) auto
      moreover have "n < 64" "component_admissible cur" using c cc by auto
      ultimately have "path_scan (Suc n) [] bs" using 2 True by (simp add: Suc_le_eq)
      then show "path_scan n cur (b # bs)" using True \<open>n < 64\<close> \<open>component_admissible cur\<close> by simp
    qed
  next
    case False
    have "?R n (cur @ [b]) bs \<longleftrightarrow> ?R n cur (b # bs)"
    proof
      assume "?R n (cur @ [b]) bs"
      then obtain c cs where c: "bs = drop (Suc (length cur)) (path_join (c # cs))"
        "take (Suc (length cur)) c = cur @ [b]"
        "length (c # cs) + n \<le> 64" "\<forall>x \<in> set (c # cs). component_admissible x" by auto
      have t: "c = cur @ b # drop (Suc (length cur)) c" using append_take_drop_id [of "Suc (length cur)" c] c(2) by simp
      have tk: "take (length cur) c = cur" by (subst t) simp
      have dr: "drop (length cur) c = b # drop (Suc (length cur)) c" by (subst t) simp
      have "length cur < length c" by (subst t) simp
      then have "b # bs = drop (length cur) (path_join (c # cs))" using c(1) dr by (cases cs) auto
      with c tk show "?R n cur (b # bs)" by blast
    next
      assume "?R n cur (b # bs)"
      then obtain c cs where c: "b # bs = drop (length cur) (path_join (c # cs))" "take (length cur) c = cur"
        "length (c # cs) + n \<le> 64" "\<forall>x \<in> set (c # cs). component_admissible x" by blast
      have le: "length cur \<le> length c" using c(2) by (metis length_take min.cobounded1)
      have "length cur < length c"
      proof (rule ccontr)
        assume "\<not> length cur < length c"
        then have "c = cur" using c(2) le by (metis le_antisym linorder_not_less take_all)
        then show False using c(1) False by (cases cs) auto
      qed
      then have d: "drop (length cur) c = c ! length cur # drop (Suc (length cur)) c" by (simp add: Cons_nth_drop_Suc)
      have b: "b = c ! length cur" "bs = drop (Suc (length cur)) (path_join (c # cs))"
        using c(1) d \<open>length cur < length c\<close> by (cases cs; auto simp: Suc_diff_le)+
      then show "?R n (cur @ [b]) bs"
        using c \<open>length cur < length c\<close> by (intro exI [of _ c] exI [of _ cs]) (simp add: take_Suc_conv_app_nth)
    qed
    moreover have "32 \<le> b" if "?R n (cur @ [b]) bs"
    proof -
      from that obtain c where "take (Suc (length cur)) c = cur @ [b]" "component_admissible c" by auto
      then show ?thesis by (metis component_admissible_bytes(1) in_set_takeD in_set_conv_decomp)
    qed
    ultimately show ?thesis using 2 False by auto
  qed
qed

lemma path_join_no_nul:
  "\<forall>c \<in> set cs. component_admissible c \<Longrightarrow> 0 \<notin> set (path_join cs)"
  by (induction cs rule: path_join.induct) (auto dest: component_admissible_bytes(2))

lemma path_join_ends:
  assumes "\<forall>c \<in> set cs. component_admissible c" "cs \<noteq> []"
  shows "path_join cs \<noteq> []" "hd (path_join cs) \<noteq> slash" "last (path_join cs) \<noteq> slash"
  using assms
proof (induction cs rule: path_join.induct)
  case (2 c)
  { case 1 then show ?case by (simp add: component_admissible_def) }
  { case 2 then show ?case by (auto simp: component_admissible_def dest: ascii_alnum_range) }
  { case 3 then show ?case by (metis component_admissible_bytes(3) component_admissible_def last_in_set list.set_intros(1) path_join.simps(2)) }
next
  case (3 c d cs)
  { case 1 then show ?case by simp }
  { case 2 then show ?case by (auto simp: component_admissible_def dest: ascii_alnum_range) }
  { case 3 then show ?case using "3.IH" by simp }
qed simp_all

lemma ex_list: "(\<exists>xs. xs \<noteq> [] \<and> P xs) \<longleftrightarrow> (\<exists>x xs. P (x # xs))"
  by (metis list.distinct(1) list.exhaust)

lemma valid_repository_path_grammar: "valid_repository_path path \<longleftrightarrow> path_grammar path"
proof -
  have scan: "repository_path_loop path 0 0 0 \<longleftrightarrow>
      (\<exists>cs. cs \<noteq> [] \<and> length cs \<le> 64 \<and> (\<forall>c \<in> set cs. component_admissible c) \<and> path = path_join cs)"
    using repository_path_loop_scan [of 0 0 path 0] path_scan_iff [of 0 "[]" path]
    by (simp add: slice_def) (subst ex_list, simp, blast)
  show ?thesis
  proof
    assume "valid_repository_path path"
    then show "path_grammar path" using scan by (auto simp: valid_repository_path_def path_grammar_def split: if_splits)
  next
    assume g: "path_grammar path"
    then obtain cs where "cs \<noteq> []" "\<forall>c \<in> set cs. component_admissible c" "path = path_join cs"
      by (auto simp: path_grammar_def)
    with path_join_no_nul path_join_ends [of cs] g scan show "valid_repository_path path"
      by (auto simp: valid_repository_path_def path_grammar_def hd_conv_nth last_conv_nth)
  qed
qed

subsection \<open>Splitting a target path\<close>

lemma path_join_snoc: "cs \<noteq> [] \<Longrightarrow> path_join (cs @ [c]) = path_join cs @ slash # c"
proof (induction cs rule: path_join.induct)
  case (3 x y zs)
  then show ?case by simp
qed simp_all

lemma last_slash_none: "n \<le> length path \<Longrightarrow> slash \<notin> set (take n path) \<Longrightarrow> last_slash path n = 0"
proof (induction n)
  case (Suc n)
  then show ?case by (auto simp: take_Suc_conv_app_nth)
qed simp

lemma last_slash_append:
  assumes "slash \<notin> set c" "n \<le> length c"
  shows "last_slash (p @ slash # c) (Suc (length p) + n) = Suc (length p)"
  using assms(2)
proof (induction n)
  case 0
  show ?case by (simp add: nth_append)
next
  case (Suc n)
  then have "(p @ slash # c) ! (Suc (length p) + n) = c ! n" by (simp add: nth_append)
  moreover have "c ! n \<noteq> slash" using Suc.prems assms(1) by (metis Suc_le_eq nth_mem)
  ultimately show ?case using Suc by simp
qed

lemma split_joined:
  assumes cs: "\<forall>x \<in> set cs. component_admissible x" and c: "component_admissible c"
    and len: "length (path_join (cs @ [c])) \<le> 1024"
  shows "split_target_path (path_join (cs @ [c])) 1025 256 = Some (if cs = [] then [dot] else path_join cs, c)"
proof -
  have ns: "slash \<notin> set c" using c component_admissible_bytes(3) by blast
  have lc: "c \<noteq> []" "length c \<le> 255" using c by (auto simp: component_admissible_def)
  show ?thesis
  proof (cases "cs = []")
    case True
    then show ?thesis
      using ns lc last_slash_none [of "length c" c] by (simp add: split_target_path_def slice_eq_self)
  next
    case False
    let ?p = "path_join cs"
    have "last_slash (?p @ slash # c) (Suc (length ?p) + length c) = Suc (length ?p)"
      by (rule last_slash_append [OF ns order_refl])
    then show ?thesis
      using False lc len by (simp add: split_target_path_def path_join_snoc slice_def)
  qed
qed

text \<open>The split of a valid path always succeeds; the base name is an admissible component.\<close>

lemma valid_path_split:
  assumes "valid_repository_path path"
  obtains parent final where "split_target_path path 1025 256 = Some (parent, final)"
    "component_admissible final" "path = final \<and> parent = [dot] \<or> path = parent @ slash # final"
proof -
  from assms obtain cs where g: "cs \<noteq> []" "\<forall>c \<in> set cs. component_admissible c" "path = path_join cs" "length path \<le> 1024"
    unfolding valid_repository_path_grammar path_grammar_def by blast
  have cs: "cs = butlast cs @ [last cs]" using g(1) by simp
  have adm: "\<forall>x \<in> set (butlast cs). component_admissible x" "component_admissible (last cs)"
    using g(1,2) by (auto dest: in_set_butlastD)
  have sp: "split_target_path path 1025 256 = Some (if butlast cs = [] then [dot] else path_join (butlast cs), last cs)"
    using split_joined [OF adm] cs g(3,4) by metis
  show ?thesis
  proof (cases "butlast cs = []")
    case True
    then have "path = last cs" using cs g(3) by (metis append_Nil path_join.simps(2))
    then show ?thesis using that sp adm True by simp
  next
    case False
    then have "path = path_join (butlast cs) @ slash # last cs" using path_join_snoc cs g(3) by metis
    then show ?thesis using that sp adm False by simp
  qed
qed

subsection \<open>The text grammar\<close>

definition unicode_scalar :: "nat \<Rightarrow> bool" where
  "unicode_scalar cp \<longleftrightarrow> cp < 0xD800 \<or> (0xE000 \<le> cp \<and> cp < 0x110000)"

definition utf8_units :: "nat \<Rightarrow> nat list" where
  "utf8_units cp =
     (if cp < 0x80 then [cp]
      else if cp < 0x800 then [0xC0 + cp div 64, 0x80 + cp mod 64]
      else if cp < 0x10000 then [0xE0 + cp div 64 div 64, 0x80 + cp div 64 mod 64, 0x80 + cp mod 64]
      else [0xF0 + cp div 64 div 64 div 64, 0x80 + cp div 64 div 64 mod 64, 0x80 + cp div 64 mod 64,
            0x80 + cp mod 64])"

definition utf8_encode :: "nat \<Rightarrow> bytes" where
  "utf8_encode cp = map of_nat (utf8_units cp)"

definition utf8_grammar :: "bytes \<Rightarrow> bool" where
  "utf8_grammar bs \<longleftrightarrow> (\<exists>cps. (\<forall>cp \<in> set cps. unicode_scalar cp \<and> cp \<noteq> 0) \<and> bs = concat (map utf8_encode cps))"

text \<open>The well-formed sequences of two, three and four bytes.\<close>

definition units2 :: "nat \<Rightarrow> nat \<Rightarrow> bool" where
  "units2 a b \<longleftrightarrow> 0xc2 \<le> a \<and> a \<le> 0xdf \<and> 0x80 \<le> b \<and> b \<le> 0xbf"

definition units3 :: "nat \<Rightarrow> nat \<Rightarrow> nat \<Rightarrow> bool" where
  "units3 a b c \<longleftrightarrow> 0xe0 \<le> a \<and> a \<le> 0xef \<and> 0x80 \<le> b \<and> b \<le> 0xbf \<and> 0x80 \<le> c \<and> c \<le> 0xbf
     \<and> (a = 0xe0 \<longrightarrow> 0xa0 \<le> b) \<and> (a = 0xed \<longrightarrow> b \<le> 0x9f)"

definition units4 :: "nat \<Rightarrow> nat \<Rightarrow> nat \<Rightarrow> nat \<Rightarrow> bool" where
  "units4 a b c d \<longleftrightarrow> 0xf0 \<le> a \<and> a \<le> 0xf4 \<and> 0x80 \<le> b \<and> b \<le> 0xbf \<and> 0x80 \<le> c \<and> c \<le> 0xbf
     \<and> 0x80 \<le> d \<and> d \<le> 0xbf \<and> (a = 0xf0 \<longrightarrow> 0x90 \<le> b) \<and> (a = 0xf4 \<longrightarrow> b \<le> 0x8f)"

lemma div_chain:
  fixes x y :: nat
  assumes "y < 64"
  shows "(x * 64 + y) div 64 = x" "(x * 64 + y) mod 64 = y"
  using assms by auto

lemma units2_iff: "(\<exists>cp. 0x80 \<le> cp \<and> cp < 0x800 \<and> a = 0xC0 + cp div 64 \<and> b = 0x80 + cp mod 64) \<longleftrightarrow> units2 a b"
proof
  assume "\<exists>cp. 0x80 \<le> cp \<and> cp < 0x800 \<and> a = 0xC0 + cp div 64 \<and> b = 0x80 + cp mod 64"
  then obtain x y :: nat where "y < 64" "0x80 \<le> x * 64 + y" "x * 64 + y < 0x800" "a = 0xC0 + x" "b = 0x80 + y"
    by (metis div_mult_mod_eq mod_less_divisor zero_less_numeral)
  then show "units2 a b" unfolding units2_def by linarith
next
  assume u: "units2 a b"
  then have "0xC0 \<le> a" "0x80 \<le> b" unfolding units2_def by auto
  then obtain x y where xy: "a = 0xC0 + x" "b = 0x80 + y" by (metis le_Suc_ex)
  then have "y < 64" using u unfolding units2_def by linarith
  with u xy show "\<exists>cp. 0x80 \<le> cp \<and> cp < 0x800 \<and> a = 0xC0 + cp div 64 \<and> b = 0x80 + cp mod 64"
    by (intro exI [of _ "x * 64 + y"]) (simp add: units2_def div_chain)
qed

lemma units3_iff:
  "(\<exists>cp. unicode_scalar cp \<and> 0x800 \<le> cp \<and> cp < 0x10000 \<and> a = 0xE0 + cp div 64 div 64
      \<and> b = 0x80 + cp div 64 mod 64 \<and> c = 0x80 + cp mod 64) \<longleftrightarrow> units3 a b c"
proof
  assume "\<exists>cp. unicode_scalar cp \<and> 0x800 \<le> cp \<and> cp < 0x10000 \<and> a = 0xE0 + cp div 64 div 64
      \<and> b = 0x80 + cp div 64 mod 64 \<and> c = 0x80 + cp mod 64"
  then obtain x y z :: nat where "y < 64" "z < 64" "unicode_scalar ((x * 64 + y) * 64 + z)"
    "0x800 \<le> (x * 64 + y) * 64 + z" "(x * 64 + y) * 64 + z < 0x10000" "a = 0xE0 + x" "b = 0x80 + y" "c = 0x80 + z"
    by (metis div_mult_mod_eq mod_less_divisor zero_less_numeral)
  then show "units3 a b c" unfolding units3_def unicode_scalar_def unfolding distrib_right mult.assoc by - (elim disjE conjE; intro conjI impI; simp)
next
  assume u: "units3 a b c"
  then obtain x y z where xyz: "a = 0xE0 + x" "b = 0x80 + y" "c = 0x80 + z"
    unfolding units3_def by (metis le_Suc_ex)
  have lt: "y < 64" "z < 64" "x \<le> 15" using u xyz unfolding units3_def by linarith+
  have "unicode_scalar (x * 64 * 64 + y * 64 + z)" "0x800 \<le> x * 64 * 64 + y * 64 + z"
    "x * 64 * 64 + y * 64 + z < 0x10000"
    by (use u lt xyz in \<open>cases x "13::nat" rule: linorder_cases; simp add: units3_def unicode_scalar_def\<close>,
        use u lt xyz in \<open>cases "x = 0"; simp add: units3_def\<close>, use lt in simp)
  then show "\<exists>cp. unicode_scalar cp \<and> 0x800 \<le> cp \<and> cp < 0x10000 \<and> a = 0xE0 + cp div 64 div 64
      \<and> b = 0x80 + cp div 64 mod 64 \<and> c = 0x80 + cp mod 64"
    using div_chain [of z "x * 64 + y"] div_chain [of y x] lt xyz
    by (intro exI [of _ "(x * 64 + y) * 64 + z"]) (simp add: distrib_right)
qed

lemma units4_iff:
  "(\<exists>cp. unicode_scalar cp \<and> 0x10000 \<le> cp \<and> a = 0xF0 + cp div 64 div 64 div 64
      \<and> b = 0x80 + cp div 64 div 64 mod 64 \<and> c = 0x80 + cp div 64 mod 64 \<and> d = 0x80 + cp mod 64) \<longleftrightarrow> units4 a b c d"
proof
  assume "\<exists>cp. unicode_scalar cp \<and> 0x10000 \<le> cp \<and> a = 0xF0 + cp div 64 div 64 div 64
      \<and> b = 0x80 + cp div 64 div 64 mod 64 \<and> c = 0x80 + cp div 64 mod 64 \<and> d = 0x80 + cp mod 64"
  then obtain x y z w :: nat where "y < 64" "z < 64" "w < 64" "unicode_scalar (((x * 64 + y) * 64 + z) * 64 + w)"
    "0x10000 \<le> ((x * 64 + y) * 64 + z) * 64 + w" "a = 0xF0 + x" "b = 0x80 + y" "c = 0x80 + z" "d = 0x80 + w"
    by (metis div_mult_mod_eq mod_less_divisor zero_less_numeral)
  then show "units4 a b c d" unfolding units4_def unicode_scalar_def unfolding distrib_right mult.assoc by - (elim disjE conjE; intro conjI impI; simp)
next
  assume u: "units4 a b c d"
  then obtain x y z w where xyz: "a = 0xF0 + x" "b = 0x80 + y" "c = 0x80 + z" "d = 0x80 + w"
    unfolding units4_def by (metis le_Suc_ex)
  have lt: "y < 64" "z < 64" "w < 64" "x \<le> 4" using u xyz unfolding units4_def by linarith+
  have "0x10000 \<le> x * 64 * 64 * 64 + y * 64 * 64 + z * 64 + w"
    using u xyz by (cases "x = 0"; simp add: units4_def)
  moreover from this have "unicode_scalar (x * 64 * 64 * 64 + y * 64 * 64 + z * 64 + w)"
    using u lt xyz by (cases "x = 4"; simp add: units4_def unicode_scalar_def)
  ultimately show "\<exists>cp. unicode_scalar cp \<and> 0x10000 \<le> cp \<and> a = 0xF0 + cp div 64 div 64 div 64
      \<and> b = 0x80 + cp div 64 div 64 mod 64 \<and> c = 0x80 + cp div 64 mod 64 \<and> d = 0x80 + cp mod 64"
    using div_chain [of w "(x * 64 + y) * 64 + z"] div_chain [of z "x * 64 + y"] div_chain [of y x] lt xyz
    by (intro exI [of _ "((x * 64 + y) * 64 + z) * 64 + w"]) (simp add: distrib_right)
qed

lemma utf8_units_bound: "unicode_scalar cp \<Longrightarrow> u \<in> set (utf8_units cp) \<Longrightarrow> u < 256"
  by (auto simp: utf8_units_def unicode_scalar_def split: if_splits)

lemma utf8_encode_eq_iff:
  assumes "unicode_scalar cp"
  shows "bs = utf8_encode cp \<longleftrightarrow> map unat bs = utf8_units cp"
proof
  assume "bs = utf8_encode cp"
  then show "map unat bs = utf8_units cp"
    using utf8_units_bound [OF assms] by (simp add: utf8_encode_def map_idI unsigned_of_nat take_bit_nat_eq_self)
next
  assume "map unat bs = utf8_units cp"
  then have "map of_nat (map unat bs) = utf8_encode cp" by (simp only: utf8_encode_def)
  then show "bs = utf8_encode cp" by (simp add: map_idI)
qed


lemma utf8_grammar_Nil: "utf8_grammar []"
  unfolding utf8_grammar_def by (intro exI [of _ "[]"]) simp

lemma utf8_grammar_step:
  "bs \<noteq> [] \<Longrightarrow> utf8_grammar bs \<longleftrightarrow>
     (\<exists>cp us rest. unicode_scalar cp \<and> cp \<noteq> 0 \<and> map unat us = utf8_units cp \<and> bs = us @ rest \<and> utf8_grammar rest)"
proof
  assume ne: "bs \<noteq> []" and "utf8_grammar bs"
  then obtain cp cps where c: "\<forall>c \<in> set (cp # cps). unicode_scalar c \<and> c \<noteq> 0" "bs = concat (map utf8_encode (cp # cps))"
    unfolding utf8_grammar_def by (metis concat.simps(1) list.exhaust list.simps(8))
  then show "\<exists>cp us rest. unicode_scalar cp \<and> cp \<noteq> 0 \<and> map unat us = utf8_units cp \<and> bs = us @ rest \<and> utf8_grammar rest"
    using utf8_encode_eq_iff [of cp "utf8_encode cp"]
    by (intro exI [of _ cp] exI [of _ "utf8_encode cp"] exI [of _ "concat (map utf8_encode cps)"])
      (auto simp: utf8_grammar_def)
next
  assume "\<exists>cp us rest. unicode_scalar cp \<and> cp \<noteq> 0 \<and> map unat us = utf8_units cp \<and> bs = us @ rest \<and> utf8_grammar rest"
  then obtain cp us rest cps where "unicode_scalar cp" "cp \<noteq> 0" "us = utf8_encode cp" "bs = us @ rest"
    "\<forall>c \<in> set cps. unicode_scalar c \<and> c \<noteq> 0" "rest = concat (map utf8_encode cps)"
    using utf8_encode_eq_iff unfolding utf8_grammar_def by blast
  then show "utf8_grammar bs" unfolding utf8_grammar_def by (intro exI [of _ "cp # cps"]) simp
qed

text \<open>By the number of bytes of the first character.\<close>

lemma utf8_grammar_Cons:
  "utf8_grammar (a # bs) \<longleftrightarrow>
     (a \<noteq> 0 \<and> a \<le> 0x7f \<and> utf8_grammar bs)
     \<or> (\<exists>b r. bs = b # r \<and> units2 (unat a) (unat b) \<and> utf8_grammar r)
     \<or> (\<exists>b c r. bs = b # c # r \<and> units3 (unat a) (unat b) (unat c) \<and> utf8_grammar r)
     \<or> (\<exists>b c d r. bs = b # c # d # r \<and> units4 (unat a) (unat b) (unat c) (unat d) \<and> utf8_grammar r)"
  (is "?L \<longleftrightarrow> ?R1 \<or> ?R2 \<or> ?R3 \<or> ?R4")
proof
  assume ?L
  then obtain cp us rest where c: "unicode_scalar cp" "cp \<noteq> 0" "map unat us = utf8_units cp" "a # bs = us @ rest"
    "utf8_grammar rest" using utf8_grammar_step by blast
  consider "cp < 0x80" | "0x80 \<le> cp" "cp < 0x800" | "0x800 \<le> cp" "cp < 0x10000" | "0x10000 \<le> cp" by linarith
  then show "?R1 \<or> ?R2 \<or> ?R3 \<or> ?R4"
  proof cases
    case 1
    then have "us = [a]" "unat a = cp" "bs = rest" using c by (auto simp: utf8_units_def)
    then show ?thesis using 1 c by (auto simp: word_le_nat_alt)
  next
    case 2
    then obtain b where "us = [a, b]" "unat a = 0xC0 + cp div 64" "unat b = 0x80 + cp mod 64" "bs = b # rest"
      using c by (auto simp: utf8_units_def)
    then show ?thesis using 2 c units2_iff [of "unat a" "unat b"] by blast
  next
    case 3
    then obtain b d where "us = [a, b, d]" "unat a = 0xE0 + cp div 64 div 64" "unat b = 0x80 + cp div 64 mod 64"
      "unat d = 0x80 + cp mod 64" "bs = b # d # rest"
      using c by (auto simp: utf8_units_def)
    then show ?thesis using 3 c units3_iff [of "unat a" "unat b" "unat d"] by blast
  next
    case 4
    then obtain b d e where "us = [a, b, d, e]" "unat a = 0xF0 + cp div 64 div 64 div 64"
      "unat b = 0x80 + cp div 64 div 64 mod 64" "unat d = 0x80 + cp div 64 mod 64" "unat e = 0x80 + cp mod 64"
      "bs = b # d # e # rest"
      using c by (auto simp: utf8_units_def)
    then show ?thesis using 4 c units4_iff [of "unat a" "unat b" "unat d" "unat e"] by blast
  qed
next
  assume "?R1 \<or> ?R2 \<or> ?R3 \<or> ?R4"
  then consider ?R1 | ?R2 | ?R3 | ?R4 by blast
  then show ?L
  proof cases
    case 1
    then have "unicode_scalar (unat a)" "unat a \<noteq> 0" "utf8_units (unat a) = [unat a]"
      by (auto simp: unicode_scalar_def utf8_units_def word_le_nat_alt unat_eq_0)
    then show ?thesis
      using 1 by (intro iffD2 [OF utf8_grammar_step] exI [of _ "unat a"] exI [of _ "[a]"] exI [of _ bs]) auto
  next
    case 2
    then obtain b r cp where "bs = b # r" "utf8_grammar r" "0x80 \<le> cp" "cp < 0x800"
      "unat a = 0xC0 + cp div 64" "unat b = 0x80 + cp mod 64" using units2_iff by metis
    then show ?thesis
      by (intro iffD2 [OF utf8_grammar_step] exI [of _ cp] exI [of _ "[a, b]"] exI [of _ r])
        (auto simp: utf8_units_def unicode_scalar_def)
  next
    case 3
    then obtain b c r cp where "bs = b # c # r" "utf8_grammar r" "unicode_scalar cp" "0x800 \<le> cp" "cp < 0x10000"
      "unat a = 0xE0 + cp div 64 div 64" "unat b = 0x80 + cp div 64 mod 64" "unat c = 0x80 + cp mod 64"
      using units3_iff by metis
    then show ?thesis
      by (intro iffD2 [OF utf8_grammar_step] exI [of _ cp] exI [of _ "[a, b, c]"] exI [of _ r])
        (auto simp: utf8_units_def)
  next
    case 4
    then obtain b c d r cp where "bs = b # c # d # r" "utf8_grammar r" "unicode_scalar cp" "0x10000 \<le> cp"
      "unat a = 0xF0 + cp div 64 div 64 div 64" "unat b = 0x80 + cp div 64 div 64 mod 64"
      "unat c = 0x80 + cp div 64 mod 64" "unat d = 0x80 + cp mod 64"
      using units4_iff by metis
    then show ?thesis
      by (intro iffD2 [OF utf8_grammar_step] exI [of _ cp] exI [of _ "[a, b, c, d]"] exI [of _ r])
        (auto simp: utf8_units_def)
  qed
qed


lemma drop_nth1: "i < length v \<Longrightarrow> drop i v = v ! i # drop (i + 1) v"
  by (simp add: Cons_nth_drop_Suc)

lemma drop_nth2: "i + 1 < length v \<Longrightarrow> drop (i + 1) v = v ! (i + 1) # drop (i + 2) v"
  using drop_nth1 [of "i + 1" v] by (simp add: numeral_2_eq_2)

lemma drop_nth3: "i + 2 < length v \<Longrightarrow> drop (i + 2) v = v ! (i + 2) # drop (i + 3) v"
  using drop_nth1 [of "i + 2" v] by (simp add: numeral_3_eq_3)

lemma drop_nth4: "i + 3 < length v \<Longrightarrow> drop (i + 3) v = v ! (i + 3) # drop (i + 4) v"
  using drop_nth1 [of "i + 3" v] by (simp add: eval_nat_numeral)

lemma drop_Cons_iff: "drop k v = b # r \<longleftrightarrow> k < length v \<and> b = v ! k \<and> r = drop (Suc k) v"
  "b # r = drop k v \<longleftrightarrow> k < length v \<and> b = v ! k \<and> r = drop (Suc k) v"
proof -
  show "drop k v = b # r \<longleftrightarrow> k < length v \<and> b = v ! k \<and> r = drop (Suc k) v"
    by (cases "k < length v") (auto simp: Cons_nth_drop_Suc [symmetric])
  then show "b # r = drop k v \<longleftrightarrow> k < length v \<and> b = v ! k \<and> r = drop (Suc k) v" by metis
qed

lemma utf8_guard3:
  fixes b second third :: byte
  assumes "0xe0 \<le> b" "b \<le> 0xef"
  shows "(third < 0x80 \<or> third > 0xbf \<or> (b = 0xe0 \<and> (second < 0xa0 \<or> second > 0xbf))
      \<or> (b = 0xed \<and> (second < 0x80 \<or> second > 0x9f))
      \<or> ((b \<noteq> 0xe0 \<and> b \<noteq> 0xed) \<and> (second < 0x80 \<or> second > 0xbf)))
    \<longleftrightarrow> \<not> units3 (unat b) (unat second) (unat third)"
  using assms unfolding units3_def word_le_nat_alt word_less_nat_alt word_unat_eq_iff by simp linarith

lemma utf8_guard4:
  fixes b second third fourth :: byte
  assumes "0xf0 \<le> b" "b \<le> 0xf4"
  shows "(third < 0x80 \<or> third > 0xbf \<or> fourth < 0x80 \<or> fourth > 0xbf
      \<or> (b = 0xf0 \<and> (second < 0x90 \<or> second > 0xbf)) \<or> (b = 0xf4 \<and> (second < 0x80 \<or> second > 0x8f))
      \<or> ((b \<noteq> 0xf0 \<and> b \<noteq> 0xf4) \<and> (second < 0x80 \<or> second > 0xbf)))
    \<longleftrightarrow> \<not> units4 (unat b) (unat second) (unat third) (unat fourth)"
  using assms unfolding units4_def word_le_nat_alt word_less_nat_alt word_unat_eq_iff by simp linarith

lemma utf8_lead_ranges:
  fixes b :: byte
  shows "units2 (unat b) x \<Longrightarrow> 0xc2 \<le> b \<and> b \<le> 0xdf"
    and "units3 (unat b) x y \<Longrightarrow> 0xe0 \<le> b \<and> b \<le> 0xef"
    and "units4 (unat b) x y z \<Longrightarrow> 0xf0 \<le> b \<and> b \<le> 0xf4"
  by (simp_all add: units2_def units3_def units4_def word_le_nat_alt)

lemma utf8_loop_grammar: "utf8_loop v i \<longleftrightarrow> utf8_grammar (drop i v)"
proof (induction v i rule: utf8_loop.induct)
  case (1 v i)
  show ?case
  proof (cases "i < length v")
    case False
    then show ?thesis by (subst utf8_loop.simps) (simp add: utf8_grammar_Nil)
  next
    case True
    let ?b = "v ! i"
    have g: "utf8_grammar (drop i v) \<longleftrightarrow>
       (?b \<noteq> 0 \<and> ?b \<le> 0x7f \<and> utf8_grammar (drop (i + 1) v))
       \<or> (i + 1 < length v \<and> units2 (unat ?b) (unat (v ! (i + 1))) \<and> utf8_grammar (drop (i + 2) v))
       \<or> (i + 2 < length v \<and> units3 (unat ?b) (unat (v ! (i + 1))) (unat (v ! (i + 2))) \<and> utf8_grammar (drop (i + 3) v))
       \<or> (i + 3 < length v \<and> units4 (unat ?b) (unat (v ! (i + 1))) (unat (v ! (i + 2))) (unat (v ! (i + 3)))
          \<and> utf8_grammar (drop (i + 4) v))"
      using drop_nth2 [of i v] drop_nth3 [of i v] drop_nth4 [of i v]
      unfolding drop_nth1 [OF True] utf8_grammar_Cons by (simp add: drop_Cons_iff eval_nat_numeral) (metis Suc_lessD)
    note ih = 1 [OF True refl]
    consider "?b = 0" | "?b \<noteq> 0" "?b \<le> 0x7f" | "0x80 \<le> ?b" "?b < 0xc2" | "0xc2 \<le> ?b" "?b \<le> 0xdf"
      | "0xe0 \<le> ?b" "?b \<le> 0xef" | "0xf0 \<le> ?b" "?b \<le> 0xf4" | "0xf4 < ?b"
      by (simp add: word_le_nat_alt word_less_nat_alt word_unat_eq_iff) linarith
    then show ?thesis
    proof cases
      case 5
      then have r: "?b \<noteq> 0" "\<not> ?b \<le> 0x7f" "\<not> ?b \<le> 0xdf" "\<not> 0xf0 \<le> ?b"
        by (auto simp: word_le_nat_alt word_unat_eq_iff)
      have "\<not> units2 (unat ?b) x" "\<not> units4 (unat ?b) x y z" for x y z using utf8_lead_ranges(1,3) r by blast+
      then show ?thesis using 5 r True ih
        by (subst utf8_loop.simps) (simp only: g Let_def utf8_guard3 [OF 5], auto)
    next
      case 6
      then have r: "?b \<noteq> 0" "\<not> ?b \<le> 0x7f" "\<not> ?b \<le> 0xdf" "\<not> ?b \<le> 0xef"
        by (auto simp: word_le_nat_alt word_unat_eq_iff)
      have "\<not> units2 (unat ?b) x" "\<not> units3 (unat ?b) x y" for x y using utf8_lead_ranges(1,2) r by blast+
      then show ?thesis using 6 r True ih
        by (subst utf8_loop.simps) (simp only: g Let_def utf8_guard4 [OF 6], auto)
    qed (subst utf8_loop.simps, use True ih in \<open>simp add: g Let_def units2_def units3_def units4_def
            word_le_nat_alt word_less_nat_alt word_unat_eq_iff\<close>)+
  qed
qed

subsection \<open>The checks are the grammars\<close>

text \<open>C24. The path check accepts exactly the paths of the grammar: at most 1024 bytes, one to 64 components
  joined by slashes, each of one to 255 bytes that starts with a letter or digit, continues with letters,
  digits, dots, underscores and hyphens, and is not one of the reserved names.  Every accepted path
  splits into a parent and a final name that is such a component, so neither an absolute path nor a
  \<open>..\<close> component passes.\<close>

theorem repository_path_exact:
  "valid_repository_path path \<longleftrightarrow> length path \<le> 1024
     \<and> (\<exists>cs. cs \<noteq> [] \<and> length cs \<le> 64 \<and> list_all component_admissible cs \<and> path = path_join cs
          \<and> split_target_path path 1025 256
              = Some (if length cs = 1 then [dot] else path_join (butlast cs), last cs))"
proof
  assume "valid_repository_path path"
  then obtain cs where g: "cs \<noteq> []" "\<forall>c \<in> set cs. component_admissible c" "path = path_join cs"
    "length path \<le> 1024" "length cs \<le> 64"
    unfolding valid_repository_path_grammar path_grammar_def by blast
  have "split_target_path path 1025 256 = Some (if butlast cs = [] then [dot] else path_join (butlast cs), last cs)"
    using split_joined [of "butlast cs" "last cs"] g by (simp add: in_set_butlastD)
  moreover have "butlast cs = [] \<longleftrightarrow> length cs = 1" using g(1) by (cases cs) auto
  ultimately show "length path \<le> 1024 \<and> (\<exists>cs. cs \<noteq> [] \<and> length cs \<le> 64 \<and> list_all component_admissible cs
      \<and> path = path_join cs \<and> split_target_path path 1025 256
            = Some (if length cs = 1 then [dot] else path_join (butlast cs), last cs))"
    using g by (auto simp: list_all_iff)
qed (auto simp: valid_repository_path_grammar path_grammar_def list_all_iff)

text \<open>C25. The text check accepts exactly the UTF-8 encodings of lists of nonzero Unicode scalar values:
  overlong forms, surrogates, values above \<open>10FFFF\<close>, truncated sequences and zero bytes are all refused,
  and nothing else is.\<close>

theorem valid_utf8_text_exact:
  "valid_utf8_text v \<longleftrightarrow>
     (\<exists>cps. list_all (\<lambda>cp. unicode_scalar cp \<and> cp \<noteq> 0) cps \<and> v = concat (map utf8_encode cps))"
  using utf8_loop_grammar [of v 0] by (simp add: valid_utf8_text_def utf8_grammar_def list_all_iff)

end
