(* ===== verification/Proc17_Trace.thy ===== *)
theory Proc17_Trace
  imports Proc17_Prelude "HOL-Library.State_Monad"
begin

text \<open>
  Computations on the trace of the system calls made so far.  A call asks the kernel what it answers
  after this trace and appends itself with the answer; the events are those of the component
  that makes the calls.
\<close>

abbreviation ret :: "'a \<Rightarrow> ('s, 'a) state" where
  "ret \<equiv> State_Monad.return"

definition call :: "('e list \<Rightarrow> 'a) \<Rightarrow> ('a \<Rightarrow> 'e) \<Rightarrow> ('e list, 'a) state" where
  "call answer event = State (\<lambda>t. (answer t, t @ [event (answer t)]))"

subsection \<open>What a computation appends to the trace\<close>

text \<open>
  \<open>emits m P\<close>: every run of \<open>m\<close> appends events \<open>u\<close> to the trace such that \<open>P\<close> holds of the result and
  \<open>u\<close>.  The rules follow the code: a call appends its event with some answer, a sequence appends the
  events of its parts.
\<close>

definition emits :: "('e list, 'a) state \<Rightarrow> ('a \<Rightarrow> 'e list \<Rightarrow> bool) \<Rightarrow> bool" where
  "emits m P \<longleftrightarrow> (\<forall>t a t'. run_state m t = (a, t') \<longrightarrow> (\<exists>u. t' = t @ u \<and> P a u))"

lemma emits_ret [simp]: "emits (ret a) P \<longleftrightarrow> P a []"
  by (auto simp: emits_def)

lemma emits_mono: "emits m P \<Longrightarrow> (\<And>a u. P a u \<Longrightarrow> Q a u) \<Longrightarrow> emits m Q"
  unfolding emits_def by blast

lemma emits_call: "(\<And>a. P a [event a]) \<Longrightarrow> emits (call answer event) P"
  by (auto simp: emits_def call_def)

lemma emits_bind:
  assumes m: "emits m R" and f: "\<And>a u. R a u \<Longrightarrow> emits (f a) (\<lambda>b v. P b (u @ v))"
  shows "emits (State_Monad.bind m f) P"
  unfolding emits_def
proof (intro allI impI)
  fix t b t' assume r: "run_state (State_Monad.bind m f) t = (b, t')"
  obtain a t1 where m1: "run_state m t = (a, t1)" by force
  with m obtain u where u: "t1 = t @ u" "R a u" unfolding emits_def by blast
  have "run_state (f a) (t @ u) = (b, t')" using r m1 u by simp
  with f [OF u(2)] obtain v where "t' = (t @ u) @ v" "P b (u @ v)" unfolding emits_def by blast
  then show "\<exists>u. t' = t @ u \<and> P b u" by auto
qed

lemma emits_call_bind:
  "(\<And>a. emits (f a) (\<lambda>b v. P b (event a # v))) \<Longrightarrow> emits (State_Monad.bind (call answer event) f) P"
  by (rule emits_bind [where R = "\<lambda>a u. u = [event a]"]) (auto intro: emits_call)

lemma emits_run: "emits m P \<Longrightarrow> run_state m t = (a, t') \<Longrightarrow> \<exists>u. t' = t @ u \<and> P a u"
  unfolding emits_def by blast

lemma emits_conj: "emits m P \<Longrightarrow> emits m Q \<Longrightarrow> emits m (\<lambda>a u. P a u \<and> Q a u)"
  unfolding emits_def by (metis same_append_eq)

end
