(* ===== verification/Repo_Kernel.thy ===== *)
theory Repo_Kernel
  imports Repo_Paths Proc17_Trace "HOL-Library.Sublist"
begin

text \<open>
  What every operation of the repository provider (\<open>native/proc17_repository_fs.c\<close>) is built from: the
  system calls it makes, the identities of directories, the handle, and the opening and closing of
  the pair of root descriptors.

  The kernel is an argument of the model.  An operation is a computation on the trace of the calls
  made so far: a call asks the kernel what it answers after this trace and appends itself with the
  answer.  So an arbitrary environment, which may change files between any two calls, is an arbitrary
  \<open>kernel\<close>, and the lemmas speak of the trace.  A descriptor is a natural number (\<open>None\<close> where the code
  has \<open>-1\<close>, and for \<open>AT_FDCWD\<close> in an open); an error number that is 0 is \<open>None\<close>.  The code inside
  \<open>PROC17_REPOSITORY_FS_TESTING\<close> is not compiled into the provider and not modelled.
\<close>

subsection \<open>System calls and the trace\<close>

record file_stat =
  stat_dev :: u64
  stat_ino :: u64
  stat_mode :: u32
  stat_uid :: u32
  stat_gid :: u32
  stat_nlink :: u64
  stat_size :: int
  stat_mtim :: "int \<times> int"
  stat_ctim :: "int \<times> int"

datatype event =
    E_clock_gettime "(int \<times> int) sys"
  | E_openat2 "nat option" bytes u64 u64 "nat sys"
  | E_openat nat bytes u64 u32 "nat sys"
  | E_fstat nat "file_stat sys"
  | E_statx nat "(u32 \<times> u64) sys"
  | E_close nat "unit sys"
  | E_getrandom nat "bytes sys"
  | E_fchmod nat u32 "unit sys"
  | E_write nat bytes "nat sys"
  | E_fsync nat "unit sys"
  | E_renameat2 nat bytes nat bytes u32 "unit sys"
  | E_unlinkat nat bytes "unit sys"
  | E_read nat nat "bytes sys"
  | E_malloc nat bool
  | E_open_directory nat bytes u64 "nat sys"
  | E_dup nat "nat sys"
  | E_fdopendir nat "(bytes list \<times> errno option) sys"
  | E_closedir nat "unit sys"
  | E_fstatat nat bytes "file_stat sys"

type_synonym trace = "event list"
type_synonym 'a io = "(trace, 'a) state"

record kernel =
  k_clock_gettime :: "trace \<Rightarrow> (int \<times> int) sys"
  k_openat2 :: "trace \<Rightarrow> nat option \<Rightarrow> bytes \<Rightarrow> u64 \<Rightarrow> u64 \<Rightarrow> nat sys"
  k_openat :: "trace \<Rightarrow> nat \<Rightarrow> bytes \<Rightarrow> u64 \<Rightarrow> u32 \<Rightarrow> nat sys"
  k_fstat :: "trace \<Rightarrow> nat \<Rightarrow> file_stat sys"
  k_statx :: "trace \<Rightarrow> nat \<Rightarrow> (u32 \<times> u64) sys"
  k_close :: "trace \<Rightarrow> nat \<Rightarrow> unit sys"
  k_getrandom :: "trace \<Rightarrow> nat \<Rightarrow> bytes sys"
  k_fchmod :: "trace \<Rightarrow> nat \<Rightarrow> u32 \<Rightarrow> unit sys"
  k_write :: "trace \<Rightarrow> nat \<Rightarrow> bytes \<Rightarrow> nat sys"
  k_fsync :: "trace \<Rightarrow> nat \<Rightarrow> unit sys"
  k_renameat2 :: "trace \<Rightarrow> nat \<Rightarrow> bytes \<Rightarrow> nat \<Rightarrow> bytes \<Rightarrow> u32 \<Rightarrow> unit sys"
  k_unlinkat :: "trace \<Rightarrow> nat \<Rightarrow> bytes \<Rightarrow> unit sys"
  k_read :: "trace \<Rightarrow> nat \<Rightarrow> nat \<Rightarrow> bytes sys"
  k_malloc :: "trace \<Rightarrow> nat \<Rightarrow> bool"
  k_open_directory :: "trace \<Rightarrow> nat \<Rightarrow> bytes \<Rightarrow> u64 \<Rightarrow> nat sys"
  k_dup :: "trace \<Rightarrow> nat \<Rightarrow> nat sys"
  k_fdopendir :: "trace \<Rightarrow> nat \<Rightarrow> (bytes list \<times> errno option) sys"
  k_closedir :: "trace \<Rightarrow> nat \<Rightarrow> unit sys"
  k_fstatat :: "trace \<Rightarrow> nat \<Rightarrow> bytes \<Rightarrow> file_stat sys"
  k_geteuid :: u32

definition sys_clock_gettime :: "kernel \<Rightarrow> (int \<times> int) sys io" where
  "sys_clock_gettime k = call (k_clock_gettime k) E_clock_gettime"

definition sys_openat2 :: "kernel \<Rightarrow> nat option \<Rightarrow> bytes \<Rightarrow> u64 \<Rightarrow> u64 \<Rightarrow> nat sys io" where
  "sys_openat2 k dir path flags resolve =
     call (\<lambda>t. k_openat2 k t dir path flags resolve) (E_openat2 dir path flags resolve)"

definition sys_openat :: "kernel \<Rightarrow> nat \<Rightarrow> bytes \<Rightarrow> u64 \<Rightarrow> u32 \<Rightarrow> nat sys io" where
  "sys_openat k dir path flags mode =
     call (\<lambda>t. k_openat k t dir path flags mode) (E_openat dir path flags mode)"

definition sys_fstat :: "kernel \<Rightarrow> nat \<Rightarrow> file_stat sys io" where
  "sys_fstat k fd = call (\<lambda>t. k_fstat k t fd) (E_fstat fd)"

definition sys_statx :: "kernel \<Rightarrow> nat \<Rightarrow> (u32 \<times> u64) sys io" where
  "sys_statx k fd = call (\<lambda>t. k_statx k t fd) (E_statx fd)"

definition sys_close :: "kernel \<Rightarrow> nat \<Rightarrow> unit sys io" where
  "sys_close k fd = call (\<lambda>t. k_close k t fd) (E_close fd)"

definition sys_getrandom :: "kernel \<Rightarrow> nat \<Rightarrow> bytes sys io" where
  "sys_getrandom k n = call (\<lambda>t. k_getrandom k t n) (E_getrandom n)"

definition sys_fchmod :: "kernel \<Rightarrow> nat \<Rightarrow> u32 \<Rightarrow> unit sys io" where
  "sys_fchmod k fd mode = call (\<lambda>t. k_fchmod k t fd mode) (E_fchmod fd mode)"

definition sys_write :: "kernel \<Rightarrow> nat \<Rightarrow> bytes \<Rightarrow> nat sys io" where
  "sys_write k fd bs = call (\<lambda>t. k_write k t fd bs) (E_write fd bs)"

definition sys_fsync :: "kernel \<Rightarrow> nat \<Rightarrow> unit sys io" where
  "sys_fsync k fd = call (\<lambda>t. k_fsync k t fd) (E_fsync fd)"

definition sys_renameat2 :: "kernel \<Rightarrow> nat \<Rightarrow> bytes \<Rightarrow> nat \<Rightarrow> bytes \<Rightarrow> u32 \<Rightarrow> unit sys io" where
  "sys_renameat2 k d1 n1 d2 n2 flags =
     call (\<lambda>t. k_renameat2 k t d1 n1 d2 n2 flags) (E_renameat2 d1 n1 d2 n2 flags)"

definition sys_unlinkat :: "kernel \<Rightarrow> nat \<Rightarrow> bytes \<Rightarrow> unit sys io" where
  "sys_unlinkat k dir name = call (\<lambda>t. k_unlinkat k t dir name) (E_unlinkat dir name)"

definition sys_read :: "kernel \<Rightarrow> nat \<Rightarrow> nat \<Rightarrow> bytes sys io" where
  "sys_read k fd n = call (\<lambda>t. k_read k t fd n) (E_read fd n)"

definition sys_malloc :: "kernel \<Rightarrow> nat \<Rightarrow> bool io" where
  "sys_malloc k n = call (\<lambda>t. k_malloc k t n) (E_malloc n)"

text \<open>An \<open>openat\<close> without \<open>O_CREAT\<close>; \<open>fstatat\<close> with \<open>AT_SYMLINK_NOFOLLOW\<close>; a directory stream, known by its
  descriptor, with the names its \<open>readdir\<close> calls deliver and the error that ends them, if one does.\<close>

definition sys_open_directory :: "kernel \<Rightarrow> nat \<Rightarrow> bytes \<Rightarrow> u64 \<Rightarrow> nat sys io" where
  "sys_open_directory k dir path flags = call (\<lambda>t. k_open_directory k t dir path flags) (E_open_directory dir path flags)"

definition sys_dup :: "kernel \<Rightarrow> nat \<Rightarrow> nat sys io" where
  "sys_dup k fd = call (\<lambda>t. k_dup k t fd) (E_dup fd)"

definition sys_fdopendir :: "kernel \<Rightarrow> nat \<Rightarrow> (bytes list \<times> errno option) sys io" where
  "sys_fdopendir k fd = call (\<lambda>t. k_fdopendir k t fd) (E_fdopendir fd)"

definition sys_closedir :: "kernel \<Rightarrow> nat \<Rightarrow> unit sys io" where
  "sys_closedir k fd = call (\<lambda>t. k_closedir k t fd) (E_closedir fd)"

definition sys_fstatat :: "kernel \<Rightarrow> nat \<Rightarrow> bytes \<Rightarrow> file_stat sys io" where
  "sys_fstatat k dir name = call (\<lambda>t. k_fstatat k t dir name) (E_fstatat dir name)"

lemmas sys_defs = sys_clock_gettime_def sys_openat2_def sys_openat_def sys_fstat_def sys_statx_def sys_close_def
  sys_getrandom_def sys_fchmod_def sys_write_def sys_fsync_def sys_renameat2_def sys_unlinkat_def sys_read_def
  sys_malloc_def sys_open_directory_def sys_dup_def sys_fdopendir_def sys_closedir_def sys_fstatat_def

text \<open>The flags, with their Linux x86-64 values.\<close>

definition O_RDONLY :: u64 where "O_RDONLY = 0"
definition O_WRONLY :: u64 where "O_WRONLY = 1"
definition O_CREAT :: u64 where "O_CREAT = 0x40"
definition O_EXCL :: u64 where "O_EXCL = 0x80"
definition O_NONBLOCK_FLAG :: u64 where "O_NONBLOCK_FLAG = 0x800"
definition O_DIRECTORY :: u64 where "O_DIRECTORY = 0x10000"
definition O_NOFOLLOW :: u64 where "O_NOFOLLOW = 0x20000"
definition O_CLOEXEC :: u64 where "O_CLOEXEC = 0x80000"
definition O_PATH :: u64 where "O_PATH = 0x200000"
definition RESOLVE_NO_XDEV :: u64 where "RESOLVE_NO_XDEV = 1"
definition RESOLVE_NO_MAGICLINKS :: u64 where "RESOLVE_NO_MAGICLINKS = 2"
definition RESOLVE_NO_SYMLINKS :: u64 where "RESOLVE_NO_SYMLINKS = 4"
definition RESOLVE_BENEATH :: u64 where "RESOLVE_BENEATH = 8"
definition RENAME_NOREPLACE :: u32 where "RENAME_NOREPLACE = 1"
definition STATX_MNT_ID :: u32 where "STATX_MNT_ID = 0x1000"

definition resolve_strict :: u64 where
  "resolve_strict = RESOLVE_BENEATH OR RESOLVE_NO_SYMLINKS OR RESOLVE_NO_MAGICLINKS OR RESOLVE_NO_XDEV"

subsection \<open>Identities and the handle\<close>

record proc17_identity =
  id_device :: u64
  id_inode :: u64
  id_mount_id :: u64

definition zero_identity :: proc17_identity where
  "zero_identity = \<lparr>id_device = 0, id_inode = 0, id_mount_id = 0\<rparr>"

record proc17_repository_handle_prefix_v0 =
  abi_magic :: u64
  abi_version :: u32
  abi_struct_bytes :: u32
  abi_project_base_fd :: "nat option"
  abi_repository_fd :: "nat option"
  abi_closed :: bool
  abi_reserved :: u32
  abi_project_device :: u64
  abi_project_inode :: u64
  abi_project_mount_id :: u64
  abi_repository_device :: u64
  abi_repository_inode :: u64
  abi_repository_mount_id :: u64

text \<open>The array \<open>paths\<close> holds both strings, each with its terminating zero byte.\<close>

record proc17_repository_handle =
  h_abi :: proc17_repository_handle_prefix_v0
  h_project_base_length :: nat
  h_repository_path_length :: nat
  h_paths :: bytes

definition c_string :: "bytes \<Rightarrow> bytes" where
  "c_string s = takeWhile (\<lambda>b. b \<noteq> 0) s"

definition handle_project_base :: "proc17_repository_handle \<Rightarrow> bytes" where
  "handle_project_base handle = c_string (h_paths handle)"

definition handle_repository_path :: "proc17_repository_handle \<Rightarrow> bytes" where
  "handle_repository_path handle = c_string (drop (h_project_base_length handle + 1) (h_paths handle))"

definition handle_project_identity_equal :: "proc17_repository_handle \<Rightarrow> proc17_identity \<Rightarrow> bool" where
  "handle_project_identity_equal handle identity \<longleftrightarrow>
     abi_project_device (h_abi handle) = id_device identity
     \<and> abi_project_inode (h_abi handle) = id_inode identity
     \<and> abi_project_mount_id (h_abi handle) = id_mount_id identity"

definition handle_repository_identity_equal :: "proc17_repository_handle \<Rightarrow> proc17_identity \<Rightarrow> bool" where
  "handle_repository_identity_equal handle identity \<longleftrightarrow>
     abi_repository_device (h_abi handle) = id_device identity
     \<and> abi_repository_inode (h_abi handle) = id_inode identity
     \<and> abi_repository_mount_id (h_abi handle) = id_mount_id identity"

definition handle_store_identities ::
  "proc17_repository_handle \<Rightarrow> proc17_identity \<Rightarrow> proc17_identity \<Rightarrow> proc17_repository_handle" where
  "handle_store_identities handle project repository =
     handle\<lparr>h_abi := (h_abi handle)\<lparr>abi_project_device := id_device project,
       abi_project_inode := id_inode project, abi_project_mount_id := id_mount_id project,
       abi_repository_device := id_device repository, abi_repository_inode := id_inode repository,
       abi_repository_mount_id := id_mount_id repository\<rparr>\<rparr>"

text \<open>\<open>observe_identity\<close>: the identity, or the error number it leaves in \<open>errno\<close>.\<close>

definition observe_identity :: "kernel \<Rightarrow> nat \<Rightarrow> (errno + proc17_identity) io" where
  "observe_identity k descriptor = do {
     r \<leftarrow> sys_fstat k descriptor;
     (case r of
        Sys_err e \<Rightarrow> ret (Inl e)
      | Sys_ok status \<Rightarrow>
          if \<not> S_ISDIR (stat_mode status) then ret (Inl ENOTDIR)
          else do {
            x \<leftarrow> sys_statx k descriptor;
            (case x of
               Sys_err e \<Rightarrow> ret (Inl e)
             | Sys_ok (stx_mask, mount) \<Rightarrow>
                 if stx_mask AND STATX_MNT_ID = 0 then ret (Inl ENOTSUP)
                 else ret (Inr \<lparr>id_device = stat_dev status, id_inode = stat_ino status,
                                id_mount_id = mount\<rparr>))
          })
   }"

definition close_once :: "kernel \<Rightarrow> nat option \<Rightarrow> unit io" where
  "close_once k descriptor =
     (case descriptor of
        None \<Rightarrow> ret ()
      | Some value \<Rightarrow> do { _ \<leftarrow> sys_close k value; ret () })"

text \<open>A checked close: the error number, \<open>None\<close> for 0.\<close>

definition close_checked :: "kernel \<Rightarrow> nat option \<Rightarrow> errno option io" where
  "close_checked k descriptor =
     (case descriptor of
        None \<Rightarrow> ret None
      | Some value \<Rightarrow> do {
          r \<leftarrow> sys_close k value;
          ret (case r of Sys_ok _ \<Rightarrow> None | Sys_err e \<Rightarrow> Some e)
        })"

definition first_of :: "errno option \<Rightarrow> errno option \<Rightarrow> errno option" where
  "first_of first_error close_error = (if first_error = None then close_error else first_error)"

definition close_pair :: "kernel \<Rightarrow> nat option \<Rightarrow> nat option \<Rightarrow> errno option io" where
  "close_pair k project_base_fd repository_fd = do {
     first_error \<leftarrow> close_checked k repository_fd;
     close_error \<leftarrow> close_checked k project_base_fd;
     ret (first_of first_error close_error)
   }"

text \<open>The opened pair: the two descriptors and identities, or the stage and the error.\<close>

record root_pair =
  rp_project_base_fd :: nat
  rp_repository_fd :: nat
  rp_project_base_identity :: proc17_identity
  rp_repository_identity :: proc17_identity

definition openat2_exact :: "kernel \<Rightarrow> nat option \<Rightarrow> bytes \<Rightarrow> u64 \<Rightarrow> nat sys io" where
  "openat2_exact k dir path resolve = sys_openat2 k dir path (O_PATH OR O_DIRECTORY OR O_CLOEXEC) resolve"

definition open_identity_pair ::
  "kernel \<Rightarrow> bytes \<Rightarrow> bytes \<Rightarrow> (string \<times> errno + root_pair) io" where
  "open_identity_pair k project_base repository_path = do {
     b \<leftarrow> openat2_exact k None project_base (RESOLVE_NO_SYMLINKS OR RESOLVE_NO_MAGICLINKS);
     (case b of
        Sys_err e \<Rightarrow> ret (Inl (''open_project_base'', e))
      | Sys_ok bfd \<Rightarrow> do {
          bi \<leftarrow> observe_identity k bfd;
          (case bi of
             Inl e \<Rightarrow> do { close_once k (Some bfd); ret (Inl (''observe_project_base'', e)) }
           | Inr base_identity \<Rightarrow> do {
               r \<leftarrow> openat2_exact k (Some bfd) repository_path resolve_strict;
               (case r of
                  Sys_err e \<Rightarrow> do { close_once k (Some bfd); ret (Inl (''open_repository_root'', e)) }
                | Sys_ok rfd \<Rightarrow> do {
                    ri \<leftarrow> observe_identity k rfd;
                    (case ri of
                       Inl e \<Rightarrow> do {
                         close_once k (Some rfd); close_once k (Some bfd);
                         ret (Inl (''observe_repository_root'', e))
                       }
                     | Inr repository_identity \<Rightarrow>
                         if id_mount_id repository_identity \<noteq> id_mount_id base_identity
                         then do {
                           close_once k (Some rfd); close_once k (Some bfd);
                           ret (Inl (''observe_repository_root'', EXDEV))
                         }
                         else ret (Inr \<lparr>rp_project_base_fd = bfd, rp_repository_fd = rfd,
                                        rp_project_base_identity = base_identity,
                                        rp_repository_identity = repository_identity\<rparr>))
                  })
             })
        })
   }"

definition handle_matches :: "proc17_repository_handle \<Rightarrow> root_pair \<Rightarrow> bool" where
  "handle_matches handle pair \<longleftrightarrow>
     handle_project_identity_equal handle (rp_project_base_identity pair)
     \<and> handle_repository_identity_equal handle (rp_repository_identity pair)"

subsection \<open>Clock and error codes\<close>

definition LUA_MAXINTEGER :: u64 where
  "LUA_MAXINTEGER = 0x7fffffffffffffff"

definition monotonic_milliseconds :: "kernel \<Rightarrow> u64 io" where
  "monotonic_milliseconds k = do {
     r \<leftarrow> sys_clock_gettime k;
     ret (case r of
            Sys_err _ \<Rightarrow> 0
          | Sys_ok (seconds, nanoseconds) \<Rightarrow> of_int seconds * 1000 + of_int nanoseconds div 1000000)
   }"

definition elapsed_milliseconds :: "kernel \<Rightarrow> u64 \<Rightarrow> int io" where
  "elapsed_milliseconds k started = do {
     finished \<leftarrow> monotonic_milliseconds k;
     ret (let elapsed = (if finished \<ge> started then finished - started else 0)
          in if elapsed > LUA_MAXINTEGER then uint LUA_MAXINTEGER else uint elapsed)
   }"

definition open_error_code :: "errno \<Rightarrow> string" where
  "open_error_code error_number =
     (if error_number = ELOOP then ''path_symlink''
      else if error_number = EXDEV then ''path_containment_denied''
      else if error_number = ENOENT then ''root_missing''
      else if error_number = ENOTDIR then ''root_invalid''
      else if error_number \<in> {EACCES, EPERM} then ''permission_denied''
      else if error_number \<in> {ENOSYS, EINVAL, ENOTSUP} then ''provider_unavailable''
      else ''io_failure'')"

definition parent_error_code :: "errno \<Rightarrow> string" where
  "parent_error_code error_number =
     (if error_number = ENOENT then ''parent_missing''
      else if error_number = ENOTDIR then ''parent_not_directory''
      else if error_number = ELOOP then ''path_symlink''
      else if error_number = EXDEV then ''path_containment_denied''
      else if error_number \<in> {EACCES, EPERM, EROFS} then ''permission_denied''
      else if error_number \<in> {ENOSYS, EINVAL, ENOTSUP} then ''provider_unavailable''
      else ''io_failure'')"

definition mutation_error_code :: "errno \<Rightarrow> string" where
  "mutation_error_code error_number =
     (if error_number \<in> {ENOSPC, EDQUOT} then ''no_space''
      else if error_number \<in> {EACCES, EPERM, EROFS} then ''permission_denied''
      else ''io_failure'')"

definition random_error_code :: "errno \<Rightarrow> string" where
  "random_error_code error_number = (if error_number = ENOSYS then ''provider_unavailable'' else ''io_failure'')"

definition rename_error_code :: "errno \<Rightarrow> string" where
  "rename_error_code error_number =
     (if error_number = EEXIST then ''target_exists''
      else if error_number = ENOSYS \<or> error_number = EINVAL \<or> error_number = ENOTSUP
      then ''provider_unavailable''
      else mutation_error_code error_number)"

definition read_path_error_code :: "errno \<Rightarrow> string" where
  "read_path_error_code error_number =
     (if error_number = ELOOP then ''path_symlink''
      else if error_number = EXDEV then ''path_containment_denied''
      else if error_number \<in> {EACCES, EPERM} then ''permission_denied''
      else if error_number \<in> {ENOSYS, EINVAL, ENOTSUP} then ''provider_unavailable''
      else ''io_failure'')"

text \<open>The code reported when the roots cannot be reopened.\<close>

definition root_error_code :: "errno \<Rightarrow> string" where
  "root_error_code saved_error =
     (if saved_error = ENOSYS \<or> saved_error = EINVAL \<or> saved_error = ENOTSUP
      then ''provider_unavailable'' else ''root_changed'')"

text \<open>The error table pushed for Lua.\<close>

record provider_error =
  pe_class :: string
  pe_code :: string
  pe_stage :: string
  pe_errno :: "errno option"
  pe_mutation_primitive_entered :: bool
  pe_published :: bool
  pe_tool_calls :: int
  pe_file_writes :: int
  pe_time_ms :: int
  pe_residue :: "bytes option"

definition push_error :: "string \<Rightarrow> string \<Rightarrow> string \<Rightarrow> errno option \<Rightarrow> int \<Rightarrow> provider_error" where
  "push_error class_name code stage error_number tool_calls =
     \<lparr>pe_class = class_name, pe_code = code, pe_stage = stage, pe_errno = error_number,
      pe_mutation_primitive_entered = False, pe_published = False, pe_tool_calls = tool_calls,
      pe_file_writes = 0, pe_time_ms = 0, pe_residue = None\<rparr>"

text \<open>The values on the Lua stack; a float is opaque.\<close>

datatype lua_value = Lua_nil | Lua_boolean bool | Lua_integer int | Lua_float | Lua_string bytes | Lua_other


subsection \<open>Descriptors\<close>

text \<open>How often a descriptor number has been opened more often than closed.\<close>

fun held_by :: "event \<Rightarrow> nat \<Rightarrow> int" where
  "held_by (E_openat2 _ _ _ _ (Sys_ok fd)) x = of_bool (x = fd)"
| "held_by (E_openat _ _ _ _ (Sys_ok fd)) x = of_bool (x = fd)"
| "held_by (E_open_directory _ _ _ (Sys_ok fd)) x = of_bool (x = fd)"
| "held_by (E_dup _ (Sys_ok fd)) x = of_bool (x = fd)"
| "held_by (E_close fd _) x = - of_bool (x = fd)"
| "held_by (E_closedir fd _) x = - of_bool (x = fd)"
| "held_by _ x = 0"

definition held :: "trace \<Rightarrow> nat \<Rightarrow> int" where
  "held t x = sum_list (map (\<lambda>e. held_by e x) t)"

lemma held_append [simp]: "held (t @ u) x = held t x + held u x"
  by (simp add: held_def)

lemma held_Nil [simp]: "held [] x = 0"
  by (simp add: held_def)

lemma held_Cons [simp]: "held (e # u) x = held_by e x + held u x"
  by (simp add: held_def)

lemma held_by_simps [simp]:
  "held_by (E_openat2 d p f r a) x = (case a of Sys_ok fd \<Rightarrow> of_bool (x = fd) | Sys_err _ \<Rightarrow> 0)"
  "held_by (E_openat d2 p2 f2 m2 a) x = (case a of Sys_ok fd \<Rightarrow> of_bool (x = fd) | Sys_err _ \<Rightarrow> 0)"
  "held_by (E_open_directory d3 p3 f3 a) x = (case a of Sys_ok fd \<Rightarrow> of_bool (x = fd) | Sys_err _ \<Rightarrow> 0)"
  "held_by (E_dup d4 a) x = (case a of Sys_ok fd \<Rightarrow> of_bool (x = fd) | Sys_err _ \<Rightarrow> 0)"
  by (simp_all split: sys.split)

lemma emits_held:
  assumes "emits m (\<lambda>_ u. \<forall>x. held u x = 0)"
  shows "held (snd (run_state m t)) x = held t x"
proof -
  obtain a t' where "run_state m t = (a, t')" by force
  with emits_run [OF assms this] show ?thesis by auto
qed

text \<open>The calls that change a directory or a file, when they succeed.\<close>

fun quiet :: "event \<Rightarrow> bool" where
  "quiet (E_openat _ _ _ _ (Sys_ok _)) = False"
| "quiet (E_write _ _ (Sys_ok _)) = False"
| "quiet (E_renameat2 _ _ _ _ _ (Sys_ok _)) = False"
| "quiet (E_unlinkat _ _ (Sys_ok _)) = False"
| "quiet _ = True"

text \<open>Calls that only observe, whatever they answer.\<close>

fun observing :: "event \<Rightarrow> bool" where
  "observing (E_openat _ _ _ _ _) = False"
| "observing (E_write _ _ _) = False"
| "observing (E_renameat2 _ _ _ _ _ _) = False"
| "observing (E_unlinkat _ _ _) = False"
| "observing (E_fchmod _ _ _) = False"
| "observing (E_fsync _ _) = False"
| "observing _ = True"

lemma observing_quiet [simp]: "observing e \<Longrightarrow> quiet e"
  by (cases e) auto

lemma observing_quiet_list [simp]: "list_all observing u \<Longrightarrow> list_all quiet u"
  by (auto simp: list_all_iff)

definition opt_held :: "nat option \<Rightarrow> nat \<Rightarrow> int" where
  "opt_held d x = (case d of None \<Rightarrow> 0 | Some fd \<Rightarrow> of_bool (x = fd))"

lemma opt_held_simps [simp]: "opt_held None x = 0" "opt_held (Some fd) x = of_bool (x = fd)"
  by (simp_all add: opt_held_def)

lemma observe_identity_emits:
  "emits (observe_identity k fd) (\<lambda>_ u. list_all observing u \<and> (\<forall>x. held u x = 0))"
  by (auto simp: observe_identity_def sys_defs intro!: emits_call_bind split: sys.split prod.split)

lemma close_once_emits:
  "emits (close_once k d) (\<lambda>_ u. list_all observing u \<and> (\<forall>x. held u x = - opt_held d x))"
  by (auto simp: close_once_def sys_defs intro!: emits_call_bind split: option.split)

lemma close_checked_emits:
  "emits (close_checked k d) (\<lambda>_ u. list_all observing u \<and> (\<forall>x. held u x = - opt_held d x))"
  by (auto simp: close_checked_def sys_defs intro!: emits_call_bind split: option.split)

lemma close_pair_emits:
  "emits (close_pair k b r) (\<lambda>_ u. list_all observing u \<and> (\<forall>x. held u x =
      - opt_held b x - opt_held r x))"
  unfolding close_pair_def
  by (rule emits_bind [OF close_checked_emits], rule emits_bind [OF close_checked_emits]) auto

lemma clock_emits:
  "emits (monotonic_milliseconds k) (\<lambda>_ u. list_all observing u \<and> (\<forall>x. held u x = 0))"
  "emits (elapsed_milliseconds k s) (\<lambda>_ u. list_all observing u \<and> (\<forall>x. held u x = 0))"
  by (auto simp: monotonic_milliseconds_def elapsed_milliseconds_def sys_defs intro!: emits_call_bind)

text \<open>The root pair is opened as a whole or not at all.\<close>

definition pair_held :: "root_pair \<Rightarrow> nat \<Rightarrow> int" where
  "pair_held p x = of_bool (x = rp_project_base_fd p) + of_bool (x = rp_repository_fd p)"

fun opened_held :: "'e + root_pair \<Rightarrow> nat \<Rightarrow> int" where
  "opened_held (Inl _) x = 0"
| "opened_held (Inr p) x = pair_held p x"

lemma open_identity_pair_emits:
  "emits (open_identity_pair k b r)
     (\<lambda>opened u. list_all observing u \<and> (\<forall>x. held u x = opened_held opened x))"
  unfolding open_identity_pair_def openat2_exact_def sys_openat2_def close_once_def sys_close_def
  by (auto simp: pair_held_def split: sys.split sum.split
      intro!: emits_call_bind emits_bind [OF observe_identity_emits])


text \<open>The roots behind a pair: two directories on one mount, the second opened beneath the first, with
  the identities the kernel reported for them.\<close>

definition identity_seen :: "nat \<Rightarrow> proc17_identity \<Rightarrow> trace \<Rightarrow> bool" where
  "identity_seen fd i u \<longleftrightarrow>
     (\<exists>st stx_mask. E_fstat fd (Sys_ok st) \<in> set u \<and> E_statx fd (Sys_ok (stx_mask, id_mount_id i)) \<in> set u
        \<and> S_ISDIR (stat_mode st) \<and> stx_mask AND STATX_MNT_ID \<noteq> 0
        \<and> id_device i = stat_dev st \<and> id_inode i = stat_ino st)"

definition roots_seen :: "bytes \<Rightarrow> bytes \<Rightarrow> root_pair \<Rightarrow> trace \<Rightarrow> bool" where
  "roots_seen base path p u \<longleftrightarrow>
     E_openat2 None base (O_PATH OR O_DIRECTORY OR O_CLOEXEC) (RESOLVE_NO_SYMLINKS OR RESOLVE_NO_MAGICLINKS)
       (Sys_ok (rp_project_base_fd p)) \<in> set u
     \<and> E_openat2 (Some (rp_project_base_fd p)) path (O_PATH OR O_DIRECTORY OR O_CLOEXEC) resolve_strict
         (Sys_ok (rp_repository_fd p)) \<in> set u
     \<and> identity_seen (rp_project_base_fd p) (rp_project_base_identity p) u
     \<and> identity_seen (rp_repository_fd p) (rp_repository_identity p) u
     \<and> id_mount_id (rp_repository_identity p) = id_mount_id (rp_project_base_identity p)"

lemma identity_seen_mono: "identity_seen fd i u \<Longrightarrow> set u \<subseteq> set w \<Longrightarrow> identity_seen fd i w"
  unfolding identity_seen_def by blast

lemma roots_seen_mono: "roots_seen base path p u \<Longrightarrow> set u \<subseteq> set w \<Longrightarrow> roots_seen base path p w"
  unfolding roots_seen_def using identity_seen_mono by blast

lemma roots_seen_append: "roots_seen base path p u \<Longrightarrow> roots_seen base path p (u @ w)"
  by (erule roots_seen_mono) simp

lemma observe_identity_seen:
  "emits (observe_identity k fd) (\<lambda>r u. \<forall>i. r = Inr i \<longrightarrow> identity_seen fd i u)"
  by (auto simp: observe_identity_def sys_defs identity_seen_def intro!: emits_call_bind split: sys.split prod.split)

lemma open_identity_pair_seen:
  "emits (open_identity_pair k base path) (\<lambda>opened u. \<forall>p. opened = Inr p \<longrightarrow> roots_seen base path p u)"
  unfolding open_identity_pair_def openat2_exact_def sys_openat2_def close_once_def sys_close_def
  by (auto simp: roots_seen_def split: sys.split sum.split
      intro!: emits_call_bind emits_bind [OF observe_identity_seen]; erule identity_seen_mono; force)

subsection \<open>The contract of an operation on a handle\<close>

text \<open>Every operation gives back the descriptors it opened, and refuses a closed handle without a call
  other than asking for the time.\<close>

definition refusal :: "provider_error \<Rightarrow> bool" where
  "refusal e \<longleftrightarrow> pe_class e = ''contract'' \<and> pe_code e = ''handle_closed'' \<and> \<not> pe_mutation_primitive_entered e
     \<and> \<not> pe_published e \<and> pe_tool_calls e = 0 \<and> pe_file_writes e = 0"

lemma refusal_push [simp]: "refusal (push_error ''contract'' ''handle_closed'' stage e 0)"
  by (simp add: refusal_def push_error_def)

fun asks_time :: "event \<Rightarrow> bool" where
  "asks_time (E_clock_gettime _) = True"
| "asks_time _ = False"

locale provider_operation =
  fixes operation :: "kernel \<Rightarrow> proc17_repository_handle \<Rightarrow> 'q \<Rightarrow> (provider_error + 'r) io"
  assumes balanced: "emits (operation k h q) (\<lambda>_ u. \<forall>x. held u x = 0)"
    and refuses: "abi_closed (h_abi h) \<Longrightarrow>
      emits (operation k h q) (\<lambda>r u. (\<exists>e. r = Inl e \<and> refusal e) \<and> list_all asks_time u)"
begin

lemma keeps_descriptors: "held (snd (run_state (operation k h q) t)) fd = held t fd"
  by (rule emits_held) (rule balanced)

lemma closed_refused:
  assumes "abi_closed (h_abi h)"
  shows "\<exists>e u. run_state (operation k h q) t = (Inl e, t @ u) \<and> refusal e \<and> list_all asks_time u"
proof -
  obtain r t' where "run_state (operation k h q) t = (r, t')" by force
  with emits_run [OF refuses [OF assms] this] show ?thesis by auto
qed

end

subsection \<open>The directory seen through a trace\<close>

text \<open>
  What the calls of a trace do to the files, when nothing else changes them: \<open>files\<close> maps a name in an
  opened directory to the content of the file, \<open>writable\<close> tells which file a descriptor was created
  for.  \<open>None\<close> is a trace with an answer the kernel does not give: \<open>O_CREAT | O_EXCL\<close> succeeding on an
  existing name, \<open>RENAME_NOREPLACE\<close> succeeding on an existing target, or a rename or removal of a name
  that is not there.
\<close>

record view =
  files :: "nat \<times> bytes \<Rightarrow> bytes option"
  writable :: "nat \<Rightarrow> (nat \<times> bytes) option"

fun apply_event :: "event \<Rightarrow> view \<Rightarrow> view option" where
  "apply_event (E_openat d name flags mode (Sys_ok fd)) v =
     (if files v (d, name) \<noteq> None then None
      else Some \<lparr>files = (files v)((d, name) \<mapsto> []), writable = (writable v)(fd \<mapsto> (d, name))\<rparr>)"
| "apply_event (E_openat2 d name flags resolve (Sys_ok fd)) v = Some (v\<lparr>writable := (writable v)(fd := None)\<rparr>)"
| "apply_event (E_open_directory d name flags (Sys_ok fd)) v = Some (v\<lparr>writable := (writable v)(fd := None)\<rparr>)"
| "apply_event (E_dup d (Sys_ok fd)) v = Some (v\<lparr>writable := (writable v)(fd := writable v d)\<rparr>)"
| "apply_event (E_write fd bs (Sys_ok n)) v =
     (case writable v fd of
        None \<Rightarrow> Some v
      | Some e \<Rightarrow> Some (v\<lparr>files := (files v)(e \<mapsto> (case files v e of None \<Rightarrow> [] | Some c \<Rightarrow> c) @ take n bs)\<rparr>))"
| "apply_event (E_renameat2 d a d' b flags (Sys_ok _)) v =
     (case files v (d, a) of
        None \<Rightarrow> None
      | Some c \<Rightarrow>
          if flags = RENAME_NOREPLACE \<and> files v (d', b) \<noteq> None then None
          else Some (v\<lparr>files := (files v)((d, a) := None, (d', b) \<mapsto> c)\<rparr>))"
| "apply_event (E_unlinkat d name (Sys_ok _)) v =
     (if files v (d, name) = None then None else Some (v\<lparr>files := (files v)((d, name) := None)\<rparr>))"
| "apply_event _ v = Some v"

fun replay :: "trace \<Rightarrow> view \<Rightarrow> view option" where
  "replay [] v = Some v"
| "replay (e # u) v = Option.bind (apply_event e v) (replay u)"

lemma replay_append: "replay (u @ w) v = Option.bind (replay u v) (replay w)"
proof (induction u arbitrary: v)
  case (Cons e u)
  then show ?case by (cases "apply_event e v") simp_all
qed simp

lemma apply_quiet: "quiet e \<Longrightarrow> apply_event e v = Some v' \<Longrightarrow> files v' = files v"
  by (cases "(e, v)" rule: apply_event.cases) auto

lemma replay_quiet: "list_all quiet u \<Longrightarrow> replay u v = Some v' \<Longrightarrow> files v' = files v"
  by (induction u arbitrary: v) (auto simp: Option.bind_eq_Some_conv dest: apply_quiet)

lemma replay_quiet_total: "list_all quiet u \<Longrightarrow> \<exists>v'. replay u v = Some v'"
proof (induction u arbitrary: v)
  case (Cons e u)
  then have "\<exists>v1. apply_event e v = Some v1" by (cases "(e, v)" rule: apply_event.cases) auto
  with Cons show ?case by auto
qed simp

subsection \<open>A kernel\<close>

text \<open>A kernel on which every call succeeds, for the concrete instances of the theorems: descriptors are
  numbered by the length of the trace, files made by a transaction are empty regular files of the
  caller, everything else is a private directory of the caller.\<close>

definition sample_stat :: "u32 \<Rightarrow> file_stat" where
  "sample_stat mode = \<lparr>stat_dev = 1, stat_ino = 2, stat_mode = mode, stat_uid = 1000, stat_gid = 1000, stat_nlink = 1,
     stat_size = 0, stat_mtim = (0, 0), stat_ctim = (0, 0)\<rparr>"

fun made_file :: "nat \<Rightarrow> event \<Rightarrow> bool" where
  "made_file fd (E_openat _ _ _ _ (Sys_ok d)) = (d = fd)"
| "made_file fd _ = False"

definition sample_kernel :: kernel where
  "sample_kernel = \<lparr>k_clock_gettime = (\<lambda>_. Sys_ok (5, 0)), k_openat2 = (\<lambda>t _ _ _ _. Sys_ok (length t)),
     k_openat = (\<lambda>t _ _ _ _. Sys_ok (length t)),
     k_fstat = (\<lambda>t fd. Sys_ok (sample_stat (if list_ex (made_file fd) t then 0x8180 else 0x41c0))),
     k_statx = (\<lambda>_ _. Sys_ok (0x1000, 7)), k_close = (\<lambda>_ _. Sys_ok ()),
     k_getrandom = (\<lambda>_ n. Sys_ok (replicate n 0)), k_fchmod = (\<lambda>_ _ _. Sys_ok ()),
     k_write = (\<lambda>_ _ bs. Sys_ok (length bs)), k_fsync = (\<lambda>_ _. Sys_ok ()),
     k_renameat2 = (\<lambda>_ _ _ _ _ _. Sys_ok ()), k_unlinkat = (\<lambda>_ _ _. Sys_ok ()),
     k_read = (\<lambda>_ _ _. Sys_ok []), k_malloc = (\<lambda>_ _. True),
     k_open_directory = (\<lambda>t _ _ _. Sys_ok (length t)), k_dup = (\<lambda>t _. Sys_ok (length t)),
     k_fdopendir = (\<lambda>_ _. Sys_ok ([], None)), k_closedir = (\<lambda>_ _. Sys_ok ()),
     k_fstatat = (\<lambda>_ _ _. Sys_err ENOENT), k_geteuid = 1000\<rparr>"

definition sample_handle :: proc17_repository_handle where
  "sample_handle = \<lparr>h_abi = \<lparr>abi_magic = 0, abi_version = 1, abi_struct_bytes = 80, abi_project_base_fd = Some 3,
       abi_repository_fd = Some 4, abi_closed = False, abi_reserved = 0, abi_project_device = 1,
       abi_project_inode = 2, abi_project_mount_id = 7, abi_repository_device = 1,
       abi_repository_inode = 2, abi_repository_mount_id = 7\<rparr>,
     h_project_base_length = 2, h_repository_path_length = 1, h_paths = ascii ''/p'' @ [0] @ ascii ''r'' @ [0]\<rparr>"

end
