(* ===== verification/Repo_Handle.thy ===== *)
theory Repo_Handle
  imports Repo_Kernel
begin

text \<open>
  The life of a repository handle (\<open>native/proc17_repository_fs.c\<close>): \<open>open_repository\<close> makes it from two
  paths, \<open>revalidate\<close> compares the directories now under these paths with the identities it recorded,
  \<open>close_repository\<close> and the garbage collector give its descriptors back.  The userdata is the record
  \<open>proc17_repository_handle\<close>, passed and returned; \<open>luaL_checklstring\<close> and \<open>check_handle\<close> have turned the
  Lua arguments into byte strings and a handle.
\<close>

definition PROC17_REPOSITORY_HANDLE_MAGIC :: u64 where "PROC17_REPOSITORY_HANDLE_MAGIC = 0x5031375245504f30"
definition PROC17_REPOSITORY_HANDLE_ABI :: u32 where "PROC17_REPOSITORY_HANDLE_ABI = 1"
definition handle_prefix_bytes :: u32 where "handle_prefix_bytes = 80"

definition identity_representable :: "proc17_identity \<Rightarrow> bool" where
  "identity_representable identity \<longleftrightarrow> id_device identity \<le> LUA_MAXINTEGER \<and> id_inode identity \<le> LUA_MAXINTEGER"

definition stat_identity_representable :: "file_stat \<Rightarrow> bool" where
  "stat_identity_representable status \<longleftrightarrow> stat_dev status \<le> LUA_MAXINTEGER \<and> stat_ino status \<le> LUA_MAXINTEGER"

text \<open>An identity as the two signed integers of its Lua table.\<close>

definition push_identity :: "proc17_identity \<Rightarrow> int \<times> int" where
  "push_identity identity = (sint (id_device identity), sint (id_inode identity))"

definition push_stat_identity :: "file_stat \<Rightarrow> int \<times> int" where
  "push_stat_identity status = (sint (stat_dev status), sint (stat_ino status))"

definition close_handle_descriptors ::
  "kernel \<Rightarrow> proc17_repository_handle \<Rightarrow> (errno option \<times> proc17_repository_handle) io" where
  "close_handle_descriptors k handle =
     (if abi_closed (h_abi handle) then ret (None, handle)
      else do {
        result \<leftarrow> close_pair k (abi_project_base_fd (h_abi handle)) (abi_repository_fd (h_abi handle));
        ret (result, handle\<lparr>h_abi := (h_abi handle)\<lparr>abi_project_base_fd := None, abi_repository_fd := None,
                              abi_closed := True\<rparr>\<rparr>)
      })"

definition handle_gc :: "kernel \<Rightarrow> proc17_repository_handle \<Rightarrow> proc17_repository_handle io" where
  "handle_gc k handle = do { (_, handle') \<leftarrow> close_handle_descriptors k handle; ret handle' }"

definition handle_tostring :: "proc17_repository_handle \<Rightarrow> string" where
  "handle_tostring handle =
     ''repository.handle.v0<opaque:'' @ (if abi_closed (h_abi handle) then ''closed>'' else ''open>'')"

text \<open>The handle before the roots are opened.\<close>

definition new_handle :: "bytes \<Rightarrow> bytes \<Rightarrow> proc17_repository_handle" where
  "new_handle project_base repository_path =
     \<lparr>h_abi = \<lparr>abi_magic = PROC17_REPOSITORY_HANDLE_MAGIC, abi_version = PROC17_REPOSITORY_HANDLE_ABI,
        abi_struct_bytes = handle_prefix_bytes, abi_project_base_fd = None, abi_repository_fd = None,
        abi_closed = False, abi_reserved = 0, abi_project_device = 0, abi_project_inode = 0,
        abi_project_mount_id = 0, abi_repository_device = 0, abi_repository_inode = 0,
        abi_repository_mount_id = 0\<rparr>,
      h_project_base_length = length project_base, h_repository_path_length = length repository_path,
      h_paths = project_base @ [0] @ repository_path @ [0]\<rparr>"

record open_reply =
  ory_project_base :: "int \<times> int"
  ory_root :: "int \<times> int"
  ory_repository_path :: bytes
  ory_host_path :: bytes

definition open_repository ::
  "kernel \<Rightarrow> bytes \<Rightarrow> bytes \<Rightarrow> (provider_error + proc17_repository_handle \<times> open_reply) io" where
  "open_repository k project_base repository_path =
     (if \<not> valid_project_base project_base \<or> \<not> valid_repository_path repository_path
      then ret (Inl (push_error ''contract'' ''invalid_request'' ''validate_root_request'' (Some EINVAL) 0))
      else
        (let handle = new_handle project_base repository_path
         in do {
           opened \<leftarrow> open_identity_pair k project_base repository_path;
           (case opened of
              Inl (stage, saved) \<Rightarrow> do {
                _ \<leftarrow> close_handle_descriptors k handle;
                ret (Inl (push_error ''world'' (open_error_code saved) stage (Some saved) 1))
              }
            | Inr pair \<Rightarrow>
                (let handle = handle\<lparr>h_abi := (h_abi handle)\<lparr>abi_project_base_fd := Some (rp_project_base_fd pair),
                       abi_repository_fd := Some (rp_repository_fd pair)\<rparr>\<rparr>
                 in if \<not> identity_representable (rp_project_base_identity pair)
                       \<or> \<not> identity_representable (rp_repository_identity pair)
                    then do {
                      _ \<leftarrow> close_handle_descriptors k handle;
                      ret (Inl (push_error ''contract'' ''identity_unrepresentable'' ''project_root_identity''
                                  (Some EOVERFLOW) 1))
                    }
                    else
                      ret (Inr (handle_store_identities handle (rp_project_base_identity pair)
                                  (rp_repository_identity pair),
                        \<lparr>ory_project_base = push_identity (rp_project_base_identity pair),
                         ory_root = push_identity (rp_repository_identity pair),
                         ory_repository_path = repository_path,
                         ory_host_path = c_string project_base @ slash # c_string repository_path\<rparr>))))
         }))"

definition revalidate ::
  "kernel \<Rightarrow> proc17_repository_handle \<Rightarrow> (provider_error + int \<times> int) io" where
  "revalidate k handle =
     (if abi_closed (h_abi handle)
      then ret (Inl (push_error ''contract'' ''handle_closed'' ''revalidate_handle'' None 0))
      else do {
        opened \<leftarrow> open_identity_pair k (handle_project_base handle) (handle_repository_path handle);
        (case opened of
           Inl (stage, saved) \<Rightarrow> ret (Inl (push_error ''world'' (root_error_code saved) stage (Some saved) 1))
         | Inr pair \<Rightarrow>
             if \<not> handle_matches handle pair
             then do {
               _ \<leftarrow> close_pair k (Some (rp_project_base_fd pair)) (Some (rp_repository_fd pair));
               ret (Inl (push_error ''world'' ''root_changed'' ''compare_root_identity'' (Some ESTALE) 1))
             }
             else do {
               close_error \<leftarrow> close_pair k (Some (rp_project_base_fd pair)) (Some (rp_repository_fd pair));
               ret (case close_error of
                      Some e \<Rightarrow> Inl (push_error ''world'' ''io_failure'' ''close_revalidation_descriptors'' (Some e) 1)
                    | None \<Rightarrow> Inr (push_identity (rp_repository_identity pair)))
             })
      })"

definition close_repository ::
  "kernel \<Rightarrow> proc17_repository_handle \<Rightarrow> ((provider_error + bool) \<times> proc17_repository_handle) io" where
  "close_repository k handle = do {
     (close_error, handle') \<leftarrow> close_handle_descriptors k handle;
     ret (case close_error of
            Some e \<Rightarrow> Inl (push_error ''world'' ''io_failure'' ''close_repository'' (Some e) 0)
          | None \<Rightarrow> Inr True, handle')
   }"

subsection \<open>What the operations do with the descriptors\<close>

definition handle_held :: "proc17_repository_handle \<Rightarrow> nat \<Rightarrow> int" where
  "handle_held h x = (if abi_closed (h_abi h) then 0
     else opt_held (abi_project_base_fd (h_abi h)) x + opt_held (abi_repository_fd (h_abi h)) x)"

lemma close_handle_emits:
  "emits (close_handle_descriptors k h) (\<lambda>(e, h') u. list_all observing u \<and> (\<forall>x. held u x = - handle_held h x)
     \<and> abi_closed (h_abi h') \<and> h_paths h' = h_paths h)"
  by (auto simp: close_handle_descriptors_def handle_held_def intro!: emits_bind [OF close_pair_emits])

lemma close_repository_emits:
  "emits (close_repository k h) (\<lambda>(_, h') u. list_all observing u \<and> (\<forall>x. held u x = - handle_held h x)
     \<and> abi_closed (h_abi h'))"
  unfolding close_repository_def by (rule emits_bind [OF close_handle_emits]) auto

lemma handle_gc_emits:
  "emits (handle_gc k h) (\<lambda>h' u. list_all observing u \<and> (\<forall>x. held u x = - handle_held h x) \<and> abi_closed (h_abi h'))"
  unfolding handle_gc_def by (rule emits_bind [OF close_handle_emits]) auto

lemmas open_pair_emits = emits_conj [OF open_identity_pair_emits open_identity_pair_seen]

lemma revalidate_emits:
  "emits (revalidate k h) (\<lambda>r u. list_all observing u \<and> (\<forall>x. held u x = 0)
     \<and> (case r of
          Inl _ \<Rightarrow> True
        | Inr root \<Rightarrow> (\<exists>p. roots_seen (handle_project_base h) (handle_repository_path h) p u
            \<and> handle_matches h p \<and> root = push_identity (rp_repository_identity p))))"
  unfolding revalidate_def
  by (auto simp: pair_held_def push_identity_def split: sum.split option.split
      intro!: emits_bind [OF open_pair_emits] emits_bind [OF close_pair_emits] roots_seen_append exI)

interpretation revalidation: provider_operation "\<lambda>k h (_ :: unit). revalidate k h"
  by unfold_locales (rule emits_mono [OF revalidate_emits], simp_all add: revalidate_def)

text \<open>A new handle gives its paths back.\<close>

lemma path_without_zero: "path_grammar path \<Longrightarrow> 0 \<notin> set path"
  unfolding path_grammar_def using path_join_no_nul by blast

lemma c_string_zero: "0 \<notin> set s \<Longrightarrow> c_string (s @ 0 # r) = s" "0 \<notin> set s \<Longrightarrow> c_string s = s"
  by (auto simp: c_string_def takeWhile_append takeWhile_eq_all_conv)

definition opened_handle :: "bytes \<Rightarrow> bytes \<Rightarrow> root_pair \<Rightarrow> proc17_repository_handle \<Rightarrow> bool" where
  "opened_handle base path p h \<longleftrightarrow> handle_project_base h = base \<and> handle_repository_path h = path
     \<and> \<not> abi_closed (h_abi h) \<and> abi_project_base_fd (h_abi h) = Some (rp_project_base_fd p)
     \<and> abi_repository_fd (h_abi h) = Some (rp_repository_fd p) \<and> handle_matches h p"

lemma open_repository_emits:
  "emits (open_repository k base path) (\<lambda>r u. list_all observing u
     \<and> (case r of
          Inl e \<Rightarrow> (\<forall>x. held u x = 0)
        | Inr (h, reply) \<Rightarrow> (\<forall>x. held u x = handle_held h x)
            \<and> (\<exists>p. roots_seen base path p u \<and> opened_handle base path p h
                 \<and> ory_root reply = push_identity (rp_repository_identity p))))"
proof (cases "valid_project_base base \<and> valid_repository_path path")
  case False
  then show ?thesis by (auto simp: open_repository_def)
next
  case True
  have z: "0 \<notin> set base" "0 \<notin> set path"
    using True path_without_zero by (auto simp: valid_project_base_def valid_repository_path_grammar split: if_splits)
  let ?h = "\<lambda>p. (new_handle base path)\<lparr>h_abi := (h_abi (new_handle base path))\<lparr>
     abi_project_base_fd := Some (rp_project_base_fd p), abi_repository_fd := Some (rp_repository_fd p)\<rparr>\<rparr>"
  have oh: "opened_handle base path p (handle_store_identities (?h p) (rp_project_base_identity p) (rp_repository_identity p))" for p
    using z by (simp add: opened_handle_def handle_store_identities_def new_handle_def handle_project_base_def c_string_zero
      handle_repository_path_def handle_matches_def handle_project_identity_equal_def handle_repository_identity_equal_def)
  have witness: "\<exists>q. roots_seen base path q u \<and> opened_handle base path q h
      \<and> push_identity (rp_repository_identity p) = push_identity (rp_repository_identity q)"
    if "opened_handle base path p h" "roots_seen base path p u" for p h u using that by blast
  have hh: "handle_held (handle_store_identities (?h p) i j) x = pair_held p x" "handle_held (?h p) x = pair_held p x"
    "handle_held (new_handle base path) x = 0" for p i j x
    by (simp_all add: handle_held_def handle_store_identities_def new_handle_def pair_held_def)
  show ?thesis
    unfolding open_repository_def Let_def
    using True by (auto simp: hh split: sum.split
        intro!: emits_bind [OF open_pair_emits] emits_bind [OF close_handle_emits]) (erule oh [THEN witness])
qed

subsection \<open>The life of a handle\<close>

text \<open>C31. Revalidation recognises the directories the handle was opened on: when a handle opened on two
  paths is revalidated, the roots now found under the same paths, beneath each other on one mount and
  without links, have the device, inode and mount recorded when it was opened, and the identity replied
  is the one replied then.\<close>

theorem revalidated_root_is_opened_root:
  assumes opened: "run_state (open_repository k base path) t = (Inr (h, reply), t @ u)"
    and valid: "run_state (revalidate k' h) t' = (Inr root, t' @ w)"
  shows "\<exists>p q. roots_seen base path p u \<and> roots_seen base path q w
     \<and> rp_project_base_identity p = rp_project_base_identity q \<and> rp_repository_identity p = rp_repository_identity q
     \<and> root = ory_root reply"
proof -
  from emits_run [OF open_repository_emits opened] obtain p where p: "roots_seen base path p u" "opened_handle base path p h"
    "ory_root reply = push_identity (rp_repository_identity p)" by auto
  from emits_run [OF revalidate_emits valid] obtain q where
    q: "roots_seen (handle_project_base h) (handle_repository_path h) q w" "handle_matches h q"
    "root = push_identity (rp_repository_identity q)" by auto
  have "rp_project_base_identity p = rp_project_base_identity q" "rp_repository_identity p = rp_repository_identity q"
    using p(2) q(2) by (simp_all add: opened_handle_def handle_matches_def handle_project_identity_equal_def
        handle_repository_identity_equal_def)
  then show ?thesis using p q by (auto simp: opened_handle_def)
qed

theorem revalidated_root_is_opened_root_witness:
  "\<exists>h reply u w root p q. run_state (open_repository sample_kernel (ascii ''/p'') (ascii ''r'')) [] = (Inr (h, reply), u)
     \<and> run_state (revalidate sample_kernel h) [] = (Inr root, w) \<and> roots_seen (ascii ''/p'') (ascii ''r'') p u
     \<and> roots_seen (ascii ''/p'') (ascii ''r'') q w \<and> rp_repository_identity p = rp_repository_identity q
     \<and> root = ory_root reply \<and> root = (1, 2)"
proof -
  define o1 where "o1 = run_state (open_repository sample_kernel (ascii ''/p'') (ascii ''r'')) []"
  obtain r u where ru: "o1 = (r, u)" by force
  have "case fst o1 of Inl _ \<Rightarrow> False | Inr (h, reply) \<Rightarrow>
      (case fst (run_state (revalidate sample_kernel h) []) of Inl _ \<Rightarrow> False | Inr root \<Rightarrow> root = (1, 2))"
    unfolding o1_def by code_simp
  then obtain h reply w root where h: "r = Inr (h, reply)" "run_state (revalidate sample_kernel h) [] = (Inr root, w)"
    "root = (1, 2)" unfolding ru
    by (cases "run_state (revalidate sample_kernel (fst (projr r))) []") (auto split: sum.splits)
  have o: "run_state (open_repository sample_kernel (ascii ''/p'') (ascii ''r'')) [] = (Inr (h, reply), [] @ u)"
    using ru h(1) unfolding o1_def by simp
  from revalidated_root_is_opened_root [OF o, of sample_kernel "[]" root w] h(2) obtain p q where
    "roots_seen (ascii ''/p'') (ascii ''r'') p u" "roots_seen (ascii ''/p'') (ascii ''r'') q w"
    "rp_repository_identity p = rp_repository_identity q" "root = ory_root reply" by auto
  with o h(2,3) show ?thesis by (metis append_Nil)
qed

end
