(* ===== verification/Qa_Launcher.thy ===== *)
theory Qa_Launcher
  imports Qa_Launcher_V1 Qa_Policy Repo_Handle
begin

text \<open>
  The values of the launcher module (\<open>native/proc17_qa_launcher.c\<close>): the request table a caller passes, the
  request frame made of it, and the tables pushed for the caller.  The calls of the kernel around them, which
  start the supervisor, are not modelled.

  A Lua value is \<open>lua_data\<close>.  A table is the list of its entries in the order \<open>lua_next\<close> visits them, with
  a flag for a metatable; an integer is the 64-bit \<open>lua_Integer\<close>; a float is the text \<open>lua_tolstring\<close>
  converts it to; a userdata with the metatable of a repository handle is its size and its prefix.
\<close>

subsection \<open>Lua values\<close>

datatype lua_data =
    D_nil
  | D_boolean bool
  | D_integer u64
  | D_float bytes
  | D_string bytes
  | D_table "(lua_data \<times> lua_data) list" bool
  | D_handle nat proc17_repository_handle_prefix_v0
  | D_other

text \<open>A C function called from Lua returns values or raises an error.\<close>

datatype lua_outcome = Lua_raises string | Lua_returns "lua_data list"

definition lua_string :: "string \<Rightarrow> lua_data" where
  "lua_string s = D_string (ascii s)"

fun digits :: "nat \<Rightarrow> bytes \<Rightarrow> bytes" where
  "digits n acc = (let acc' = of_nat (48 + n mod 10) # acc in if n < 10 then acc' else digits (n div 10) acc')"

declare digits.simps [simp del]

definition lua_integer_text :: "u64 \<Rightarrow> bytes" where
  "lua_integer_text i = (if sint i < 0 then 45 # digits (nat (- sint i)) [] else digits (nat (sint i)) [])"

text \<open>\<open>lua_tolstring\<close>: it also converts a number, in place, so that a later \<open>lua_type\<close> sees a string.\<close>

fun lua_tolstring :: "lua_data \<Rightarrow> bytes option" where
  "lua_tolstring (D_string s) = Some s"
| "lua_tolstring (D_integer i) = Some (lua_integer_text i)"
| "lua_tolstring (D_float text) = Some text"
| "lua_tolstring _ = None"

text \<open>\<open>lua_getfield\<close> on a table without metatable.\<close>

fun lua_getfield :: "lua_data \<Rightarrow> string \<Rightarrow> lua_data" where
  "lua_getfield (D_table entries metatable) field =
     (case map_of entries (lua_string field) of None \<Rightarrow> D_nil | Some v \<Rightarrow> v)"
| "lua_getfield _ field = D_nil"

subsection \<open>The request table\<close>

text \<open>The loop over the entries of a table: the number of entries, unless a key is not one of the names.\<close>

fun count_known_keys :: "(lua_data \<times> lua_data) list \<Rightarrow> string list \<Rightarrow> nat \<Rightarrow> nat option" where
  "count_known_keys [] keys found = Some found"
| "count_known_keys ((key, v) # entries) keys found =
     (case lua_tolstring key of
        None \<Rightarrow> None
      | Some text \<Rightarrow>
          if list_ex (\<lambda>name. c_string text = ascii name) keys then count_known_keys entries keys (found + 1)
          else None)"

definition exact_table_keys :: "lua_data \<Rightarrow> string list \<Rightarrow> bool" where
  "exact_table_keys v keys =
     (case v of
        D_table entries metatable \<Rightarrow>
          \<not> metatable \<and> count_known_keys entries keys 0 = Some (length keys)
          \<and> list_all (\<lambda>key. lua_getfield v key \<noteq> D_nil) keys
      | _ \<Rightarrow> False)"

definition exact_string :: "lua_data \<Rightarrow> string \<Rightarrow> string \<Rightarrow> bool" where
  "exact_string v field expected \<longleftrightarrow> lua_tolstring (lua_getfield v field) = Some (ascii expected)"

definition tagged_digest_field :: "lua_data \<Rightarrow> string \<Rightarrow> string \<Rightarrow> bytes option" where
  "tagged_digest_field v field tag =
     (case lua_tolstring (lua_getfield v field) of
        None \<Rightarrow> None
      | Some text \<Rightarrow>
          if length text = length tag + PROC17_SHA256_BYTES * 2 \<and> take (length tag) text = ascii tag
          then proc17_sha256_parse_hex (Some (drop (length tag) text))
          else None)"

record proc17_qa_launcher_run =
  rn_transaction :: bytes
  rn_witness :: bytes
  rn_profile :: bytes
  rn_environment :: bytes
  rn_limits :: "u64 list"
  rn_entrypoint :: bytes
  rn_terminal :: proc17_qa_launcher_v1_terminal
  rn_trusted_invariant :: bool

definition request_keys :: "string list" where
  "request_keys = [''protocol_version'', ''operation'', ''transaction_id'', ''witness_id'', ''profile_id'',
     ''environment_id'', ''entrypoint_relative_path'', ''expected_exit_code'', ''resource_limits'']"

definition limit_keys :: "string list" where
  "limit_keys = [''protocol_version'', ''wall_time_ms'', ''cpu_time_ms'', ''address_space_bytes'', ''max_processes'',
     ''max_open_files'', ''max_file_bytes'', ''scratch_bytes'', ''scratch_entries'', ''stdout_bytes'', ''stderr_bytes'']"

definition exact_limits :: "u64 list" where
  "exact_limits = [PROC17_QA_WALL_TIME_MS, PROC17_QA_CPU_TIME_MS, PROC17_QA_ADDRESS_SPACE_BYTES,
     PROC17_QA_MAX_PROCESSES, PROC17_QA_MAX_OPEN_FILES, PROC17_QA_MAX_FILE_BYTES, PROC17_QA_SCRATCH_BYTES,
     PROC17_QA_SCRATCH_ENTRIES, PROC17_QA_STDOUT_BYTES, PROC17_QA_STDERR_BYTES]"

definition limit_names :: "string list" where
  "limit_names = [''wall_time_ms'', ''cpu_time_ms'', ''address_space_bytes'', ''max_processes'', ''max_open_files'',
     ''max_file_bytes'', ''scratch_bytes'', ''scratch_entries'', ''stdout_bytes'', ''stderr_bytes'']"

definition profile_name :: string where
  "profile_name = ''qa.profile.lua54_test_suite.v0''"

definition limits_match :: "lua_data \<Rightarrow> bool" where
  "limits_match v \<longleftrightarrow> list_all (\<lambda>(name, limit). lua_getfield v name = D_integer limit) (zip limit_names exact_limits)"

definition parse_native_run :: "lua_data \<Rightarrow> proc17_qa_launcher_run option" where
  "parse_native_run v =
     (if \<not> exact_table_keys v request_keys
         \<or> \<not> exact_string v ''protocol_version'' ''qa.native_run_request.v1''
         \<or> \<not> exact_string v ''operation'' ''run_lua54_test_suite''
      then None
      else
        (case tagged_digest_field v ''transaction_id'' ''qa-provider-transaction:'' of
           None \<Rightarrow> None
         | Some transaction \<Rightarrow>
        (case tagged_digest_field v ''witness_id'' ''qa-provider-witness:'' of
           None \<Rightarrow> None
         | Some witness \<Rightarrow>
             if \<not> exact_string v ''profile_id'' profile_name then None
             else
        (case tagged_digest_field v ''environment_id'' ''qa-environment:'' of
           None \<Rightarrow> None
         | Some environment \<Rightarrow>
             (let limits = lua_getfield v ''resource_limits''
              in if \<not> exact_string v ''entrypoint_relative_path'' ''tests/run.lua'' then None
                 else if lua_getfield v ''expected_exit_code'' \<noteq> D_integer 0 then None
                 else if \<not> exact_table_keys limits limit_keys
                         \<or> \<not> exact_string limits ''protocol_version'' ''qa.resource_limits.v0'' then None
                 else if \<not> limits_match limits then None
                 else Some \<lparr>rn_transaction = transaction, rn_witness = witness,
                            rn_profile = proc17_sha256_bytes (ascii profile_name), rn_environment = environment,
                            rn_limits = exact_limits, rn_entrypoint = write_at (replicate 1025 0) 0 (ascii ''tests/run.lua''),
                            rn_terminal = zero_terminal, rn_trusted_invariant = False\<rparr>)))))"

subsection \<open>The request frame\<close>

definition PROC17_QA_SOURCE_MOUNT_REQUIRED :: u32 where [simp]: "PROC17_QA_SOURCE_MOUNT_REQUIRED = 15"

record proc17_qa_mount_identity =
  mi_device :: u64
  mi_inode :: u64
  mi_mount_id :: u64

fun put_limits :: "bytes \<Rightarrow> nat \<Rightarrow> u64 list \<Rightarrow> bytes" where
  "put_limits payload off [] = payload"
| "put_limits payload off (limit # limits) = put_limits (proc17_qa_wire_put_u64 payload off limit) (off + 8) limits"

definition request_payload :: "proc17_qa_launcher_run \<Rightarrow> proc17_qa_mount_identity \<Rightarrow> bytes" where
  "request_payload run source =
     (let p0 = replicate PROC17_QA_WIRE_MAX_FRAME_BYTES 0;
          p1 = write_at p0 0 (take PROC17_SHA256_BYTES (rn_transaction run));
          p2 = write_at p1 32 (take PROC17_SHA256_BYTES (rn_witness run));
          p3 = write_at p2 64 (take PROC17_SHA256_BYTES (rn_profile run));
          p4 = write_at p3 96 (take PROC17_SHA256_BYTES (rn_environment run));
          p5 = proc17_qa_wire_put_u64 p4 128 (mi_device source);
          p6 = proc17_qa_wire_put_u64 p5 136 (mi_inode source);
          p7 = proc17_qa_wire_put_u64 p6 144 (mi_mount_id source);
          p8 = put_limits p7 152 (rn_limits run);
          p9 = proc17_qa_wire_put_u32 p8 232 0;
          entrypoint_bytes = c_strlen (rn_entrypoint run);
          p10 = proc17_qa_wire_put_u16 p9 236 (of_nat entrypoint_bytes)
      in write_at p10 238 (take entrypoint_bytes (rn_entrypoint run)))"

definition request_frame :: "proc17_qa_launcher_run \<Rightarrow> proc17_qa_mount_identity \<Rightarrow> (bytes \<times> nat) option" where
  "request_frame run source =
     proc17_qa_wire_encode_run_v1 PROC17_QA_WIRE_RUN_REQUEST_V1 (Some (rn_transaction run))
       (Some (request_payload run source))
       (of_nat (PROC17_QA_RUN_REQUEST_V1_FIXED_BYTES + c_strlen (rn_entrypoint run)))
       (Some (replicate PROC17_QA_WIRE_MAX_FRAME_BYTES 0))"

definition run_expectation :: "proc17_qa_launcher_run \<Rightarrow> proc17_qa_mount_identity \<Rightarrow> proc17_qa_launcher_v1_expectation" where
  "run_expectation run source =
     \<lparr>ex_identity = take PROC17_QA_V1_IDENTITY_BYTES (request_payload run source),
      ex_source_device = mi_device source, ex_source_inode = mi_inode source,
      ex_source_mount_id = mi_mount_id source, ex_source_mount_policy_flags = PROC17_QA_SOURCE_MOUNT_REQUIRED\<rparr>"

definition set_derived_launcher_error ::
  "proc17_qa_launcher_run \<Rightarrow> u16 \<Rightarrow> u16 \<Rightarrow> u16 \<Rightarrow> byte \<Rightarrow> byte \<Rightarrow> byte \<Rightarrow> byte \<Rightarrow> proc17_qa_launcher_run" where
  "set_derived_launcher_error run error_class error_code error_stage candidate_start_state cleanup_state
     launcher_reap_state result_eof_state =
     run\<lparr>rn_terminal := zero_terminal\<lparr>
       lt_kind := TERMINAL_DERIVED_ERROR,
       lt_phase := (if candidate_start_state = PROC17_QA_RUN_V1_TRUE then PROC17_QA_RUN_V1_PHASE_TERMINAL
                    else PROC17_QA_RUN_V1_PHASE_STARTED),
       lt_error_class := error_class, lt_error_code := error_code, lt_error_stage := error_stage,
       lt_candidate_start_state := candidate_start_state, lt_cleanup_state := cleanup_state,
       lt_started_attested := (if candidate_start_state = PROC17_QA_RUN_V1_TRUE then 1 else 0),
       lt_launcher_reap_state := launcher_reap_state, lt_result_eof_state := result_eof_state\<rparr>\<rparr>"

subsection \<open>The tables pushed for the caller\<close>

text \<open>A table made by \<open>lua_createtable\<close> and one \<open>lua_setfield\<close> per name; the names are distinct.\<close>

definition lua_table :: "(string \<times> lua_data) list \<Rightarrow> lua_data" where
  "lua_table items = D_table (map (\<lambda>(name, v). (lua_string name, v)) items) False"

definition push_native_error :: "string \<Rightarrow> string \<Rightarrow> lua_outcome" where
  "push_native_error code stage =
     Lua_returns [D_nil, lua_table [(''protocol_version'', lua_string ''qa.native_provider_error.v0''),
       (''code'', lua_string code), (''stage'', lua_string stage), (''diagnostic'', lua_string code),
       (''event_truth_status'', lua_string ''runtime_confirmed'')]]"

definition push_tagged_digest :: "string \<Rightarrow> bytes \<Rightarrow> lua_data" where
  "push_tagged_digest tag digest = D_string (ascii tag @ c_string (proc17_sha256_hex digest))"

definition push_sha :: "bytes \<Rightarrow> lua_data" where
  "push_sha digest = D_string (ascii ''sha256:'' @ c_string (proc17_sha256_hex digest))"

text \<open>The name of a number: the entry of the table at this index, \<open>NULL\<close> at 0 and beyond the table.\<close>

definition name_at :: "string list \<Rightarrow> u16 \<Rightarrow> string option" where
  "name_at names v = (if v = 0 then None else if unat v \<le> length names then Some (names ! (unat v - 1)) else None)"

definition reason_name :: "u16 \<Rightarrow> string option" where
  "reason_name = name_at [''expected_exit'', ''unexpected_exit'', ''signal'', ''wall_timeout'', ''cpu_limit'', ''memory_limit'',
     ''output_limit'', ''scratch_limit'', ''sandbox_policy_violation'']"

definition error_class_name :: "u16 \<Rightarrow> string option" where
  "error_class_name = name_at [''world'', ''unavailable'', ''ambiguous'']"

definition error_code_name :: "u16 \<Rightarrow> string option" where
  "error_code_name = name_at [''supervisor_unavailable'', ''source_staging_failed'', ''supervisor_crashed'',
     ''result_pipe_lost'', ''terminal_frame_missing'', ''reap_ambiguous'', ''output_observation_incomplete'',
     ''scratch_observation_incomplete'', ''namespace_cleanup_incomplete'']"

definition error_stage_name :: "u16 \<Rightarrow> string option" where
  "error_stage_name = name_at [''preflight'', ''source_staging'', ''namespace'', ''launch'', ''supervision'', ''postflight'',
     ''cleanup'']"

definition start_state_name :: "byte \<Rightarrow> string option" where
  "start_state_name v =
     (if v = PROC17_QA_RUN_V1_UNKNOWN then Some ''unknown''
      else if v = PROC17_QA_RUN_V1_FALSE then Some ''not_started''
      else if v = PROC17_QA_RUN_V1_TRUE then Some ''started'' else None)"

definition completion_state_name :: "byte \<Rightarrow> string option" where
  "completion_state_name v =
     (if v = PROC17_QA_RUN_V1_UNKNOWN then Some ''unknown''
      else if v = PROC17_QA_RUN_V1_FALSE then Some ''incomplete''
      else if v = PROC17_QA_RUN_V1_TRUE then Some ''complete'' else None)"

definition push_run_identity :: "proc17_qa_launcher_run \<Rightarrow> (string \<times> lua_data) list" where
  "push_run_identity run =
     [(''transaction_id'', push_tagged_digest ''qa-provider-transaction:'' (rn_transaction run)),
      (''witness_id'', push_tagged_digest ''qa-provider-witness:'' (rn_witness run)),
      (''profile_id'', lua_string profile_name),
      (''environment_id'', push_tagged_digest ''qa-environment:'' (rn_environment run))]"

definition push_v1_stream :: "bytes \<Rightarrow> lua_data" where
  "push_v1_stream stream = lua_table
     [(''protocol_version'', lua_string ''qa.stream_measurement.v1''),
      (''observed_bytes'', D_integer (proc17_qa_wire_get_u64 stream)),
      (''hashed_bytes'', D_integer (proc17_qa_wire_get_u64 (drop 8 stream))),
      (''sha256'', push_sha (drop 24 stream)),
      (''limit_bytes'', D_integer (proc17_qa_wire_get_u64 (drop 16 stream))),
      (''limit_reached'', D_boolean (stream ! 56 \<noteq> 0)),
      (''eof_observed'', D_boolean (stream ! 57 \<noteq> 0)),
      (''raw_retained'', D_boolean (stream ! 58 \<noteq> 0))]"

definition push_v1_resources :: "bytes \<Rightarrow> lua_data" where
  "push_v1_resources resource = lua_table
     [(''protocol_version'', lua_string ''qa.resource_measurement.v1''),
      (''wall_time_ms'', D_integer (proc17_qa_wire_get_u64 resource)),
      (''cpu_user_ms'', D_integer (proc17_qa_wire_get_u64 (drop 8 resource))),
      (''cpu_system_ms'', D_integer (proc17_qa_wire_get_u64 (drop 16 resource))),
      (''max_rss_bytes'', D_integer (proc17_qa_wire_get_u64 (drop 24 resource))),
      (''address_space_limit_bytes'', D_integer (proc17_qa_wire_get_u64 (drop 32 resource))),
      (''runtime_heap_peak_bytes'', D_integer (proc17_qa_wire_get_u64 (drop 40 resource))),
      (''runtime_heap_limit_bytes'', D_integer (proc17_qa_wire_get_u64 (drop 48 resource))),
      (''runtime_heap_denied'', D_boolean (resource ! 80 \<noteq> 0)),
      (''max_processes'', D_integer (proc17_qa_wire_get_u64 (drop 56 resource))),
      (''max_open_files'', D_integer (proc17_qa_wire_get_u64 (drop 64 resource))),
      (''max_file_bytes'', D_integer (proc17_qa_wire_get_u64 (drop 72 resource)))]"

definition push_v1_scratch :: "bytes \<Rightarrow> lua_data" where
  "push_v1_scratch scratch = lua_table
     [(''protocol_version'', lua_string ''qa.scratch_measurement.v1''),
      (''stored_regular_bytes'', D_integer (proc17_qa_wire_get_u64 scratch)),
      (''stored_entries'', D_integer (proc17_qa_wire_get_u64 (drop 8 scratch))),
      (''limit_bytes'', D_integer (proc17_qa_wire_get_u64 (drop 16 scratch))),
      (''limit_entries'', D_integer (proc17_qa_wire_get_u64 (drop 24 scratch))),
      (''byte_capacity_exhausted'', D_boolean (scratch ! 32 \<noteq> 0)),
      (''entry_capacity_exhausted'', D_boolean (scratch ! 33 \<noteq> 0)),
      (''inventory_complete'', D_boolean (scratch ! 34 \<noteq> 0))]"

definition finality_names :: "string list" where
  "finality_names = [''source_staging_complete'', ''candidate_started'', ''candidate_terminal_observed'',
     ''process_tree_reaped'', ''stdout_eof_observed'', ''stderr_eof_observed'', ''scratch_observation_complete'',
     ''namespace_cleanup_complete'']"

text \<open>The table of a result, from the payload and the name of the reason.\<close>

definition v1_result_table :: "proc17_qa_launcher_run \<Rightarrow> bytes \<Rightarrow> string \<Rightarrow> lua_data" where
  "v1_result_table run payload reason = lua_table
     ([(''protocol_version'', lua_string ''qa.native_run_result.v1'')] @ push_run_identity run
      @ [(''phase_ordinal'', D_integer (ucast (proc17_qa_wire_get_u16 (drop PROC17_QA_V1_PHASE_OFFSET payload)))),
         (''disposition'', lua_string ''contained_candidate''),
         (''start_attested'', D_boolean True),
         (''source_staging_policy'', lua_string ''qa.source_staging.detached_mount.v0''),
         (''source_staging_complete'', D_boolean True),
         (''reason'', lua_string reason),
         (''termination'', lua_table
            [(''kind'', D_integer (ucast (proc17_qa_wire_get_u16 (drop 134 payload)))),
             (''exit_code'', D_integer (ucast (proc17_qa_wire_get_u32 (drop 136 payload)))),
             (''signal'', D_integer (ucast (proc17_qa_wire_get_u32 (drop 140 payload))))]),
         (''cause'', lua_table
            [(''protocol_version'', lua_string ''qa.first_cause.v1''),
             (''kind'', lua_string reason),
             (''monotonic_sequence'', D_integer (proc17_qa_wire_get_u64 (drop 148 payload))),
             (''observed_value'', D_integer (proc17_qa_wire_get_u64 (drop 156 payload)))]),
         (''finality'', lua_table (map (\<lambda>(index, name).
             (name, D_boolean (payload ! (PROC17_QA_V1_RESULT_FINALITY_OFFSET + index) \<noteq> 0)))
             (zip [0..<8] finality_names))),
         (''stdout'', push_v1_stream (drop PROC17_QA_V1_RESULT_STDOUT_OFFSET payload)),
         (''stderr'', push_v1_stream (drop PROC17_QA_V1_RESULT_STDERR_OFFSET payload)),
         (''resources'', push_v1_resources (drop PROC17_QA_V1_RESULT_RESOURCE_OFFSET payload)),
         (''scratch'', push_v1_scratch (drop PROC17_QA_V1_RESULT_SCRATCH_OFFSET payload)),
         (''event_truth_status'', lua_string ''runtime_confirmed'')])"

definition push_v1_result :: "proc17_qa_launcher_run \<Rightarrow> lua_outcome" where
  "push_v1_result run =
     (if lt_kind (rn_terminal run) \<noteq> TERMINAL_RESULT
      then Lua_raises ''trusted RUN v1 result invariant failed''
      else
        (case proc17_qa_wire_decode_run_v1 (Some (lt_frame (rn_terminal run))) (lt_frame_bytes (rn_terminal run)) of
           None \<Rightarrow> Lua_raises ''trusted RUN v1 result invariant failed''
         | Some view \<Rightarrow>
             if view_kind view \<noteq> PROC17_QA_WIRE_RUN_RESULT_V1 \<or> lt_started_attested (rn_terminal run) \<noteq> 1
             then Lua_raises ''trusted RUN v1 result invariant failed''
             else
               (case reason_name (proc17_qa_wire_get_u16 (drop 132 (view_payload view))) of
                  None \<Rightarrow> Lua_raises ''trusted RUN v1 reason is unknown''
                | Some reason \<Rightarrow> Lua_returns [v1_result_table run (view_payload view) reason])))"

definition v1_error_table ::
  "proc17_qa_launcher_run \<Rightarrow> string \<Rightarrow> string \<Rightarrow> string \<Rightarrow> string \<Rightarrow> string \<Rightarrow> string \<Rightarrow> string \<Rightarrow> lua_data" where
  "v1_error_table run error_class error_code error_stage start_state cleanup_state reap_state eof_state = lua_table
     ([(''protocol_version'', lua_string ''qa.native_run_error.v1'')] @ push_run_identity run
      @ [(''phase_ordinal'', D_integer (ucast (lt_phase (rn_terminal run)))),
         (''class'', lua_string error_class), (''code'', lua_string error_code), (''stage'', lua_string error_stage),
         (''candidate_start_state'', lua_string start_state), (''cleanup_state'', lua_string cleanup_state),
         (''launcher_reaped'', lua_string reap_state), (''result_eof'', lua_string eof_state),
         (''event_truth_status'', lua_string ''runtime_confirmed'')])"

text \<open>The frame behind an ERROR terminal carries no measured cost.\<close>

definition error_frame_ok :: "proc17_qa_launcher_v1_terminal \<Rightarrow> bool" where
  "error_frame_ok terminal =
     (case proc17_qa_wire_decode_run_v1 (Some (lt_frame terminal)) (lt_frame_bytes terminal) of
        None \<Rightarrow> False
      | Some view \<Rightarrow> view_kind view = PROC17_QA_WIRE_RUN_ERROR_V1 \<and> view_payload view ! 138 = 0)"

definition push_v1_error :: "proc17_qa_launcher_run \<Rightarrow> lua_outcome" where
  "push_v1_error run =
     (let terminal = rn_terminal run
      in if lt_kind terminal = TERMINAL_ERROR \<and> \<not> error_frame_ok terminal
         then Lua_raises ''trusted RUN v1 error or measured-cost invariant failed''
         else if lt_kind terminal \<noteq> TERMINAL_ERROR \<and> lt_kind terminal \<noteq> TERMINAL_DERIVED_ERROR
         then Lua_raises ''trusted RUN v1 error state is malformed''
         else
           (case (error_class_name (lt_error_class terminal), error_code_name (lt_error_code terminal),
                  error_stage_name (lt_error_stage terminal), start_state_name (lt_candidate_start_state terminal),
                  completion_state_name (lt_cleanup_state terminal),
                  completion_state_name (lt_launcher_reap_state terminal),
                  completion_state_name (lt_result_eof_state terminal)) of
              (Some error_class, Some error_code, Some error_stage, Some start_state, Some cleanup_state,
               Some reap_state, Some eof_state) \<Rightarrow>
                Lua_returns [D_nil, v1_error_table run error_class error_code error_stage start_state cleanup_state
                  reap_state eof_state]
            | _ \<Rightarrow> Lua_raises ''trusted RUN v1 error state is malformed''))"

subsection \<open>The request check is exact\<close>

text \<open>Values as Lua has them: a number is converted to a text that starts with a digit, a sign, \<open>inf\<close> or
  \<open>nan\<close>; the keys of a table are distinct and no value in it is \<open>nil\<close>.\<close>

definition number_text :: "bytes \<Rightarrow> bool" where
  "number_text s \<longleftrightarrow> s \<noteq> [] \<and> hd s \<in> set (ascii ''-0123456789in'')"

inductive lua_ok :: "lua_data \<Rightarrow> bool" where
  "lua_ok D_nil" | "lua_ok (D_boolean b)" | "lua_ok (D_integer i)" | "number_text s \<Longrightarrow> lua_ok (D_float s)"
| "lua_ok (D_string s)" | "lua_ok (D_handle n p)" | "lua_ok D_other"
| "distinct (map fst entries) \<Longrightarrow> (\<And>key v. (key, v) \<in> set entries \<Longrightarrow> lua_ok key \<and> lua_ok v \<and> v \<noteq> D_nil) \<Longrightarrow>
     lua_ok (D_table entries metatable)"

inductive_cases lua_ok_tableE: "lua_ok (D_table entries metatable)"
inductive_cases lua_ok_floatE: "lua_ok (D_float s)"

lemma ascii_inject [simp]: "ascii a = ascii b \<longleftrightarrow> a = b"
proof -
  have "inj (of_char :: char \<Rightarrow> byte)"
  proof (rule injI)
    fix c d :: char assume "(of_char c :: byte) = of_char d"
    then have "unat (of_nat (of_char c) :: byte) = unat (of_nat (of_char d) :: byte)" by (simp add: of_nat_of_char)
    then have "(of_char c :: nat) = of_char d"
      using nat_of_char_less_256 [of c] nat_of_char_less_256 [of d] by (simp add: unsigned_of_nat take_bit_nat_eq_self)
    then show "c = d" by simp
  qed
  then show ?thesis by (simp add: ascii_def inj_map_eq_map)
qed

lemma ascii_no_zero: "CHR 0x00 \<notin> set s \<Longrightarrow> 0 \<notin> set (ascii s)"
proof
  assume s: "CHR 0x00 \<notin> set s" and "0 \<in> set (ascii s)"
  then obtain c where c: "c \<in> set s" "ascii [c] = ascii [CHR 0x00]" by (auto simp: ascii_def of_char_def)
  then show False using s by simp
qed

lemma ascii_simps [simp]: "ascii [] = []" "length (ascii s) = length s" "ascii s = [] \<longleftrightarrow> s = []"
  "ascii (s @ s') = ascii s @ ascii s'"
  by (simp_all add: ascii_def)

lemma lua_string_eq [simp]: "lua_string a = lua_string b \<longleftrightarrow> a = b"
  by (simp add: lua_string_def)

lemma inj_lua_string: "inj_on lua_string A"
  by (simp add: inj_on_def)

text \<open>A name that a number is never converted to.\<close>

definition plain_name :: "string \<Rightarrow> bool" where
  "plain_name s \<longleftrightarrow> s \<noteq> [] \<and> hd s \<notin> set ''-0123456789in'' \<and> CHR 0x00 \<notin> set s"

lemma hd_digits: "hd (digits n acc) \<in> set (ascii ''0123456789'')"
proof (induction n acc rule: digits.induct)
  case (1 n acc)
  show ?case
  proof (cases "n < 10")
    case True
    then have "n \<in> {0..<10}" by simp
    then have "n \<in> set [0..<10]" by simp
    then have "of_nat (48 + n mod 10) \<in> set (ascii ''0123456789'')" using True
      by (auto simp: upt_rec ascii_def of_char_def)
    then show ?thesis using True by (subst digits.simps) (simp add: Let_def)
  next
    case False
    then show ?thesis using 1 by (subst digits.simps) (simp add: Let_def)
  qed
qed

lemma digits_nonempty: "digits n acc \<noteq> []"
proof (induction n acc rule: digits.induct)
  case (1 n acc)
  then show ?case by (subst digits.simps) (simp add: Let_def)
qed

lemma integer_number_text: "number_text (lua_integer_text i)"
  using hd_digits [of "nat (sint i)" "[]"] 
  by (auto simp: number_text_def lua_integer_text_def digits_nonempty ascii_def of_char_def)

lemma number_text_not_plain: "number_text s \<Longrightarrow> plain_name t \<Longrightarrow> s \<noteq> ascii t @ r"
proof
  assume n: "number_text s" and p: "plain_name t" and e: "s = ascii t @ r"
  obtain c t' where t: "t = c # t'" using p by (cases t) (auto simp: plain_name_def)
  have "hd s = of_char c" using e t by (simp add: ascii_def)
  then have "of_char c \<in> (of_char :: char \<Rightarrow> byte) ` set ''-0123456789in''"
    using n unfolding number_text_def ascii_def set_map by (simp only:)
  then obtain d where "d \<in> set ''-0123456789in''" "of_char c = (of_char d :: byte)" unfolding image_iff by blast
  then have "d \<in> set ''-0123456789in''" "ascii [c] = ascii [d]" by (simp_all only: ascii_def list.map)
  then show False using p t unfolding plain_name_def by (metis ascii_inject list.inject list.sel(1))
qed

lemma tolstring_plain:
  assumes "lua_ok v" "lua_tolstring v = Some s" "s = ascii t @ r" "plain_name t"
  shows "v = D_string s"
  using assms integer_number_text number_text_not_plain by (cases v) (auto elim!: lua_ok_floatE)

lemma c_string_plain: "plain_name t \<Longrightarrow> c_string (ascii t) = ascii t"
  by (simp add: c_string_zero plain_name_def ascii_no_zero)

lemma count_known_keys_iff:
  "count_known_keys entries keys n = Some m \<longleftrightarrow> m = n + length entries
     \<and> (\<forall>e\<in>set entries. \<exists>text. lua_tolstring (fst e) = Some text \<and> (\<exists>name\<in>set keys. c_string text = ascii name))"
  proof (induction entries arbitrary: n)
  case (Cons e entries)
  then show ?case by (cases e) (fastforce simp: list_ex_iff split: option.splits if_splits)
qed auto

text \<open>The key check is exact: it accepts the tables whose keys are the given names.\<close>

lemma getfield_dom:
  assumes "lua_ok (D_table entries metatable)"
  shows "lua_getfield (D_table entries metatable) name \<noteq> D_nil \<longleftrightarrow> lua_string name \<in> fst ` set entries"
  using assms by (auto elim!: lua_ok_tableE split: option.splits simp: map_of_eq_None_iff dest!: map_of_SomeD intro: rev_image_eqI)

lemma exact_table_keys_iff:
  assumes ok: "lua_ok v" and keys: "distinct keys" "list_all plain_name keys"
  shows "exact_table_keys v keys \<longleftrightarrow>
    (\<exists>entries. v = D_table entries False \<and> fst ` set entries = lua_string ` set keys)"
proof (cases v)
  case (D_table entries metatable)
  have d: "distinct (map fst entries)" using ok D_table by (auto elim: lua_ok_tableE)
  have card: "length entries = card (fst ` set entries)" using distinct_card [OF d] by simp
  have kc: "length keys = card (lua_string ` set keys)"
    using keys(1) by (simp add: card_image [OF inj_lua_string] distinct_card)
  have gf: "list_all (\<lambda>key. lua_getfield v key \<noteq> D_nil) keys \<longleftrightarrow> lua_string ` set keys \<subseteq> fst ` set entries"
    using getfield_dom ok D_table by (auto simp: list_all_iff simp del: lua_getfield.simps)
  have known: "\<forall>e\<in>set entries. \<exists>text. lua_tolstring (fst e) = Some text \<and> (\<exists>name\<in>set keys. c_string text = ascii name)"
    if same: "fst ` set entries = lua_string ` set keys"
  proof
    fix e assume "e \<in> set entries"
    then have "fst e \<in> lua_string ` set keys" unfolding same [symmetric] by simp
    then obtain name where "fst e = lua_string name" "name \<in> set keys" by blast
    then show "\<exists>text. lua_tolstring (fst e) = Some text \<and> (\<exists>name\<in>set keys. c_string text = ascii name)"
      using keys(2) c_string_plain by (auto simp: lua_string_def list_all_iff)
  qed
  have "fst ` set entries = lua_string ` set keys"
    if "length entries = length keys" "lua_string ` set keys \<subseteq> fst ` set entries"
    using card_subset_eq [OF _ that(2)] that(1) card kc by simp
  then have "length entries = length keys \<and> lua_string ` set keys \<subseteq> fst ` set entries
      \<longleftrightarrow> fst ` set entries = lua_string ` set keys"
    using card kc by auto
  moreover have "exact_table_keys v keys \<longleftrightarrow> \<not> metatable \<and> length entries = length keys
     \<and> (\<forall>e\<in>set entries. \<exists>text. lua_tolstring (fst e) = Some text \<and> (\<exists>name\<in>set keys. c_string text = ascii name))
     \<and> lua_string ` set keys \<subseteq> fst ` set entries"
    using gf by (auto simp: exact_table_keys_def count_known_keys_iff D_table simp del: lua_getfield.simps)
  ultimately show ?thesis using D_table known by blast
qed (auto simp: exact_table_keys_def)

lemma getfield_ok: "lua_ok v \<Longrightarrow> lua_ok (lua_getfield v name)"
  by (cases v) (auto elim!: lua_ok_tableE intro: lua_ok.intros split: option.splits dest!: map_of_SomeD)

lemma exact_string_iff:
  assumes "lua_ok v" "plain_name expected"
  shows "exact_string v field expected \<longleftrightarrow> lua_getfield v field = lua_string expected"
  using tolstring_plain [OF getfield_ok [OF assms(1)] _ _ assms(2), of field "ascii expected" "[]"]
  by (auto simp: exact_string_def lua_string_def)

lemma hex_no_zero: "0 \<notin> set (concat (map hex_byte d))"
proof -
  have "(hex_alphabet ! i :: byte) \<noteq> 0" if "i < 16" for i
  proof -
    have "i \<in> set [0..<16]" using that by simp
    then show ?thesis by (auto simp: upt_rec hex_alphabet_def ascii_def of_char_def)
  qed
  moreover have "unat (drop_bit 4 (b :: byte)) < 16" "unat (b AND 0xF) < 16" for b
    using unsigned_less [of b, where ?'a = nat]
    by (simp_all add: unsigned_drop_bit_eq [where ?'a = nat] drop_bit_nat_def byte_and_15 unsigned_take_bit_eq take_bit_nat_def
        del: drop_bit_numeral_bit0)
  ultimately show ?thesis by (auto simp: hex_byte_def)
qed

lemma tagged_digest_iff:
  assumes "lua_ok v" "plain_name tag"
  shows "tagged_digest_field v field tag = Some d \<longleftrightarrow>
    length d = 32 \<and> lua_getfield v field = push_tagged_digest tag d"
proof
  assume t: "tagged_digest_field v field tag = Some d"
  then obtain tx where tx: "lua_tolstring (lua_getfield v field) = Some tx" "length tx = length tag + 64"
    "take (length tag) tx = ascii tag" "proc17_sha256_parse_hex (Some (drop (length tag) tx)) = Some d"
    by (auto simp: tagged_digest_field_def PROC17_SHA256_BYTES_def split: option.splits if_splits)
  have s: "tx = ascii tag @ drop (length tag) tx" using tx(3) by (metis append_take_drop_id)
  have v: "lua_getfield v field = D_string tx"
    by (rule tolstring_plain [OF getfield_ok [OF assms(1)] tx(1) s assms(2)])
  note h = tx(4) [unfolded parse_hex_iff_hex]
  have len: "length (takeWhile (\<lambda>b. b \<noteq> 0) (drop (length tag) tx)) = 64"
    using tx(4) by (auto simp: proc17_sha256_parse_hex_def c_strlen_def PROC17_SHA256_BYTES_def split: if_splits)
  have "takeWhile (\<lambda>b. b \<noteq> 0) (drop (length tag) tx) = drop (length tag) tx"
    by (metis len tx(2) add_diff_cancel_left' length_drop takeWhile_eq_take take_all le_refl)
  then have "drop (length tag) tx @ [0] = proc17_sha256_hex d" "0 \<notin> set (drop (length tag) tx)"
    using h by (metis, metis (mono_tags, lifting) takeWhile_eq_all_conv)
  then have "c_string (proc17_sha256_hex d) = drop (length tag) tx" by (metis c_string_zero(1))
  then show "length d = 32 \<and> lua_getfield v field = push_tagged_digest tag d"
    using h v s by (simp add: push_tagged_digest_def PROC17_SHA256_BYTES_def)
next
  assume d: "length d = 32 \<and> lua_getfield v field = push_tagged_digest tag d"
  let ?h = "concat (map hex_byte d)"
  have hx: "proc17_sha256_hex d = ?h @ [0]" using d by (simp add: proc17_sha256_hex_eq PROC17_SHA256_BYTES_def)
  show "tagged_digest_field v field tag = Some d" 
    using d hx parse_hex_iff_hex [of ?h d] length_hex_bytes [of d] hex_no_zero [of d]
    by (auto simp: tagged_digest_field_def push_tagged_digest_def PROC17_SHA256_BYTES_def c_string_zero)
qed

definition field_entries :: "(string \<times> lua_data) list \<Rightarrow> (lua_data \<times> lua_data) list" where
  "field_entries items = map (\<lambda>(name, v). (lua_string name, v)) items"

lemma map_of_field_entries: "map_of (field_entries items) (lua_string name) = map_of items name"
  by (induction items) (auto simp: field_entries_def)

lemma field_entries_keys: "fst ` set (field_entries items) = lua_string ` set (map fst items)"
  by (force simp: field_entries_def)

lemma table_is_fields:
  assumes ok: "lua_ok (D_table entries False)" and fields: "distinct (map fst items)" "D_nil \<notin> snd ` set items"
  shows "map_of entries = map_of (field_entries items) \<longleftrightarrow>
    fst ` set entries = lua_string ` set (map fst items)
    \<and> (\<forall>(name, v) \<in> set items. lua_getfield (D_table entries False) name = v)" (is "?l \<longleftrightarrow> ?keys \<and> ?fields")
proof
  assume l: ?l
  then have "dom (map_of entries) = dom (map_of (field_entries items))" by simp
  then have ?keys by (simp only: dom_map_of_conv_image_fst field_entries_keys)
  moreover have ?fields
    using l map_of_field_entries [of items] fields(1) by (auto split: option.splits simp: map_of_eq_None_iff)
  ultimately show "?keys \<and> ?fields" ..
next
  assume r: "?keys \<and> ?fields"
  show ?l
  proof
    fix key
    show "map_of entries key = map_of (field_entries items) key"
    proof (cases "key \<in> fst ` set entries")
      case False
      with r have "key \<notin> fst ` set (field_entries items)" by (simp only: field_entries_keys) blast
      with False show ?thesis by (metis map_of_eq_None_iff)
    next
      case True
      with r obtain name v where nv: "key = lua_string name" "(name, v) \<in> set items" by auto
      then have v: "lua_getfield (D_table entries False) name = v" "v \<noteq> D_nil" using r fields(2) by force+
      have "map_of items name = Some v" using nv(2) fields(1) by simp
      with v nv show ?thesis by (auto simp: map_of_field_entries split: option.splits)
    qed
  qed
qed

text \<open>The accepted requests.\<close>

definition native_run :: "bytes \<Rightarrow> bytes \<Rightarrow> bytes \<Rightarrow> proc17_qa_launcher_run" where
  "native_run transaction witness environment =
     \<lparr>rn_transaction = transaction, rn_witness = witness, rn_profile = proc17_sha256_bytes (ascii profile_name),
      rn_environment = environment, rn_limits = exact_limits,
      rn_entrypoint = write_at (replicate 1025 0) 0 (ascii ''tests/run.lua''),
      rn_terminal = zero_terminal, rn_trusted_invariant = False\<rparr>"

definition limit_fields :: "(string \<times> lua_data) list" where
  "limit_fields = (''protocol_version'', lua_string ''qa.resource_limits.v0'') # zip limit_names (map D_integer exact_limits)"

definition request_fields :: "bytes \<Rightarrow> bytes \<Rightarrow> bytes \<Rightarrow> lua_data \<Rightarrow> (string \<times> lua_data) list" where
  "request_fields transaction witness environment limits =
     [(''protocol_version'', lua_string ''qa.native_run_request.v1''), (''operation'', lua_string ''run_lua54_test_suite''),
      (''transaction_id'', push_tagged_digest ''qa-provider-transaction:'' transaction),
      (''witness_id'', push_tagged_digest ''qa-provider-witness:'' witness),
      (''profile_id'', lua_string profile_name),
      (''environment_id'', push_tagged_digest ''qa-environment:'' environment),
      (''entrypoint_relative_path'', lua_string ''tests/run.lua''), (''expected_exit_code'', D_integer 0),
      (''resource_limits'', limits)]"

definition is_run_request :: "lua_data \<Rightarrow> bytes \<Rightarrow> bytes \<Rightarrow> bytes \<Rightarrow> bool" where
  "is_run_request v transaction witness environment \<longleftrightarrow>
     length transaction = 32 \<and> length witness = 32 \<and> length environment = 32
     \<and> (\<exists>entries limits. v = D_table entries False
          \<and> map_of entries = map_of (field_entries (request_fields transaction witness environment (D_table limits False)))
          \<and> map_of limits = map_of (field_entries limit_fields))"

lemma keys_of_fields:
  "map fst (request_fields t w e l) = request_keys" "map fst limit_fields = limit_keys"
  "distinct request_keys" "distinct limit_keys" "list_all plain_name request_keys" "list_all plain_name limit_keys"
  by (simp_all add: request_fields_def request_keys_def limit_fields_def limit_keys_def limit_names_def exact_limits_def
      plain_name_def)

lemma plain_values:
  "plain_name ''qa.native_run_request.v1''" "plain_name ''run_lua54_test_suite''" "plain_name ''qa-provider-transaction:''"
  "plain_name ''qa-provider-witness:''" "plain_name profile_name" "plain_name ''qa-environment:''"
  "plain_name ''tests/run.lua''" "plain_name ''qa.resource_limits.v0''"
  by (simp_all add: plain_name_def profile_name_def)

lemma limits_table_iff:
  assumes "lua_ok v"
  shows "exact_table_keys v limit_keys \<and> exact_string v ''protocol_version'' ''qa.resource_limits.v0'' \<and> limits_match v
    \<longleftrightarrow> (\<exists>limits. v = D_table limits False \<and> map_of limits = map_of (field_entries limit_fields))"
proof -
  have "(\<forall>(name, w) \<in> set limit_fields. lua_getfield v name = w) \<longleftrightarrow>
      exact_string v ''protocol_version'' ''qa.resource_limits.v0'' \<and> limits_match v"
    by (simp add: exact_string_iff [OF assms plain_values(8)] limit_fields_def limits_match_def limit_names_def exact_limits_def)
  moreover have "D_nil \<notin> snd ` set limit_fields"
    by (simp add: limit_fields_def limit_names_def exact_limits_def lua_string_def)
  ultimately show ?thesis
    using table_is_fields [of _ limit_fields] assms
    by (auto simp: exact_table_keys_iff [OF assms keys_of_fields(4,6)] keys_of_fields(2,4) simp del: lua_getfield.simps)
qed

lemma request_table_iff:
  assumes "lua_ok v"
  shows "exact_table_keys v request_keys \<and> exact_string v ''protocol_version'' ''qa.native_run_request.v1''
      \<and> exact_string v ''operation'' ''run_lua54_test_suite''
      \<and> tagged_digest_field v ''transaction_id'' ''qa-provider-transaction:'' = Some t
      \<and> tagged_digest_field v ''witness_id'' ''qa-provider-witness:'' = Some w
      \<and> exact_string v ''profile_id'' profile_name
      \<and> tagged_digest_field v ''environment_id'' ''qa-environment:'' = Some e
      \<and> exact_string v ''entrypoint_relative_path'' ''tests/run.lua'' \<and> lua_getfield v ''expected_exit_code'' = D_integer 0
      \<and> lua_getfield v ''resource_limits'' = D_table limits False
    \<longleftrightarrow> length t = 32 \<and> length w = 32 \<and> length e = 32
      \<and> (\<exists>entries. v = D_table entries False
          \<and> map_of entries = map_of (field_entries (request_fields t w e (D_table limits False))))"
proof -
  let ?f = "request_fields t w e (D_table limits False)"
  have nil: "D_nil \<notin> snd ` set ?f" by (simp add: request_fields_def lua_string_def push_tagged_digest_def)
  have "(\<forall>(name, x) \<in> set ?f. lua_getfield v name = x) \<longleftrightarrow> lua_getfield v ''protocol_version'' = lua_string ''qa.native_run_request.v1''
      \<and> lua_getfield v ''operation'' = lua_string ''run_lua54_test_suite''
      \<and> lua_getfield v ''transaction_id'' = push_tagged_digest ''qa-provider-transaction:'' t
      \<and> lua_getfield v ''witness_id'' = push_tagged_digest ''qa-provider-witness:'' w
      \<and> lua_getfield v ''profile_id'' = lua_string profile_name
      \<and> lua_getfield v ''environment_id'' = push_tagged_digest ''qa-environment:'' e
      \<and> lua_getfield v ''entrypoint_relative_path'' = lua_string ''tests/run.lua''
      \<and> lua_getfield v ''expected_exit_code'' = D_integer 0 \<and> lua_getfield v ''resource_limits'' = D_table limits False"
    by (simp add: request_fields_def)
  then show ?thesis
    using table_is_fields [of _ ?f] nil assms
    by (auto simp: exact_table_keys_iff [OF assms keys_of_fields(3,5)] exact_string_iff [OF assms] plain_values keys_of_fields(1,3)
        tagged_digest_iff [OF assms] simp del: lua_getfield.simps)
qed

lemma parse_native_run_Some:
  "parse_native_run v = Some run \<longleftrightarrow>
    (\<exists>t w e. exact_table_keys v request_keys \<and> exact_string v ''protocol_version'' ''qa.native_run_request.v1''
      \<and> exact_string v ''operation'' ''run_lua54_test_suite''
      \<and> tagged_digest_field v ''transaction_id'' ''qa-provider-transaction:'' = Some t
      \<and> tagged_digest_field v ''witness_id'' ''qa-provider-witness:'' = Some w
      \<and> exact_string v ''profile_id'' profile_name
      \<and> tagged_digest_field v ''environment_id'' ''qa-environment:'' = Some e
      \<and> exact_string v ''entrypoint_relative_path'' ''tests/run.lua'' \<and> lua_getfield v ''expected_exit_code'' = D_integer 0
      \<and> exact_table_keys (lua_getfield v ''resource_limits'') limit_keys
      \<and> exact_string (lua_getfield v ''resource_limits'') ''protocol_version'' ''qa.resource_limits.v0''
      \<and> limits_match (lua_getfield v ''resource_limits'') \<and> run = native_run t w e)"
  by (auto simp: parse_native_run_def native_run_def Let_def simp del: lua_getfield.simps split: option.splits if_splits)

text \<open>C7. The native boundary accepts exactly one form of request: a table without metatable whose entries are
  the nine named fields with the fixed values, three tagged digests and the table of the fixed limits, and
  nothing else; what it hands on is the run of these three digests.  In particular no number passes for a
  string and no key with an embedded zero byte for a name.\<close>

theorem run_request_exact:
  assumes "lua_ok v"
  shows "parse_native_run v = Some run \<longleftrightarrow>
    (\<exists>transaction witness environment. is_run_request v transaction witness environment
       \<and> run = native_run transaction witness environment)"
proof -
  have "lua_ok (lua_getfield v ''resource_limits'')" by (rule getfield_ok [OF assms])
  note l = limits_table_iff [OF this] and r = request_table_iff [OF assms]
  show ?thesis
  proof
    assume "parse_native_run v = Some run"
    then obtain t w e where p: "exact_table_keys v request_keys" "exact_string v ''protocol_version'' ''qa.native_run_request.v1''"
      "exact_string v ''operation'' ''run_lua54_test_suite''"
      "tagged_digest_field v ''transaction_id'' ''qa-provider-transaction:'' = Some t"
      "tagged_digest_field v ''witness_id'' ''qa-provider-witness:'' = Some w" "exact_string v ''profile_id'' profile_name"
      "tagged_digest_field v ''environment_id'' ''qa-environment:'' = Some e"
      "exact_string v ''entrypoint_relative_path'' ''tests/run.lua''" "lua_getfield v ''expected_exit_code'' = D_integer 0"
      and q: "exact_table_keys (lua_getfield v ''resource_limits'') limit_keys
        \<and> exact_string (lua_getfield v ''resource_limits'') ''protocol_version'' ''qa.resource_limits.v0''
        \<and> limits_match (lua_getfield v ''resource_limits'')" and run: "run = native_run t w e"
      unfolding parse_native_run_Some by (elim exE conjE) iprover
    from q obtain limits where limits: "lua_getfield v ''resource_limits'' = D_table limits False"
      "map_of limits = map_of (field_entries limit_fields)" unfolding l by (elim exE conjE)
    have "length t = 32 \<and> length w = 32 \<and> length e = 32 \<and> (\<exists>entries. v = D_table entries False
        \<and> map_of entries = map_of (field_entries (request_fields t w e (D_table limits False))))"
      by (rule r [THEN iffD1]) (intro conjI p limits(1))
    with limits(2) have "is_run_request v t w e" unfolding is_run_request_def by blast
    with run show "\<exists>t w e. is_run_request v t w e \<and> run = native_run t w e" by iprover
  next
    assume "\<exists>t w e. is_run_request v t w e \<and> run = native_run t w e"
    then obtain t w e entries limits where q: "length t = 32 \<and> length w = 32 \<and> length e = 32
      \<and> (\<exists>entries. v = D_table entries False
          \<and> map_of entries = map_of (field_entries (request_fields t w e (D_table limits False))))"
      and limits: "map_of limits = map_of (field_entries limit_fields)" and run: "run = native_run t w e"
      unfolding is_run_request_def by (elim exE conjE) iprover
    note p = r [THEN iffD2, OF q]
    with limits have "\<exists>limits. lua_getfield v ''resource_limits'' = D_table limits False
        \<and> map_of limits = map_of (field_entries limit_fields)" by iprover
    note this [folded l]
    with p run show "parse_native_run v = Some run" unfolding parse_native_run_Some by iprover
  qed
qed

lemma lua_ok_table:
  assumes "distinct (map fst items)" "list_all (\<lambda>(name, v). lua_ok v \<and> v \<noteq> D_nil) items"
  shows "lua_ok (lua_table items)"
proof -
  have "distinct (map fst (map (\<lambda>(name, v). (lua_string name, v)) items))"
    using assms(1) by (simp add: comp_def case_prod_beta distinct_map inj_on_def)
  then show ?thesis
    unfolding lua_table_def using assms(2) by (intro lua_ok.intros(8)) (auto simp: list_all_iff lua_string_def intro: lua_ok.intros)
qed

definition sample_run_request :: lua_data where
  "sample_run_request = lua_table (request_fields (replicate 32 1) (replicate 32 2) (replicate 32 3) (lua_table limit_fields))"

lemma limit_table_ok: "lua_ok (lua_table limit_fields)"
  by (rule lua_ok_table)
    (auto simp: limit_fields_def limit_names_def exact_limits_def lua_string_def intro: lua_ok.intros)

lemma request_table_ok: "lua_ok (lua_table (request_fields t w e (lua_table limit_fields)))"
  by (rule lua_ok_table)
    (auto simp: keys_of_fields, auto simp: request_fields_def lua_string_def push_tagged_digest_def limit_table_ok intro: lua_ok.intros, simp add: lua_table_def)

lemma request_table_is_request:
  "length t = 32 \<Longrightarrow> length w = 32 \<Longrightarrow> length e = 32 \<Longrightarrow>
     is_run_request (lua_table (request_fields t w e (lua_table limit_fields))) t w e"
  by (auto simp: is_run_request_def lua_table_def field_entries_def)

theorem run_request_exact_witness:
  "parse_native_run sample_run_request = Some (native_run (replicate 32 1) (replicate 32 2) (replicate 32 3))"
  unfolding sample_run_request_def
  using run_request_exact [OF request_table_ok] request_table_is_request [of "replicate 32 1" "replicate 32 2" "replicate 32 3"]
  by auto

subsection \<open>Layout of the request\<close>

lemma write_at_zeros:
  "off = length pre \<Longrightarrow> length bs \<le> n \<Longrightarrow> write_at (pre @ replicate n x) off bs = pre @ bs @ replicate (n - length bs) x"
  by (simp add: write_at_in_range)

lemma write_at_skip: "length xs \<le> off \<Longrightarrow> write_at (xs @ zs) off bs = xs @ write_at zs (off - length xs) bs"
  by (simp add: write_at_def)

lemma write_at_zeros0: "length bs \<le> n \<Longrightarrow> write_at (replicate n x) 0 bs = bs @ replicate (n - length bs) x"
  by (simp add: write_at_in_range)

lemma put_limits_skip: "length xs \<le> off \<Longrightarrow> put_limits (xs @ zs) off ls = xs @ put_limits zs (off - length xs) ls"
proof (induction ls arbitrary: zs off)
  case (Cons l ls)
  then have "off - length xs + 8 = off + 8 - length xs" by simp
  with Cons show ?case by (simp add: proc17_qa_wire_put_u64_def write_at_skip)
qed simp

lemma put_limits_zeros:
  "off = length pre \<Longrightarrow> 8 * length ls \<le> n \<Longrightarrow>
     put_limits (pre @ replicate n 0) off ls = pre @ concat (map be64 ls) @ replicate (n - 8 * length ls) 0"
proof (induction ls arbitrary: pre off n)
  case (Cons l ls)
  have "put_limits (pre @ replicate n 0) off (l # ls) = put_limits ((pre @ be64 l) @ replicate (n - 8) 0) (off + 8) ls"
    using Cons.prems by (simp add: proc17_qa_wire_put_u64_def write_at_zeros)
  also have "\<dots> = (pre @ be64 l) @ concat (map be64 ls) @ replicate (n - 8 - 8 * length ls) 0"
    using Cons.prems by (intro Cons.IH) simp_all
  finally show ?case by simp
qed simp

definition source_bytes :: "proc17_qa_mount_identity \<Rightarrow> bytes" where
  "source_bytes source = be64 (mi_device source) @ be64 (mi_inode source) @ be64 (mi_mount_id source)"

definition request_bytes :: "bytes \<Rightarrow> bytes \<Rightarrow> bytes \<Rightarrow> bytes \<Rightarrow> proc17_qa_mount_identity \<Rightarrow> bytes" where
  "request_bytes t w p e source = t @ w @ p @ e @ source_bytes source @ concat (map be64 exact_limits)
     @ be32 0 @ be16 13 @ ascii ''tests/run.lua''"

lemma entrypoint_string:
  "c_strlen (write_at (replicate 1025 0) 0 (ascii ''tests/run.lua'')) = 13"
  "take 13 (write_at (replicate 1025 0) 0 (ascii ''tests/run.lua'')) = ascii ''tests/run.lua''"
proof -
  have w: "write_at (replicate 1025 0) 0 (ascii ''tests/run.lua'') = ascii ''tests/run.lua'' @ replicate 1012 (0 :: byte)"
    using write_at_zeros [of 0 "[]" "ascii ''tests/run.lua''" 1025 "0 :: byte"] by simp
  have r: "replicate 1012 (0 :: byte) = 0 # replicate 1011 0" using replicate_Suc [of 1011 "0 :: byte"] by simp
  have "CHR 0x00 \<notin> set ''tests/run.lua''" by simp
  then have "takeWhile (\<lambda>b. b \<noteq> 0) (ascii ''tests/run.lua'' @ replicate 1012 0) = ascii ''tests/run.lua''"
    using c_string_zero(1) [of "ascii ''tests/run.lua''" "replicate 1011 0"] ascii_no_zero unfolding r c_string_def by metis
  then show "c_strlen (write_at (replicate 1025 0) 0 (ascii ''tests/run.lua'')) = 13"
    unfolding c_strlen_def w by simp
  show "take 13 (write_at (replicate 1025 0) 0 (ascii ''tests/run.lua'')) = ascii ''tests/run.lua''" unfolding w by simp
qed

lemma length_exact_limits [simp]: "length exact_limits = 10"
  by (simp add: exact_limits_def)

lemma length_request_bytes:
  "length t = 32 \<Longrightarrow> length w = 32 \<Longrightarrow> length p = 32 \<Longrightarrow> length e = 32 \<Longrightarrow> length (request_bytes t w p e source) = 251"
  by (simp add: request_bytes_def source_bytes_def exact_limits_def)

lemma request_payload_layout:
  assumes l: "length t = 32" "length w = 32" "length p = 32" "length e = 32"
    and run: "rn_transaction run = t" "rn_witness run = w" "rn_profile run = p" "rn_environment run = e"
      "rn_limits run = exact_limits" "rn_entrypoint run = write_at (replicate 1025 0) 0 (ascii ''tests/run.lua'')"
  shows "request_payload run source = request_bytes t w p e source @ replicate 3845 0"
proof -
  show ?thesis
    unfolding request_payload_def Let_def run entrypoint_string
    using l put_limits_zeros [of 0 "[]" exact_limits 3944]
    by (simp add: PROC17_SHA256_BYTES_def proc17_qa_wire_put_u64_def proc17_qa_wire_put_u32_def proc17_qa_wire_put_u16_def
        put_limits_skip write_at_skip write_at_zeros0 length_concat comp_def sum_list_triv request_bytes_def source_bytes_def)
qed

end
