(* ===== verification/Qa_Supervisor.thy ===== *)
theory Qa_Supervisor
  imports Qa_Launcher
begin

text \<open>
  The supervisor's side of the protocol (\<open>native/proc17_qa_supervisor.c\<close>): reading and checking the request,
  the source stage as bytes, the seccomp program of the candidate, and the ERROR frame of the
  preflight.  The controller of a run is in \<open>Qa_Run_Controller\<close>.
\<close>

subsection \<open>Requests\<close>

definition PROC17_QA_RUN_REQUEST_FIXED_BYTES :: nat where [simp]: "PROC17_QA_RUN_REQUEST_FIXED_BYTES = 238"
definition PROC17_QA_SOURCE_POLICY_DETACHED_MOUNT_V0 :: u16 where
  [simp]: "PROC17_QA_SOURCE_POLICY_DETACHED_MOUNT_V0 = 1"

text \<open>\<open>struct proc17_qa_root_identity\<close> has the members of the launcher's \<open>proc17_qa_mount_identity\<close>.\<close>

type_synonym proc17_qa_root_identity = proc17_qa_mount_identity

record proc17_qa_run_request =
  rq_transaction :: bytes
  rq_witness :: bytes
  rq_profile :: bytes
  rq_environment :: bytes
  rq_root :: proc17_qa_root_identity
  rq_limits :: "u64 list"
  rq_expected_exit :: u32
  rq_entrypoint :: bytes

definition digest_nonzero :: "bytes \<Rightarrow> bool" where
  "digest_nonzero digest \<longleftrightarrow> foldl (\<lambda>combined index. combined OR digest ! index) 0 [0..<PROC17_SHA256_BYTES] \<noteq> (0 :: byte)"

definition same_mount_identity :: "proc17_qa_root_identity \<Rightarrow> proc17_qa_root_identity \<Rightarrow> bool" where
  "same_mount_identity left right \<longleftrightarrow>
     mi_device left = mi_device right \<and> mi_inode left = mi_inode right \<and> mi_mount_id left = mi_mount_id right"

definition same_mount_object :: "proc17_qa_root_identity \<Rightarrow> proc17_qa_root_identity \<Rightarrow> bool" where
  "same_mount_object left right \<longleftrightarrow> mi_device left = mi_device right \<and> mi_inode left = mi_inode right"

fun read_limits :: "bytes \<Rightarrow> u64 list \<Rightarrow> u64 list option" where
  "read_limits payload [] = Some []"
| "read_limits payload (limit # limits) =
     (if proc17_qa_wire_get_u64 payload \<noteq> limit then None
      else map_option ((#) (proc17_qa_wire_get_u64 payload)) (read_limits (drop 8 payload) limits))"

definition parse_run_request_kind ::
  "proc17_qa_wire_view \<Rightarrow> proc17_qa_root_identity \<Rightarrow> u16 \<Rightarrow> proc17_qa_run_request option" where
  "parse_run_request_kind view observed_root expected_kind =
     (let payload = view_payload view
      in if view_kind view \<noteq> expected_kind \<or> unat (view_payload_bytes view) < PROC17_QA_RUN_REQUEST_FIXED_BYTES
         then None
         else
           (let path_bytes = proc17_qa_wire_get_u16 (drop 236 payload)
            in if path_bytes = 0 \<or> path_bytes > 1024
                  \<or> unat (view_payload_bytes view) \<noteq> PROC17_QA_RUN_REQUEST_FIXED_BYTES + unat path_bytes
                  \<or> take PROC17_QA_WIRE_NONCE_BYTES (view_nonce view) \<noteq> take PROC17_QA_WIRE_NONCE_BYTES payload
               then None
               else
                 (let transaction = take PROC17_SHA256_BYTES payload;
                      witness = take PROC17_SHA256_BYTES (drop 32 payload);
                      profile = take PROC17_SHA256_BYTES (drop 64 payload);
                      environment = take PROC17_SHA256_BYTES (drop 96 payload);
                      root = \<lparr>mi_device = proc17_qa_wire_get_u64 (drop 128 payload),
                              mi_inode = proc17_qa_wire_get_u64 (drop 136 payload),
                              mi_mount_id = proc17_qa_wire_get_u64 (drop 144 payload)\<rparr>
                  in if \<not> digest_nonzero transaction \<or> \<not> digest_nonzero witness
                        \<or> \<not> digest_nonzero profile \<or> \<not> digest_nonzero environment
                     then None
                     else if \<not> same_mount_identity root observed_root then None
                     else
                       (case read_limits (drop 152 payload) exact_limits of
                          None \<Rightarrow> None
                        | Some limits \<Rightarrow>
                            (let expected_exit = proc17_qa_wire_get_u32 (drop 232 payload);
                                 path = take (unat path_bytes) (drop 238 payload);
                                 entrypoint = write_at (replicate 1025 0) 0 (path @ [0])
                             in if expected_exit \<noteq> 0 \<or> 0 \<in> set path then None
                                else if c_string entrypoint \<noteq> ascii ''tests/run.lua'' then None
                                else Some \<lparr>rq_transaction = transaction, rq_witness = witness, rq_profile = profile,
                                           rq_environment = environment, rq_root = root, rq_limits = limits,
                                           rq_expected_exit = expected_exit, rq_entrypoint = entrypoint\<rparr>)))))"

definition parse_run_request_v1 ::
  "proc17_qa_wire_view ptr \<Rightarrow> proc17_qa_root_identity \<Rightarrow> proc17_qa_run_request option" where
  "parse_run_request_v1 view observed_root =
     (case view of
        None \<Rightarrow> None
      | Some v \<Rightarrow>
          if proc17_qa_wire_v1_request_valid (Some (view_payload v)) (view_payload_bytes v)
          then parse_run_request_kind v observed_root PROC17_QA_WIRE_RUN_REQUEST_V1
          else None)"

subsection \<open>The source stage\<close>

record proc17_qa_source_stage =
  st_source_fd :: "nat option"
  st_detached_mount_fd :: "nat option"
  st_temporary_self_bind_live :: bool
  st_detached_attached :: bool
  st_host_tmp_hidden :: bool
  st_candidate_started :: bool
  st_original :: proc17_qa_root_identity
  st_detached :: proc17_qa_root_identity
  st_attached :: proc17_qa_root_identity
  st_mount_policy_flags :: u32

definition zero_root :: proc17_qa_root_identity where
  "zero_root = \<lparr>mi_device = 0, mi_inode = 0, mi_mount_id = 0\<rparr>"

definition encode_stage :: "bytes \<Rightarrow> proc17_qa_source_stage \<Rightarrow> bytes" where
  "encode_stage payload stage =
     (let p1 = proc17_qa_wire_put_u16 payload 0 PROC17_QA_SOURCE_POLICY_DETACHED_MOUNT_V0;
          p2 = proc17_qa_wire_put_u32 p1 4 (st_mount_policy_flags stage);
          p3 = proc17_qa_wire_put_u64 p2 8 (mi_device (st_original stage));
          p4 = proc17_qa_wire_put_u64 p3 16 (mi_inode (st_original stage));
          p5 = proc17_qa_wire_put_u64 p4 24 (mi_mount_id (st_original stage));
          p6 = proc17_qa_wire_put_u64 p5 32 (mi_device (st_detached stage));
          p7 = proc17_qa_wire_put_u64 p6 40 (mi_inode (st_detached stage));
          p8 = proc17_qa_wire_put_u64 p7 48 (mi_mount_id (st_detached stage));
          p9 = proc17_qa_wire_put_u64 p8 56 (mi_device (st_attached stage));
          p10 = proc17_qa_wire_put_u64 p9 64 (mi_inode (st_attached stage));
          p11 = proc17_qa_wire_put_u64 p10 72 (mi_mount_id (st_attached stage));
          p12 = write_at p11 80 [if st_temporary_self_bind_live stage then 0 else 1]
      in write_at p12 81 [if st_candidate_started stage then 1 else 0])"

subsection \<open>The seccomp program\<close>

text \<open>Classic BPF as the kernel runs it on the system call number and the architecture: a load of a word of
  \<open>seccomp_data\<close>, a conditional jump relative to the next instruction, a return.  \<open>None\<close> is a program the
  kernel does not accept or a run past its end.\<close>

record sock_filter =
  sf_code :: u16
  sf_jt :: byte
  sf_jf :: byte
  sf_k :: u32

definition BPF_STMT :: "u16 \<Rightarrow> u32 \<Rightarrow> sock_filter" where
  "BPF_STMT code k = \<lparr>sf_code = code, sf_jt = 0, sf_jf = 0, sf_k = k\<rparr>"

definition BPF_JUMP :: "u16 \<Rightarrow> u32 \<Rightarrow> byte \<Rightarrow> byte \<Rightarrow> sock_filter" where
  "BPF_JUMP code k jt jf = \<lparr>sf_code = code, sf_jt = jt, sf_jf = jf, sf_k = k\<rparr>"

definition BPF_LD_W_ABS :: u16 where [simp]: "BPF_LD_W_ABS = 0x20"
definition BPF_JMP_JEQ_K :: u16 where [simp]: "BPF_JMP_JEQ_K = 0x15"
definition BPF_RET_K :: u16 where [simp]: "BPF_RET_K = 0x06"
definition AUDIT_ARCH_X86_64 :: u32 where [simp]: "AUDIT_ARCH_X86_64 = 0xc000003e"
definition SECCOMP_RET_KILL_PROCESS :: u32 where [simp]: "SECCOMP_RET_KILL_PROCESS = 0x80000000"
definition SECCOMP_RET_ALLOW :: u32 where [simp]: "SECCOMP_RET_ALLOW = 0x7fff0000"

function bpf_run :: "sock_filter list \<Rightarrow> (u32 \<Rightarrow> u32) \<Rightarrow> nat \<Rightarrow> u32 \<Rightarrow> u32 option" where
  "bpf_run program data pc acc =
     (if pc \<ge> length program then None
      else
        (let i = program ! pc
         in if sf_code i = BPF_LD_W_ABS then bpf_run program data (pc + 1) (data (sf_k i))
            else if sf_code i = BPF_JMP_JEQ_K
            then bpf_run program data (pc + 1 + unat (if acc = sf_k i then sf_jt i else sf_jf i)) acc
            else if sf_code i = BPF_RET_K then Some (sf_k i)
            else None))"
  by auto
termination
  by (relation "measure (\<lambda>(program, data, pc, acc). length program - pc)") auto

declare bpf_run.simps [simp del]

text \<open>The words of \<open>struct seccomp_data\<close> at the offsets of \<open>nr\<close> and \<open>arch\<close>.\<close>

definition seccomp_data :: "u32 \<Rightarrow> u32 \<Rightarrow> u32 \<Rightarrow> u32" where
  "seccomp_data nr arch off = (if off = 0 then nr else if off = 4 then arch else 0)"

text \<open>The admitted system calls, by their x86-64 numbers, in the order of the source.\<close>

definition seccomp_allowed :: "u32 list" where
  "seccomp_allowed = [0, 1, 19, 20, 3, 257, 437, 262, 5, 332, 8, 17, 72, 267, 21, 439, 79, 217,
     83, 258, 87, 263, 82, 264, 316, 266, 77, 74, 75, 95, 12, 9, 10, 11, 25, 28, 13, 14, 15, 131,
     228, 96, 201, 35, 230, 202, 218, 273, 334, 158, 39, 186, 102, 107, 104, 108, 63, 318, 60, 231]"

definition install_candidate_seccomp :: "sock_filter list" where
  "install_candidate_seccomp =
     [BPF_STMT BPF_LD_W_ABS 4,
      BPF_JUMP BPF_JMP_JEQ_K AUDIT_ARCH_X86_64 1 0,
      BPF_STMT BPF_RET_K SECCOMP_RET_KILL_PROCESS,
      BPF_STMT BPF_LD_W_ABS 0]
     @ concat (map (\<lambda>nr. [BPF_JUMP BPF_JMP_JEQ_K nr 0 1, BPF_STMT BPF_RET_K SECCOMP_RET_ALLOW]) seccomp_allowed)
     @ [BPF_STMT BPF_RET_K SECCOMP_RET_KILL_PROCESS]"

subsection \<open>What the seccomp program admits\<close>

lemma bpf_allow_list:
  "bpf_run (pre @ concat (map (\<lambda>nr. [BPF_JUMP BPF_JMP_JEQ_K nr 0 1, BPF_STMT BPF_RET_K SECCOMP_RET_ALLOW]) as)
      @ [BPF_STMT BPF_RET_K SECCOMP_RET_KILL_PROCESS]) data (length pre) nr
   = Some (if nr \<in> set as then SECCOMP_RET_ALLOW else SECCOMP_RET_KILL_PROCESS)"
proof (induction as arbitrary: pre)
  case Nil
  then show ?case by (subst bpf_run.simps) (simp add: BPF_STMT_def)
next
  case (Cons a as)
  let ?p = "pre @ concat (map (\<lambda>nr. [BPF_JUMP BPF_JMP_JEQ_K nr 0 1, BPF_STMT BPF_RET_K SECCOMP_RET_ALLOW]) (a # as))
      @ [BPF_STMT BPF_RET_K SECCOMP_RET_KILL_PROCESS]"
  have n: "?p ! length pre = BPF_JUMP BPF_JMP_JEQ_K a 0 1" "?p ! Suc (length pre) = BPF_STMT BPF_RET_K SECCOMP_RET_ALLOW"
    by (simp_all add: nth_append)
  have step: "bpf_run ?p data (length pre) nr = (if nr = a then Some SECCOMP_RET_ALLOW else bpf_run ?p data (length pre + 2) nr)"
    using bpf_run.simps [of ?p data "length pre" nr] bpf_run.simps [of ?p data "Suc (length pre)" nr] n
    by (auto simp: BPF_JUMP_def BPF_STMT_def Let_def)
  show ?case
    using step Cons.IH [of "pre @ [BPF_JUMP BPF_JMP_JEQ_K a 0 1, BPF_STMT BPF_RET_K SECCOMP_RET_ALLOW]"]
    by (simp split: if_splits)
qed

text \<open>C8. The filter decides every system call: on x86-64 a call whose number is in the list is admitted, every
  other number and every other architecture kills the process, whatever the accumulator holds at the start.
  In particular creating processes, executing programs, sockets, tracing, mounting, namespaces and BPF are
  not admitted.\<close>

theorem seccomp_allows_exactly:
  "bpf_run install_candidate_seccomp (seccomp_data nr arch) 0 acc =
     Some (if arch = AUDIT_ARCH_X86_64 \<and> nr \<in> set seccomp_allowed then SECCOMP_RET_ALLOW else SECCOMP_RET_KILL_PROCESS)
   \<and> set seccomp_allowed \<inter> {56, 57, 58, 435, 59, 322, 41, 42, 101, 165, 166, 272, 308, 321, 317} = {}"
proof
  let ?pre = "[BPF_STMT BPF_LD_W_ABS 4, BPF_JUMP BPF_JMP_JEQ_K AUDIT_ARCH_X86_64 1 0,
      BPF_STMT BPF_RET_K SECCOMP_RET_KILL_PROCESS, BPF_STMT BPF_LD_W_ABS 0]"
  let ?rest = "concat (map (\<lambda>nr. [BPF_JUMP BPF_JMP_JEQ_K nr 0 1, BPF_STMT BPF_RET_K SECCOMP_RET_ALLOW]) seccomp_allowed)
      @ [BPF_STMT BPF_RET_K SECCOMP_RET_KILL_PROCESS]"
  have p: "install_candidate_seccomp = ?pre @ ?rest" by (simp add: install_candidate_seccomp_def)
  have n: "install_candidate_seccomp ! 0 = BPF_STMT BPF_LD_W_ABS 4" "install_candidate_seccomp ! 1 = BPF_JUMP BPF_JMP_JEQ_K AUDIT_ARCH_X86_64 1 0"
    "install_candidate_seccomp ! 2 = BPF_STMT BPF_RET_K SECCOMP_RET_KILL_PROCESS"
    "install_candidate_seccomp ! 3 = BPF_STMT BPF_LD_W_ABS 0" "4 < length install_candidate_seccomp" "install_candidate_seccomp \<noteq> []"
    unfolding p by simp_all
  have e23: "Suc (Suc 0) = 2" "Suc (Suc (Suc 0)) = 3" by simp_all
  define d where "d = seccomp_data nr arch"
  have dd: "d 4 = arch" "d 0 = nr" by (simp_all add: d_def seccomp_data_def)
  have "bpf_run install_candidate_seccomp d 0 acc = bpf_run install_candidate_seccomp d 1 arch"
    by (subst bpf_run.simps) (use n dd in \<open>simp add: BPF_STMT_def Let_def\<close>)
  also have "\<dots> = bpf_run install_candidate_seccomp d (if arch = AUDIT_ARCH_X86_64 then 3 else 2) arch"
    by (subst bpf_run.simps) (use n in \<open>simp add: BPF_JUMP_def Let_def e23\<close>)
  also have "\<dots> = (if arch = AUDIT_ARCH_X86_64 then bpf_run install_candidate_seccomp d 4 nr else Some SECCOMP_RET_KILL_PROCESS)"
    by (subst bpf_run.simps) (use n dd in \<open>auto simp: BPF_STMT_def Let_def\<close>)
  also have "bpf_run install_candidate_seccomp d 4 nr
      = Some (if nr \<in> set seccomp_allowed then SECCOMP_RET_ALLOW else SECCOMP_RET_KILL_PROCESS)"
  proof -
    have "length ?pre = 4" by simp
    with bpf_allow_list [of ?pre seccomp_allowed d nr] show ?thesis unfolding p by (simp only:)
  qed
  finally show "bpf_run install_candidate_seccomp (seccomp_data nr arch) 0 acc =
     Some (if arch = AUDIT_ARCH_X86_64 \<and> nr \<in> set seccomp_allowed then SECCOMP_RET_ALLOW else SECCOMP_RET_KILL_PROCESS)"
    unfolding d_def by (simp only: if_if_eq_conj split: if_split) simp
  show "set seccomp_allowed \<inter> {56, 57, 58, 435, 59, 322, 41, 42, 101, 165, 166, 272, 308, 321, 317} = {}"
    by (simp add: seccomp_allowed_def)
qed

subsection \<open>The request codec\<close>

lemma digest_nonzero_iff: "length d = 32 \<Longrightarrow> digest_nonzero d \<longleftrightarrow> d \<noteq> replicate 32 0"
  by (auto simp: digest_nonzero_def foldl_or_eq_0 list_eq_iff_nth_eq PROC17_SHA256_BYTES_def)

lemma read_limits_iff:
  "8 * length ls \<le> length q \<Longrightarrow> read_limits q ls = Some ls' \<longleftrightarrow> ls' = ls \<and> take (8 * length ls) q = concat (map be64 ls)"
proof (induction ls arbitrary: q ls')
  case (Cons l ls)
  have q: "take (8 + 8 * length ls) q = take 8 q @ take (8 * length ls) (drop 8 q)" by (rule take_add)
  have g: "proc17_qa_wire_get_u64 q = l \<longleftrightarrow> take 8 q = be64 l"
    using Cons.prems get_u64_slice [of 0 q] be_of_get(3) [of "take 8 q"] get_of_be(3) [of l] by (auto simp: slice_def)
  show ?case
    using Cons.prems Cons.IH [of "drop 8 q"] g q by auto
qed auto

definition run_of :: "bytes \<Rightarrow> bytes \<Rightarrow> bytes \<Rightarrow> bytes \<Rightarrow> proc17_qa_launcher_run" where
  "run_of t w p e = (native_run t w e)\<lparr>rn_profile := p\<rparr>"

text \<open>What identifies a run: transaction, witness, profile and environment.\<close>

type_synonym run_digests = "bytes \<times> bytes \<times> bytes \<times> bytes"

definition send_request :: "proc17_qa_mount_identity \<Rightarrow> run_digests \<Rightarrow> bytes option" where
  "send_request source m =
     (case m of (t, w, p, e) \<Rightarrow>
        if length t = 32 \<and> length w = 32 \<and> length p = 32 \<and> length e = 32
        then map_option (\<lambda>(out, n). take n out) (request_frame (run_of t w p e) source) else None)"

definition receive_request :: "proc17_qa_root_identity \<Rightarrow> bytes \<Rightarrow> run_digests option" where
  "receive_request source frame =
     (case proc17_qa_wire_decode_run_v1 (Some frame) (length frame) of
        None \<Rightarrow> None
      | Some view \<Rightarrow>
          map_option (\<lambda>rq. (rq_transaction rq, rq_witness rq, rq_profile rq, rq_environment rq))
            (parse_run_request_v1 (Some view) source))"

definition run_digests_ok :: "run_digests \<Rightarrow> bool" where
  "run_digests_ok m \<longleftrightarrow> (case m of (t, w, p, e) \<Rightarrow>
     list_all (\<lambda>d. length d = 32 \<and> d \<noteq> replicate 32 0) [t, w, p, e])"

definition request_message :: "proc17_qa_mount_identity \<Rightarrow> run_digests \<Rightarrow> bytes" where
  "request_message source m = (case m of (t, w, p, e) \<Rightarrow> request_bytes t w p e source)"

lemma request_bytes_slices:
  assumes "length t = 32" "length w = 32" "length p = 32" "length e = 32"
    and q_def: "q = request_bytes t w p e source @ r"
  shows "251 \<le> length q" "slice 0 32 q = t" "slice 32 32 q = w" "slice 64 32 q = p" "slice 96 32 q = e"
    "slice 128 8 q = be64 (mi_device source)" "slice 136 8 q = be64 (mi_inode source)" "slice 144 8 q = be64 (mi_mount_id source)"
    "slice 152 80 q = concat (map be64 exact_limits)" "slice 232 4 q = be32 0" "slice 236 2 q = be16 13"
    "slice 238 13 q = ascii ''tests/run.lua''"
proof -
  have c: "length (concat (map be64 exact_limits)) = 80" by (simp add: exact_limits_def)
  note s = slice_append_fst slice_append_snd slice_eq_self
  show "251 \<le> length q" using assms by (simp add: q_def length_request_bytes)
  show "slice 0 32 q = t" "slice 32 32 q = w" "slice 64 32 q = p" "slice 96 32 q = e"
    "slice 128 8 q = be64 (mi_device source)" "slice 136 8 q = be64 (mi_inode source)" "slice 144 8 q = be64 (mi_mount_id source)"
    "slice 152 80 q = concat (map be64 exact_limits)" "slice 232 4 q = be32 0" "slice 236 2 q = be16 13"
    "slice 238 13 q = ascii ''tests/run.lua''"
    unfolding q_def request_bytes_def source_bytes_def using assms(1-4) c
    by (simp_all only: append_assoc s length_append length_be) (simp_all add: s c)
qed

lemma request_bytes_join:
  assumes "251 \<le> length q" "slice 128 8 q = be64 (mi_device source)" "slice 136 8 q = be64 (mi_inode source)"
    "slice 144 8 q = be64 (mi_mount_id source)" "slice 152 80 q = concat (map be64 exact_limits)" "slice 232 4 q = be32 0"
    "slice 236 2 q = be16 13" "slice 238 13 q = ascii ''tests/run.lua''"
  shows "take 251 q = request_bytes (slice 0 32 q) (slice 32 32 q) (slice 64 32 q) (slice 96 32 q) source"
  unfolding request_bytes_def source_bytes_def assms(2-8) [symmetric]
  by (simp add: take_split [of 238 13] take_split [of 236 2 238] take_split [of 232 4 236] take_split [of 152 80 232]
      take_split [of 144 8 152] take_split [of 136 8 144] take_split [of 128 8 136] take_split [of 96 32 128]
      take_split [of 64 32 96] take_split [of 32 32 64] take_eq_slice [of 32])

lemma request_valid_iff:
  assumes "length t = 32" "length w = 32" "length p = 32" "length e = 32"
  shows "proc17_qa_wire_v1_payload_valid PROC17_QA_WIRE_RUN_REQUEST_V1 (Some (request_bytes t w p e source @ r)) 251
    \<longleftrightarrow> run_digests_ok (t, w, p, e)"
proof -
  define q where "q = request_bytes t w p e source @ r"
  note s = request_bytes_slices [OF assms q_def]
  have i: "proc17_qa_wire_v1_identity_valid (Some q) \<longleftrightarrow> run_digests_ok (t, w, p, e)"
    using s assms by (simp add: proc17_qa_wire_v1_identity_valid_def codec_simps run_digests_ok_def)
  have n: "proc17_qa_wire_get_u16 (drop 236 q) = 13" "proc17_qa_wire_get_u32 (drop 232 q) = 0"
    using s(1,10,11) by (simp_all add: codec_simps)
  have "take 13 (drop 238 q) = ascii ''tests/run.lua''" using s(12) by (simp add: slice_def)
  moreover have "0 \<notin> set (ascii ''tests/run.lua'')" by (rule ascii_no_zero) simp
  ultimately show ?thesis unfolding q_def [symmetric]
    by (simp add: proc17_qa_wire_v1_payload_valid_def proc17_qa_wire_v1_request_valid_def i n)
qed

lemma request_payload_run_of:
  assumes "length t = 32" "length w = 32" "length p = 32" "length e = 32"
  shows "request_payload (run_of t w p e) source = request_bytes t w p e source @ replicate 3845 0"
  by (rule request_payload_layout) (use assms in \<open>simp_all add: run_of_def native_run_def\<close>)

lemma send_request_iff:
  "send_request source (t, w, p, e) = Some f \<longleftrightarrow> run_digests_ok (t, w, p, e)
     \<and> f = wire_frame PROC17_QA_WIRE_RUN_REQUEST_V1 t (request_bytes t w p e source)"
proof (cases "length t = 32 \<and> length w = 32 \<and> length p = 32 \<and> length e = 32")
  case True
  then have l: "length t = 32" "length w = 32" "length p = 32" "length e = 32" by auto
  let ?q = "request_bytes t w p e source @ replicate 3845 0"
  have fr: "request_frame (run_of t w p e) source = proc17_qa_wire_encode_run_v1 PROC17_QA_WIRE_RUN_REQUEST_V1 (Some t)
      (Some ?q) 251 (Some (replicate 4096 0))"
    unfolding request_frame_def request_payload_run_of [OF l]
    by (simp add: run_of_def native_run_def entrypoint_string)
  have t: "take 32 ?q = t" using request_bytes_slices(2) [OF l refl, of source "replicate 3845 0"] by (simp add: slice_def)
  have u: "unat (251 :: u32) = 251" by simp
  show ?thesis
  proof (cases "run_digests_ok (t, w, p, e)")
    case ok: True
    then have "proc17_qa_wire_v1_payload_valid PROC17_QA_WIRE_RUN_REQUEST_V1 (Some ?q) 251"
      using request_valid_iff [OF l] by blast
    then obtain out where "proc17_qa_wire_encode_run_v1 PROC17_QA_WIRE_RUN_REQUEST_V1 (Some t) (Some ?q) 251
        (Some (replicate 4096 0)) = Some (out, 331)"
      "take 331 out = wire_frame PROC17_QA_WIRE_RUN_REQUEST_V1 t (take 251 ?q)"
      using run_v1_encode_decode [of PROC17_QA_WIRE_RUN_REQUEST_V1 ?q 251 "replicate 4096 0"] t l
      by (auto simp: length_request_bytes)
    then show ?thesis using ok l fr by (auto simp: send_request_def length_request_bytes)
  next
    case False
    then have "request_frame (run_of t w p e) source = None"
      using request_valid_iff [OF l] unfolding fr proc17_qa_wire_encode_run_v1_def by simp
    then show ?thesis using False by (simp add: send_request_def)
  qed
next
  case False
  then show ?thesis by (auto simp: send_request_def run_digests_ok_def)
qed

lemma entrypoint_path:
  assumes "0 \<notin> set path" "length path \<le> 1024"
  shows "c_string (write_at (replicate 1025 0) 0 (path @ [0])) = path"
  using assms c_string_zero(1) [of path] by (simp add: write_at_zeros0)

lemma parse_run_request_kind_Some:
  assumes "parse_run_request_kind v source k = Some rq"
  defines "q \<equiv> view_payload v" and "n \<equiv> unat (proc17_qa_wire_get_u16 (drop 236 (view_payload v)))"
  shows "view_kind v = k" "unat (view_payload_bytes v) = 238 + n" "\<not> proc17_qa_wire_get_u16 (drop 236 q) > 1024"
    "0 \<notin> set (take n (drop 238 q))" "c_string (write_at (replicate 1025 0) 0 (take n (drop 238 q) @ [0])) = ascii ''tests/run.lua''"
    "take 32 (view_nonce v) = take 32 q" "proc17_qa_wire_get_u32 (drop 232 q) = 0"
    "same_mount_identity \<lparr>mi_device = proc17_qa_wire_get_u64 (drop 128 q), mi_inode = proc17_qa_wire_get_u64 (drop 136 q),
       mi_mount_id = proc17_qa_wire_get_u64 (drop 144 q)\<rparr> source"
    "\<exists>ls. read_limits (drop 152 q) exact_limits = Some ls"
    "rq_transaction rq = take 32 q" "rq_witness rq = take 32 (drop 32 q)" "rq_profile rq = take 32 (drop 64 q)"
    "rq_environment rq = take 32 (drop 96 q)"
    "digest_nonzero (take 32 q)" "digest_nonzero (take 32 (drop 32 q))" "digest_nonzero (take 32 (drop 64 q))"
    "digest_nonzero (take 32 (drop 96 q))"
  using assms(1) unfolding parse_run_request_kind_def Let_def q_def [symmetric] n_def [symmetric]
    PROC17_SHA256_BYTES_def PROC17_QA_RUN_REQUEST_FIXED_BYTES_def PROC17_QA_WIRE_NONCE_BYTES_def n_def [folded q_def, symmetric]
  by (simp_all only: de_Morgan_disj not_not option.distinct(1) option.inject option.simps simp_thms if_False if_True
      split: if_split_asm option.split_asm) (auto simp only: proc17_qa_run_request.select_convs)

lemma receive_request_iff:
  "receive_request source f = Some (t, w, p, e) \<longleftrightarrow> run_digests_ok (t, w, p, e)
     \<and> f = wire_frame PROC17_QA_WIRE_RUN_REQUEST_V1 t (request_bytes t w p e source)" (is "_ \<longleftrightarrow> ?r")
proof
  assume "receive_request source f = Some (t, w, p, e)"
  then obtain v rq where d: "proc17_qa_wire_decode_run_v1 (Some f) (length f) = Some v"
    and rq: "parse_run_request_kind v source PROC17_QA_WIRE_RUN_REQUEST_V1 = Some rq"
    and m: "t = rq_transaction rq" "w = rq_witness rq" "p = rq_profile rq" "e = rq_environment rq"
    and rv: "proc17_qa_wire_v1_request_valid (Some (view_payload v)) (view_payload_bytes v)"
    by (auto simp: receive_request_def parse_run_request_v1_def split: option.splits if_splits)
  have dec: "proc17_qa_wire_decode (Some f) (length f) = Some v" using d
    by (auto simp: proc17_qa_wire_decode_run_v1_def split: option.splits if_splits)
  note s = decode_sound [OF dec order_refl]
  let ?q = "view_payload v" and ?n = "unat (proc17_qa_wire_get_u16 (drop 236 (view_payload v)))"
  let ?path = "take ?n (drop 238 ?q)"
  have lq: "length ?q = unat (view_payload_bytes v) + 32" using s(4,5) by simp
  note c = parse_run_request_kind_Some(1-8) [OF rq] and lim = parse_run_request_kind_Some(9) [OF rq]
    and dg = parse_run_request_kind_Some(10-17) [OF rq, folded m]
  have n1024: "?n \<le> 1024" using c(3) by (simp add: word_less_nat_alt)
  have "?n \<le> length ?q - 238" unfolding lq c(2) by simp
  then have pl: "length ?path = ?n" unfolding length_take length_drop by (rule min.absorb2)
  have path: "?path = ascii ''tests/run.lua''" using entrypoint_path [OF c(4)] pl n1024 c(5) by (simp only:)
  then have n13: "?n = 13" using pl by simp
  then have q251: "251 \<le> length ?q" "unat (view_payload_bytes v) = 251" unfolding lq c(2) by simp_all
  have g13: "proc17_qa_wire_get_u16 (drop 236 ?q) = 13" using n13 by (simp add: word_unat_eq_iff)
  have sl: "slice 128 8 ?q = be64 (mi_device source)" "slice 136 8 ?q = be64 (mi_inode source)"
    "slice 144 8 ?q = be64 (mi_mount_id source)" "slice 232 4 ?q = be32 0" "slice 236 2 ?q = be16 13"
    using c(7,8) g13 q251(1) be_of_get(3) [of "slice 128 8 ?q"] be_of_get(3) [of "slice 136 8 ?q"] be_of_get(3) [of "slice 144 8 ?q"]
      be_of_get(2) [of "slice 232 4 ?q"] be_of_get(1) [of "slice 236 2 ?q"]
    by (simp_all add: same_mount_identity_def codec_simps)
  have "slice 152 80 ?q = concat (map be64 exact_limits)"
    using lim read_limits_iff [of exact_limits "drop 152 ?q"] q251(1) by (auto simp: slice_def)
  moreover have "slice 238 13 ?q = ascii ''tests/run.lua''" using path n13 by (simp add: slice_def)
  ultimately have j: "take 251 ?q = request_bytes t w p e source"
    using request_bytes_join [OF q251(1) sl(1,2,3) _ sl(4,5)] dg(1-4) by (simp add: slice_def)
  have ld: "length t = 32" "length w = 32" "length p = 32" "length e = 32" using q251(1) unfolding dg(1-4) by simp_all
  have "f = wire_frame PROC17_QA_WIRE_RUN_REQUEST_V1 (slice 16 32 f) (slice 48 251 f)"
    using s(2) c(1) q251(2) by simp
  moreover have "slice 48 251 f = request_bytes t w p e source" "slice 16 32 f = t"
    using j s(3,4) c(6) dg(1) by (simp_all add: slice_def)
  ultimately show ?r using dg(5-8) [folded dg(1-4)] ld by (simp add: run_digests_ok_def digest_nonzero_iff)
next
  assume r: ?r
  then have l: "length t = 32" "length w = 32" "length p = 32" "length e = 32"
    and nz: "digest_nonzero t" "digest_nonzero w" "digest_nonzero p" "digest_nonzero e"
    by (auto simp: run_digests_ok_def digest_nonzero_iff)
  let ?b = "request_bytes t w p e source" and ?k = PROC17_QA_WIRE_RUN_REQUEST_V1
  have lb: "length ?b = 251" by (rule length_request_bytes [OF l])
  have ok: "wire_message_ok ?k t ?b" using l lb by (simp add: wire_message_ok_def proc17_qa_wire_kind_known_def)
  have f: "take (length f) f = wire_frame ?k t ?b" using r by simp
  define q where "q = drop 48 f"
  have q: "q = ?b @ fips_sha256 (wire_body ?k t ?b)" using r l
    by (simp add: q_def wire_frame_def wire_body_def)
  note s = request_bytes_slices [OF l q]
  define v where "v = \<lparr>view_kind = ?k, view_nonce = drop 16 f, view_payload = q, view_payload_bytes = 251\<rparr>"
  have dec: "proc17_qa_wire_decode (Some f) (length f) = Some v"
    using decode_complete [OF ok f] lb by (simp add: v_def q_def)
  have nonce: "take 32 (drop 16 f) = take 32 q"
    using wire_frame_slices(6) [OF ok f] s(2) by (simp add: slice_def)
  have pv: "proc17_qa_wire_v1_payload_valid ?k (Some q) 251" unfolding q using request_valid_iff [OF l] r by blast
  have d: "proc17_qa_wire_decode_run_v1 (Some f) (length f) = Some v"
    using dec pv nonce by (simp add: proc17_qa_wire_decode_run_v1_def v_def)
  have g: "proc17_qa_wire_get_u16 (drop 236 q) = 13" "proc17_qa_wire_get_u32 (drop 232 q) = 0"
    "proc17_qa_wire_get_u64 (drop 128 q) = mi_device source" "proc17_qa_wire_get_u64 (drop 136 q) = mi_inode source"
    "proc17_qa_wire_get_u64 (drop 144 q) = mi_mount_id source"
    using s by (simp_all add: codec_simps)
  have tk: "take 32 q = t" "take 32 (drop 32 q) = w" "take 32 (drop 64 q) = p" "take 32 (drop 96 q) = e"
    "take 13 (drop 238 q) = ascii ''tests/run.lua''" using s by (simp_all add: slice_def)
  have lim: "read_limits (drop 152 q) exact_limits = Some exact_limits"
    using read_limits_iff [of exact_limits "drop 152 q"] s(1,9) by (simp add: slice_def)
  have nul: "0 \<notin> set (ascii ''tests/run.lua'')" by (rule ascii_no_zero) simp
  have "\<exists>rq. parse_run_request_kind v source ?k = Some rq \<and> rq_transaction rq = t \<and> rq_witness rq = w
      \<and> rq_profile rq = p \<and> rq_environment rq = e"
    using g tk lim nul nz nonce entrypoint_path [OF nul]
    by (simp add: parse_run_request_kind_def v_def PROC17_SHA256_BYTES_def same_mount_identity_def)
  moreover have "proc17_qa_wire_v1_request_valid (Some q) 251" using pv by (simp add: proc17_qa_wire_v1_payload_valid_def)
  ultimately show "receive_request source f = Some (t, w, p, e)"
    using d by (auto simp: receive_request_def parse_run_request_v1_def) (auto simp: v_def)
qed

interpretation run_request: exact_codec "send_request source" "receive_request source"
  by unfold_locales (auto simp: send_request_iff receive_request_iff)

text \<open>C6. Launcher and supervisor agree on requests: the frame the launcher makes for a run on a source directory is
  accepted by a supervisor that observes this directory, which reads back the same transaction, witness,
  profile and environment; every frame it accepts is the frame of exactly one run; and a supervisor that
  observes another directory rejects it.\<close>

theorem request_reaches_supervisor:
  "(send_request source m = Some f \<longleftrightarrow> receive_request source f = Some m)
   \<and> (send_request source m = Some f \<and> source' \<noteq> source \<longrightarrow> receive_request source' f = None)"
proof (intro conjI impI)
  show "send_request source m = Some f \<longleftrightarrow> receive_request source f = Some m" by (rule run_request.enc_iff_dec)
  assume a: "send_request source m = Some f \<and> source' \<noteq> source"
  obtain t w p e where m: "m = (t, w, p, e)" by (cases m)
  have f: "run_digests_ok (t, w, p, e)" "f = wire_frame PROC17_QA_WIRE_RUN_REQUEST_V1 t (request_bytes t w p e source)"
    using a by (simp_all add: m send_request_iff)
  show "receive_request source' f = None"
  proof (rule ccontr)
    assume "receive_request source' f \<noteq> None"
    then obtain t' w' p' e' where "receive_request source' f = Some (t', w', p', e')" by auto
    then have g: "run_digests_ok (t', w', p', e')"
      "f = wire_frame PROC17_QA_WIRE_RUN_REQUEST_V1 t' (request_bytes t' w' p' e' source')"
      by (simp_all add: receive_request_iff)
    have l: "length t = 32" "length w = 32" "length p = 32" "length e = 32"
      "length t' = 32" "length w' = 32" "length p' = 32" "length e' = 32"
      using f(1) g(1) by (simp_all add: run_digests_ok_def)
    have "slice 48 251 f = request_bytes t w p e source" "slice 48 251 f = request_bytes t' w' p' e' source'"
      using f(2) g(2) l wire_frame_slices(7) [of PROC17_QA_WIRE_RUN_REQUEST_V1 t "request_bytes t w p e source" "length f" f]
        wire_frame_slices(7) [of PROC17_QA_WIRE_RUN_REQUEST_V1 t' "request_bytes t' w' p' e' source'" "length f" f]
      by (simp_all add: wire_message_ok_def proc17_qa_wire_kind_known_def length_request_bytes)
    then have q: "request_bytes t w p e source @ [] = request_bytes t' w' p' e' source' @ []" by simp
    note s = request_bytes_slices [OF l(1-4) refl, of source "[]"] and s' = request_bytes_slices [OF l(5-8) refl, of source' "[]"]
    have "be64 (mi_device source) = be64 (mi_device source')" "be64 (mi_inode source) = be64 (mi_inode source')"
      "be64 (mi_mount_id source) = be64 (mi_mount_id source')"
      using s(6-8) s'(6-8) unfolding q by (metis+)
    then have "source = source'" by (metis get_of_be(3) proc17_qa_mount_identity.equality old.unit.exhaust)
    then show False using a by simp
  qed
qed

definition sample_source :: proc17_qa_mount_identity where
  "sample_source = \<lparr>mi_device = 1, mi_inode = 2, mi_mount_id = 7\<rparr>"

theorem request_reaches_supervisor_witness:
  "\<exists>f. receive_request sample_source f = Some (replicate 32 1, replicate 32 2, replicate 32 3, replicate 32 4)
     \<and> receive_request (sample_source\<lparr>mi_inode := 5\<rparr>) f = None"
proof -
  let ?m = "(replicate 32 1, replicate 32 2, replicate 32 3, replicate 32 4) :: run_digests"
  have "run_digests_ok ?m" by (simp add: run_digests_ok_def)
  then obtain f where "send_request sample_source ?m = Some f" using send_request_iff by blast
  moreover have "sample_source\<lparr>mi_inode := 5\<rparr> \<noteq> sample_source" by (simp add: sample_source_def)
  ultimately show ?thesis
    using request_reaches_supervisor [of sample_source ?m f "sample_source\<lparr>mi_inode := 5\<rparr>"] by blast
qed

end
