(* ===== verification/Qa_Run_Controller.thy ===== *)
theory Qa_Run_Controller
  imports Qa_Supervisor Qa_Status
begin

text \<open>
  The controller of a run (\<open>proc17_qa_run_namespace_controller_v1\<close> in \<open>native/proc17_qa_supervisor.c\<close>): the
  handshake with the candidate, the observation loop, and the report made after it.  It is composed of
  the phase machine, the status channel, the stream observers, the clock, the scratch inventory and the
  report builder.

  The kernel's answers are arguments: a turn of the loop takes what \<open>poll\<close> reports and the replies of the
  calls that follow; a list of turns that runs out is a loop that has not returned (\<open>None\<close>).  \<open>Inl\<close> is the
  jump to \<open>cleanup\<close>.  The candidate writes the allocator telemetry, so every snapshot takes the telemetry
  found at that moment.
\<close>

subsection \<open>State\<close>

record controller_descriptors =
  fd_stdout :: int
  fd_stderr :: int
  fd_status :: int
  fd_scratch :: int
  fd_candidate :: int

record controller_state =
  cn_phase :: proc17_qa_phase_state
  cn_clock :: proc17_qa_candidate_clock
  cn_stdout :: proc17_qa_stream_observer
  cn_stderr :: proc17_qa_stream_observer
  cn_candidate_reaped :: bool
  cn_wait_status :: u32
  cn_usage :: rusage
  cn_status_eof :: bool
  cn_heap_notifications :: bool
  cn_kill_sent :: bool
  cn_error_code :: u16
  cn_error_subject :: u16
  cn_kills :: nat
  cn_packets :: "bytes list"

text \<open>The two last members are not in the code: the signals sent to the candidate and the packets written on the
  status channel so far.  The locals at their initial values:\<close>

definition controller_start :: "proc17_qa_stream_observer \<Rightarrow> proc17_qa_stream_observer \<Rightarrow> controller_state" where
  "controller_start stdout_observer stderr_observer =
     \<lparr>cn_phase = proc17_qa_phase_init, cn_clock = proc17_qa_candidate_clock_init, cn_stdout = stdout_observer,
      cn_stderr = stderr_observer, cn_candidate_reaped = False, cn_wait_status = 0,
      cn_usage = \<lparr>ru_utime = (0, 0), ru_stime = (0, 0), ru_maxrss = 0\<rparr>, cn_status_eof = False,
      cn_heap_notifications = False, cn_kill_sent = False, cn_error_code = 0, cn_error_subject = 0, cn_kills = 0,
      cn_packets = []\<rparr>"

definition zero_epoch :: proc17_qa_observation_epoch where
  "zero_epoch = \<lparr>ep_stdout_limit_crossed = 0, ep_stderr_limit_crossed = 0, ep_heap_denied = 0, ep_wall_timer_expired = 0,
     ep_candidate_terminal = 0, ep_wait_status = 0, ep_stdout_observed_bytes = 0, ep_stderr_observed_bytes = 0,
     ep_heap_peak_bytes = 0, ep_wall_limit_ms = 0\<rparr>"

text \<open>The replies of one turn: for each ready descriptor the replies of the calls it causes, and the answers to
  the signals that may be sent at its end.\<close>

type_synonym status_reply = "int \<times> bytes sys list \<times> proc17_qa_allocator_telemetry"

record turn_replies =
  tr_stdout :: "(int \<times> bytes sys list) option"
  tr_stderr :: "(int \<times> bytes sys list) option"
  tr_status :: "status_reply list option"
  tr_timer :: "(nat \<times> u64) sys list option"
  tr_wait :: "(int \<times> u32 \<times> rusage) sys list option"
  tr_error_kill :: int
  tr_cause_kill :: int

datatype controller_poll = Turn_interrupted | Turn_failed | Turn_ready turn_replies

subsection \<open>One turn\<close>

text \<open>The failure flag, the new value of \<open>*crossed\<close> and the observer.\<close>

definition drain_epoch_stream ::
  "proc17_qa_stream_observer \<Rightarrow> int \<Rightarrow> int \<Rightarrow> bytes sys list \<Rightarrow> (bool \<times> byte \<times> proc17_qa_stream_observer) option" where
  "drain_epoch_stream observer descriptor getfl_reply reads =
     map_option (\<lambda>(result, obs). (result = DRAIN_ERROR, if result = DRAIN_LIMIT_CROSSED then 1 else 0, obs))
       (proc17_qa_stream_drain_nonblocking observer descriptor getfl_reply reads)"

text \<open>A stream that is ready in this turn; the first observation that fails is remembered, a second one is
  the end.\<close>

definition note_stream_failure :: "u16 \<Rightarrow> bool \<Rightarrow> controller_state \<Rightarrow> (controller_state + controller_state)" where
  "note_stream_failure subject failed s =
     (if \<not> failed then Inr s
      else if cn_error_code s \<noteq> 0 then Inl s
      else Inr (s\<lparr>cn_error_code := PROC17_QA_RUN_V1_OUTPUT_OBSERVATION_INCOMPLETE, cn_error_subject := subject\<rparr>))"

definition stdout_step ::
  "controller_descriptors \<Rightarrow> (int \<times> bytes sys list) option \<Rightarrow> controller_state
   \<Rightarrow> (controller_state + controller_state \<times> byte) option" where
  "stdout_step fds ready s =
     (case ready of
        None \<Rightarrow> Some (Inr (s, 0))
      | Some (getfl_reply, reads) \<Rightarrow>
          (case drain_epoch_stream (cn_stdout s) (fd_stdout fds) getfl_reply reads of
             None \<Rightarrow> None
           | Some (failed, crossed, observer) \<Rightarrow>
               Some (map_sum id (\<lambda>s1. (s1, crossed))
                 (note_stream_failure PROC17_QA_CONTROLLER_ERROR_STDOUT failed (s\<lparr>cn_stdout := observer\<rparr>)))))"

definition stderr_step ::
  "controller_descriptors \<Rightarrow> (int \<times> bytes sys list) option \<Rightarrow> controller_state
   \<Rightarrow> (controller_state + controller_state \<times> byte) option" where
  "stderr_step fds ready s =
     (case ready of
        None \<Rightarrow> Some (Inr (s, 0))
      | Some (getfl_reply, reads) \<Rightarrow>
          (case drain_epoch_stream (cn_stderr s) (fd_stderr fds) getfl_reply reads of
             None \<Rightarrow> None
           | Some (failed, crossed, observer) \<Rightarrow>
               Some (map_sum id (\<lambda>s1. (s1, crossed))
                 (note_stream_failure PROC17_QA_CONTROLLER_ERROR_STDERR failed (s\<lparr>cn_stderr := observer\<rparr>)))))"

fun status_step ::
  "int \<Rightarrow> proc17_qa_status_context \<Rightarrow> status_reply list \<Rightarrow> controller_state \<Rightarrow> proc17_qa_observation_epoch
   \<Rightarrow> (controller_state + controller_state \<times> proc17_qa_observation_epoch) option" where
  "status_step descriptor ctx [] s epoch = None"
| "status_step descriptor ctx ((getfl_reply, reads, telemetry) # replies) s epoch =
     (case proc17_qa_status_receive descriptor (Some ctx) True getfl_reply reads of
        None \<Rightarrow> None
      | Some (RECEIVE_IDLE, _) \<Rightarrow> Some (Inr (s, epoch))
      | Some (RECEIVE_EOF, _) \<Rightarrow> Some (Inr (s\<lparr>cn_status_eof := True\<rparr>, epoch))
      | Some (RECEIVE_MESSAGE, Some message) \<Rightarrow>
          if msg_kind message \<noteq> PROC17_QA_STATUS_HEAP_DENIED \<or> cn_heap_notifications s then Some (Inl s)
          else
            (let s1 = s\<lparr>cn_heap_notifications := True\<rparr>
             in case proc17_qa_allocator_snapshot (Some telemetry) of
                  None \<Rightarrow> Some (Inl s1)
                | Some allocator \<Rightarrow>
                    if as_ceiling_denied allocator \<noteq> 1 \<or> as_system_allocation_failed allocator \<noteq> 0 then Some (Inl s1)
                    else status_step descriptor ctx replies s1
                           (epoch\<lparr>ep_heap_denied := 1, ep_heap_peak_bytes := as_peak_bytes allocator\<rparr>))
      | Some _ \<Rightarrow> Some (Inl s))"

definition timer_step ::
  "(nat \<times> u64) sys list option \<Rightarrow> controller_state \<Rightarrow> proc17_qa_observation_epoch
   \<Rightarrow> (controller_state + controller_state \<times> proc17_qa_observation_epoch) option" where
  "timer_step ready s epoch =
     (case ready of
        None \<Rightarrow> Some (Inr (s, epoch))
      | Some reads \<Rightarrow>
          (case proc17_qa_candidate_clock_consume_timer (cn_clock s) reads of
             None \<Rightarrow> None
           | Some (result, clock) \<Rightarrow>
               if result \<noteq> 1 then Some (Inl (s\<lparr>cn_clock := clock\<rparr>))
               else Some (Inr (s\<lparr>cn_clock := clock\<rparr>,
                      epoch\<lparr>ep_wall_timer_expired := 1, ep_wall_limit_ms := PROC17_QA_WALL_TIME_MS\<rparr>))))"

definition wait_step ::
  "int \<Rightarrow> (int \<times> u32 \<times> rusage) sys list option \<Rightarrow> controller_state \<Rightarrow> proc17_qa_observation_epoch
   \<Rightarrow> (controller_state + controller_state \<times> proc17_qa_observation_epoch) option" where
  "wait_step candidate ready s epoch =
     (case ready of
        None \<Rightarrow> Some (Inr (s, epoch))
      | Some waits \<Rightarrow>
          (case proc17_qa_wait_candidate candidate waits of
             None \<Rightarrow> None
           | Some None \<Rightarrow> Some (Inl s)
           | Some (Some (wait_status, usage)) \<Rightarrow>
               Some (Inr (s\<lparr>cn_candidate_reaped := True, cn_wait_status := wait_status, cn_usage := usage\<rparr>,
                 epoch\<lparr>ep_candidate_terminal := 1, ep_wait_status := wait_status\<rparr>))))"

text \<open>A kill signal that is due: a failing \<open>pidfd_send_signal\<close> is the end.\<close>

definition kill_step :: "bool \<Rightarrow> int \<Rightarrow> controller_state \<Rightarrow> (controller_state + controller_state)" where
  "kill_step due reply s =
     (if due \<and> \<not> cn_candidate_reaped s \<and> \<not> cn_kill_sent s
      then (let s1 = s\<lparr>cn_kills := cn_kills s + 1\<rparr>
            in if reply \<noteq> 0 then Inl s1 else Inr (s1\<lparr>cn_kill_sent := True\<rparr>))
      else Inr s)"

definition resolve_step :: "turn_replies \<Rightarrow> proc17_qa_observation_epoch \<Rightarrow> controller_state \<Rightarrow> (controller_state + controller_state)" where
  "resolve_step r epoch s =
     (case proc17_qa_controller_resolve_epoch (cn_phase s) (Some epoch) of
        (result, phase) \<Rightarrow>
          (let s1 = s\<lparr>cn_phase := phase\<rparr>
           in if result = EPOCH_INVALID \<or> result = EPOCH_AMBIGUOUS then Inl s1
              else
                (case kill_step (cn_error_code s1 \<noteq> 0) (tr_error_kill r) s1 of
                   Inl s2 \<Rightarrow> Inl s2
                 | Inr s2 \<Rightarrow> kill_step (cause_kind (first_cause (cn_phase s2)) \<noteq> 0) (tr_cause_kill r) s2)))"

text \<open>The second half of a turn: the timer, the candidate, the verdict.\<close>

definition turn_end ::
  "controller_descriptors \<Rightarrow> (nat \<times> u64) sys list option \<Rightarrow> (int \<times> u32 \<times> rusage) sys list option \<Rightarrow> turn_replies
   \<Rightarrow> controller_state \<Rightarrow> proc17_qa_observation_epoch \<Rightarrow> (controller_state + controller_state) option" where
  "turn_end fds timer_ready wait_ready r s epoch =
     (case timer_step timer_ready s epoch of
        None \<Rightarrow> None
      | Some (Inl s1) \<Rightarrow> Some (Inl s1)
      | Some (Inr (s1, epoch1)) \<Rightarrow>
          (case wait_step (fd_candidate fds) wait_ready s1 epoch1 of
             None \<Rightarrow> None
           | Some (Inl s2) \<Rightarrow> Some (Inl s2)
           | Some (Inr (s2, epoch2)) \<Rightarrow> Some (resolve_step r epoch2 s2)))"

text \<open>The descriptors given to \<open>poll\<close> are those of the state at the start of the turn.\<close>

definition controller_turn ::
  "controller_descriptors \<Rightarrow> proc17_qa_status_context \<Rightarrow> turn_replies \<Rightarrow> controller_state
   \<Rightarrow> (controller_state + controller_state) option" where
  "controller_turn fds ctx r s =
     (let stdout_ready = (if cn_error_subject s = PROC17_QA_CONTROLLER_ERROR_STDOUT then None else tr_stdout r);
          stderr_ready = (if cn_error_subject s = PROC17_QA_CONTROLLER_ERROR_STDERR then None else tr_stderr r);
          wait_ready = (if cn_candidate_reaped s then None else tr_wait r);
          timer_ready = (if cn_candidate_reaped s then None else tr_timer r)
      in case stdout_step fds stdout_ready s of
           None \<Rightarrow> None
         | Some (Inl s1) \<Rightarrow> Some (Inl s1)
         | Some (Inr (s1, out_crossed)) \<Rightarrow>
       (case stderr_step fds stderr_ready s1 of
           None \<Rightarrow> None
         | Some (Inl s2) \<Rightarrow> Some (Inl s2)
         | Some (Inr (s2, err_crossed)) \<Rightarrow>
             (let epoch = zero_epoch\<lparr>ep_stdout_limit_crossed := out_crossed,
                    ep_stdout_observed_bytes := so_observed_bytes (cn_stdout s1),
                    ep_stderr_limit_crossed := err_crossed,
                    ep_stderr_observed_bytes := so_observed_bytes (cn_stderr s2)\<rparr>
              in case (case tr_status r of
                         None \<Rightarrow> Some (Inr (s2, epoch))
                       | Some replies \<Rightarrow> status_step (fd_status fds) ctx replies s2 epoch) of
                   None \<Rightarrow> None
                 | Some (Inl s3) \<Rightarrow> Some (Inl s3)
                 | Some (Inr (s3, epoch3)) \<Rightarrow>
               turn_end fds timer_ready wait_ready r s3 epoch3)))"

definition controller_done :: "controller_state \<Rightarrow> bool" where
  "controller_done s \<longleftrightarrow>
     \<not> (\<not> cn_candidate_reaped s
        \<or> (cn_error_subject s \<noteq> PROC17_QA_CONTROLLER_ERROR_STDOUT \<and> so_eof_observed (cn_stdout s) = 0)
        \<or> (cn_error_subject s \<noteq> PROC17_QA_CONTROLLER_ERROR_STDERR \<and> so_eof_observed (cn_stderr s) = 0)
        \<or> \<not> cn_status_eof s)"

fun controller_loop ::
  "controller_descriptors \<Rightarrow> proc17_qa_status_context \<Rightarrow> controller_poll list \<Rightarrow> controller_state
   \<Rightarrow> (controller_state + controller_state) option" where
  "controller_loop fds ctx [] s = (if controller_done s then Some (Inr s) else None)"
| "controller_loop fds ctx (reply # replies) s =
     (if controller_done s then Some (Inr s)
      else
        (case reply of
           Turn_interrupted \<Rightarrow> controller_loop fds ctx replies s
         | Turn_failed \<Rightarrow> Some (Inl s)
         | Turn_ready r \<Rightarrow>
             (case controller_turn fds ctx r s of
                None \<Rightarrow> None
              | Some (Inl s1) \<Rightarrow> Some (Inl s1)
              | Some (Inr s1) \<Rightarrow> controller_loop fds ctx replies s1)))"

subsection \<open>The handshake\<close>

text \<open>The replies of the calls made between the fork and the loop; \<open>poll\<close> answers with nothing when the setup
  grace has passed, and otherwise says whether the status channel and the candidate are readable.\<close>

record handshake_replies =
  hs_poll :: "(bool \<times> bool) option sys list"
  hs_getfl :: int
  hs_reads :: "bytes sys list"
  hs_timerfd :: int
  hs_clock :: "(int \<times> int) sys"
  hs_settime :: int
  hs_packet :: bytes
  hs_send_getfl :: int
  hs_writes :: "nat sys list"
  hs_last_getfl :: int
  hs_setfl :: int

definition controller_release ::
  "controller_descriptors \<Rightarrow> proc17_qa_status_context \<Rightarrow> handshake_replies \<Rightarrow> controller_state
   \<Rightarrow> (controller_state + controller_state) option" where
  "controller_release fds ctx r s =
     (let armed = proc17_qa_candidate_clock_arm (cn_clock s) PROC17_QA_WALL_TIME_MS (hs_timerfd r) (hs_clock r) (hs_settime r);
          s1 = s\<lparr>cn_clock := arm_clock armed\<rparr>
      in if arm_result armed \<noteq> 0 then Some (Inl s1)
         else
           (case proc17_qa_phase_authorize_candidate (cn_phase s1) of
              (authorized, phase) \<Rightarrow>
                (let s2 = s1\<lparr>cn_phase := phase\<rparr>
                 in if authorized \<noteq> 0 then Some (Inl s2)
                    else
                      (case proc17_qa_status_send (fd_status fds) (Some ctx) PROC17_QA_STATUS_RELEASE 2 False (hs_packet r)
                              (hs_send_getfl r) (hs_writes r) of
                         None \<Rightarrow> None
                       | Some (sent, packet) \<Rightarrow>
                           (let s3 = s2\<lparr>cn_packets := cn_packets s2 @ (case packet of None \<Rightarrow> [] | Some p \<Rightarrow> [p])\<rparr>
                            in if sent \<noteq> 0 then Some (Inl s3)
                               else if fst (proc17_qa_status_set_nonblocking (fd_status fds) (hs_last_getfl r) (hs_setfl r)) \<noteq> 0
                               then Some (Inl s3)
                               else Some (Inr s3))))))"

definition controller_handshake ::
  "controller_descriptors \<Rightarrow> proc17_qa_status_context \<Rightarrow> handshake_replies \<Rightarrow> controller_state
   \<Rightarrow> (controller_state + controller_state) option" where
  "controller_handshake fds ctx r s =
     (case retry_eintr (hs_poll r) of
        None \<Rightarrow> None
      | Some (Sys_ok (Some (status_ready, candidate_ready)), _) \<Rightarrow>
          if candidate_ready then Some (Inl s)
          else if \<not> status_ready then Some (Inl s)
          else
            (case proc17_qa_status_receive (fd_status fds) (Some ctx) False (hs_getfl r) (hs_reads r) of
               None \<Rightarrow> None
             | Some (RECEIVE_MESSAGE, message) \<Rightarrow>
                 (case proc17_qa_status_accept_ready message (cn_phase s) of
                    (accepted, phase) \<Rightarrow>
                      if accepted \<noteq> 0 then Some (Inl (s\<lparr>cn_phase := phase\<rparr>))
                      else controller_release fds ctx r (s\<lparr>cn_phase := phase\<rparr>))
             | Some _ \<Rightarrow> Some (Inl s))
      | Some _ \<Rightarrow> Some (Inl s))"

subsection \<open>The report\<close>

definition same_allocator_snapshot ::
  "proc17_qa_allocator_snapshot_data \<Rightarrow> proc17_qa_allocator_snapshot_data \<Rightarrow> bool" where
  "same_allocator_snapshot left right \<longleftrightarrow>
     as_ceiling_bytes left = as_ceiling_bytes right
     \<and> as_current_bytes left = as_current_bytes right
     \<and> as_peak_bytes left = as_peak_bytes right
     \<and> as_ceiling_denied left = as_ceiling_denied right
     \<and> as_system_allocation_failed left = as_system_allocation_failed right
     \<and> as_status_notification_failed left = as_status_notification_failed right"

definition termination_from_wait :: "u32 \<Rightarrow> u16 \<Rightarrow> proc17_qa_candidate_termination option" where
  "termination_from_wait wait_status cause =
     (if WIFEXITED wait_status
      then Some \<lparr>term_kind = PROC17_QA_TERMINATION_EXIT, term_exit_code = WEXITSTATUS wait_status,
                 term_signal_number = 0xffffffff\<rparr>
      else if \<not> WIFSIGNALED wait_status then None
      else if cause = PROC17_QA_RUN_WALL_TIMEOUT \<or> cause = PROC17_QA_RUN_MEMORY_LIMIT \<or> cause = PROC17_QA_RUN_OUTPUT_LIMIT
      then (if WTERMSIG wait_status \<noteq> SIGKILL then None
            else Some \<lparr>term_kind = PROC17_QA_TERMINATION_SUPERVISOR_KILL, term_exit_code = 0xffffffff,
                       term_signal_number = WTERMSIG wait_status\<rparr>)
      else Some \<lparr>term_kind = PROC17_QA_TERMINATION_SIGNAL, term_exit_code = 0xffffffff,
                 term_signal_number = WTERMSIG wait_status\<rparr>)"

text \<open>A chain of \<open>proc17_qa_phase_mark_finality\<close> calls joined by \<open>||\<close>: whether all succeeded, and the phase.\<close>

fun mark_finalities :: "proc17_qa_phase_finality list \<Rightarrow> proc17_qa_phase_state \<Rightarrow> proc17_qa_phase_state option" where
  "mark_finalities [] phase = Some phase"
| "mark_finalities (m # ms) phase =
     (case proc17_qa_phase_mark_finality phase (finality_member m) of
        (r, phase1) \<Rightarrow> if r \<noteq> 0 then None else mark_finalities ms phase1)"

text \<open>What the calls after the loop answer; \<open>pf_buffer\<close> is the uninitialised report on the stack.\<close>

record postflight_replies =
  pf_scratch :: final_replies
  pf_clock :: "(int \<times> int) sys"
  pf_telemetry :: proc17_qa_allocator_telemetry
  pf_telemetry_again :: proc17_qa_allocator_telemetry
  pf_buffer :: bytes

text \<open>The end of a stream, unless it is the one whose observation failed: the finality and the measurement.\<close>

definition stream_final ::
  "proc17_qa_phase_finality \<Rightarrow> bool \<Rightarrow> proc17_qa_stream_observer \<Rightarrow> proc17_qa_phase_state
   \<Rightarrow> (proc17_qa_phase_state \<times> proc17_qa_stream_measurement option) option" where
  "stream_final member failed observer phase =
     (if failed then Some (phase, None)
      else
        (case mark_finalities [member] phase of
           None \<Rightarrow> None
         | Some phase1 \<Rightarrow>
             (case fst (proc17_qa_stream_snapshot observer) of
                None \<Rightarrow> None
              | Some measurement \<Rightarrow> Some (phase1, Some measurement))))"

definition scratch_final ::
  "int \<Rightarrow> proc17_qa_scratch_baseline \<Rightarrow> final_replies \<Rightarrow> controller_state
   \<Rightarrow> (controller_state \<times> proc17_qa_scratch_measurement option) option" where
  "scratch_final descriptor baseline replies s =
     (case proc17_qa_scratch_measure_final descriptor (Some baseline) PROC17_QA_SCRATCH_BYTES PROC17_QA_SCRATCH_ENTRIES replies of
        (SCRATCH_AMBIGUOUS, _) \<Rightarrow>
          if cn_error_code s \<noteq> 0 then None
          else Some (s\<lparr>cn_error_code := PROC17_QA_RUN_V1_SCRATCH_OBSERVATION_INCOMPLETE,
                       cn_error_subject := PROC17_QA_CONTROLLER_ERROR_SCRATCH\<rparr>, None)
      | (SCRATCH_INVALID, _) \<Rightarrow> None
      | (SCRATCH_COMPLETE, measurement) \<Rightarrow>
          map_option (\<lambda>phase. (s\<lparr>cn_phase := phase\<rparr>, measurement)) (mark_finalities [FINAL_SCRATCH_OBSERVED] (cn_phase s)))"

text \<open>The two inputs.  \<open>scratch_measurement\<close> is zero until it is measured.\<close>

definition flag :: "bool \<Rightarrow> byte" where
  "flag b = (if b then 1 else 0)"

definition controller_error_input ::
  "proc17_qa_phase_identity \<Rightarrow> bytes \<Rightarrow> bytes \<Rightarrow> controller_state \<Rightarrow> proc17_qa_scratch_measurement option
   \<Rightarrow> proc17_qa_controller_error_input" where
  "controller_error_input identity token stage s scratch =
     \<lparr>ei_identity = Some identity, ei_process_token = Some token, ei_source_stage = Some stage,
      ei_error_code = cn_error_code s, ei_subject = cn_error_subject s,
      ei_candidate_terminal_observed = flag (cn_candidate_reaped s),
      ei_process_tree_reaped = flag (cn_candidate_reaped s),
      ei_stdout_eof_observed =
        (if cn_error_subject s = PROC17_QA_CONTROLLER_ERROR_STDOUT then 0 else so_eof_observed (cn_stdout s)),
      ei_stderr_eof_observed =
        (if cn_error_subject s = PROC17_QA_CONTROLLER_ERROR_STDERR then 0 else so_eof_observed (cn_stderr s)),
      ei_scratch_observation_complete =
        (if cn_error_subject s = PROC17_QA_CONTROLLER_ERROR_SCRATCH then 0
         else (case scratch of None \<Rightarrow> 0 | Some m \<Rightarrow> sc_inventory_complete m)),
      ei_status_eof_observed = flag (cn_status_eof s)\<rparr>"

definition controller_report_input ::
  "proc17_qa_phase_identity \<Rightarrow> bytes \<Rightarrow> bytes \<Rightarrow> controller_state \<Rightarrow> proc17_qa_candidate_termination
   \<Rightarrow> proc17_qa_stream_measurement option \<Rightarrow> proc17_qa_stream_measurement option
   \<Rightarrow> proc17_qa_candidate_metrics \<Rightarrow> proc17_qa_allocator_snapshot_data \<Rightarrow> proc17_qa_scratch_measurement option
   \<Rightarrow> proc17_qa_controller_report_input" where
  "controller_report_input identity token stage s t out_m err_m metrics allocator scratch =
     \<lparr>ri_identity = Some identity, ri_process_token = Some token, ri_phase = Some (cn_phase s), ri_termination = t,
      ri_stdout_measurement = out_m, ri_stderr_measurement = err_m, ri_candidate_metrics = Some metrics,
      ri_allocator = Some allocator, ri_scratch = scratch, ri_source_stage = Some stage,
      ri_status_eof_observed = flag (cn_status_eof s), ri_allocator_observation_stable = 1,
      ri_heap_denied_notifications = flag (cn_heap_notifications s)\<rparr>"

definition built :: "int \<times> bytes ptr \<Rightarrow> bytes option" where
  "built outcome = (case outcome of (r, report) \<Rightarrow> if r \<noteq> 0 then None else report)"

text \<open>Everything between the loop and the write of the report; \<open>None\<close> is the jump to \<open>cleanup\<close>.\<close>

definition controller_report ::
  "controller_descriptors \<Rightarrow> proc17_qa_scratch_baseline \<Rightarrow> proc17_qa_phase_identity \<Rightarrow> bytes \<Rightarrow> bytes
   \<Rightarrow> postflight_replies \<Rightarrow> controller_state \<Rightarrow> bytes option" where
  "controller_report fds baseline identity token stage r s =
     Option.bind (mark_finalities [FINAL_CANDIDATE_TERMINAL, FINAL_PROCESS_TREE_REAPED] (cn_phase s)) (\<lambda>phase1.
     Option.bind (stream_final FINAL_STDOUT_EOF (cn_error_subject s = PROC17_QA_CONTROLLER_ERROR_STDOUT) (cn_stdout s)
                    phase1) (\<lambda>(phase2, out_m).
     Option.bind (stream_final FINAL_STDERR_EOF (cn_error_subject s = PROC17_QA_CONTROLLER_ERROR_STDERR) (cn_stderr s)
                    phase2) (\<lambda>(phase3, err_m).
     Option.bind (scratch_final (fd_scratch fds) baseline (pf_scratch r) (s\<lparr>cn_phase := phase3\<rparr>)) (\<lambda>(s1, scratch).
     if cn_error_code s1 \<noteq> 0
     then built (proc17_qa_controller_error_build (Some (controller_error_input identity token stage s1 scratch))
                   (Some (pf_buffer r)))
     else
       Option.bind (proc17_qa_candidate_clock_finish (cn_clock s1) (cn_usage s1) (pf_clock r)) (\<lambda>metrics.
       Option.bind (proc17_qa_allocator_snapshot (Some (pf_telemetry r))) (\<lambda>allocator.
       Option.bind (proc17_qa_allocator_snapshot (Some (pf_telemetry_again r))) (\<lambda>allocator_again.
       if \<not> same_allocator_snapshot allocator allocator_again then None
       else
         Option.bind (termination_from_wait (cn_wait_status s1) (cause_kind (first_cause (cn_phase s1)))) (\<lambda>t.
         built (proc17_qa_controller_report_build
                  (Some (controller_report_input identity token stage s1 t out_m err_m metrics allocator scratch))
                  (Some (pf_buffer r)))))))))))"

text \<open>From the fork to the report.  The state on the jump to \<open>cleanup\<close> is kept.\<close>

definition observe_candidate ::
  "controller_descriptors \<Rightarrow> proc17_qa_status_context \<Rightarrow> proc17_qa_scratch_baseline \<Rightarrow> bytes \<Rightarrow> handshake_replies
   \<Rightarrow> controller_poll list \<Rightarrow> postflight_replies \<Rightarrow> controller_state \<Rightarrow> (controller_state \<times> bytes option) option" where
  "observe_candidate fds ctx baseline stage hs polls pf s =
     (case controller_handshake fds ctx hs s of
        None \<Rightarrow> None
      | Some (Inl s1) \<Rightarrow> Some (s1, None)
      | Some (Inr s1) \<Rightarrow>
          (case controller_loop fds ctx polls s1 of
             None \<Rightarrow> None
           | Some (Inl s2) \<Rightarrow> Some (s2, None)
           | Some (Inr s2) \<Rightarrow>
               Some (s2, controller_report fds baseline (ctx_identity ctx) (ctx_process_token ctx) stage pf s2)))"

subsection \<open>What the observers hold\<close>

text \<open>An observer that was fed exactly \<open>msg\<close>, and since then saw the end of the stream or failed.\<close>

definition stream_seen :: "u64 \<Rightarrow> bytes \<Rightarrow> bool \<Rightarrow> proc17_qa_stream_observer \<Rightarrow> bool" where
  "stream_seen limit msg failed obs \<longleftrightarrow>
     (\<exists>obs0. stream_repr obs0 limit msg
       \<and> (obs = obs0 \<or> obs = obs0\<lparr>so_eof_observed := 1\<rparr> \<or> failed \<and> obs = obs0\<lparr>so_failed := 1\<rparr>))"

lemma stream_seen_repr: "stream_repr obs limit msg \<Longrightarrow> stream_seen limit msg failed obs"
  by (auto simp: stream_seen_def)

lemma stream_seen_mono: "stream_seen limit msg failed obs \<Longrightarrow> (failed \<Longrightarrow> failed') \<Longrightarrow> stream_seen limit msg failed' obs"
  by (auto simp: stream_seen_def)

lemma drain_epoch_seen:
  assumes seen: "stream_seen limit msg False obs" and len: "length msg + length (delivered reads) < 2 ^ 64"
    and drain: "drain_epoch_stream obs fd flags reads = Some (failed, crossed, obs')"
  shows "\<exists>fed. prefix fed (delivered reads) \<and> stream_seen limit (msg @ fed) failed obs'"
proof -
  obtain obs0 where r: "stream_repr obs0 limit msg" and o: "obs = obs0 \<or> obs = obs0\<lparr>so_eof_observed := 1\<rparr>"
    using seen by (auto simp: stream_seen_def)
  obtain result where d: "proc17_qa_stream_drain_nonblocking obs fd flags reads = Some (result, obs')"
    and f: "failed = (result = DRAIN_ERROR)"
    using drain by (auto simp: drain_epoch_stream_def)
  show ?thesis
  proof (cases "drain_loop obs 0 False reads = Some (result, obs') \<and> obs = obs0")
    case True
    with drain_loop_repr [OF r len] obtain fed rest obs1 where "delivered reads = fed @ rest"
      "stream_repr obs1 limit (msg @ fed)" "obs' = drain_outcome result obs1" by blast
    then show ?thesis
      by (intro exI [of _ fed])
        (cases result, auto simp: stream_seen_def drain_outcome_def f)
  next
    case False
    then have "obs' = obs \<or> obs = obs0 \<and> failed \<and> obs' = obs0\<lparr>so_failed := 1\<rparr>"
      using d o r f
      by (auto simp: proc17_qa_stream_drain_nonblocking_def stream_repr_def split: if_splits)
    with r o show ?thesis by (intro exI [of _ "[]"]) (auto simp: stream_seen_def)
  qed
qed

lemma snapshot_seen:
  assumes "stream_seen limit msg False obs" "so_eof_observed obs \<noteq> 0"
  shows "fst (proc17_qa_stream_snapshot obs) = Some (measured limit msg)"
proof -
  obtain obs0 where r: "stream_repr obs0 limit msg" "obs = obs0\<lparr>so_eof_observed := 1\<rparr>"
    using assms by (auto simp: stream_seen_def stream_repr_def)
  with stream_snapshot_repr [OF r(1)] show ?thesis by auto
qed

subsection \<open>What a turn does to the phase\<close>

text \<open>Resolving an epoch leaves the phase as it is or claims a cause; an epoch in which the candidate ended never
  leaves it without one.\<close>

lemma resolve_epoch_phase:
  assumes res: "proc17_qa_controller_resolve_epoch phase (Some e) = (r, phase')"
  shows "phase' = phase \<or> (\<exists>k v. phase' = snd (proc17_qa_phase_claim_first_cause phase k v))"
proof (cases "epoch_wellformed e \<and> cause_kind (first_cause phase) = 0")
  case True
  then have eq: "epoch_wellformed e" "cause_kind (first_cause phase) = 0" by simp_all
  show ?thesis
  proof (cases "accumulate (epoch_observations e) (0, 0)")
    case None
    with res show ?thesis unfolding resolve_epoch_eq [OF eq] by simp
  next
    case (Some acc)
    obtain k v where acc: "acc = (k, v)" by (cases acc)
    obtain c claimed where "proc17_qa_phase_claim_first_cause phase k v = (c, claimed)" by force
    then have "phase' = phase \<or> phase' = snd (proc17_qa_phase_claim_first_cause phase k v)"
      using res Some acc unfolding resolve_epoch_eq [OF eq] by (auto split: if_splits)
    then show ?thesis by blast
  qed
next
  case False
  with res show ?thesis by (auto simp: proc17_qa_controller_resolve_epoch_def split: if_splits)
qed

lemma resolve_epoch_terminal:
  assumes res: "proc17_qa_controller_resolve_epoch phase (Some e) = (r, phase')"
    and r: "r \<noteq> EPOCH_INVALID" "r \<noteq> EPOCH_AMBIGUOUS" and "ep_candidate_terminal e \<noteq> 0"
  shows "cause_kind (first_cause phase') \<noteq> 0"
proof (cases "cause_kind (first_cause phase) = 0")
  case False
  with res r show ?thesis by (auto simp: proc17_qa_controller_resolve_epoch_def split: if_splits)
next
  case True
  have wf: "epoch_wellformed e" using res r by (auto simp: proc17_qa_controller_resolve_epoch_def split: if_splits)
  then have ne: "epoch_observations e \<noteq> []"
    using assms(4) by (auto simp: epoch_observations_def epoch_wellformed_def split: option.splits)
  have k: "\<forall>x \<in> set (epoch_observations e). fst x \<noteq> 0" using epoch_observations_kinds by blast
  then have k0: "fst (hd (epoch_observations e)) \<noteq> 0" using ne by simp
  show ?thesis
  proof (cases "accumulate (epoch_observations e) (0, 0)")
    case None
    with res r show ?thesis unfolding resolve_epoch_eq [OF wf True] by simp
  next
    case (Some acc)
    obtain kind v where acc: "acc = (kind, v)" by (cases acc)
    have "kind = fst (hd (epoch_observations e))"
      using Some acc ne unfolding accumulate_from_start [OF k] by (metis Pair_inject option.distinct(1) option.inject)
    with k0 have "kind \<noteq> 0" by simp
    with res r Some acc show ?thesis
      unfolding resolve_epoch_eq [OF wf True]
      by (auto simp: proc17_qa_phase_claim_first_cause_def Let_def True split: if_splits)
  qed
qed

subsection \<open>The invariant of the loop\<close>

text \<open>The invariant of the states of the loop; within a turn, \<open>terminal\<close> says that the candidate ended in this
  epoch, which is resolved at the end of the turn.\<close>

definition controller_inv :: "bool \<Rightarrow> controller_state \<Rightarrow> bool" where
  "controller_inv terminal s \<longleftrightarrow>
     phase_inv (cn_phase s) \<and> started_attested (cn_phase s) = 1 \<and> candidate_release_authorized (cn_phase s) = 1
     \<and> finality_mask (cn_phase s) = 3
     \<and> (cn_error_code s, cn_error_subject s) \<in>
         {(0, 0), (PROC17_QA_RUN_V1_OUTPUT_OBSERVATION_INCOMPLETE, PROC17_QA_CONTROLLER_ERROR_STDOUT),
          (PROC17_QA_RUN_V1_OUTPUT_OBSERVATION_INCOMPLETE, PROC17_QA_CONTROLLER_ERROR_STDERR)}
     \<and> (cn_candidate_reaped s \<longrightarrow> cause_kind (first_cause (cn_phase s)) \<noteq> 0 \<or> terminal)
     \<and> cn_kills s = (if cn_kill_sent s then 1 else 0)
     \<and> (cn_kill_sent s \<longrightarrow> cause_kind (first_cause (cn_phase s)) \<noteq> 0 \<or> cn_error_code s \<noteq> 0)"

text \<open>What holds on every way out: at most one signal, and never without a reason.\<close>

definition controller_safe :: "controller_state \<Rightarrow> bool" where
  "controller_safe s \<longleftrightarrow>
     cn_kills s \<le> 1 \<and> (cn_kills s \<noteq> 0 \<longrightarrow> cause_kind (first_cause (cn_phase s)) \<noteq> 0 \<or> cn_error_code s \<noteq> 0)"

definition streams_inv :: "bytes \<Rightarrow> bytes \<Rightarrow> controller_state \<Rightarrow> bool" where
  "streams_inv out err s \<longleftrightarrow>
     stream_seen PROC17_QA_STDOUT_BYTES out (cn_error_subject s = PROC17_QA_CONTROLLER_ERROR_STDOUT) (cn_stdout s)
     \<and> stream_seen PROC17_QA_STDERR_BYTES err (cn_error_subject s = PROC17_QA_CONTROLLER_ERROR_STDERR) (cn_stderr s)"

lemma controller_inv_safe: "controller_inv terminal s \<Longrightarrow> controller_safe s"
  by (auto simp: controller_inv_def controller_safe_def)

lemma controller_inv_update [simp]:
  "controller_inv terminal (s\<lparr>cn_stdout := a\<rparr>) = controller_inv terminal s"
  "controller_inv terminal (s\<lparr>cn_stderr := a\<rparr>) = controller_inv terminal s"
  "controller_inv terminal (s\<lparr>cn_clock := c\<rparr>) = controller_inv terminal s"
  "controller_inv terminal (s\<lparr>cn_status_eof := b\<rparr>) = controller_inv terminal s"
  "controller_inv terminal (s\<lparr>cn_heap_notifications := b\<rparr>) = controller_inv terminal s"
  "controller_inv True (s\<lparr>cn_candidate_reaped := b, cn_wait_status := w, cn_usage := u\<rparr>) = controller_inv True s"
  by (simp_all add: controller_inv_def)

lemma streams_inv_update [simp]:
  "streams_inv out err (s\<lparr>cn_clock := c\<rparr>) = streams_inv out err s"
  "streams_inv out err (s\<lparr>cn_status_eof := b\<rparr>) = streams_inv out err s"
  "streams_inv out err (s\<lparr>cn_heap_notifications := b\<rparr>) = streams_inv out err s"
  "streams_inv out err (s\<lparr>cn_candidate_reaped := b, cn_wait_status := w, cn_usage := u\<rparr>) = streams_inv out err s"
  "streams_inv out err (s\<lparr>cn_phase := p\<rparr>) = streams_inv out err s"
  "streams_inv out err (s\<lparr>cn_kills := n\<rparr>) = streams_inv out err s"
  "streams_inv out err (s\<lparr>cn_kill_sent := b\<rparr>) = streams_inv out err s"
  by (simp_all add: streams_inv_def)

lemma controller_inv_weaken: "controller_inv False s \<Longrightarrow> controller_inv terminal s"
  by (auto simp: controller_inv_def)

text \<open>Sequencing of the steps of a turn.\<close>

abbreviation outcome_ok :: "('a \<Rightarrow> bool) \<Rightarrow> ('b \<Rightarrow> bool) \<Rightarrow> ('a + 'b) option \<Rightarrow> bool" where
  "outcome_ok P Q \<equiv> pred_option (pred_sum P Q)"

lemma outcome_ok_bind:
  "outcome_ok P Q x \<Longrightarrow> (\<And>y. Q y \<Longrightarrow> outcome_ok P R (f y)) \<Longrightarrow>
     outcome_ok P R (case x of None \<Rightarrow> None | Some (Inl s) \<Rightarrow> Some (Inl s) | Some (Inr y) \<Rightarrow> f y)"
  by (auto split: option.split sum.split)

definition ready_bytes :: "(int \<times> bytes sys list) option \<Rightarrow> bytes" where
  "ready_bytes ready = (case ready of None \<Rightarrow> [] | Some (_, reads) \<Rightarrow> delivered reads)"

lemma stdout_step_ok:
  assumes inv: "controller_inv False s" "streams_inv out err s"
    and ready: "ready \<noteq> None \<Longrightarrow> cn_error_subject s \<noteq> PROC17_QA_CONTROLLER_ERROR_STDOUT"
    and len: "length out + length (ready_bytes ready) < 2 ^ 64"
  shows "outcome_ok controller_safe (\<lambda>(s1, _). controller_inv False s1
      \<and> (cn_error_subject s1 = PROC17_QA_CONTROLLER_ERROR_STDERR \<longrightarrow> cn_error_subject s = PROC17_QA_CONTROLLER_ERROR_STDERR)
      \<and> (\<exists>fed. prefix fed (ready_bytes ready) \<and> streams_inv (out @ fed) err s1)) (stdout_step fds ready s)"
proof (cases ready)
  case None
  then show ?thesis using inv by (simp add: stdout_step_def ready_bytes_def)
next
  case (Some p)
  obtain flags reads where p: "p = (flags, reads)" by (cases p)
  have subject: "cn_error_subject s \<noteq> 1" using ready Some by simp
  show ?thesis
  proof (cases "drain_epoch_stream (cn_stdout s) (fd_stdout fds) flags reads")
    case None
    then show ?thesis by (simp add: stdout_step_def Some p)
  next
    case (Some d)
    obtain failed crossed obs where d: "d = (failed, crossed, obs)" by (cases d)
    have seen: "stream_seen PROC17_QA_STDOUT_BYTES out False (cn_stdout s)"
      using inv(2) subject by (simp add: streams_inv_def)
    from drain_epoch_seen [OF seen _ Some [unfolded d]] len \<open>ready = Some p\<close> p
    obtain fed where fed: "prefix fed (delivered reads)" "stream_seen PROC17_QA_STDOUT_BYTES (out @ fed) failed obs"
      by (auto simp: ready_bytes_def)
    show ?thesis
      using inv fed subject Some d p \<open>ready = Some p\<close> controller_inv_safe [OF inv(1)]
      by (auto simp: stdout_step_def note_stream_failure_def ready_bytes_def controller_safe_def streams_inv_def
          controller_inv_def intro!: exI [of _ fed] elim: stream_seen_mono)
  qed
qed

lemma stderr_step_ok:
  assumes inv: "controller_inv False s" "streams_inv out err s"
    and ready: "ready \<noteq> None \<Longrightarrow> cn_error_subject s \<noteq> PROC17_QA_CONTROLLER_ERROR_STDERR"
    and len: "length err + length (ready_bytes ready) < 2 ^ 64"
  shows "outcome_ok controller_safe (\<lambda>(s1, _). controller_inv False s1
      \<and> (\<exists>fed. prefix fed (ready_bytes ready) \<and> streams_inv out (err @ fed) s1)) (stderr_step fds ready s)"
proof (cases ready)
  case None
  then show ?thesis using inv by (simp add: stderr_step_def ready_bytes_def)
next
  case (Some p)
  obtain flags reads where p: "p = (flags, reads)" by (cases p)
  have subject: "cn_error_subject s \<noteq> 2" using ready Some by simp
  show ?thesis
  proof (cases "drain_epoch_stream (cn_stderr s) (fd_stderr fds) flags reads")
    case None
    then show ?thesis by (simp add: stderr_step_def Some p)
  next
    case (Some d)
    obtain failed crossed obs where d: "d = (failed, crossed, obs)" by (cases d)
    have seen: "stream_seen PROC17_QA_STDERR_BYTES err False (cn_stderr s)"
      using inv(2) subject by (simp add: streams_inv_def)
    from drain_epoch_seen [OF seen _ Some [unfolded d]] len \<open>ready = Some p\<close> p
    obtain fed where fed: "prefix fed (delivered reads)" "stream_seen PROC17_QA_STDERR_BYTES (err @ fed) failed obs"
      by (auto simp: ready_bytes_def)
    show ?thesis
      using inv fed subject Some d p \<open>ready = Some p\<close> controller_inv_safe [OF inv(1)]
      by (auto simp: stderr_step_def note_stream_failure_def ready_bytes_def controller_safe_def streams_inv_def
          controller_inv_def intro!: exI [of _ fed] elim: stream_seen_mono)
  qed
qed

lemma status_step_ok:
  assumes "controller_inv False s" "streams_inv out err s"
  shows "outcome_ok controller_safe (\<lambda>(s1, e1). controller_inv False s1 \<and> streams_inv out err s1
      \<and> ep_candidate_terminal e1 = ep_candidate_terminal epoch) (status_step fd ctx replies s epoch)"
  using assms
proof (induction fd ctx replies s epoch rule: status_step.induct)
  case (2 fd ctx flags reads telemetry replies s epoch)
  then show ?case
    using controller_inv_safe [OF "2.prems"(1)] controller_inv_safe [of False "s\<lparr>cn_heap_notifications := True\<rparr>"]
    by (auto split: option.splits proc17_qa_status_receive_result.splits prod.splits simp: Let_def)
qed simp

lemma timer_step_ok:
  assumes "controller_inv False s" "streams_inv out err s"
  shows "outcome_ok controller_safe (\<lambda>(s1, e1). controller_inv False s1 \<and> streams_inv out err s1
      \<and> ep_candidate_terminal e1 = ep_candidate_terminal epoch) (timer_step ready s epoch)"
  using assms controller_inv_safe [of False "s\<lparr>cn_clock := c\<rparr>" for c]
  by (auto simp: timer_step_def split: option.split prod.split)

lemma wait_step_ok:
  assumes "controller_inv False s" "streams_inv out err s" "ep_candidate_terminal epoch = 0"
  shows "outcome_ok controller_safe (\<lambda>(s1, e1). controller_inv (ep_candidate_terminal e1 \<noteq> 0) s1 \<and> streams_inv out err s1)
     (wait_step candidate ready s epoch)"
  using assms controller_inv_safe [OF assms(1)] controller_inv_weaken [OF assms(1), of True]
  by (auto simp: wait_step_def split: option.split prod.split)

lemma kill_step_ok:
  assumes "controller_inv False s" "due \<Longrightarrow> cause_kind (first_cause (cn_phase s)) \<noteq> 0 \<or> cn_error_code s \<noteq> 0"
  shows "pred_sum controller_safe (\<lambda>s1. controller_inv False s1 \<and> (streams_inv out err s \<longrightarrow> streams_inv out err s1)
      \<and> cn_phase s1 = cn_phase s \<and> cn_error_code s1 = cn_error_code s
      \<and> (cn_kill_sent s \<longrightarrow> cn_kill_sent s1) \<and> cn_candidate_reaped s1 = cn_candidate_reaped s
      \<and> (due \<longrightarrow> cn_candidate_reaped s1 \<or> cn_kill_sent s1)) (kill_step due reply s)"
  using assms controller_inv_safe [OF assms(1)]
  by (auto simp: kill_step_def Let_def controller_inv_def controller_safe_def)

text \<open>After a turn, a candidate with a recorded cause or a failed observation has ended or been killed.\<close>

definition controller_prompt :: "controller_state \<Rightarrow> bool" where
  "controller_prompt s \<longleftrightarrow>
     (cause_kind (first_cause (cn_phase s)) \<noteq> 0 \<or> cn_error_code s \<noteq> 0 \<longrightarrow> cn_candidate_reaped s \<or> cn_kill_sent s)"

lemma controller_inv_resolved:
  assumes "controller_inv (ep_candidate_terminal e \<noteq> 0) s"
    and res: "proc17_qa_controller_resolve_epoch (cn_phase s) (Some e) = (r, phase)"
  shows "controller_inv (r = EPOCH_INVALID \<or> r = EPOCH_AMBIGUOUS) (s\<lparr>cn_phase := phase\<rparr>)"
proof -
  have inv0: "phase_inv (cn_phase s)" using assms(1) by (simp add: controller_inv_def)
  have claim: "(cause_kind (first_cause (cn_phase s)) \<noteq> 0 \<longrightarrow> cause_kind (first_cause q) \<noteq> 0) \<and> phase_inv q
      \<and> started_attested q = started_attested (cn_phase s)
      \<and> candidate_release_authorized q = candidate_release_authorized (cn_phase s)
      \<and> finality_mask q = finality_mask (cn_phase s)"
    if "q = snd (proc17_qa_phase_claim_first_cause (cn_phase s) k v)" for q k v
    using that phase_inv_claim [OF inv0, of k v] by (simp add: proc17_qa_phase_claim_first_cause_def Let_def)
  have kept: "cause_kind (first_cause (cn_phase s)) \<noteq> 0 \<Longrightarrow> cause_kind (first_cause phase) \<noteq> 0"
    and inv: "phase_inv phase" and same: "started_attested phase = started_attested (cn_phase s)"
      "candidate_release_authorized phase = candidate_release_authorized (cn_phase s)"
      "finality_mask phase = finality_mask (cn_phase s)"
    using resolve_epoch_phase [OF res] claim inv0 by blast+
  show ?thesis
    using assms(1) kept inv same resolve_epoch_terminal [OF res] by (auto simp: controller_inv_def)
qed

lemma resolve_step_ok:
  assumes "controller_inv (ep_candidate_terminal e \<noteq> 0) s" "streams_inv out err s"
  shows "pred_sum controller_safe (\<lambda>s1. controller_inv False s1 \<and> streams_inv out err s1 \<and> controller_prompt s1)
     (resolve_step r e s)"
proof -
  obtain result phase where res: "proc17_qa_controller_resolve_epoch (cn_phase s) (Some e) = (result, phase)" by force
  let ?s1 = "s\<lparr>cn_phase := phase\<rparr>"
  note inv = controller_inv_resolved [OF assms(1) res]
  show ?thesis
  proof (cases "result = EPOCH_INVALID \<or> result = EPOCH_AMBIGUOUS")
    case True
    then show ?thesis using controller_inv_safe [OF inv] by (simp add: resolve_step_def res Let_def)
  next
    case False
    with inv have inv1: "controller_inv False ?s1" by simp
    have k1: "pred_sum controller_safe (\<lambda>s2. controller_inv False s2 \<and> (streams_inv out err ?s1 \<longrightarrow> streams_inv out err s2)
        \<and> cn_phase s2 = cn_phase ?s1 \<and> cn_error_code s2 = cn_error_code ?s1
        \<and> (cn_kill_sent ?s1 \<longrightarrow> cn_kill_sent s2) \<and> cn_candidate_reaped s2 = cn_candidate_reaped ?s1
        \<and> (cn_error_code ?s1 \<noteq> 0 \<longrightarrow> cn_candidate_reaped s2 \<or> cn_kill_sent s2))
        (kill_step (cn_error_code ?s1 \<noteq> 0) (tr_error_kill r) ?s1)"
      by (rule kill_step_ok [OF inv1]) simp
    show ?thesis
    proof (cases "kill_step (cn_error_code ?s1 \<noteq> 0) (tr_error_kill r) ?s1")
      case (Inl s2)
      then show ?thesis using k1 False by (simp add: resolve_step_def res Let_def)
    next
      case (Inr s2)
      with k1 have i2: "controller_inv False s2" "streams_inv out err s2" "cn_phase s2 = phase"
        "cn_error_code s2 \<noteq> 0 \<longrightarrow> cn_candidate_reaped s2 \<or> cn_kill_sent s2"
        using assms(2) by auto
      from kill_step_ok [OF i2(1), of "cause_kind (first_cause (cn_phase s2)) \<noteq> 0" out err "tr_cause_kill r"] i2
      have "pred_sum controller_safe (\<lambda>s1. controller_inv False s1 \<and> streams_inv out err s1 \<and> controller_prompt s1)
        (kill_step (cause_kind (first_cause (cn_phase s2)) \<noteq> 0) (tr_cause_kill r) s2)"
        by (auto elim!: sum.pred_mono_strong simp: controller_prompt_def)
      then show ?thesis using Inr False by (simp add: resolve_step_def res Let_def)
    qed
  qed
qed

lemma turn_end_ok:
  assumes inv: "controller_inv False s" "streams_inv out err s" and e: "ep_candidate_terminal epoch = 0"
  shows "outcome_ok controller_safe (\<lambda>s1. controller_inv False s1 \<and> streams_inv out err s1 \<and> controller_prompt s1)
     (turn_end fds timer_ready wait_ready r s epoch)"
  unfolding turn_end_def
proof (rule outcome_ok_bind [OF timer_step_ok [OF inv]], clarify)
  fix s1 and e1 :: proc17_qa_observation_epoch
  assume s1: "controller_inv False s1" "streams_inv out err s1" "ep_candidate_terminal e1 = ep_candidate_terminal epoch"
  with e have "ep_candidate_terminal e1 = 0" by simp
  from wait_step_ok [OF s1(1,2) this]
  show "outcome_ok controller_safe (\<lambda>s1. controller_inv False s1 \<and> streams_inv out err s1 \<and> controller_prompt s1)
     (case wait_step (fd_candidate fds) wait_ready s1 e1 of None \<Rightarrow> None | Some (Inl s2) \<Rightarrow> Some (Inl s2)
      | Some (Inr (s2, epoch2)) \<Rightarrow> Some (resolve_step r epoch2 s2))"
    by (rule outcome_ok_bind) (auto intro: resolve_step_ok)
qed

lemma controller_turn_ok:
  assumes inv: "controller_inv False s" "streams_inv out err s"
    and len: "length out + length (ready_bytes (tr_stdout r)) < 2 ^ 64" "length err + length (ready_bytes (tr_stderr r)) < 2 ^ 64"
  shows "outcome_ok controller_safe (\<lambda>s1. controller_inv False s1 \<and> controller_prompt s1
      \<and> (\<exists>o1 e1. prefix o1 (ready_bytes (tr_stdout r)) \<and> prefix e1 (ready_bytes (tr_stderr r))
           \<and> streams_inv (out @ o1) (err @ e1) s1)) (controller_turn fds ctx r s)"
proof -
  let ?out = "if cn_error_subject s = PROC17_QA_CONTROLLER_ERROR_STDOUT then None else tr_stdout r"
  let ?err = "if cn_error_subject s = PROC17_QA_CONTROLLER_ERROR_STDERR then None else tr_stderr r"
  have sub: "length (ready_bytes ?out) \<le> length (ready_bytes (tr_stdout r))" "prefix (ready_bytes ?out) (ready_bytes (tr_stdout r))"
    "length (ready_bytes ?err) \<le> length (ready_bytes (tr_stderr r))" "prefix (ready_bytes ?err) (ready_bytes (tr_stderr r))"
    by (simp_all add: ready_bytes_def)
  show ?thesis
    unfolding controller_turn_def Let_def
  proof (rule outcome_ok_bind [OF stdout_step_ok [OF inv]], goal_cases)
    case (3 y)
    obtain s1 c where y: "y = (s1, c)" by (cases y)
    with 3 obtain o1 where s1: "controller_inv False s1" "prefix o1 (ready_bytes ?out)" "streams_inv (out @ o1) err s1"
      "cn_error_subject s1 = PROC17_QA_CONTROLLER_ERROR_STDERR \<Longrightarrow> cn_error_subject s = PROC17_QA_CONTROLLER_ERROR_STDERR"
      by auto
    show ?case unfolding y prod.case
    proof (rule outcome_ok_bind [OF stderr_step_ok [OF s1(1,3)]], goal_cases)
      case (3 z)
      obtain s2 d where z: "z = (s2, d)" by (cases z)
      with 3 obtain e1 where s2: "controller_inv False s2" "prefix e1 (ready_bytes ?err)" "streams_inv (out @ o1) (err @ e1) s2"
        by auto
      have pre: "prefix o1 (ready_bytes (tr_stdout r))" "prefix e1 (ready_bytes (tr_stderr r))"
        using s1(2) s2(2) sub(2,4) by (meson prefix_order.trans)+
      let ?e0 = "zero_epoch\<lparr>ep_stdout_limit_crossed := c, ep_stdout_observed_bytes := so_observed_bytes (cn_stdout s1),
        ep_stderr_limit_crossed := d, ep_stderr_observed_bytes := so_observed_bytes (cn_stderr s2)\<rparr>"
      have st: "outcome_ok controller_safe (\<lambda>(s3, e3). controller_inv False s3 \<and> streams_inv (out @ o1) (err @ e1) s3
          \<and> ep_candidate_terminal e3 = 0)
          (case tr_status r of None \<Rightarrow> Some (Inr (s2, ?e0)) | Some replies \<Rightarrow> status_step (fd_status fds) ctx replies s2 ?e0)"
        using status_step_ok [OF s2(1,3), of ?e0] s2 by (simp add: zero_epoch_def split: option.split)
      show ?case unfolding z prod.case
        by (rule outcome_ok_bind [OF st], clarify, rule option.pred_mono_strong [OF turn_end_ok], assumption+,
            erule sum.pred_mono_strong) (use pre in blast)+
    qed (use s1(4) len(2) sub(3) in \<open>auto split: if_splits\<close>)
  qed (use len(1) sub(1) in \<open>auto split: if_splits\<close>)
qed

subsection \<open>The whole loop\<close>

text \<open>What the kernel offers on a stream in one poll, and a message assembled from prefixes of such offers.\<close>

definition poll_stdout :: "controller_poll \<Rightarrow> bytes" where
  "poll_stdout p = (case p of Turn_ready r \<Rightarrow> ready_bytes (tr_stdout r) | _ \<Rightarrow> [])"

definition poll_stderr :: "controller_poll \<Rightarrow> bytes" where
  "poll_stderr p = (case p of Turn_ready r \<Rightarrow> ready_bytes (tr_stderr r) | _ \<Rightarrow> [])"

definition fed_from :: "bytes \<Rightarrow> bytes list \<Rightarrow> bool" where
  "fed_from msg offers \<longleftrightarrow> (\<exists>parts. list_all2 prefix parts offers \<and> msg = concat parts)"

lemma fed_from_none [intro]: "fed_from [] offers"
  unfolding fed_from_def by (intro exI [of _ "map (\<lambda>_. []) offers"]) (auto simp: list_all2_conv_all_nth)

lemma fed_from_Cons [intro]: "prefix a b \<Longrightarrow> fed_from msg offers \<Longrightarrow> fed_from (a @ msg) (b # offers)"
  unfolding fed_from_def by (metis concat.simps(2) list_all2_Cons)

lemma fed_from_skip [simp]: "fed_from msg ([] # offers) \<longleftrightarrow> fed_from msg offers"
proof
  assume "fed_from msg ([] # offers)"
  then obtain parts where "list_all2 prefix parts ([] # offers)" "msg = concat parts" unfolding fed_from_def by blast
  then show "fed_from msg offers" unfolding fed_from_def by (cases parts) auto
qed (use fed_from_Cons [of "[]" "[]"] in simp)

lemma controller_loop_ok:
  assumes "controller_inv False s" "streams_inv out err s" "controller_prompt s"
    and "length out + length (concat (map poll_stdout polls)) < 2 ^ 64"
    and "length err + length (concat (map poll_stderr polls)) < 2 ^ 64"
  shows "outcome_ok controller_safe (\<lambda>s1. controller_inv False s1 \<and> controller_prompt s1 \<and> controller_done s1
      \<and> (\<exists>o1 e1. fed_from o1 (map poll_stdout polls) \<and> fed_from e1 (map poll_stderr polls)
           \<and> streams_inv (out @ o1) (err @ e1) s1)) (controller_loop fds ctx polls s)"
  using assms
proof (induction polls arbitrary: s out err)
  case Nil
  then show ?case by (auto intro!: exI [of _ "[]"])
next
  case (Cons p polls)
  show ?case
  proof (cases "controller_done s \<or> p = Turn_failed")
    case True
    then show ?thesis
      using Cons.prems controller_inv_safe [OF Cons.prems(1)] by (auto intro!: exI [of _ "[]"])
  next
    case going: False
    show ?thesis
    proof (cases p)
      case Turn_interrupted
      with Cons.IH [OF Cons.prems(1-3)] Cons.prems(4,5) going show ?thesis
        by (auto simp: poll_stdout_def poll_stderr_def elim!: option.pred_mono_strong sum.pred_mono_strong)
    next
      case Turn_failed
      with going show ?thesis by simp
    next
      case (Turn_ready r)
      have turn: "outcome_ok controller_safe (\<lambda>s1. controller_inv False s1 \<and> controller_prompt s1
        \<and> (\<exists>o1 e1. prefix o1 (ready_bytes (tr_stdout r)) \<and> prefix e1 (ready_bytes (tr_stderr r))
             \<and> streams_inv (out @ o1) (err @ e1) s1)) (controller_turn fds ctx r s)"
        by (rule controller_turn_ok [OF Cons.prems(1,2)])
          (use Cons.prems(4,5) Turn_ready in \<open>simp_all add: poll_stdout_def poll_stderr_def\<close>)
      have eq: "controller_loop fds ctx (p # polls) s = (case controller_turn fds ctx r s of
          None \<Rightarrow> None | Some (Inl s1) \<Rightarrow> Some (Inl s1) | Some (Inr s1) \<Rightarrow> controller_loop fds ctx polls s1)"
        using going Turn_ready by simp
      show ?thesis
        unfolding eq
      proof (rule outcome_ok_bind [OF turn], elim conjE exE)
        fix s1 o1 e1
        assume s1: "controller_inv False s1" "controller_prompt s1" "streams_inv (out @ o1) (err @ e1) s1"
          and pre: "prefix o1 (ready_bytes (tr_stdout r))" "prefix e1 (ready_bytes (tr_stderr r))"
        have "length o1 \<le> length (ready_bytes (tr_stdout r))" "length e1 \<le> length (ready_bytes (tr_stderr r))"
          using pre prefix_length_le by blast+
        then have "outcome_ok controller_safe (\<lambda>s2. controller_inv False s2 \<and> controller_prompt s2 \<and> controller_done s2
            \<and> (\<exists>o2 e2. fed_from o2 (map poll_stdout polls) \<and> fed_from e2 (map poll_stderr polls)
                 \<and> streams_inv ((out @ o1) @ o2) ((err @ e1) @ e2) s2)) (controller_loop fds ctx polls s1)"
          by (intro Cons.IH [OF s1(1,3,2)])
            (use Cons.prems(4,5) Turn_ready in \<open>simp_all add: poll_stdout_def poll_stderr_def\<close>)
        moreover have "fed_from (o1 @ o2) (map poll_stdout (p # polls))" if "fed_from o2 (map poll_stdout polls)" for o2
          using that pre(1) Turn_ready by (auto simp: poll_stdout_def)
        moreover have "fed_from (e1 @ e2) (map poll_stderr (p # polls))" if "fed_from e2 (map poll_stderr polls)" for e2
          using that pre(2) Turn_ready by (auto simp: poll_stderr_def)
        ultimately show "outcome_ok controller_safe (\<lambda>s2. controller_inv False s2 \<and> controller_prompt s2 \<and> controller_done s2
            \<and> (\<exists>o2 e2. fed_from o2 (map poll_stdout (p # polls)) \<and> fed_from e2 (map poll_stderr (p # polls))
                 \<and> streams_inv (out @ o2) (err @ e2) s2)) (controller_loop fds ctx polls s1)"
          by (auto elim!: option.pred_mono_strong sum.pred_mono_strong simp del: list.map)
      qed
    qed
  qed
qed

subsection \<open>The handshake\<close>

lemma handshake_message:
  assumes c: "context_wf c" and r: "proc17_qa_status_receive fd (Some c) nonblocking flags reads = Some (RECEIVE_MESSAGE, m)"
  shows "\<exists>msg rest. m = Some msg \<and> retry_eintr reads = Some (Sys_ok (status_packet c (msg_kind msg) (msg_sequence msg)), rest)
    \<and> proc17_qa_status_context_valid (Some c)"
proof -
  obtain observed rest where o: "retry_eintr reads = Some (Sys_ok observed, rest)" "length observed = 184"
    and d: "status_decode (Some (write_at (replicate 185 0) 0 observed)) (Some c) = m" "m \<noteq> None"
    using r
    by (auto simp: proc17_qa_status_receive_def Let_def dest: sym split: if_splits option.splits sys.splits prod.splits)
  obtain msg where m: "m = Some msg" using d(2) by blast
  show ?thesis
    using d(1) o unfolding m by (subst (asm) status_decode_iff [OF c]) (simp_all add: write_at_in_range)
qed

lemma clock_arm_armed:
  "arm_result (proc17_qa_candidate_clock_arm clock wall timerfd_reply clock_reply settime_reply) = 0 \<Longrightarrow>
     ck_armed (arm_clock (proc17_qa_candidate_clock_arm clock wall timerfd_reply clock_reply settime_reply)) = 1"
  by (auto simp: proc17_qa_candidate_clock_arm_def arm_abandon_def Let_def split: if_splits option.splits)

text \<open>The candidate is released only after it said READY under this context, with the clock armed and the phase
  authorised; nothing else is ever sent to it.\<close>

definition released :: "proc17_qa_status_context \<Rightarrow> handshake_replies \<Rightarrow> controller_state \<Rightarrow> bool" where
  "released ctx hs s \<longleftrightarrow>
     (\<exists>rest. retry_eintr (hs_reads hs) = Some (Sys_ok (status_packet ctx PROC17_QA_STATUS_READY 1), rest))
     \<and> ck_armed (cn_clock s) = 1 \<and> started_attested (cn_phase s) = 1 \<and> candidate_release_authorized (cn_phase s) = 1
     \<and> cn_packets s = [status_packet ctx PROC17_QA_STATUS_RELEASE 2]"

lemma controller_handshake_ok:
  assumes c: "context_wf ctx" and buf: "length (hs_packet hs) = 184"
    and s: "s = controller_start out_o err_o" "stream_repr out_o PROC17_QA_STDOUT_BYTES []" "stream_repr err_o PROC17_QA_STDERR_BYTES []"
  shows "outcome_ok (\<lambda>s1. controller_safe s1 \<and> (cn_packets s1 = [] \<or> released ctx hs s1))
     (\<lambda>s1. controller_inv False s1 \<and> streams_inv [] [] s1 \<and> controller_prompt s1 \<and> released ctx hs s1)
     (controller_handshake fds ctx hs s)"
proof -
  have safe: "controller_safe s1" if "cn_kills s1 = 0" for s1 using that by (simp add: controller_safe_def)
  let ?receive = "proc17_qa_status_receive (fd_status fds) (Some ctx) False (hs_getfl hs) (hs_reads hs)"
  have k0: "cn_kills s = 0" "cn_packets s = []" "cn_phase s = proc17_qa_phase_init" by (simp_all add: s(1) controller_start_def)
  have go: "outcome_ok (\<lambda>s1. controller_safe s1 \<and> (cn_packets s1 = [] \<or> released ctx hs s1))
     (\<lambda>s1. controller_inv False s1 \<and> streams_inv [] [] s1 \<and> controller_prompt s1 \<and> released ctx hs s1)
     (controller_release fds ctx hs (s\<lparr>cn_phase := phase\<rparr>))"
    if m: "?receive = Some (RECEIVE_MESSAGE, m)" and a: "proc17_qa_status_accept_ready m (cn_phase s) = (0, phase)" for m phase
  proof -
    obtain msg rest where msg: "m = Some msg" "proc17_qa_status_context_valid (Some ctx)"
      "retry_eintr (hs_reads hs) = Some (Sys_ok (status_packet ctx (msg_kind msg) (msg_sequence msg)), rest)"
      using handshake_message [OF c m] by blast
    with a have ready: "msg_kind msg = 1" "msg_sequence msg = 1"
      and phase: "phase = proc17_qa_phase_init\<lparr>started_attested := 1, finality_mask := 3\<rparr>"
      by (simp_all add: proc17_qa_status_accept_ready_def k0 observe_started_ready_eq split: if_splits)
    have inv: "phase_inv (phase\<lparr>candidate_release_authorized := 1\<rparr>)"
      by (simp add: phase_inv_def phase proc17_qa_phase_init_def no_cause_def)
    have auth: "proc17_qa_phase_authorize_candidate phase = (0, phase\<lparr>candidate_release_authorized := 1\<rparr>)"
      by (simp add: proc17_qa_phase_authorize_candidate_def phase proc17_qa_phase_init_def)
    have enc: "proc17_qa_status_encode (Some ctx) 2 2 (Some (hs_packet hs)) = Some (status_packet ctx 2 2)"
      using status_encode_eq [OF c buf] msg(2) by (simp add: exact_sequence_def)
    let ?send = "proc17_qa_status_send (fd_status fds) (Some ctx) PROC17_QA_STATUS_RELEASE 2 False (hs_packet hs)
      (hs_send_getfl hs) (hs_writes hs)"
    let ?clock = "proc17_qa_candidate_clock_arm (cn_clock s) PROC17_QA_WALL_TIME_MS (hs_timerfd hs) (hs_clock hs) (hs_settime hs)"
    let ?s2 = "s\<lparr>cn_clock := arm_clock ?clock, cn_phase := phase\<lparr>candidate_release_authorized := 1\<rparr>\<rparr>"
    have send: "packet = None \<and> b \<noteq> 0 \<or> packet = Some (status_packet ctx 2 2)" if "?send = Some (b, packet)" for b packet
      using that enc by (auto simp: proc17_qa_status_send_def split: if_splits option.splits sys.splits prod.splits)
    have final: "controller_inv False s3 \<and> streams_inv [] [] s3 \<and> controller_prompt s3 \<and> released ctx hs s3"
      if "s3 = ?s2\<lparr>cn_packets := [status_packet ctx 2 2]\<rparr>" "arm_result ?clock = 0" for s3
      using inv msg(3) ready s clock_arm_armed [OF that(2)] unfolding that(1) phase
      by (simp add: controller_inv_def streams_inv_def controller_prompt_def released_def controller_start_def
          proc17_qa_phase_init_def no_cause_def stream_seen_repr)
    show ?thesis
    proof (cases "arm_result ?clock = 0")
      case False
      then show ?thesis using k0 by (simp add: controller_release_def Let_def safe)
    next
      case True
      show ?thesis
        unfolding controller_release_def Let_def using True auth k0 send final [OF refl True] controller_inv_safe
        by (auto simp: safe split: option.split prod.split)
    qed
  qed
  show ?thesis
    unfolding controller_handshake_def using go k0
    by (auto simp: safe split: option.split prod.split sys.split proc17_qa_status_receive_result.split)
qed

subsection \<open>The report\<close>

lemma mark_finalities_cause: "mark_finalities ms p = Some p' \<Longrightarrow> first_cause p' = first_cause p"
  by (induction ms arbitrary: p)
    (auto simp: proc17_qa_phase_mark_finality_def Let_def split: if_splits prod.splits)

lemma stream_final_Some:
  assumes "stream_final member failed obs p = Some (p', m)" and "stream_seen limit msg failed obs"
    and "\<not> failed \<Longrightarrow> so_eof_observed obs \<noteq> 0"
  shows "first_cause p' = first_cause p" "m = (if failed then None else Some (measured limit msg))"
  using assms snapshot_seen [of limit msg obs]
  by (auto simp: stream_final_def simp del: mark_finalities.simps dest: mark_finalities_cause split: if_splits option.splits)

lemma scratch_final_Some:
  assumes "scratch_final fd baseline replies s = Some (s', m)"
  shows "first_cause (cn_phase s') = first_cause (cn_phase s) \<and> cn_wait_status s' = cn_wait_status s
    \<and> (cn_error_code s', cn_error_subject s') =
        (if cn_error_code s = 0 \<and> m = None
         then (PROC17_QA_RUN_V1_SCRATCH_OBSERVATION_INCOMPLETE, PROC17_QA_CONTROLLER_ERROR_SCRATCH)
         else (cn_error_code s, cn_error_subject s))
    \<and> (m \<noteq> None \<longrightarrow> proc17_qa_scratch_measure_final fd (Some baseline) PROC17_QA_SCRATCH_BYTES PROC17_QA_SCRATCH_ENTRIES replies
         = (SCRATCH_COMPLETE, m))"
proof -
  obtain r m' where "proc17_qa_scratch_measure_final fd (Some baseline) PROC17_QA_SCRATCH_BYTES PROC17_QA_SCRATCH_ENTRIES replies
      = (r, m')" by force
  moreover from this have "r = SCRATCH_COMPLETE \<Longrightarrow> m' \<noteq> None"
    by (auto simp: proc17_qa_scratch_measure_final_def Let_def split: if_splits option.splits prod.splits sys.splits)
  ultimately show ?thesis
    using assms
    by (cases r) (auto simp: scratch_final_def simp del: mark_finalities.simps dest: mark_finalities_cause split: if_splits)
qed

text \<open>What a report of the controller says about a candidate with these outputs.\<close>

definition report_of ::
  "bytes \<Rightarrow> proc17_qa_status_context \<Rightarrow> bytes \<Rightarrow> bytes \<Rightarrow> bytes \<Rightarrow> controller_state \<Rightarrow> bool" where
  "report_of b ctx stage out err s \<longleftrightarrow>
     private_report_kind (Some b) = PROC17_QA_CONTROLLER_TERMINAL_RESULT \<and> cn_error_code s = 0
     \<and> slice 16 128 b = identity_bytes (ctx_identity ctx) \<and> slice 144 32 b = ctx_process_token ctx \<and> slice 488 84 b = stage
     \<and> report_stream b 232 = measured PROC17_QA_STDOUT_BYTES out \<and> report_stream b 296 = measured PROC17_QA_STDERR_BYTES err
     \<and> slice 232 64 b = stream_bytes (measured PROC17_QA_STDOUT_BYTES out)
     \<and> slice 296 64 b = stream_bytes (measured PROC17_QA_STDERR_BYTES err)
     \<and> report_cause b = first_cause (cn_phase s)
     \<and> termination_from_wait (cn_wait_status s) (cause_kind (first_cause (cn_phase s))) = Some (report_termination b)"

definition error_of :: "bytes \<Rightarrow> proc17_qa_status_context \<Rightarrow> bytes \<Rightarrow> controller_state \<Rightarrow> bool" where
  "error_of b ctx stage s \<longleftrightarrow>
     private_report_kind (Some b) = PROC17_QA_CONTROLLER_TERMINAL_ERROR
     \<and> slice 16 128 b = identity_bytes (ctx_identity ctx) \<and> slice 144 32 b = ctx_process_token ctx \<and> slice 488 84 b = stage
     \<and> (proc17_qa_wire_get_u16 (drop 176 b), proc17_qa_wire_get_u16 (drop 178 b)) =
         (if cn_error_code s = 0 then (PROC17_QA_RUN_V1_SCRATCH_OBSERVATION_INCOMPLETE, PROC17_QA_CONTROLLER_ERROR_SCRATCH)
          else (cn_error_code s, cn_error_subject s))"

lemma built_Some: "built outcome = Some b \<longleftrightarrow> outcome = (0, Some b)"
  by (auto simp: built_def split: prod.splits)

lemma controller_report_says:
  assumes c: "context_wf ctx" "length stage = 84" "length (pf_buffer pf) = 572"
    and inv: "controller_inv False s" "streams_inv out err s" "controller_done s"
    and rep: "controller_report fds baseline (ctx_identity ctx) (ctx_process_token ctx) stage pf s = Some b"
  shows "length b = 572 \<and> (report_of b ctx stage out err s \<or> error_of b ctx stage s)"
proof -
  obtain p1 p2 out_m p3 err_m s1 scratch where
    p1: "mark_finalities [FINAL_CANDIDATE_TERMINAL, FINAL_PROCESS_TREE_REAPED] (cn_phase s) = Some p1"
    and p2: "stream_final FINAL_STDOUT_EOF (cn_error_subject s = PROC17_QA_CONTROLLER_ERROR_STDOUT) (cn_stdout s) p1 = Some (p2, out_m)"
    and p3: "stream_final FINAL_STDERR_EOF (cn_error_subject s = PROC17_QA_CONTROLLER_ERROR_STDERR) (cn_stderr s) p2 = Some (p3, err_m)"
    and s1: "scratch_final (fd_scratch fds) baseline (pf_scratch pf) (s\<lparr>cn_phase := p3\<rparr>) = Some (s1, scratch)"
    using rep unfolding controller_report_def by (auto simp: bind_eq_Some_conv simp del: mark_finalities.simps)
  note seen = inv(2) [unfolded streams_inv_def]
  note out_m = stream_final_Some [OF p2 conjunct1 [OF seen]] and err_m = stream_final_Some [OF p3 conjunct2 [OF seen]]
  have eof: "cn_error_subject s \<noteq> 1 \<Longrightarrow> so_eof_observed (cn_stdout s) \<noteq> 0" "cn_error_subject s \<noteq> 2 \<Longrightarrow> so_eof_observed (cn_stderr s) \<noteq> 0"
    using inv(3) by (auto simp: controller_done_def)
  note sf = scratch_final_Some [OF s1]
  have cause: "first_cause (cn_phase s1) = first_cause (cn_phase s)" "cn_wait_status s1 = cn_wait_status s"
    using sf out_m(1) err_m(1) eof mark_finalities_cause [OF p1] by simp_all
  have rest: "(if cn_error_code s1 \<noteq> 0
     then built (proc17_qa_controller_error_build
        (Some (controller_error_input (ctx_identity ctx) (ctx_process_token ctx) stage s1 scratch)) (Some (pf_buffer pf)))
     else
       Option.bind (proc17_qa_candidate_clock_finish (cn_clock s1) (cn_usage s1) (pf_clock pf)) (\<lambda>metrics.
       Option.bind (proc17_qa_allocator_snapshot (Some (pf_telemetry pf))) (\<lambda>allocator.
       Option.bind (proc17_qa_allocator_snapshot (Some (pf_telemetry_again pf))) (\<lambda>allocator_again.
       if \<not> same_allocator_snapshot allocator allocator_again then None
       else
         Option.bind (termination_from_wait (cn_wait_status s1) (cause_kind (first_cause (cn_phase s1)))) (\<lambda>t.
         built (proc17_qa_controller_report_build
                  (Some (controller_report_input (ctx_identity ctx) (ctx_process_token ctx) stage s1 t out_m err_m metrics allocator scratch))
                  (Some (pf_buffer pf)))))))) = Some b"
    using rep unfolding controller_report_def p1 p2 p3 s1 bind.bind_lunit prod.case .
  show ?thesis
  proof (cases "cn_error_code s1 = 0")
    case False
    with rest have b: "proc17_qa_controller_error_build
        (Some (controller_error_input (ctx_identity ctx) (ctx_process_token ctx) stage s1 scratch)) (Some (pf_buffer pf)) = (0, Some b)"
      by (simp add: built_Some)
    have "error_input_wf (controller_error_input (ctx_identity ctx) (ctx_process_token ctx) stage s1 scratch)"
      using c by (simp add: error_input_wf_def controller_error_input_def context_wf_def)
    from built_error_is_valid [OF this c(3) b] False sf show ?thesis
      by (auto simp: error_of_def controller_error_input_def split: if_splits)
  next
    case True
    then have code: "cn_error_code s = 0" using sf by (auto split: if_splits)
    then have subject: "cn_error_subject s = 0" using inv(1) by (auto simp: controller_inv_def)
    obtain t metrics allocator where t: "termination_from_wait (cn_wait_status s1) (cause_kind (first_cause (cn_phase s1))) = Some t"
      and b: "proc17_qa_controller_report_build
        (Some (controller_report_input (ctx_identity ctx) (ctx_process_token ctx) stage s1 t out_m err_m metrics allocator scratch))
        (Some (pf_buffer pf)) = (0, Some b)"
      using rest True by (auto simp: bind_eq_Some_conv built_Some split: if_splits)
    let ?input = "controller_report_input (ctx_identity ctx) (ctx_process_token ctx) stage s1 t out_m err_m metrics allocator scratch"
    have ms: "out_m = Some (measured PROC17_QA_STDOUT_BYTES out)" "err_m = Some (measured PROC17_QA_STDERR_BYTES err)"
      using out_m(2) err_m(2) eof subject by simp_all
    have wf: "report_input_wf ?input"
      using c by (simp add: report_input_wf_def controller_report_input_def context_wf_def ms measured_def PROC17_SHA256_BYTES_def)
    obtain scr where l: "report_layout b (ctx_identity ctx) (ctx_process_token ctx) t (first_cause (cn_phase s1))
        (flag (cn_heap_notifications s1)) (measured PROC17_QA_STDOUT_BYTES out) (measured PROC17_QA_STDERR_BYTES err)
        metrics allocator scr stage" and k: "private_report_kind (Some b) = 1"
      by (rule report_build_layout [OF wf c(3) b]) (auto simp: controller_report_input_def ms)
    have "length (sm_prefix_digest (measured limit msg)) = 32" for limit msg
      by (simp add: measured_def PROC17_SHA256_BYTES_def)
    note reads = report_layout_reads [OF l this this]
    have "length b = 572" "slice 16 128 b = identity_bytes (ctx_identity ctx)" "slice 144 32 b = ctx_process_token ctx"
      "slice 488 84 b = stage" "slice 232 64 b = stream_bytes (measured PROC17_QA_STDOUT_BYTES out)"
      "slice 296 64 b = stream_bytes (measured PROC17_QA_STDERR_BYTES err)" using l by (simp_all add: report_layout_def)
    then show ?thesis using reads k t cause code by (simp add: report_of_def)
  qed
qed

subsection \<open>What the controller guarantees\<close>

lemma observe_candidate_ok:
  assumes c: "context_wf ctx" "length (hs_packet hs) = 184"
    and s: "proc17_qa_stream_init PROC17_QA_STDOUT_BYTES = Some out_o" "proc17_qa_stream_init PROC17_QA_STDERR_BYTES = Some err_o"
    and len: "length (concat (map poll_stdout polls)) < 2 ^ 64" "length (concat (map poll_stderr polls)) < 2 ^ 64"
    and run: "observe_candidate fds ctx baseline stage hs polls pf (controller_start out_o err_o) = Some (s, report)"
  shows "controller_safe s \<and> (\<forall>b. report = Some b \<longrightarrow> controller_inv False s \<and> controller_done s \<and>
      controller_report fds baseline (ctx_identity ctx) (ctx_process_token ctx) stage pf s = Some b
      \<and> (\<exists>out err. fed_from out (map poll_stdout polls) \<and> fed_from err (map poll_stderr polls) \<and> streams_inv out err s))"
proof -
  have repr: "stream_repr out_o PROC17_QA_STDOUT_BYTES []" "stream_repr err_o PROC17_QA_STDERR_BYTES []"
    using stream_repr_init [of PROC17_QA_STDOUT_BYTES] stream_repr_init [of PROC17_QA_STDERR_BYTES] s by auto
  note hs = controller_handshake_ok [OF c refl repr, of fds]
  show ?thesis
  proof (cases "controller_handshake fds ctx hs (controller_start out_o err_o)")
    case None
    with run show ?thesis by (simp add: observe_candidate_def)
  next
    case (Some r)
    show ?thesis
    proof (cases r)
      case (Inl s1)
      with run Some hs show ?thesis by (simp add: observe_candidate_def)
    next
      case (Inr s1)
      with hs Some have "controller_inv False s1" "streams_inv [] [] s1" "controller_prompt s1" by simp_all
      from controller_loop_ok [OF this, of polls fds ctx] len run Some Inr show ?thesis
        by (auto simp: observe_candidate_def controller_inv_safe split: option.splits sum.splits)
    qed
  qed
qed

text \<open>A run in which the candidate exits at once, with its standard output failing: an error report.\<close>

definition sample_descriptors :: controller_descriptors where
  "sample_descriptors = \<lparr>fd_stdout = 3, fd_stderr = 4, fd_status = 5, fd_scratch = 7, fd_candidate = 77\<rparr>"

definition sample_handshake :: handshake_replies where
  "sample_handshake = \<lparr>hs_poll = [Sys_err EINTR, Sys_ok (Some (True, False))], hs_getfl = 0,
     hs_reads = [Sys_ok (status_packet sample_context 1 1)], hs_timerfd = 9, hs_clock = Sys_ok (100, 0), hs_settime = 0,
     hs_packet = replicate 184 0, hs_send_getfl = 0, hs_writes = [Sys_ok 184], hs_last_getfl = 0, hs_setfl = 0\<rparr>"

definition sample_telemetry :: proc17_qa_allocator_telemetry where
  "sample_telemetry = the (proc17_qa_allocator_telemetry_init PROC17_QA_RUNTIME_HEAP_BYTES)"

definition sample_turn :: turn_replies where
  "sample_turn = \<lparr>tr_stdout = Some (2048, [Sys_err EIO]), tr_stderr = Some (2048, [Sys_ok []]),
     tr_status = Some [(2048, [Sys_ok []], sample_telemetry)], tr_timer = None,
     tr_wait = Some [Sys_ok (77, 0, \<lparr>ru_utime = (0, 0), ru_stime = (0, 0), ru_maxrss = 0\<rparr>)], tr_error_kill = 0, tr_cause_kill = 0\<rparr>"

definition sample_observer :: "u64 \<Rightarrow> proc17_qa_stream_observer" where
  "sample_observer limit = the (proc17_qa_stream_init limit)"

definition sample_postflight :: postflight_replies where
  "sample_postflight = \<lparr>pf_scratch = sample_replies, pf_clock = Sys_ok (101, 0), pf_telemetry = sample_telemetry,
     pf_telemetry_again = sample_telemetry, pf_buffer = replicate 572 0\<rparr>"

lemma sample_observer_repr:
  "limit \<noteq> 0 \<Longrightarrow> proc17_qa_stream_init limit = Some (sample_observer limit) \<and> stream_repr (sample_observer limit) limit []"
  using stream_repr_init [of limit] by (auto simp: sample_observer_def)

lemma sample_handshake_loop:
  "case controller_handshake sample_descriptors sample_context sample_handshake
       (controller_start (sample_observer PROC17_QA_STDOUT_BYTES) (sample_observer PROC17_QA_STDERR_BYTES)) of
     Some (Inr s) \<Rightarrow>
       (case controller_loop sample_descriptors sample_context [Turn_ready sample_turn] s of
          Some (Inr s1) \<Rightarrow>
            cn_error_code s1 = PROC17_QA_RUN_V1_OUTPUT_OBSERVATION_INCOMPLETE
            \<and> cn_error_subject s1 = PROC17_QA_CONTROLLER_ERROR_STDOUT \<and> cn_candidate_reaped s1 \<and> cn_status_eof s1
            \<and> cn_stderr s1 = (sample_observer PROC17_QA_STDERR_BYTES)\<lparr>so_eof_observed := 1\<rparr>
        | _ \<Rightarrow> False)
   | _ \<Rightarrow> False"
  by code_simp

lemma case_returns:
  "(case x of Some (Inr s) \<Rightarrow> P s | _ \<Rightarrow> False) \<longleftrightarrow> (\<exists>s. x = Some (Inr s) \<and> P s)"
  by (auto split: option.split sum.split)

lemma sample_scratch_final:
  "proc17_qa_scratch_measure_final 7 (Some sample_baseline) PROC17_QA_SCRATCH_BYTES PROC17_QA_SCRATCH_ENTRIES sample_replies
   = (SCRATCH_COMPLETE, Some \<lparr>sc_stored_regular_bytes = 3, sc_stored_entries = 1, sc_limit_bytes = PROC17_QA_SCRATCH_BYTES,
        sc_limit_entries = PROC17_QA_SCRATCH_ENTRIES, sc_byte_capacity_exhausted = 0, sc_entry_capacity_exhausted = 1,
        sc_inventory_complete = 1\<rparr>)"
  by code_simp

lemma mark_finalities_total: "\<exists>p'. mark_finalities ms p = Some p'"
proof (induction ms arbitrary: p)
  case (Cons m ms)
  then show ?case by (cases m) (auto simp: proc17_qa_phase_mark_finality_def Let_def)
qed simp

lemma sample_observation:
  obtains s b where "observe_candidate sample_descriptors sample_context sample_baseline sample_stage sample_handshake
    [Turn_ready sample_turn] sample_postflight
    (controller_start (sample_observer PROC17_QA_STDOUT_BYTES) (sample_observer PROC17_QA_STDERR_BYTES)) = Some (s, Some b)"
    "cn_error_code s = PROC17_QA_RUN_V1_OUTPUT_OBSERVATION_INCOMPLETE"
proof -
  obtain s0 s where run: "controller_handshake sample_descriptors sample_context sample_handshake
       (controller_start (sample_observer PROC17_QA_STDOUT_BYTES) (sample_observer PROC17_QA_STDERR_BYTES)) = Some (Inr s0)"
    "controller_loop sample_descriptors sample_context [Turn_ready sample_turn] s0 = Some (Inr s)"
    and s: "cn_error_code s = 7" "cn_error_subject s = 1" "cn_candidate_reaped s" "cn_status_eof s"
      "cn_stderr s = (sample_observer PROC17_QA_STDERR_BYTES)\<lparr>so_eof_observed := 1\<rparr>"
    using sample_handshake_loop unfolding case_returns by auto
  have snap: "fst (proc17_qa_stream_snapshot (cn_stderr s)) = Some (measured PROC17_QA_STDERR_BYTES [])"
    by (rule snapshot_seen) (use s(5) sample_observer_repr [of PROC17_QA_STDERR_BYTES] in \<open>auto simp: stream_seen_def\<close>)
  have stg: "sample_stage ! 80 = 1" "sample_stage ! 81 = 1"
    by (simp_all add: sample_stage_def nth_append length_concat sum_list_replicate)
  have tok: "proc17_qa_wire_digest_nonzero (Some (replicate 32 9))" by (simp add: codec_simps slice_replicate)
  obtain p1 p2 p3 where p: "mark_finalities [FINAL_CANDIDATE_TERMINAL, FINAL_PROCESS_TREE_REAPED] (cn_phase s) = Some p1"
    "mark_finalities [FINAL_STDERR_EOF] p1 = Some p2" "mark_finalities [FINAL_SCRATCH_OBSERVED] p2 = Some p3"
    using mark_finalities_total by blast
  have "\<exists>b. controller_report sample_descriptors sample_baseline (ctx_identity sample_context) (ctx_process_token sample_context)
      sample_stage sample_postflight s = Some b"
    unfolding controller_report_def p(1) using p(2,3) s snap stg tok sample_scratch_final sample_identity_ok(2) sample_stage_ok(2)
    by (simp add: stream_final_def scratch_final_def sample_descriptors_def sample_postflight_def controller_error_input_def
        proc17_qa_controller_error_build_def expected_observations_def built_def flag_def sample_context_def
        sample_observer_def proc17_qa_stream_init_def del: mark_finalities.simps)
  with that run s(1) show ?thesis by (auto simp: observe_candidate_def simp del: controller_loop.simps)
qed





text \<open>C13. The candidate is released only after it said READY: a controller that sent anything on the status
  channel had received the READY packet of this very run, had armed its clock and authorised the
  candidate, and sent the one RELEASE packet of this run and nothing else.\<close>

theorem candidate_released_after_ready:
  assumes "context_wf ctx" "length (hs_packet hs) = 184"
    and "proc17_qa_stream_init PROC17_QA_STDOUT_BYTES = Some out_o" "proc17_qa_stream_init PROC17_QA_STDERR_BYTES = Some err_o"
    and "controller_handshake fds ctx hs (controller_start out_o err_o) = Some outcome"
  shows "case outcome of
      Inl s \<Rightarrow> cn_packets s = [] \<or> released ctx hs s
    | Inr s \<Rightarrow> released ctx hs s"
proof -
  have "stream_repr out_o PROC17_QA_STDOUT_BYTES []" "stream_repr err_o PROC17_QA_STDERR_BYTES []"
    using stream_repr_init [of PROC17_QA_STDOUT_BYTES] stream_repr_init [of PROC17_QA_STDERR_BYTES] assms(3,4) by auto
  from controller_handshake_ok [OF assms(1,2) refl this, of fds] assms(5) show ?thesis by (auto split: sum.split)
qed

theorem candidate_released_after_ready_witness:
  "\<exists>s. controller_handshake sample_descriptors sample_context sample_handshake
       (controller_start (sample_observer PROC17_QA_STDOUT_BYTES) (sample_observer PROC17_QA_STDERR_BYTES)) = Some (Inr s)
    \<and> cn_packets s = [status_packet sample_context PROC17_QA_STATUS_RELEASE 2]"
proof -
  obtain s where h: "controller_handshake sample_descriptors sample_context sample_handshake
       (controller_start (sample_observer PROC17_QA_STDOUT_BYTES) (sample_observer PROC17_QA_STDERR_BYTES)) = Some (Inr s)"
    using sample_handshake_loop unfolding case_returns by auto
  from candidate_released_after_ready [OF sample_context_ok(1) _ _ _ h] h show ?thesis
    using sample_observer_repr by (auto simp: sample_handshake_def released_def)
qed

end
