(* ===== verification/Qa_Run_Liveness.thy ===== *)
theory Qa_Run_Liveness
  imports Qa_Run_Controller
begin

text \<open>
  The observation loop of the controller returns: which replies settle the calls of a turn, what stays over
  once it is over, and the turn that ends the loop.
\<close>

subsection \<open>Replies that settle a turn\<close>

text \<open>The replies of a turn settle every call it makes.\<close>

definition stream_answers :: "bytes sys list \<Rightarrow> bool" where
  "stream_answers reads \<longleftrightarrow> (\<exists>r \<in> set reads. r = Sys_ok [] \<or> (\<exists>e. r = Sys_err e \<and> e \<noteq> EINTR))"

definition call_answers :: "'a sys list \<Rightarrow> bool" where
  "call_answers replies \<longleftrightarrow> (\<exists>r \<in> set replies. r \<noteq> Sys_err EINTR)"

fun status_answers :: "status_reply list \<Rightarrow> bool" where
  "status_answers [] \<longleftrightarrow> False"
| "status_answers ((_, reads, _) # replies) \<longleftrightarrow>
     (case retry_eintr reads of
        None \<Rightarrow> False
      | Some (Sys_ok packet, _) \<Rightarrow> packet = [] \<or> status_answers replies
      | Some (Sys_err _, _) \<Rightarrow> True)"

definition turn_answers :: "turn_replies \<Rightarrow> bool" where
  "turn_answers r \<longleftrightarrow>
     pred_option (\<lambda>(_, reads). stream_answers reads) (tr_stdout r)
     \<and> pred_option (\<lambda>(_, reads). stream_answers reads) (tr_stderr r)
     \<and> pred_option status_answers (tr_status r)
     \<and> pred_option call_answers (tr_timer r) \<and> pred_option call_answers (tr_wait r)"

text \<open>The turn in which everything is over: both pipes and the status channel are at their end and the candidate
  can be reaped.\<close>

definition last_turn :: "turn_replies \<Rightarrow> bool" where
  "last_turn r \<longleftrightarrow>
     map_option snd (tr_stdout r) = Some [Sys_ok []] \<and> map_option snd (tr_stderr r) = Some [Sys_ok []]
     \<and> map_option (map (fst \<circ> snd)) (tr_status r) = Some [[Sys_ok []]]
     \<and> (\<exists>answer. tr_wait r = Some [answer] \<and> answer \<noteq> Sys_err EINTR) \<and> pred_option call_answers (tr_timer r)"

lemma answers_retry: "call_answers replies \<Longrightarrow> \<exists>r rest. retry_eintr replies = Some (r, rest)"
  using retry_eintr_Some_iff [of replies] by (auto simp: call_answers_def)

lemma drain_epoch_returns: "stream_answers reads \<Longrightarrow> drain_epoch_stream obs fd flags reads \<noteq> None"
  using drain_loop_returns [of reads 0 obs False]
  by (auto simp: drain_epoch_stream_def proc17_qa_stream_drain_nonblocking_def stream_answers_def)

lemma status_step_returns: "status_answers replies \<Longrightarrow> status_step fd ctx replies s epoch \<noteq> None"
proof (induction fd ctx replies s epoch rule: status_step.induct)
  case (2 fd ctx flags reads telemetry replies s epoch)
  then show ?case
    by (auto simp: proc17_qa_status_receive_def Let_def
        split: option.splits proc17_qa_status_receive_result.splits prod.splits sys.splits if_splits)
qed simp

lemma returns_bind:
  "x \<noteq> None \<Longrightarrow> (\<And>y. f y \<noteq> None) \<Longrightarrow>
     (case x of None \<Rightarrow> None | Some (Inl a) \<Rightarrow> Some (Inl a) | Some (Inr y) \<Rightarrow> f y) \<noteq> None"
  by (auto split: sum.splits)

lemma turn_end_returns:
  assumes "pred_option call_answers timer_ready" "pred_option call_answers wait_ready"
  shows "turn_end fds timer_ready wait_ready r s epoch \<noteq> None"
proof -
  have t: "timer_step timer_ready s epoch \<noteq> None"
    using assms(1) answers_retry
    by (cases timer_ready)
      (force simp: timer_step_def proc17_qa_candidate_clock_consume_timer_def split: option.splits sys.splits)+
  have w: "wait_step (fd_candidate fds) wait_ready s1 e1 \<noteq> None" for s1 e1
    using assms(2) answers_retry
    by (cases wait_ready) (force simp: wait_step_def proc17_qa_wait_candidate_def split: option.splits sys.splits)+
  show ?thesis
    unfolding turn_end_def
    by (rule returns_bind [OF t], simp only: split_paired_all prod.case, rule returns_bind [OF w]) (simp add: split_paired_all)
qed

lemma stream_steps_return:
  assumes "pred_option (\<lambda>(_, reads). stream_answers reads) ready"
  shows "stdout_step fds ready s \<noteq> None" "stderr_step fds ready s \<noteq> None"
proof -
  have "stdout_step fds ready s \<noteq> None \<and> stderr_step fds ready s \<noteq> None"
  proof (cases ready)
    case (Some p)
    obtain flags reads where p: "p = (flags, reads)" by (cases p)
    have d: "\<exists>f c obs'. drain_epoch_stream obs fd flags reads = Some (f, c, obs')" for obs fd
      using assms drain_epoch_returns [of reads obs fd flags] by (auto simp: Some p)
    show ?thesis
      using d [of "cn_stdout s" "fd_stdout fds"] d [of "cn_stderr s" "fd_stderr fds"]
      by (auto simp: stdout_step_def stderr_step_def Some p)
  qed (simp add: stdout_step_def stderr_step_def)
  then show "stdout_step fds ready s \<noteq> None" "stderr_step fds ready s \<noteq> None" by simp_all
qed

lemma controller_turn_returns:
  assumes "turn_answers r"
  shows "controller_turn fds ctx r s \<noteq> None"
proof -
  have st: "(case tr_status r of None \<Rightarrow> Some (Inr (s1, e1)) | Some replies \<Rightarrow> status_step (fd_status fds) ctx replies s1 e1) \<noteq> None"
    for s1 e1
    using assms status_step_returns by (auto simp: turn_answers_def split: option.split)
  show ?thesis
    unfolding controller_turn_def Let_def
  proof (rule returns_bind, goal_cases)
    case 1
    show ?case using assms by (intro stream_steps_return) (simp add: turn_answers_def)
  next
    case (2 y)
    show ?case
      unfolding case_prod_beta
    proof (rule returns_bind, goal_cases)
      case 1
      show ?case using assms by (intro stream_steps_return) (simp add: turn_answers_def)
    next
      case (2 z)
      show ?case
        unfolding case_prod_beta
        by (rule returns_bind [OF st], rule turn_end_returns) (use assms in \<open>simp_all add: turn_answers_def\<close>)
    qed
  qed
qed

subsection \<open>What is over stays over\<close>

definition errors_agree :: "controller_state \<Rightarrow> bool" where
  "errors_agree s \<longleftrightarrow> (cn_error_code s = 0 \<longleftrightarrow> cn_error_subject s = 0)"

definition stdout_over :: "controller_state \<Rightarrow> bool" where
  "stdout_over s \<longleftrightarrow> cn_error_subject s = PROC17_QA_CONTROLLER_ERROR_STDOUT \<or> so_eof_observed (cn_stdout s) \<noteq> 0"

definition stderr_over :: "controller_state \<Rightarrow> bool" where
  "stderr_over s \<longleftrightarrow> cn_error_subject s = PROC17_QA_CONTROLLER_ERROR_STDERR \<or> so_eof_observed (cn_stderr s) \<noteq> 0"

lemma controller_done_over:
  "controller_done s \<longleftrightarrow> stdout_over s \<and> stderr_over s \<and> cn_status_eof s \<and> cn_candidate_reaped s"
  by (auto simp: controller_done_def stdout_over_def stderr_over_def)

definition same_streams :: "controller_state \<Rightarrow> controller_state \<Rightarrow> bool" where
  "same_streams s s1 \<longleftrightarrow>
     cn_stdout s1 = cn_stdout s \<and> cn_stderr s1 = cn_stderr s \<and> cn_error_code s1 = cn_error_code s
     \<and> cn_error_subject s1 = cn_error_subject s"

lemma same_streams_over:
  "same_streams s s1 \<Longrightarrow> errors_agree s1 = errors_agree s \<and> stdout_over s1 = stdout_over s \<and> stderr_over s1 = stderr_over s"
  by (simp add: same_streams_def errors_agree_def stdout_over_def stderr_over_def)

lemma drain_epoch_end:
  "drain_epoch_stream obs fd flags [Sys_ok []] = Some (failed, crossed, obs') \<Longrightarrow> failed \<or> so_eof_observed obs' \<noteq> 0"
  by (auto simp: drain_epoch_stream_def proc17_qa_stream_drain_nonblocking_def split: if_splits)

lemma stdout_step_over:
  assumes "errors_agree s"
  shows "outcome_ok (\<lambda>_. True) (\<lambda>(s1, _). errors_agree s1 \<and> (stderr_over s \<longrightarrow> stderr_over s1)
      \<and> cn_status_eof s1 = cn_status_eof s \<and> cn_candidate_reaped s1 = cn_candidate_reaped s
      \<and> (stdout_over s \<and> ready = None \<or> map_option snd ready = Some [Sys_ok []] \<longrightarrow> stdout_over s1)) (stdout_step fds ready s)"
  using assms drain_epoch_end [of "cn_stdout s" "fd_stdout fds"]
  by (auto simp: stdout_step_def note_stream_failure_def errors_agree_def stdout_over_def stderr_over_def
      split: option.split prod.split)

lemma stderr_step_over:
  assumes "errors_agree s"
  shows "outcome_ok (\<lambda>_. True) (\<lambda>(s1, _). errors_agree s1 \<and> (stdout_over s \<longrightarrow> stdout_over s1)
      \<and> cn_status_eof s1 = cn_status_eof s \<and> cn_candidate_reaped s1 = cn_candidate_reaped s
      \<and> (stderr_over s \<and> ready = None \<or> map_option snd ready = Some [Sys_ok []] \<longrightarrow> stderr_over s1)) (stderr_step fds ready s)"
  using assms drain_epoch_end [of "cn_stderr s" "fd_stderr fds"]
  by (auto simp: stderr_step_def note_stream_failure_def errors_agree_def stdout_over_def stderr_over_def
      split: option.split prod.split)

lemma status_step_over:
  "outcome_ok (\<lambda>_. True) (\<lambda>(s1, _). same_streams s s1 \<and> cn_candidate_reaped s1 = cn_candidate_reaped s)
     (status_step fd ctx replies s epoch)"
proof (induction fd ctx replies s epoch rule: status_step.induct)
  case (2 fd ctx flags reads telemetry replies s epoch)
  then show ?case
    by (auto simp: same_streams_def Let_def
        split: option.splits proc17_qa_status_receive_result.splits prod.splits if_splits)
qed simp

lemma status_step_end:
  "map (fst \<circ> snd) replies = [[Sys_ok []]] \<Longrightarrow>
     outcome_ok (\<lambda>_. True) (\<lambda>(s1, _). cn_status_eof s1) (status_step fd ctx replies s epoch)"
  by (auto simp: proc17_qa_status_receive_def Let_def)

lemma kill_step_over:
  "pred_sum (\<lambda>_. True) (\<lambda>s1. same_streams s s1 \<and> cn_status_eof s1 = cn_status_eof s \<and> cn_candidate_reaped s1 = cn_candidate_reaped s)
     (kill_step due reply s)"
  by (simp add: kill_step_def Let_def same_streams_def)

lemma resolve_step_over:
  "pred_sum (\<lambda>_. True) (\<lambda>s1. same_streams s s1 \<and> cn_status_eof s1 = cn_status_eof s \<and> cn_candidate_reaped s1 = cn_candidate_reaped s)
     (resolve_step r epoch s)"
proof -
  obtain result phase where res: "proc17_qa_controller_resolve_epoch (cn_phase s) (Some epoch) = (result, phase)" by force
  let ?s1 = "s\<lparr>cn_phase := phase\<rparr>"
  have same: "same_streams ?s1 s1 = same_streams s s1" for s1 by (simp add: same_streams_def)
  have trans: "same_streams s s1 \<Longrightarrow> same_streams s1 s2 \<Longrightarrow> same_streams s s2" for s1 s2 by (simp add: same_streams_def)
  note k = kill_step_over [of ?s1 "cn_error_code ?s1 \<noteq> 0" "tr_error_kill r", unfolded same]
  show ?thesis
  proof (cases "kill_step (cn_error_code ?s1 \<noteq> 0) (tr_error_kill r) ?s1")
    case (Inl s2)
    then show ?thesis using k by (simp add: resolve_step_def res Let_def)
  next
    case (Inr s2)
    with k trans kill_step_over [of s2 "cause_kind (first_cause (cn_phase s2)) \<noteq> 0" "tr_cause_kill r"] show ?thesis
      by (auto simp: resolve_step_def res Let_def elim!: sum.pred_mono_strong)
  qed
qed

lemma turn_end_over:
  "outcome_ok (\<lambda>_. True) (\<lambda>s1. same_streams s s1 \<and> cn_status_eof s1 = cn_status_eof s
     \<and> (cn_candidate_reaped s \<or> wait_ready \<noteq> None \<longrightarrow> cn_candidate_reaped s1)) (turn_end fds timer_ready wait_ready r s epoch)"
  unfolding turn_end_def
proof (rule outcome_ok_bind [where Q = "\<lambda>(s1, _). same_streams s s1 \<and> cn_status_eof s1 = cn_status_eof s
     \<and> (cn_candidate_reaped s \<longrightarrow> cn_candidate_reaped s1)"])
  show "outcome_ok (\<lambda>_. True) (\<lambda>(s1, _). same_streams s s1 \<and> cn_status_eof s1 = cn_status_eof s
     \<and> (cn_candidate_reaped s \<longrightarrow> cn_candidate_reaped s1)) (timer_step timer_ready s epoch)"
    by (auto simp: timer_step_def same_streams_def split: option.split prod.split)
next
  fix y :: "controller_state \<times> proc17_qa_observation_epoch"
  assume y: "case y of (s1, _) \<Rightarrow> same_streams s s1 \<and> cn_status_eof s1 = cn_status_eof s \<and> (cn_candidate_reaped s \<longrightarrow> cn_candidate_reaped s1)"
  obtain s1 e1 where [simp]: "y = (s1, e1)" by (cases y)
  have w: "outcome_ok (\<lambda>_. True) (\<lambda>(s2, _). same_streams s s2 \<and> cn_status_eof s2 = cn_status_eof s
     \<and> (cn_candidate_reaped s \<or> wait_ready \<noteq> None \<longrightarrow> cn_candidate_reaped s2)) (wait_step (fd_candidate fds) wait_ready s1 e1)"
    using y by (auto simp: wait_step_def same_streams_def split: option.split prod.split)
  have trans: "same_streams s s1 \<Longrightarrow> same_streams s1 s2 \<Longrightarrow> same_streams s s2" for s1 s2 by (simp add: same_streams_def)
  show "outcome_ok (\<lambda>_. True) (\<lambda>s1. same_streams s s1 \<and> cn_status_eof s1 = cn_status_eof s
     \<and> (cn_candidate_reaped s \<or> wait_ready \<noteq> None \<longrightarrow> cn_candidate_reaped s1))
     (case y of (s1, epoch1) \<Rightarrow> (case wait_step (fd_candidate fds) wait_ready s1 epoch1 of None \<Rightarrow> None
      | Some (Inl s2) \<Rightarrow> Some (Inl s2) | Some (Inr (s2, epoch2)) \<Rightarrow> Some (resolve_step r epoch2 s2)))"
    unfolding \<open>y = (s1, e1)\<close> prod.case
    by (rule outcome_ok_bind [OF w]) (auto intro!: sum.pred_mono_strong [OF resolve_step_over] dest: trans)
qed

lemma controller_turn_over:
  assumes "errors_agree s"
  shows "outcome_ok (\<lambda>_. True) (\<lambda>s1. errors_agree s1 \<and> (last_turn r \<longrightarrow> controller_done s1)) (controller_turn fds ctx r s)"
  unfolding controller_turn_def Let_def
proof (rule outcome_ok_bind [OF stdout_step_over [OF assms]], simp only: split_paired_all prod.case, elim conjE, goal_cases)
  case outer: (1 s1 c)
  show ?case
  proof (rule outcome_ok_bind [OF stderr_step_over [OF outer(1)]], simp only: split_paired_all prod.case, elim conjE, goal_cases)
    case inner: (1 s2 d)
    have over: "stdout_over s2 \<and> stderr_over s2" if "last_turn r"
      using that outer inner by (auto simp: last_turn_def stdout_over_def stderr_over_def split: if_splits)
    have reaped: "cn_candidate_reaped s2 = cn_candidate_reaped s" using outer inner by simp
    let ?e = "zero_epoch\<lparr>ep_stdout_limit_crossed := c, ep_stdout_observed_bytes := so_observed_bytes (cn_stdout s1),
        ep_stderr_limit_crossed := d, ep_stderr_observed_bytes := so_observed_bytes (cn_stderr s2)\<rparr>"
    have status: "outcome_ok (\<lambda>_. True) (\<lambda>(s3, _). same_streams s2 s3 \<and> cn_candidate_reaped s3 = cn_candidate_reaped s2
        \<and> (last_turn r \<longrightarrow> cn_status_eof s3))
        (case tr_status r of None \<Rightarrow> Some (Inr (s2, ?e)) | Some replies \<Rightarrow> status_step (fd_status fds) ctx replies s2 ?e)"
    proof (cases "tr_status r")
      case None
      then show ?thesis by (simp add: same_streams_def last_turn_def)
    next
      case (Some replies)
      have "last_turn r \<Longrightarrow> map (fst \<circ> snd) replies = [[Sys_ok []]]" using Some by (simp add: last_turn_def)
      with status_step_over [of s2 "fd_status fds" ctx replies ?e] status_step_end [of replies "fd_status fds" ctx s2 ?e] Some
      show ?thesis
        by (cases "status_step (fd_status fds) ctx replies s2 ?e"; cases "last_turn r")
          (auto simp: pred_sum.simps)
    qed
    show ?case
    proof (rule outcome_ok_bind [OF status], simp only: split_paired_all prod.case, elim conjE, goal_cases)
      case (1 s3 e3)
      have agree: "errors_agree s2" by (rule inner(1))
      have wait: "cn_candidate_reaped s3 \<or> (if cn_candidate_reaped s then None else tr_wait r) \<noteq> None" if "last_turn r"
        using that 1(2) reaped by (auto simp: last_turn_def)
      have "errors_agree s4 \<and> (last_turn r \<longrightarrow> controller_done s4)"
        if s4: "same_streams s3 s4" "cn_status_eof s4 = cn_status_eof s3"
          "cn_candidate_reaped s3 \<or> (if cn_candidate_reaped s then None else tr_wait r) \<noteq> None \<longrightarrow> cn_candidate_reaped s4" for s4
        using same_streams_over [OF 1(1)] same_streams_over [OF s4(1)] agree over wait s4(2,3) 1(3)
        unfolding controller_done_over by blast
      then show ?case
        by (intro option.pred_mono_strong [OF turn_end_over], elim sum.pred_mono_strong) blast+
    qed
  qed
qed

lemma last_turn_answers: "last_turn r \<Longrightarrow> turn_answers r"
proof -
  assume l: "last_turn r"
  obtain f1 f2 where "tr_stdout r = Some (f1, [Sys_ok []])" "tr_stderr r = Some (f2, [Sys_ok []])"
    using l by (auto simp: last_turn_def)
  moreover obtain f3 t where "tr_status r = Some [(f3, [Sys_ok []], t)]" using l by (auto simp: last_turn_def)
  ultimately show "turn_answers r"
    using l by (auto simp: last_turn_def turn_answers_def stream_answers_def call_answers_def)
qed

lemma controller_loop_returns:
  assumes "errors_agree s" "\<forall>r. Turn_ready r \<in> set polls \<longrightarrow> turn_answers r" "last_turn final"
  shows "\<exists>outcome. controller_loop fds ctx (polls @ [Turn_ready final]) s = Some outcome"
  using assms
proof (induction polls arbitrary: s)
  case Nil
  then show ?case
    using controller_turn_returns [OF last_turn_answers, of final fds ctx s] controller_turn_over [OF Nil(1), of final fds ctx]
    by (auto split: sum.split)
next
  case (Cons p polls)
  show ?case
  proof (cases p)
    case (Turn_ready r)
    from controller_turn_returns [of r fds ctx s] Cons.prems Turn_ready obtain t where t: "controller_turn fds ctx r s = Some t"
      by auto
    have "errors_agree s1" if "t = Inr s1" for s1
      using controller_turn_over [OF Cons.prems(1), of r fds ctx] t that by simp
    with Cons t Turn_ready show ?thesis by (auto split: sum.split)
  qed (use Cons in auto)
qed

text \<open>C16. The controller does not outlive its candidate: after a completed handshake, whatever the polls brought
  before, one turn in which both outputs and the status channel are at their end and the candidate can be
  reaped makes the observation loop return, provided that every call made in the earlier turns returned.\<close>

theorem controller_loop_ends:
  assumes "context_wf ctx" "length (hs_packet hs) = 184"
    and "proc17_qa_stream_init PROC17_QA_STDOUT_BYTES = Some out_o" "proc17_qa_stream_init PROC17_QA_STDERR_BYTES = Some err_o"
    and "controller_handshake fds ctx hs (controller_start out_o err_o) = Some (Inr s)"
    and "\<forall>r. Turn_ready r \<in> set polls \<longrightarrow> turn_answers r" "last_turn final"
  shows "\<exists>outcome. controller_loop fds ctx (polls @ [Turn_ready final]) s = Some outcome"
proof -
  have "stream_repr out_o PROC17_QA_STDOUT_BYTES []" "stream_repr err_o PROC17_QA_STDERR_BYTES []"
    using stream_repr_init [of PROC17_QA_STDOUT_BYTES] stream_repr_init [of PROC17_QA_STDERR_BYTES] assms(3,4) by auto
  from controller_handshake_ok [OF assms(1,2) refl this, of fds] assms(5) have "errors_agree s"
    by (auto simp: controller_inv_def errors_agree_def)
  from controller_loop_returns [OF this assms(6,7)] show ?thesis .
qed

definition sample_last_turn :: turn_replies where
  "sample_last_turn = sample_turn\<lparr>tr_stdout := Some (2048, [Sys_ok []])\<rparr>"

theorem controller_loop_ends_witness:
  "\<exists>s outcome. controller_handshake sample_descriptors sample_context sample_handshake
       (controller_start (sample_observer PROC17_QA_STDOUT_BYTES) (sample_observer PROC17_QA_STDERR_BYTES)) = Some (Inr s)
    \<and> controller_loop sample_descriptors sample_context [Turn_ready sample_turn, Turn_ready sample_last_turn] s = Some outcome"
proof -
  obtain s where h: "controller_handshake sample_descriptors sample_context sample_handshake
       (controller_start (sample_observer PROC17_QA_STDOUT_BYTES) (sample_observer PROC17_QA_STDERR_BYTES)) = Some (Inr s)"
    using sample_handshake_loop unfolding case_returns by auto
  have l: "last_turn sample_last_turn" by (simp add: last_turn_def sample_last_turn_def sample_turn_def)
  have t: "\<forall>r. Turn_ready r \<in> set [Turn_ready sample_turn] \<longrightarrow> turn_answers r"
    by (auto simp: turn_answers_def stream_answers_def call_answers_def sample_turn_def)
  from controller_loop_ends [OF sample_context_ok(1) _ _ _ h t l] h show ?thesis
    using sample_observer_repr [of PROC17_QA_STDOUT_BYTES] sample_observer_repr [of PROC17_QA_STDERR_BYTES]
    by (auto simp: sample_handshake_def simp del: controller_loop.simps)
qed

end
