(* ===== verification/Qa_Descriptors.thy ===== *)
theory Qa_Descriptors
  imports Qa_Supervisor
begin

text \<open>
  The input and output loops of the supervisor (\<open>native/proc17_qa_supervisor.c\<close>): exact writes and reads,
  the request frame read from a pipe, the digest of an open file, the identity of a directory, and the
  reaping of a child.  The kernel's answers are arguments: \<open>write\<close> answers with a count of at most what
  it was given, \<open>read\<close> with bytes; a reply longer than the room left is cut there, and the rest stays in the
  pipe for the next read.
\<close>

unbundle bit_operations_syntax

subsection \<open>Exact writes and reads\<close>

text \<open>Whether the write succeeded, and the bytes that were written.\<close>

fun write_exact :: "bytes \<Rightarrow> nat sys list \<Rightarrow> (bool \<times> bytes) option" where
  "write_exact [] replies = Some (True, [])"
| "write_exact bytes [] = None"
| "write_exact bytes (Sys_err e # replies) =
     (if e = EINTR then write_exact bytes replies else Some (False, []))"
| "write_exact bytes (Sys_ok written # replies) =
     (if written = 0 then Some (False, [])
      else map_option (\<lambda>(ok, rest). (ok, take written bytes @ rest)) (write_exact (drop written bytes) replies))"

text \<open>The replies still in the pipe after one read of at most \<open>n\<close> bytes.\<close>

definition left_in_pipe :: "nat \<Rightarrow> bytes \<Rightarrow> bytes sys list \<Rightarrow> bytes sys list" where
  "left_in_pipe n observed replies = (if n < length observed then Sys_ok (drop n observed) # replies else replies)"

fun pipe_size :: "bytes sys list \<Rightarrow> nat" where
  "pipe_size [] = 0"
| "pipe_size (Sys_ok bs # replies) = Suc (length bs) + pipe_size replies"
| "pipe_size (Sys_err _ # replies) = Suc (pipe_size replies)"

lemma pipe_size_left: "n \<noteq> 0 \<Longrightarrow> pipe_size (left_in_pipe n observed replies) < Suc (length observed + pipe_size replies)"
  by (simp add: left_in_pipe_def) arith

function read_exact :: "nat \<Rightarrow> bytes sys list \<Rightarrow> bytes option option" where
  "read_exact n [] = (if n = 0 then Some (Some []) else None)"
| "read_exact n (Sys_err e # replies) =
     (if n = 0 then Some (Some [])
      else if e = EINTR then read_exact n replies else Some None)"
| "read_exact n (Sys_ok observed # replies) =
     (if n = 0 then Some (Some [])
      else if observed = [] then Some None
      else map_option (map_option ((@) (take n observed)))
             (read_exact (n - length observed) (left_in_pipe n observed replies)))"
  by pat_completeness auto
termination
  by (relation "measure (\<lambda>(n, replies). pipe_size replies)")
    (auto intro: pipe_size_left)

subsection \<open>A frame from a pipe\<close>

text \<open>\<open>used\<close> never exceeds the frame, so the test \<open>\<ge>\<close> is the test \<open>==\<close> of the code.  A byte beyond the frame, or any
  error of the read that looks for one, refuses the frame.\<close>

function read_frame_loop :: "bytes \<Rightarrow> bytes sys list \<Rightarrow> bytes option option" where
  "read_frame_loop used [] = None"
| "read_frame_loop used (reply # replies) =
     (if length used \<ge> PROC17_QA_WIRE_MAX_FRAME_BYTES
      then (if reply = Sys_ok [] then Some (Some used) else Some None)
      else
        (case reply of
           Sys_err e \<Rightarrow> if e = EINTR then read_frame_loop used replies else Some None
         | Sys_ok observed \<Rightarrow>
             if observed = [] then Some (Some used)
             else
               (let room = PROC17_QA_WIRE_MAX_FRAME_BYTES - length used
                in read_frame_loop (used @ take room observed) (left_in_pipe room observed replies))))"
  by pat_completeness auto
termination
  by (relation "measure (\<lambda>(used, replies). pipe_size replies)")
    (auto intro: pipe_size_left)

definition read_frame :: "bytes sys list \<Rightarrow> bytes option option" where
  "read_frame replies = read_frame_loop [] replies"

subsection \<open>Files and directories\<close>

text \<open>The outer \<open>None\<close> is a loop that has not returned, the inner one the return \<open>-1\<close>.\<close>

fun hash_loop :: "proc17_sha256 \<Rightarrow> nat \<Rightarrow> nat \<Rightarrow> bytes sys list \<Rightarrow> bytes option option" where
  "hash_loop ctx hashed ceiling [] = None"
| "hash_loop ctx hashed ceiling (Sys_err e # replies) =
     (if e = EINTR then hash_loop ctx hashed ceiling replies else Some None)"
| "hash_loop ctx hashed ceiling (Sys_ok observed # replies) =
     (if observed = [] then Some (Some (snd (proc17_sha256_final ctx)))
      else if length observed > ceiling - hashed then Some None
      else hash_loop (proc17_sha256_update ctx observed) (hashed + length observed) ceiling replies)"

definition hash_descriptor :: "nat \<Rightarrow> bytes sys list \<Rightarrow> bytes option option" where
  "hash_descriptor ceiling replies = hash_loop proc17_sha256_init 0 ceiling replies"

definition PROC17_QA_SELF_MAX_BYTES :: nat where "PROC17_QA_SELF_MAX_BYTES = 64 * 1024 * 1024"

definition sha_self :: "bytes sys list \<Rightarrow> bytes option option" where
  "sha_self replies = hash_descriptor PROC17_QA_SELF_MAX_BYTES replies"

text \<open>\<open>fstat\<close> answers with mode, device and inode, \<open>statx\<close> with its mask and the mount identifier;
  \<open>STATX_MNT_ID\<close> is 0x1000.\<close>

definition STATX_MNT_ID :: u32 where [simp]: "STATX_MNT_ID = 0x1000"

definition observe_root :: "(u32 \<times> u64 \<times> u64) sys \<Rightarrow> (u32 \<times> u64) sys \<Rightarrow> proc17_qa_root_identity option" where
  "observe_root fstat_reply statx_reply =
     (case fstat_reply of
        Sys_err _ \<Rightarrow> None
      | Sys_ok (mode, dev, ino) \<Rightarrow>
          if \<not> S_ISDIR mode then None
          else
            (case statx_reply of
               Sys_err _ \<Rightarrow> None
             | Sys_ok (stx_mask, mnt_id) \<Rightarrow>
                 if stx_mask AND STATX_MNT_ID = 0 then None
                 else Some \<lparr>mi_device = dev, mi_inode = ino, mi_mount_id = mnt_id\<rparr>))"

subsection \<open>What the loops deliver\<close>

lemma write_exact_writes:
  "write_exact bytes replies = Some (ok, written) \<Longrightarrow> prefix written bytes \<and> (ok \<longrightarrow> written = bytes)"
proof (induction bytes replies arbitrary: ok written rule: write_exact.induct)
  case (4 b bs n replies)
  show ?case
  proof (cases "n = 0")
    case True
    with "4.prems" show ?thesis by simp
  next
    case False
    with "4.prems" obtain rest where r: "write_exact (drop n (b # bs)) replies = Some (ok, rest)"
      "written = take n (b # bs) @ rest" by auto
    have "prefix (take n (b # bs) @ rest) (take n (b # bs) @ drop n (b # bs))"
      using "4.IH" [OF False r(1)] by (simp only: same_prefix_prefix)
    then show ?thesis using "4.IH" [OF False r(1)] r(2) by (metis append_take_drop_id)
  qed
qed (auto split: if_splits)

lemma read_frame_loop_chunks:
  assumes "[] \<notin> set chunks" "length used \<le> 4096"
  shows "read_frame_loop used (map Sys_ok chunks @ Sys_ok [] # rest) =
    Some (if length used + length (concat chunks) \<le> 4096 then Some (used @ concat chunks) else None)"
  using assms
proof (induction chunks arbitrary: used)
  case (Cons c chunks)
  show ?case
  proof (cases "length used = 4096 \<or> length c \<le> 4096 - length used")
    case True
    with Cons show ?thesis by (auto simp: left_in_pipe_def Let_def)
  next
    case False
    then have room: "0 < 4096 - length used" "4096 - length used < length c" using Cons.prems by auto
    have "read_frame_loop used (map Sys_ok (c # chunks) @ Sys_ok [] # rest) =
      read_frame_loop (used @ take (4096 - length used) c)
        (Sys_ok (drop (4096 - length used) c) # map Sys_ok chunks @ Sys_ok [] # rest)"
      using Cons.prems room by (auto simp: left_in_pipe_def Let_def)
    also have "\<dots> = Some None" using room Cons.prems(2) by simp
    finally show ?thesis using room by simp
  qed
qed simp

lemma hash_loop_chunks:
  assumes "sha_repr ctx msg" "length msg \<le> ceiling" "[] \<notin> set chunks"
  shows "hash_loop ctx (length msg) ceiling (map Sys_ok chunks @ Sys_ok [] # rest) =
    Some (if length msg + length (concat chunks) \<le> ceiling then Some (fips_sha256 (msg @ concat chunks)) else None)"
  using assms
proof (induction chunks arbitrary: ctx msg)
  case Nil
  then show ?case by (simp add: proc17_sha256_final_repr)
next
  case (Cons c chunks)
  from Cons.IH [OF proc17_sha256_update_repr [OF Cons.prems(1), of c]] Cons.prems show ?case
    by (cases "length c > ceiling - length msg") (auto simp: not_less)
qed

text \<open>The digest of a file is the SHA-256 of its content, unless the content exceeds the ceiling.\<close>

lemma hash_descriptor_chunks:
  assumes "[] \<notin> set chunks"
  shows "hash_descriptor ceiling (map Sys_ok chunks @ Sys_ok [] # rest) =
    Some (if length (concat chunks) \<le> ceiling then Some (fips_sha256 (concat chunks)) else None)"
  using hash_loop_chunks [OF sha_repr_init _ assms, of ceiling rest] by (simp add: hash_descriptor_def)

lemma read_exact_chunks:
  assumes "[] \<notin> set chunks" "n \<le> length (concat chunks)"
  shows "read_exact n (map Sys_ok chunks @ rest) = Some (Some (take n (concat chunks)))"
  using assms
proof (induction chunks arbitrary: n)
  case Nil
  then show ?case by (cases rest rule: pipe_size.cases) simp_all
next
  case (Cons c chunks)
  show ?case
  proof (cases "n = 0 \<or> n < length c")
    case True
    then show ?thesis using Cons.prems by (auto simp: left_in_pipe_def)
  next
    case False
    with Cons show ?thesis by (auto simp: left_in_pipe_def)
  qed
qed

text \<open>C15. What arrives on the request pipe: the supervisor takes the bytes up to the end of the pipe as the frame,
  however they are cut into reads, if they are at most 4096, and refuses a longer message; it never stores a
  byte beyond the frame buffer.\<close>

theorem read_frame_bounded:
  assumes "[] \<notin> set chunks"
  shows "read_frame (map Sys_ok chunks @ Sys_ok [] # rest) =
      Some (if length (concat chunks) \<le> PROC17_QA_WIRE_MAX_FRAME_BYTES then Some (concat chunks) else None)
    \<and> (\<forall>replies f. read_frame replies = Some (Some f) \<longrightarrow> length f \<le> PROC17_QA_WIRE_MAX_FRAME_BYTES)"
proof -
  have "length f \<le> 4096" if "read_frame_loop used replies = Some (Some f)" "length used \<le> 4096" for used replies f
    using that by (induction used replies rule: read_frame_loop.induct)
      (auto simp: Let_def split: if_splits sys.splits)
  then show ?thesis using read_frame_loop_chunks [OF assms, of "[]" rest] by (simp add: read_frame_def)
qed

theorem read_frame_bounded_witness:
  "read_frame (map Sys_ok [[1, 2], [3]] @ [Sys_ok []]) = Some (Some [1, 2, 3])"
  using read_frame_bounded [of "[[1, 2], [3]]" "[]"] by simp

end
