(* ===== verification/Qa_Namespace.thy ===== *)
theory Qa_Namespace
  imports Qa_Descriptors Qa_Run_Liveness Qa_Launcher_V1
begin

text \<open>
  The supervisor outside the namespace (\<open>native/proc17_qa_supervisor.c\<close>): it starts the controller in new
  namespaces, maps its identity, collects its private report under a watchdog and reaps it
  (\<open>collect_controller_report_v1\<close>, \<open>proc17_qa_run_namespace_v1_unrouted\<close>).  The answers of the kernel are
  arguments; what the controller process does is what arrives on the pipe of its report.
\<close>

subsection \<open>Reaping a child\<close>

text \<open>The inner \<open>None\<close> is the return \<open>-1\<close>.\<close>

definition wait_exact_child :: "int \<Rightarrow> (int \<times> u32) sys list \<Rightarrow> u32 option option" where
  "wait_exact_child child replies =
     (case retry_eintr replies of
        None \<Rightarrow> None
      | Some (Sys_err _, _) \<Rightarrow> Some None
      | Some (Sys_ok (waited, status), _) \<Rightarrow> Some (if waited = child then Some status else None))"

datatype kill_reply = Kill_sent | Kill_no_process | Kill_failed

definition force_reap_child :: "int \<Rightarrow> int \<Rightarrow> int \<Rightarrow> kill_reply \<Rightarrow> (int \<times> u32) sys list \<Rightarrow> bool option" where
  "force_reap_child child pidfd signal_reply kill_reply waits =
     (if child \<le> 0 then Some False
      else if (pidfd < 0 \<or> signal_reply \<noteq> 0) \<and> kill_reply = Kill_failed then Some False
      else map_option (\<lambda>status. status \<noteq> None) (wait_exact_child child waits))"

definition set_nonblocking :: "int \<Rightarrow> int \<Rightarrow> int" where
  "set_nonblocking getfl_reply setfl_reply = (if getfl_reply \<ge> 0 \<and> setfl_reply = 0 then 0 else - 1)"

subsection \<open>Collecting the report\<close>

text \<open>The reads of one turn: the bytes in the buffer and whether the end was seen; \<open>Inl\<close> is the jump to \<open>cleanup\<close>.
  As in the code an interrupted read ends the turn.\<close>

function report_reads :: "bytes \<Rightarrow> bytes sys list \<Rightarrow> (bytes + bytes \<times> bool) option" where
  "report_reads used [] = None"
| "report_reads used (Sys_err e # replies) =
     (if e \<noteq> EAGAIN \<and> e \<noteq> EINTR then Some (Inl used) else Some (Inr (used, False)))"
| "report_reads used (Sys_ok observed # replies) =
     (if observed = [] then Some (Inr (used, True))
      else if length used \<ge> PROC17_QA_CONTROLLER_REPORT_BYTES then Some (Inl used)
      else
        (let room = PROC17_QA_CONTROLLER_REPORT_BYTES - length used
         in report_reads (used @ take room observed) (left_in_pipe room observed replies)))"
  by pat_completeness auto
termination
  by (relation "measure (\<lambda>(used, replies). pipe_size replies)") (auto intro: pipe_size_left)

text \<open>A turn: whether the watchdog fired, the replies if the pipe is readable, whether the controller is.\<close>

record report_turn =
  rt_timer :: bool
  rt_reads :: "bytes sys list option"
  rt_controller :: bool

datatype report_poll = Report_interrupted | Report_failed | Report_turn report_turn

text \<open>\<open>Inl\<close> is the jump to \<open>cleanup\<close>; the bytes are those in the buffer.\<close>

fun report_loop :: "bytes \<Rightarrow> bool \<Rightarrow> bool \<Rightarrow> report_poll list \<Rightarrow> (bytes + bytes) option" where
  "report_loop used report_eof controller_ready [] =
     (if report_eof \<and> controller_ready then Some (Inr used) else None)"
| "report_loop used report_eof controller_ready (poll # polls) =
     (if report_eof \<and> controller_ready then Some (Inr used)
      else
        (case poll of
           Report_interrupted \<Rightarrow> report_loop used report_eof controller_ready polls
         | Report_failed \<Rightarrow> Some (Inl used)
         | Report_turn t \<Rightarrow>
             if rt_timer t then Some (Inl used)
             else
               (case rt_reads t of
                  None \<Rightarrow> report_loop used report_eof (controller_ready \<or> rt_controller t) polls
                | Some replies \<Rightarrow>
                    (case report_reads used replies of
                       None \<Rightarrow> None
                     | Some (Inl used1) \<Rightarrow> Some (Inl used1)
                     | Some (Inr (used1, eof)) \<Rightarrow>
                         report_loop used1 (report_eof \<or> eof) (controller_ready \<or> rt_controller t) polls))))"

record collect_report_replies =
  cp_timerfd :: int
  cp_getfl :: int
  cp_setfl :: int
  cp_settime :: int
  cp_polls :: "report_poll list"
  cp_waits :: "(int \<times> u32) sys list"
  cp_signal :: int
  cp_kill :: kill_reply
  cp_force_waits :: "(int \<times> u32) sys list"

record collect_report_outcome =
  cq_result :: int
  cq_report :: bytes
  cq_wait_status :: u32
  cq_observation :: proc17_qa_namespace_observation
  cq_reaped :: bool

definition report_cleanup ::
  "int \<Rightarrow> int \<Rightarrow> collect_report_replies \<Rightarrow> bytes \<Rightarrow> proc17_qa_namespace_observation \<Rightarrow> u32 \<Rightarrow> collect_report_outcome option" where
  "report_cleanup controller pidfd r report observation status =
     map_option (\<lambda>reaped. \<lparr>cq_result = - 1, cq_report = report, cq_wait_status = status, cq_observation = observation,
                           cq_reaped = reaped\<rparr>)
       (force_reap_child controller pidfd (cp_signal r) (cp_kill r) (cp_force_waits r))"

definition collect_controller_report_v1 ::
  "int \<Rightarrow> int \<Rightarrow> bytes \<Rightarrow> u32 \<Rightarrow> collect_report_replies \<Rightarrow> collect_report_outcome option" where
  "collect_controller_report_v1 controller controller_pidfd report status r =
     (let observation = \<lparr>no_controller_pidfd_identity_retained = (if controller_pidfd \<ge> 0 then 1 else 0),
            no_terminal_record_complete = 0, no_terminal_record_eof_observed = 0, no_controller_reaped = 0,
            no_controller_authority_closed = 0\<rparr>
      in if cp_timerfd r < 0 \<or> set_nonblocking (cp_getfl r) (cp_setfl r) \<noteq> 0 \<or> cp_settime r \<noteq> 0
         then report_cleanup controller controller_pidfd r report observation status
         else
           (case report_loop [] False False (cp_polls r) of
              None \<Rightarrow> None
            | Some (Inl used) \<Rightarrow>
                report_cleanup controller controller_pidfd r (write_at report 0 used) observation status
            | Some (Inr used) \<Rightarrow>
                (case wait_exact_child controller (cp_waits r) of
                   None \<Rightarrow> None
                 | Some None \<Rightarrow> report_cleanup controller controller_pidfd r (write_at report 0 used) observation status
                 | Some (Some wait_status) \<Rightarrow>
                     Some \<lparr>cq_result = (if length used = PROC17_QA_CONTROLLER_REPORT_BYTES then 0 else - 1),
                           cq_report = write_at report 0 used, cq_wait_status = wait_status,
                           cq_observation = observation
                             \<lparr>no_terminal_record_complete := (if length used = PROC17_QA_CONTROLLER_REPORT_BYTES then 1 else 0),
                              no_terminal_record_eof_observed := 1, no_controller_reaped := 1\<rparr>,
                           cq_reaped = True\<rparr>)))"

subsection \<open>The namespace\<close>

text \<open>A file of \<open>/proc\<close> is opened, written and closed; the result with what was written.\<close>

record text_file_replies =
  tf_open :: int
  tf_writes :: "nat sys list"
  tf_close :: int

definition write_text_file :: "bytes \<Rightarrow> text_file_replies \<Rightarrow> (int \<times> bytes) option" where
  "write_text_file bytes r =
     (if tf_open r < 0 then Some (- 1, [])
      else
        (case write_exact bytes (tf_writes r) of
           None \<Rightarrow> None
         | Some (ok, written) \<Rightarrow> Some (if tf_close r \<noteq> 0 then - 1 else if ok then 0 else - 1, written)))"

text \<open>\<open>snprintf\<close> with \<open>%ld\<close> and \<open>%lu\<close>; the paths and mappings fit their buffers.  The files written, with their
  contents, follow the result.\<close>

definition decimal :: "nat \<Rightarrow> bytes" where
  "decimal n = digits n []"

definition proc_path :: "nat \<Rightarrow> string \<Rightarrow> bytes" where
  "proc_path child name = ascii ''/proc/'' @ decimal child @ ascii ''/'' @ ascii name"

definition identity_mapping :: "nat \<Rightarrow> bytes" where
  "identity_mapping who = ascii ''0 '' @ decimal who @ ascii '' 1'' @ [10]"

fun write_text_files :: "(bytes \<times> bytes) list \<Rightarrow> text_file_replies list \<Rightarrow> (int \<times> (bytes \<times> bytes) list) option" where
  "write_text_files [] replies = Some (0, [])"
| "write_text_files (f # entries) [] = None"
| "write_text_files ((path, bytes) # entries) (r # replies) =
     (case write_text_file bytes r of
        None \<Rightarrow> None
      | Some (result, written) \<Rightarrow>
          if result \<noteq> 0 then Some (- 1, [(path, written)])
          else map_option (\<lambda>(result, rest). (result, (path, written) # rest)) (write_text_files entries replies))"

definition map_namespace_identity ::
  "nat \<Rightarrow> nat \<Rightarrow> nat \<Rightarrow> text_file_replies list \<Rightarrow> (int \<times> (bytes \<times> bytes) list) option" where
  "map_namespace_identity child euid egid replies =
     write_text_files
       [(proc_path child ''setgroups'', ascii ''deny'' @ [10]), (proc_path child ''uid_map'', identity_mapping euid),
        (proc_path child ''gid_map'', identity_mapping egid)] replies"

text \<open>The replies of the parent; \<open>clone3\<close> answers with the controller and its pidfd.\<close>

record namespace_replies =
  nr_sync_pipe :: int
  nr_report_pipe :: int
  nr_clone :: "nat sys"
  nr_pidfd :: int
  nr_euid :: nat
  nr_egid :: nat
  nr_maps :: "text_file_replies list"
  nr_ready_writes :: "nat sys list"
  nr_close_sync :: int
  nr_collect :: collect_report_replies
  nr_close_report :: int
  nr_close_pidfd :: int

record namespace_outcome =
  nq_result :: int
  nq_report :: bytes
  nq_wait_status :: u32
  nq_observation :: proc17_qa_namespace_observation
  nq_killed :: bool

definition zero_namespace :: proc17_qa_namespace_observation where
  "zero_namespace = \<lparr>no_controller_pidfd_identity_retained = 0, no_terminal_record_complete = 0,
     no_terminal_record_eof_observed = 0, no_controller_reaped = 0, no_controller_authority_closed = 0\<rparr>"

text \<open>A failed run leaves a zeroed report; \<open>nq_killed\<close> says that it ended through \<open>cleanup_controller\<close>, which kills
  the controller and waits for it.\<close>

definition namespace_failed :: "bool \<Rightarrow> u32 \<Rightarrow> proc17_qa_namespace_observation \<Rightarrow> namespace_outcome" where
  "namespace_failed killed status observation =
     \<lparr>nq_result = - 1, nq_report = replicate PROC17_QA_CONTROLLER_REPORT_BYTES 0, nq_wait_status = status,
      nq_observation = observation, nq_killed = killed\<rparr>"

definition proc17_qa_run_namespace_v1_unrouted ::
  "int \<Rightarrow> int \<Rightarrow> proc17_qa_run_request ptr \<Rightarrow> proc17_qa_phase_identity ptr \<Rightarrow> bytes ptr \<Rightarrow> namespace_replies
   \<Rightarrow> namespace_outcome option" where
  "proc17_qa_run_namespace_v1_unrouted source_descriptor public_result_descriptor request identity token r =
     (if source_descriptor < 0 \<or> public_result_descriptor < 0 \<or> request = NULL \<or> identity = NULL \<or> token = NULL
         \<or> \<not> proc17_qa_phase_identity_valid identity \<or> \<not> proc17_qa_wire_digest_nonzero token
         \<or> nr_sync_pipe r \<noteq> 0 \<or> nr_report_pipe r \<noteq> 0
      then Some (namespace_failed False 0 zero_namespace)
      else
        (case nr_clone r of
           Sys_err _ \<Rightarrow> Some (namespace_failed False 0 zero_namespace)
         | Sys_ok controller \<Rightarrow>
             if nr_pidfd r < 0 then Some (namespace_failed True 0 zero_namespace)
             else
               (case map_namespace_identity controller (nr_euid r) (nr_egid r) (nr_maps r) of
                  None \<Rightarrow> None
                | Some (mapped, _) \<Rightarrow>
                    if mapped \<noteq> 0 then Some (namespace_failed True 0 zero_namespace)
                    else
                      (case write_exact [0xa5] (nr_ready_writes r) of
                         None \<Rightarrow> None
                       | Some (ok, _) \<Rightarrow>
                           if \<not> ok \<or> nr_close_sync r \<noteq> 0 then Some (namespace_failed True 0 zero_namespace)
                           else
                             (case collect_controller_report_v1 (int controller) (nr_pidfd r)
                                     (replicate PROC17_QA_CONTROLLER_REPORT_BYTES 0) 0 (nr_collect r) of
                                None \<Rightarrow> None
                              | Some oc \<Rightarrow>
                                  if cq_result oc \<noteq> 0
                                  then Some (namespace_failed True (cq_wait_status oc) (cq_observation oc))
                                  else Some
                                    \<lparr>nq_result = 0, nq_report = cq_report oc, nq_wait_status = cq_wait_status oc,
                                     nq_observation = (cq_observation oc)\<lparr>no_controller_authority_closed :=
                                       (if nr_close_report r = 0 \<and> nr_close_pidfd r = 0 then 1 else 0)\<rparr>, nq_killed = False\<rparr>)))))"

text \<open>The other side of \<open>clone3\<close>: the controller waits for the byte, checks that it is the root of its namespace and
  runs the observation, whose result is an argument; the value is the exit status.  \<open>sync\<close> is the reply of the one
  read, \<open>ids\<close> are the real and effective user and group.\<close>

definition namespace_controller_exit :: "bytes sys \<Rightarrow> int \<Rightarrow> nat list \<Rightarrow> int \<Rightarrow> int \<Rightarrow> int" where
  "namespace_controller_exit sync close_reply ids sethostname_reply child_result =
     (if sync \<noteq> Sys_ok [0xa5] \<or> close_reply \<noteq> 0 \<or> list_ex (\<lambda>who. who \<noteq> 0) ids \<or> sethostname_reply \<noteq> 0 then 125
      else if child_result = 0 then 0 else 124)"

subsection \<open>The collected report\<close>

text \<open>The bytes a turn delivers: up to the end of the pipe or the first error.\<close>

fun turn_bytes :: "bytes sys list \<Rightarrow> bytes" where
  "turn_bytes [] = []"
| "turn_bytes (Sys_ok observed # replies) = (if observed = [] then [] else observed @ turn_bytes replies)"
| "turn_bytes (Sys_err _ # replies) = []"

definition poll_report :: "report_poll \<Rightarrow> bytes" where
  "poll_report p = (case p of Report_turn t \<Rightarrow> (case rt_reads t of None \<Rightarrow> [] | Some replies \<Rightarrow> turn_bytes replies) | _ \<Rightarrow> [])"

lemma turn_bytes_left:
  "observed \<noteq> [] \<Longrightarrow> take n observed @ turn_bytes (left_in_pipe n observed replies) = observed @ turn_bytes replies"
  by (simp add: left_in_pipe_def flip: append_assoc)

lemma report_reads_ok:
  "length used \<le> 572 \<Longrightarrow> report_reads used replies = Some r \<Longrightarrow>
     (case r of Inl u \<Rightarrow> length u \<le> 572 | Inr (u, eof) \<Rightarrow> length u \<le> 572 \<and> u = used @ turn_bytes replies)"
proof (induction used replies rule: report_reads.induct)
  case (3 used observed replies)
  show ?case
  proof (cases "observed = [] \<or> length used \<ge> 572")
    case True
    with "3.prems" show ?thesis by (auto split: if_splits)
  next
    case False
    let ?room = "572 - length used"
    have eq: "report_reads (used @ take ?room observed) (left_in_pipe ?room observed replies) = Some r"
      using False "3.prems"(2) by (auto simp: Let_def)
    have "case r of Inl u \<Rightarrow> length u \<le> 572
      | Inr (u, eof) \<Rightarrow> length u \<le> 572
          \<and> u = (used @ take ?room observed) @ turn_bytes (left_in_pipe ?room observed replies)"
      using "3.IH" [OF _ _ refl] False eq "3.prems"(1) unfolding PROC17_QA_CONTROLLER_REPORT_BYTES_def by auto
    then show ?thesis using False turn_bytes_left [of observed ?room replies] by (simp split: sum.splits prod.splits)
  qed
qed (auto split: if_splits)

text \<open>When the loop ends, the buffer holds what the polls made so far delivered.\<close>

lemma report_loop_ok:
  assumes "length used \<le> 572" "report_loop used eof ready polls = Some r"
  shows "case r of Inl u \<Rightarrow> length u \<le> 572
    | Inr u \<Rightarrow> length u \<le> 572 \<and> (\<exists>n. u = used @ concat (map poll_report (take n polls)))"
  using assms
proof (induction polls arbitrary: used eof ready)
  case Nil
  then show ?case by (auto split: if_splits)
next
  case (Cons p polls)
  have step: "case r of Inl u \<Rightarrow> length u \<le> 572
      | Inr u \<Rightarrow> length u \<le> 572 \<and> (\<exists>n. u = used @ concat (map poll_report (take n (p # polls))))"
    if "length (used @ poll_report p) \<le> 572" "report_loop (used @ poll_report p) eof1 ready1 polls = Some r" for eof1 ready1
  proof (cases r)
    case (Inr u)
    with Cons.IH [OF that] obtain n where "length u \<le> 572" "u = (used @ poll_report p) @ concat (map poll_report (take n polls))"
      by auto
    with Inr show ?thesis by (auto intro!: exI [of _ "Suc n"])
  qed (use Cons.IH [OF that] in auto)
  show ?case
  proof (cases "eof \<and> ready")
    case True
    with Cons.prems show ?thesis by (auto intro!: exI [of _ 0])
  next
    case False
    show ?thesis
    proof (cases p)
      case Report_interrupted
      with Cons.prems False step [of eof ready] show ?thesis by (simp add: poll_report_def)
    next
      case Report_failed
      with Cons.prems False show ?thesis by auto
    next
      case (Report_turn t)
      show ?thesis
      proof (cases "rt_timer t \<or> rt_reads t = None")
        case True
        with Cons.prems False Report_turn step [of eof "ready \<or> rt_controller t"] show ?thesis
          by (cases "rt_timer t") (auto simp: poll_report_def)
      next
        case reads: False
        then obtain replies where rs: "rt_reads t = Some replies" by blast
        with Cons.prems False Report_turn reads obtain x where x: "report_reads used replies = Some x"
          by (cases "report_reads used replies") auto
        note ok = report_reads_ok [OF Cons.prems(1) x]
        show ?thesis
        proof (cases x)
          case (Inl u)
          with Cons.prems False Report_turn reads rs x ok show ?thesis by auto
        next
          case (Inr y)
          obtain u e where y: "y = (u, e)" by (cases y)
          with ok Inr Report_turn rs have u: "u = used @ poll_report p" "length u \<le> 572" by (auto simp: poll_report_def)
          from Cons.prems(2) False Report_turn reads rs x Inr y
          have "report_loop u (eof \<or> e) (ready \<or> rt_controller t) polls = Some r" by simp
          with u show ?thesis by (intro step) auto
        qed
      qed
    qed
  qed
qed

lemma collect_report_ok:
  assumes "length report = 572" "collect_controller_report_v1 controller pidfd report status r = Some oc"
  shows "length (cq_report oc) = 572 \<and> (cq_result oc = 0 \<longrightarrow>
    cq_reaped oc \<and> (\<exists>n. cq_report oc = concat (map poll_report (take n (cp_polls r))))
    \<and> wait_exact_child controller (cp_waits r) = Some (Some (cq_wait_status oc))
    \<and> cq_observation oc = \<lparr>no_controller_pidfd_identity_retained = (if pidfd \<ge> 0 then 1 else 0), no_terminal_record_complete = 1,
        no_terminal_record_eof_observed = 1, no_controller_reaped = 1, no_controller_authority_closed = 0\<rparr>)"
proof -
  have cleanup: "length (cq_report oc) = 572 \<and> cq_result oc = - 1"
    if "report_cleanup controller pidfd r b observation st = Some oc" "length b = 572" for b observation st
    using that by (auto simp: report_cleanup_def)
  show ?thesis
  proof (cases "cp_timerfd r < 0 \<or> set_nonblocking (cp_getfl r) (cp_setfl r) \<noteq> 0 \<or> cp_settime r \<noteq> 0")
    case True
    with assms cleanup show ?thesis by (fastforce simp: collect_controller_report_v1_def Let_def)
  next
    case armed: False
    then obtain x where x: "report_loop [] False False (cp_polls r) = Some x"
      using assms(2) by (cases "report_loop [] False False (cp_polls r)") (auto simp: collect_controller_report_v1_def Let_def)
    note ok = report_loop_ok [OF _ x, simplified]
    show ?thesis
    proof (cases x)
      case (Inl u)
      with assms armed x ok cleanup show ?thesis by (fastforce simp: collect_controller_report_v1_def Let_def)
    next
      case (Inr u)
      with ok have u: "length u \<le> 572" "\<exists>n. u = concat (map poll_report (take n (cp_polls r)))" by auto
      obtain w where w: "wait_exact_child controller (cp_waits r) = Some w"
        using assms(2) armed x Inr
        by (cases "wait_exact_child controller (cp_waits r)") (auto simp: collect_controller_report_v1_def Let_def)
      have "length u = 572 \<Longrightarrow> write_at report 0 u = u" using assms(1) by (simp add: write_at_def)
      moreover have "length (write_at report 0 u) = 572" using assms(1) u(1) by simp
      ultimately show ?thesis
      proof (cases w)
        case None
        with assms(2) armed x Inr w have "\<exists>observation. report_cleanup controller pidfd r (write_at report 0 u) observation status = Some oc"
          by (auto simp: collect_controller_report_v1_def Let_def)
        with cleanup \<open>length (write_at report 0 u) = 572\<close> show ?thesis by fastforce
      next
        case (Some st)
        with assms(2) armed x Inr w have "oc = \<lparr>cq_result = (if length u = 572 then 0 else - 1),
           cq_report = write_at report 0 u, cq_wait_status = st,
           cq_observation = \<lparr>no_controller_pidfd_identity_retained = (if pidfd \<ge> 0 then 1 else 0),
             no_terminal_record_complete = (if length u = 572 then 1 else 0),
             no_terminal_record_eof_observed = 1, no_controller_reaped = 1, no_controller_authority_closed = 0\<rparr>,
           cq_reaped = True\<rparr>"
          by (simp add: collect_controller_report_v1_def Let_def split: if_splits)
        with w Some u \<open>length (write_at report 0 u) = 572\<close> \<open>length u = 572 \<Longrightarrow> write_at report 0 u = u\<close> show ?thesis
          by (cases "length u = 572") auto
      qed
    qed
  qed
qed

text \<open>The report delivered in any number of reads, over any number of polls.\<close>

lemma report_reads_chunks:
  assumes "[] \<notin> set chunks" "length used + length (concat chunks) \<le> 572" "last_reply = Sys_err EAGAIN \<or> last_reply = Sys_ok []"
  shows "report_reads used (map Sys_ok chunks @ [last_reply]) = Some (Inr (used @ concat chunks, last_reply = Sys_ok []))"
  using assms
proof (induction chunks arbitrary: used)
  case (Cons c chunks)
  then have "length c \<le> 572 - length used" "c \<noteq> []" "length used < 572" by (cases c; auto)+
  with Cons show ?case by (simp add: left_in_pipe_def Let_def)
qed auto

definition report_turns :: "bytes list list \<Rightarrow> bytes list \<Rightarrow> report_poll list" where
  "report_turns early late =
     map (\<lambda>chunks. Report_turn \<lparr>rt_timer = False, rt_reads = Some (map Sys_ok chunks @ [Sys_err EAGAIN]), rt_controller = False\<rparr>) early
     @ [Report_turn \<lparr>rt_timer = False, rt_reads = Some (map Sys_ok late @ [Sys_ok []]), rt_controller = True\<rparr>]"

lemma report_loop_turns:
  assumes "[] \<notin> set (concat early @ late)" "length used + length (concat (concat early @ late)) \<le> 572"
  shows "report_loop used False False (report_turns early late) = Some (Inr (used @ concat (concat early @ late)))"
  using assms
proof (induction early arbitrary: used)
  case Nil
  then show ?case using report_reads_chunks [of late used "Sys_ok []"] by (simp add: report_turns_def)
next
  case (Cons c early)
  have "report_reads used (map Sys_ok c @ [Sys_err EAGAIN]) = Some (Inr (used @ concat c, False))"
    using report_reads_chunks [of c used "Sys_err EAGAIN"] Cons.prems by simp
  moreover have "report_turns (c # early) late = Report_turn \<lparr>rt_timer = False,
      rt_reads = Some (map Sys_ok c @ [Sys_err EAGAIN]), rt_controller = False\<rparr> # report_turns early late"
    by (simp add: report_turns_def)
  ultimately show ?case using Cons.IH [of "used @ concat c"] Cons.prems by simp
qed


definition sample_collect :: "bytes \<Rightarrow> collect_report_replies" where
  "sample_collect b = \<lparr>cp_timerfd = 9, cp_getfl = 0, cp_setfl = 0, cp_settime = 0,
     cp_polls = report_turns [[take 300 b]] [drop 300 b], cp_waits = [Sys_err EINTR, Sys_ok (77, 0)], cp_signal = 0,
     cp_kill = Kill_sent, cp_force_waits = []\<rparr>"

lemma sample_collect_reads:
  "length b = 572 \<Longrightarrow> report_loop [] False False (cp_polls (sample_collect b)) = Some (Inr b)"
  using report_loop_turns [of "[[take 300 b]]" "[drop 300 b]" "[]"] by (cases "b = []") (simp_all add: sample_collect_def)


end
