(* ===== verification/Qa_Protocol.thy ===== *)
theory Qa_Protocol
  imports Qa_Namespace
begin

text \<open>
  The run protocol of the supervisor (\<open>run_execution_protocol_v1\<close> of \<open>native/proc17_qa_supervisor.c\<close>) from the request
  frame to the terminal frame, and the composition of launcher, supervisor and controller: what is published
  on the result pipe is what the controller observed, for the run that was requested.
\<close>

subsection \<open>The protocol of a run\<close>

definition run_error_payload ::
  "proc17_qa_phase_identity \<Rightarrow> u16 \<Rightarrow> u16 \<Rightarrow> u16 \<Rightarrow> u16 \<Rightarrow> byte \<Rightarrow> byte \<Rightarrow> bytes ptr \<Rightarrow> bytes" where
  "run_error_payload identity phase error_class error_code error_stage candidate_start_state cleanup_state source_stage =
     (let p0 = replicate PROC17_QA_RUN_ERROR_V1_BYTES 0;
          p1 = write_at p0 0 (identity_bytes identity);
          p2 = proc17_qa_wire_put_u16 p1 PROC17_QA_V1_PHASE_OFFSET phase;
          p3 = proc17_qa_wire_put_u16 p2 130 error_class;
          p4 = proc17_qa_wire_put_u16 p3 132 error_code;
          p5 = proc17_qa_wire_put_u16 p4 134 error_stage;
          p6 = write_at p5 136 [candidate_start_state];
          p7 = write_at p6 137 [cleanup_state];
          p8 = write_at p7 138 [0];
          p9 = write_at p8 139 [if source_stage = NULL then 0 else 1]
      in case source_stage of
           None \<Rightarrow> p9
         | Some stage \<Rightarrow> write_at p9 PROC17_QA_V1_ERROR_STAGE_OFFSET (take PROC17_QA_SOURCE_STAGE_V1_BYTES stage))"

text \<open>The result and the bytes written to the result pipe.\<close>

definition emit_run_error_v1 ::
  "int \<Rightarrow> proc17_qa_phase_identity ptr \<Rightarrow> u16 \<Rightarrow> u16 \<Rightarrow> u16 \<Rightarrow> u16 \<Rightarrow> byte \<Rightarrow> byte \<Rightarrow> bytes ptr \<Rightarrow> bytes \<Rightarrow> nat sys list
   \<Rightarrow> (int \<times> bytes) option" where
  "emit_run_error_v1 result_descriptor identity phase error_class error_code error_stage candidate_start_state
     cleanup_state source_stage frame writes =
     (case identity of
        None \<Rightarrow> Some (- 1, [])
      | Some i \<Rightarrow>
          if result_descriptor < 0 then Some (- 1, [])
          else
            (case proc17_qa_wire_encode_run_v1 PROC17_QA_WIRE_RUN_ERROR_V1 (Some (id_transaction i))
                    (Some (run_error_payload i phase error_class error_code error_stage candidate_start_state
                             cleanup_state source_stage))
                    (of_nat PROC17_QA_RUN_ERROR_V1_BYTES) (Some frame) of
               None \<Rightarrow> Some (- 1, [])
             | Some (encoded, frame_bytes) \<Rightarrow>
                 if frame_bytes > PIPE_BUF then Some (- 1, [])
                 else map_option (\<lambda>(ok, written). (if ok then 0 else - 1, written))
                        (write_exact (take frame_bytes encoded) writes)))"

record protocol_replies =
  pr_request :: "bytes sys list"
  pr_self :: "bytes sys list"
  pr_close_self :: int
  pr_fstat :: "(u32 \<times> u64 \<times> u64) sys"
  pr_statx :: "(u32 \<times> u64) sys"
  pr_close_request :: int
  pr_random :: "bytes sys list"
  pr_namespace :: namespace_replies
  pr_frame :: bytes
  pr_writes :: "nat sys list"
  pr_close_result :: int

text \<open>The four digests at the front of a payload.\<close>

definition identity_of_payload :: "bytes \<Rightarrow> proc17_qa_phase_identity" where
  "identity_of_payload payload =
     \<lparr>id_transaction = take 32 payload, id_witness = take 32 (drop 32 payload), id_profile = take 32 (drop 64 payload),
      id_environment = take 32 (drop 96 payload)\<rparr>"

text \<open>The end of the protocol, with the token in hand: the namespace and the terminal frame.\<close>

definition run_report_v1 ::
  "proc17_qa_run_request \<Rightarrow> proc17_qa_phase_identity \<Rightarrow> bytes \<Rightarrow> protocol_replies \<Rightarrow> (int \<times> bytes) option" where
  "run_report_v1 request identity token r =
     (case proc17_qa_run_namespace_v1_unrouted 3 5 (Some request) (Some identity) (Some token) (pr_namespace r) of
        None \<Rightarrow> None
      | Some oc \<Rightarrow>
          if nq_result oc \<noteq> 0 then Some (- 1, [])
          else
            (case proc17_qa_controller_report_finalize (Some (nq_report oc)) (Some identity) (Some token)
                    (nq_wait_status oc) (Some (nq_observation oc)) (Some (pr_frame r)) of
               None \<Rightarrow> Some (- 1, [])
             | Some (frame, frame_bytes) \<Rightarrow>
                 if frame_bytes > PIPE_BUF then Some (- 1, [])
                 else map_option (\<lambda>(ok, written). (if ok \<and> pr_close_result r = 0 then 0 else - 1, written))
                        (write_exact (take frame_bytes frame) (pr_writes r))))"

text \<open>The part after the preflight.\<close>

definition run_prepared_v1 ::
  "proc17_qa_run_request \<Rightarrow> proc17_qa_phase_identity \<Rightarrow> protocol_replies \<Rightarrow> (int \<times> bytes) option" where
  "run_prepared_v1 request identity r =
     (case proc17_qa_phase_make_process_token (Some identity) (pr_random r) of
        None \<Rightarrow> None
      | Some None \<Rightarrow>
          emit_run_error_v1 5 (Some identity) PROC17_QA_RUN_V1_PHASE_STARTED PROC17_QA_RUN_V1_ERROR_UNAVAILABLE
            PROC17_QA_RUN_V1_SUPERVISOR_UNAVAILABLE PROC17_QA_RUN_V1_ERROR_PREFLIGHT PROC17_QA_RUN_V1_FALSE
            PROC17_QA_RUN_V1_TRUE NULL (pr_frame r) (pr_writes r)
      | Some (Some token) \<Rightarrow> run_report_v1 request identity token r)"

definition run_execution_protocol_v1 :: "protocol_replies \<Rightarrow> (int \<times> bytes) option" where
  "run_execution_protocol_v1 r =
     (case read_frame (pr_request r) of
        None \<Rightarrow> None
      | Some None \<Rightarrow> Some (- 1, [])
      | Some (Some frame) \<Rightarrow>
          (case proc17_qa_wire_decode_run_v1 (Some frame) (length frame) of
             None \<Rightarrow> Some (- 1, [])
           | Some view \<Rightarrow>
               if view_kind view \<noteq> PROC17_QA_WIRE_RUN_REQUEST_V1 then Some (- 1, [])
               else
                 (case sha_self (pr_self r) of
                    None \<Rightarrow> None
                  | Some None \<Rightarrow> Some (- 1, [])
                  | Some (Some self_digest) \<Rightarrow>
                      if pr_close_self r \<noteq> 0 then Some (- 1, [])
                      else
                        (case observe_root (pr_fstat r) (pr_statx r) of
                           None \<Rightarrow> Some (- 1, [])
                         | Some source_identity \<Rightarrow>
                             (case parse_run_request_v1 (Some view) source_identity of
                                None \<Rightarrow> Some (- 1, [])
                              | Some request \<Rightarrow>
                                  if pr_close_request r \<noteq> 0 then Some (- 1, [])
                                  else run_prepared_v1 request (identity_of_payload (view_payload view)) r)))))"

subsection \<open>The frame of an error before the run\<close>

abbreviation preflight_error :: "proc17_qa_phase_identity \<Rightarrow> bytes" where
  "preflight_error i \<equiv> run_error_payload i PROC17_QA_RUN_V1_PHASE_STARTED PROC17_QA_RUN_V1_ERROR_UNAVAILABLE
     PROC17_QA_RUN_V1_SUPERVISOR_UNAVAILABLE PROC17_QA_RUN_V1_ERROR_PREFLIGHT PROC17_QA_RUN_V1_FALSE PROC17_QA_RUN_V1_TRUE NULL"

lemma preflight_error_slices:
  assumes i: "identity_wf i"
  shows "length (preflight_error i) = 268" "slice 0 128 (preflight_error i) = identity_bytes i"
    "slice 128 2 (preflight_error i) = be16 PROC17_QA_RUN_V1_PHASE_STARTED"
    "slice 130 2 (preflight_error i) = be16 PROC17_QA_RUN_V1_ERROR_UNAVAILABLE"
    "slice 132 2 (preflight_error i) = be16 PROC17_QA_RUN_V1_SUPERVISOR_UNAVAILABLE"
    "slice 134 2 (preflight_error i) = be16 PROC17_QA_RUN_V1_ERROR_PREFLIGHT"
    "preflight_error i ! 136 = PROC17_QA_RUN_V1_FALSE" "preflight_error i ! 137 = PROC17_QA_RUN_V1_TRUE"
    "preflight_error i ! 138 = 0" "preflight_error i ! 139 = 0"
    "slice 140 128 (preflight_error i) = replicate 128 0"
  using length_identity_bytes [OF i]
  by (simp_all add: run_error_payload_def Let_def proc17_qa_wire_put_u16_def buf_simps slice_eq_self)

lemma preflight_error_valid:
  assumes i: "identity_wf i" "proc17_qa_phase_identity_valid (Some i)"
  shows "proc17_qa_wire_v1_payload_valid PROC17_QA_WIRE_RUN_ERROR_V1 (Some (preflight_error i)) 268"
proof -
  note sl = preflight_error_slices [OF i(1)]
  have id: "proc17_qa_wire_v1_identity_valid (Some (preflight_error i))"
    using identity_valid_wire [OF i(1) _ sl(2)] sl(1) i(2) by simp
  have "slice 140 4 (preflight_error i) = replicate 4 0" "slice 144 40 (preflight_error i) = replicate 40 0"
    "slice 184 84 (preflight_error i) = replicate 84 0"
    using slice_slice [of 0 4 128 140 "preflight_error i"] slice_slice [of 4 40 128 140 "preflight_error i"]
      slice_slice [of 44 84 128 140 "preflight_error i"] sl(11) by (simp_all add: slice_replicate)
  with id sl show ?thesis
    by (simp add: proc17_qa_wire_v1_payload_valid_def proc17_qa_wire_v1_error_valid_def Let_def codec_simps
        proc17_qa_wire_tri_state_def proc17_qa_wire_boolean_def)
qed

lemma transaction_prefix: "identity_wf i \<Longrightarrow> slice 0 128 p = identity_bytes i \<Longrightarrow> take 32 p = id_transaction i"
  using slice_slice [of 0 32 128 0 p] identity_bytes_slices(1) [of i] by (simp add: take_eq_slice)

lemma emit_preflight_error:
  assumes i: "identity_wf i" "proc17_qa_phase_identity_valid (Some i)" and frame: "length frame = 4096"
  shows "emit_run_error_v1 5 (Some i) PROC17_QA_RUN_V1_PHASE_STARTED PROC17_QA_RUN_V1_ERROR_UNAVAILABLE
      PROC17_QA_RUN_V1_SUPERVISOR_UNAVAILABLE PROC17_QA_RUN_V1_ERROR_PREFLIGHT PROC17_QA_RUN_V1_FALSE
      PROC17_QA_RUN_V1_TRUE NULL frame writes =
    map_option (\<lambda>(ok, written). (if ok then 0 else - 1, written))
      (write_exact (wire_frame PROC17_QA_WIRE_RUN_ERROR_V1 (id_transaction i) (preflight_error i)) writes)"
proof -
  note sl = preflight_error_slices [OF i(1)]
  obtain out where "proc17_qa_wire_encode_run_v1 PROC17_QA_WIRE_RUN_ERROR_V1 (Some (take 32 (preflight_error i)))
      (Some (preflight_error i)) 268 (Some frame) = Some (out, 348)"
    "take 348 out = wire_frame PROC17_QA_WIRE_RUN_ERROR_V1 (take 32 (preflight_error i)) (preflight_error i)"
    by (rule run_v1_encode_decode [OF preflight_error_valid [OF i]]) (use sl(1) frame in auto)
  then show ?thesis unfolding emit_run_error_v1_def transaction_prefix [OF i(1) sl(2)] by (simp add: PIPE_BUF_def)
qed

subsection \<open>The frame of a report\<close>

lemma publish_verdict:
  assumes "length report = 572" "identity_wf i" "length token = 32" "length frame = 4096"
  shows "(case proc17_qa_controller_report_finalize (Some report) (Some i) (Some token) status observation (Some frame) of
      None \<Rightarrow> Some (- 1, [])
    | Some (out, n) \<Rightarrow>
        if n > PIPE_BUF then Some (- 1, [])
        else map_option (\<lambda>(ok, written). (if ok \<and> close_result = 0 then 0 else - 1, written)) (write_exact (take n out) writes)) =
    (case finalize_verdict report i token status observation of
       None \<Rightarrow> Some (- 1 :: int, [])
     | Some (k, p) \<Rightarrow> map_option (\<lambda>(ok, written). (if ok \<and> close_result = (0 :: int) then 0 else - 1, written))
                        (write_exact (wire_frame k (id_transaction i) p) writes))"
proof (cases "finalize_verdict report i token status observation")
  case None
  then show ?thesis using finalize_eq_verdict [OF assms(1-3)] by simp
next
  case (Some kp)
  obtain k p where kp: "kp = (k, p)" by (cases kp)
  note v = verdict_payload_valid [OF assms(1,2) Some [unfolded kp]]
  then have n: "unat (of_nat (length p) :: u32) = length p" "length p \<le> 512" by auto
  obtain out where "proc17_qa_wire_encode_run_v1 k (Some (take 32 p)) (Some p) (of_nat (length p)) (Some frame)
       = Some (out, 80 + length p)" "take (80 + length p) out = wire_frame k (take 32 p) p"
    by (rule run_v1_encode_decode [of k p "of_nat (length p)" frame]) (use v n assms(4) in simp_all)
  with Some kp v n finalize_eq_verdict [OF assms(1-3), of status observation frame] show ?thesis by (simp add: PIPE_BUF_def)
qed

text \<open>A namespace that succeeded: the controller was released after its identity was mapped, has been reaped, and its
  report is what the pipe delivered.\<close>

lemma namespace_ok:
  assumes run: "proc17_qa_run_namespace_v1_unrouted src res rq i tk ns = Some oc" and ok: "nq_result oc = 0"
  obtains c where "nr_clone ns = Sys_ok c" "length (nq_report oc) = 572"
    "\<exists>n. nq_report oc = concat (map poll_report (take n (cp_polls (nr_collect ns))))"
    "wait_exact_child (int c) (cp_waits (nr_collect ns)) = Some (Some (nq_wait_status oc))"
    "nq_observation oc = clean_namespace\<lparr>no_controller_authority_closed :=
       (if nr_close_report ns = 0 \<and> nr_close_pidfd ns = 0 then 1 else 0)\<rparr>"
proof -
  from run ok obtain c cq where c: "nr_clone ns = Sys_ok c" "nr_pidfd ns \<ge> 0"
      "collect_controller_report_v1 (int c) (nr_pidfd ns) (replicate 572 0) 0 (nr_collect ns) = Some cq" "cq_result cq = 0"
    and oc: "nq_report oc = cq_report cq" "nq_wait_status oc = cq_wait_status cq"
      "nq_observation oc = (cq_observation cq)\<lparr>no_controller_authority_closed :=
         (if nr_close_report ns = 0 \<and> nr_close_pidfd ns = 0 then 1 else 0)\<rparr>"
    unfolding proc17_qa_run_namespace_v1_unrouted_def namespace_failed_def PROC17_QA_CONTROLLER_REPORT_BYTES_def
    by (auto split: if_split_asm sys.split_asm option.split_asm prod.split_asm)
  from collect_report_ok [OF length_replicate c(3)] c oc show ?thesis
    by (intro that [of c]) (auto simp: clean_namespace_def)
qed

lemma parse_identity:
  assumes d: "proc17_qa_wire_decode_run_v1 (Some f) (length f) = Some v"
    and rq: "parse_run_request_v1 (Some v) source = Some rq"
  obtains t w p e where "run_digests_ok (t, w, p, e)" "f = wire_frame PROC17_QA_WIRE_RUN_REQUEST_V1 t (request_bytes t w p e source)"
    "identity_of_payload (view_payload v) = \<lparr>id_transaction = t, id_witness = w, id_profile = p, id_environment = e\<rparr>"
proof -
  have k: "parse_run_request_kind v source PROC17_QA_WIRE_RUN_REQUEST_V1 = Some rq"
    using rq by (auto simp: parse_run_request_v1_def split: if_splits)
  have "receive_request source f = Some (rq_transaction rq, rq_witness rq, rq_profile rq, rq_environment rq)"
    using d rq by (simp add: receive_request_def)
  then show ?thesis using parse_run_request_kind_Some(10-13) [OF k]
    by (intro that [of "rq_transaction rq" "rq_witness rq" "rq_profile rq" "rq_environment rq"])
      (simp_all add: receive_request_iff identity_of_payload_def)
qed

lemma length_process_token: "proc17_qa_phase_make_process_token (Some i) replies = Some (Some token) \<Longrightarrow> length token = 32"
proof -
  have "length (snd (proc17_sha256_final (proc17_sha256_update (proc17_sha256_update proc17_sha256_init a) b))) = 32" for a b
    using sha.final_chunks [of "[a, b]"] by (simp add: PROC17_SHA256_BYTES_def)
  then show "proc17_qa_phase_make_process_token (Some i) replies = Some (Some token) \<Longrightarrow> length token = 32"
    by (auto simp: proc17_qa_phase_make_process_token_def Let_def split: if_splits option.splits sys.splits prod.splits)
qed

lemma verdict_identity:
  assumes "length report = 572" "identity_wf i" "finalize_verdict report i token status observation = Some (k, p)"
  shows "slice 0 128 p = identity_bytes i"
  using assms(3) public_result_slices(2) [OF assms(1,2)] public_error_slices(2) [OF assms(1,2)]
  by (auto simp: finalize_verdict_def split: if_splits option.splits bool.splits)

lemma verdict_result:
  assumes "finalize_verdict report i token status (Some observation) = Some (PROC17_QA_WIRE_RUN_RESULT_V1, p)"
  shows "private_report_kind (Some report) = PROC17_QA_CONTROLLER_TERMINAL_RESULT" "slice 144 32 report = token"
    "p = public_result_payload report i" "no_controller_reaped observation \<noteq> 0" "no_controller_authority_closed observation \<noteq> 0"
    "WIFEXITED status \<and> WEXITSTATUS status = 0"
proof -
  have s: "private_report_kind (Some report) = 1 \<and> slice 144 32 report = token \<and> p = public_result_payload report i
      \<and> proc17_qa_namespace_cleanup_observe (Some observation) status = Some 1"
    using assms by (auto simp: finalize_verdict_def split: if_split_asm option.split_asm bool.split_asm)
  then show "private_report_kind (Some report) = PROC17_QA_CONTROLLER_TERMINAL_RESULT" "slice 144 32 report = token"
    "p = public_result_payload report i" by simp_all
  show "no_controller_reaped observation \<noteq> 0" "no_controller_authority_closed observation \<noteq> 0"
    "WIFEXITED status \<and> WEXITSTATUS status = 0"
    using conjunct2 [OF conjunct2 [OF conjunct2 [OF s]]]
    by (auto simp: proc17_qa_namespace_cleanup_observe_def split: if_split_asm)
qed

definition run_identity :: "run_digests \<Rightarrow> proc17_qa_phase_identity" where
  "run_identity m = (case m of (t, w, p, e) \<Rightarrow>
     \<lparr>id_transaction = t, id_witness = w, id_profile = p, id_environment = e\<rparr>)"

lemma run_identity_ok:
  assumes "run_digests_ok m"
  shows "identity_wf (run_identity m)" "proc17_qa_phase_identity_valid (Some (run_identity m))"
proof -
  obtain t w p e where m: "m = (t, w, p, e)" by (cases m)
  show "identity_wf (run_identity m)" using assms by (simp add: m run_digests_ok_def run_identity_def identity_wf_def)
  show "proc17_qa_phase_identity_valid (Some (run_identity m))"
    using assms by (simp add: m run_digests_ok_def run_identity_def proc17_qa_phase_identity_valid_def codec_simps slice_eq_self)
qed

text \<open>A RESULT payload with its evidence: a report of the controller that carries the token of the run, came through the
  pipe, and belongs to a controller that was reaped and exited cleanly.\<close>

definition result_evidence :: "proc17_qa_phase_identity \<Rightarrow> bytes \<Rightarrow> namespace_replies \<Rightarrow> bytes \<Rightarrow> bool" where
  "result_evidence i token ns p \<longleftrightarrow> (\<exists>report c status. p = public_result_payload report i
     \<and> private_report_kind (Some report) = PROC17_QA_CONTROLLER_TERMINAL_RESULT \<and> slice 144 32 report = token
     \<and> length report = 572 \<and> (\<exists>n. report = concat (map poll_report (take n (cp_polls (nr_collect ns)))))
     \<and> nr_clone ns = Sys_ok c \<and> wait_exact_child (int c) (cp_waits (nr_collect ns)) = Some (Some status)
     \<and> WIFEXITED status \<and> WEXITSTATUS status = 0)"

lemma run_report_ok:
  assumes run: "run_report_v1 rq i token r = Some (0, written)" and wf: "identity_wf i" "length token = 32" "length (pr_frame r) = 4096"
  obtains k p where "written = wire_frame k (id_transaction i) p" "slice 0 128 p = identity_bytes i"
    "proc17_qa_wire_v1_payload_valid k (Some p) (of_nat (length p))"
    "k = PROC17_QA_WIRE_RUN_ERROR_V1 \<or> k = PROC17_QA_WIRE_RUN_RESULT_V1 \<and> result_evidence i token (pr_namespace r) p"
proof -
  obtain oc where oc: "proc17_qa_run_namespace_v1_unrouted 3 5 (Some rq) (Some i) (Some token) (pr_namespace r) = Some oc"
      "nq_result oc = 0"
    using run by (auto simp: run_report_v1_def split: option.splits if_splits)
  obtain c where c: "nr_clone (pr_namespace r) = Sys_ok c" "length (nq_report oc) = 572"
    "\<exists>n. nq_report oc = concat (map poll_report (take n (cp_polls (nr_collect (pr_namespace r)))))"
    "wait_exact_child (int c) (cp_waits (nr_collect (pr_namespace r))) = Some (Some (nq_wait_status oc))"
    by (rule namespace_ok [OF oc])
  note pub = publish_verdict [OF c(2) wf, where status = "nq_wait_status oc"
    and observation = "Some (nq_observation oc)" and close_result = "pr_close_result r" and writes = "pr_writes r"]
  from run oc have eq: "(case finalize_verdict (nq_report oc) i token (nq_wait_status oc) (Some (nq_observation oc)) of
       None \<Rightarrow> Some (- 1 :: int, [])
     | Some (k, p) \<Rightarrow> map_option (\<lambda>(ok, written). (if ok \<and> pr_close_result r = 0 then 0 else - 1, written))
                        (write_exact (wire_frame k (id_transaction i) p) (pr_writes r))) = Some (0, written)"
    unfolding pub [symmetric] by (simp add: run_report_v1_def)
  then obtain k p where v: "finalize_verdict (nq_report oc) i token (nq_wait_status oc) (Some (nq_observation oc)) = Some (k, p)"
    and w: "write_exact (wire_frame k (id_transaction i) p) (pr_writes r) = Some (True, written)"
    by (auto split: option.splits if_splits)
  note pv = verdict_payload_valid [OF c(2) wf(1) v]
  have "result_evidence i token (pr_namespace r) p" if "k = PROC17_QA_WIRE_RUN_RESULT_V1"
    unfolding result_evidence_def using verdict_result [OF v [unfolded that]] c by blast
  then show ?thesis
    using pv write_exact_writes [OF w] verdict_identity [OF c(2) wf(1) v] by (intro that [of k p]) auto
qed

text \<open>C4. What the supervisor publishes: when the run protocol succeeds, whatever the kernel answered, the request was
  exactly the launcher's frame of some run on the source directory that the supervisor observes, and exactly one
  valid terminal frame was written, for the identity of this run.  It is an error frame, or a result
  whose payload is the report of a controller that carries the fresh token of this run, came through the
  report pipe in full, and belongs to a controller process that was reaped and exited with status 0.\<close>

theorem run_protocol_publishes:
  assumes "run_execution_protocol_v1 r = Some (0, written)" "length (pr_frame r) = PROC17_QA_WIRE_MAX_FRAME_BYTES"
  shows "\<exists>source m f k p. observe_root (pr_fstat r) (pr_statx r) = Some source \<and> send_request source m = Some f
    \<and> read_frame (pr_request r) = Some (Some f)
    \<and> written = wire_frame k (id_transaction (run_identity m)) p \<and> slice 0 128 p = identity_bytes (run_identity m)
    \<and> proc17_qa_wire_v1_payload_valid k (Some p) (of_nat (length p))
    \<and> (k = PROC17_QA_WIRE_RUN_ERROR_V1 \<or> k = PROC17_QA_WIRE_RUN_RESULT_V1
        \<and> (\<exists>token. proc17_qa_phase_make_process_token (Some (run_identity m)) (pr_random r) = Some (Some token)
             \<and> result_evidence (run_identity m) token (pr_namespace r) p))"
proof -
  from assms(1) obtain f v source rq where f: "read_frame (pr_request r) = Some (Some f)"
      "proc17_qa_wire_decode_run_v1 (Some f) (length f) = Some v" "observe_root (pr_fstat r) (pr_statx r) = Some source"
      "parse_run_request_v1 (Some v) source = Some rq"
    and run: "run_prepared_v1 rq (identity_of_payload (view_payload v)) r = Some (0, written)"
    by (auto simp: run_execution_protocol_v1_def split: option.splits if_splits)
  obtain t w p e where m: "run_digests_ok (t, w, p, e)" "f = wire_frame PROC17_QA_WIRE_RUN_REQUEST_V1 t (request_bytes t w p e source)"
    "identity_of_payload (view_payload v) = run_identity (t, w, p, e)"
    by (rule parse_identity [OF f(2,4)]) (simp add: run_identity_def)
  let ?i = "run_identity (t, w, p, e)"
  note wf = run_identity_ok [OF m(1)]
  have "\<exists>k p. written = wire_frame k (id_transaction ?i) p \<and> slice 0 128 p = identity_bytes ?i
    \<and> proc17_qa_wire_v1_payload_valid k (Some p) (of_nat (length p))
    \<and> (k = PROC17_QA_WIRE_RUN_ERROR_V1 \<or> k = PROC17_QA_WIRE_RUN_RESULT_V1
        \<and> (\<exists>token. proc17_qa_phase_make_process_token (Some ?i) (pr_random r) = Some (Some token)
             \<and> result_evidence ?i token (pr_namespace r) p))"
  proof (cases "proc17_qa_phase_make_process_token (Some ?i) (pr_random r)")
    case None
    with run m(3) show ?thesis by (simp add: run_prepared_v1_def)
  next
    case (Some tk)
    show ?thesis
    proof (cases tk)
      case None
      with run m(3) Some emit_preflight_error [OF wf, of "pr_frame r" "pr_writes r"] assms(2)
      have "write_exact (wire_frame PROC17_QA_WIRE_RUN_ERROR_V1 (id_transaction ?i) (preflight_error ?i)) (pr_writes r) = Some (True, written)"
        by (auto simp: run_prepared_v1_def dest!: sym [of "Some (0, written)"] split: if_splits)
      from write_exact_writes [OF this] preflight_error_valid [OF wf] preflight_error_slices(1,2) [OF wf(1)] show ?thesis
        by (intro exI [of _ PROC17_QA_WIRE_RUN_ERROR_V1] exI [of _ "preflight_error ?i"]) simp
    next
      case (Some token)
      with \<open>proc17_qa_phase_make_process_token (Some ?i) (pr_random r) = Some tk\<close> have
        tk: "proc17_qa_phase_make_process_token (Some ?i) (pr_random r) = Some (Some token)" by simp
      with run m(3) have "run_report_v1 rq ?i token r = Some (0, written)" by (simp add: run_prepared_v1_def)
      from run_report_ok [OF this wf(1) length_process_token [OF tk]] assms(2) tk show ?thesis
        unfolding PROC17_QA_WIRE_MAX_FRAME_BYTES_def by metis
    qed
  qed
  moreover have "send_request source (t, w, p, e) = Some f" using m by (simp add: send_request_iff)
  ultimately show ?thesis using f(1,3) by blast
qed

lemma protocol_accepts:
  assumes f: "send_request source m = Some f" "read_frame (pr_request r) = Some (Some f)"
      "observe_root (pr_fstat r) (pr_statx r) = Some source"
    and ok: "sha_self (pr_self r) = Some (Some d)" "pr_close_self r = 0" "pr_close_request r = 0"
  obtains rq where "run_execution_protocol_v1 r = run_prepared_v1 rq (run_identity m) r"
proof -
  have "receive_request source f = Some m" using f(1) run_request.enc_iff_dec by blast
  then obtain v rq where v: "proc17_qa_wire_decode_run_v1 (Some f) (length f) = Some v"
      "parse_run_request_v1 (Some v) source = Some rq" "m = (rq_transaction rq, rq_witness rq, rq_profile rq, rq_environment rq)"
    by (auto simp: receive_request_def split: option.splits)
  then have "parse_run_request_kind v source PROC17_QA_WIRE_RUN_REQUEST_V1 = Some rq"
    by (auto simp: parse_run_request_v1_def split: if_splits)
  note p = parse_run_request_kind_Some(1,10-13) [OF this]
  have "identity_of_payload (view_payload v) = run_identity m" using v(3) p(2-) by (simp add: identity_of_payload_def run_identity_def)
  with f ok v p(1) show ?thesis by (intro that [of rq]) (simp add: run_execution_protocol_v1_def)
qed

text \<open>The kernel starts, maps and releases the controller, delivers its report in full, and the controller exits with 0.\<close>

definition namespace_delivers :: "namespace_replies \<Rightarrow> bytes \<Rightarrow> bool" where
  "namespace_delivers ns b \<longleftrightarrow> (\<exists>c maps early late.
     nr_sync_pipe ns = 0 \<and> nr_report_pipe ns = 0 \<and> nr_clone ns = Sys_ok c \<and> nr_pidfd ns \<ge> 0
     \<and> map_namespace_identity c (nr_euid ns) (nr_egid ns) (nr_maps ns) = Some (0, maps)
     \<and> write_exact [0xa5] (nr_ready_writes ns) = Some (True, [0xa5]) \<and> nr_close_sync ns = 0
     \<and> cp_timerfd (nr_collect ns) \<ge> 0 \<and> cp_getfl (nr_collect ns) \<ge> 0 \<and> cp_setfl (nr_collect ns) = 0 \<and> cp_settime (nr_collect ns) = 0
     \<and> cp_polls (nr_collect ns) = report_turns early late \<and> [] \<notin> set (concat early @ late) \<and> b = concat (concat early @ late)
     \<and> wait_exact_child (int c) (cp_waits (nr_collect ns)) = Some (Some 0)
     \<and> nr_close_report ns = 0 \<and> nr_close_pidfd ns = 0)"

lemma namespace_delivered:
  assumes ns: "namespace_delivers ns b" "length b = 572"
    and ok: "proc17_qa_phase_identity_valid (Some i)" "proc17_qa_wire_digest_nonzero (Some token)"
  shows "\<exists>oc. proc17_qa_run_namespace_v1_unrouted 3 5 (Some rq) (Some i) (Some token) ns = Some oc \<and> nq_result oc = 0
    \<and> nq_report oc = b \<and> nq_wait_status oc = 0 \<and> nq_observation oc = clean_namespace"
proof -
  obtain c maps early late where d: "nr_sync_pipe ns = 0" "nr_report_pipe ns = 0" "nr_clone ns = Sys_ok c" "nr_pidfd ns \<ge> 0"
     "map_namespace_identity c (nr_euid ns) (nr_egid ns) (nr_maps ns) = Some (0, maps)"
     "write_exact [0xa5] (nr_ready_writes ns) = Some (True, [0xa5])" "nr_close_sync ns = 0"
     "cp_timerfd (nr_collect ns) \<ge> 0" "cp_getfl (nr_collect ns) \<ge> 0" "cp_setfl (nr_collect ns) = 0" "cp_settime (nr_collect ns) = 0"
     and p: "cp_polls (nr_collect ns) = report_turns early late" "[] \<notin> set (concat early @ late)" "b = concat (concat early @ late)"
     and e: "wait_exact_child (int c) (cp_waits (nr_collect ns)) = Some (Some 0)" "nr_close_report ns = 0" "nr_close_pidfd ns = 0"
    using ns(1) unfolding namespace_delivers_def by blast
  have "report_loop [] False False (cp_polls (nr_collect ns)) = Some (Inr b)"
    using report_loop_turns [of early late "[]"] p ns(2) by simp
  moreover have "write_at (replicate 572 0) 0 b = b" using ns(2) by (simp add: write_at_def)
  ultimately have "collect_controller_report_v1 (int c) (nr_pidfd ns) (replicate 572 0) 0 (nr_collect ns) =
    Some \<lparr>cq_result = 0, cq_report = b, cq_wait_status = 0,
      cq_observation = clean_namespace\<lparr>no_controller_authority_closed := 0\<rparr>, cq_reaped = True\<rparr>"
    using d e ns(2) by (simp add: collect_controller_report_v1_def set_nonblocking_def clean_namespace_def Let_def)
  then show ?thesis using d e ok by (simp add: proc17_qa_run_namespace_v1_unrouted_def clean_namespace_def)
qed

text \<open>What is published of a report of the controller.\<close>

definition published ::
  "proc17_qa_status_context \<Rightarrow> bytes \<Rightarrow> bytes \<Rightarrow> bytes \<Rightarrow> controller_state \<Rightarrow> u16 \<Rightarrow> bytes \<Rightarrow> bool" where
  "published ctx stage out err s k p \<longleftrightarrow> slice 0 128 p = identity_bytes (ctx_identity ctx) \<and>
     (if k = PROC17_QA_WIRE_RUN_RESULT_V1
      then slice 172 64 p = stream_bytes (measured PROC17_QA_STDOUT_BYTES out)
        \<and> slice 236 64 p = stream_bytes (measured PROC17_QA_STDERR_BYTES err) \<and> slice 428 84 p = stage \<and> cn_error_code s = 0
      else k = PROC17_QA_WIRE_RUN_ERROR_V1 \<and> slice 184 84 p = stage \<and> proc17_qa_wire_get_u16 (drop 132 p) =
        (if cn_error_code s = 0 then PROC17_QA_RUN_V1_SCRATCH_OBSERVATION_INCOMPLETE else cn_error_code s))"

lemma report_verdict:
  assumes l: "length b = 572" and c: "context_wf ctx" and b: "report_of b ctx stage out err s \<or> error_of b ctx stage s"
  shows "\<exists>k p. finalize_verdict b (ctx_identity ctx) (ctx_process_token ctx) 0 (Some clean_namespace) = Some (k, p)
    \<and> published ctx stage out err s k p"
proof -
  have i: "identity_wf (ctx_identity ctx)" using c by (simp add: context_wf_def)
  have clean: "proc17_qa_namespace_cleanup_observe (Some clean_namespace) 0 = Some 1" by code_simp
  note rs = public_result_slices [OF l i] and es = public_error_slices [OF l i]
  from b show ?thesis
  proof
    assume "report_of b ctx stage out err s"
    then show ?thesis using rs clean by (simp add: finalize_verdict_def published_def report_of_def)
  next
    assume e: "error_of b ctx stage s"
    have "proc17_qa_wire_get_u16 (drop 132 (public_error_payload b (ctx_identity ctx) code st)) = code" for code st
      using es(1,5) by (simp add: codec_simps)
    with e show ?thesis using es clean
      by (auto simp: finalize_verdict_def published_def error_of_def split: if_splits)
  qed
qed


subsection \<open>Two runs of the protocol\<close>

definition sample_namespace :: "bytes \<Rightarrow> namespace_replies" where
  "sample_namespace b = \<lparr>nr_sync_pipe = 0, nr_report_pipe = 0, nr_clone = Sys_ok 77, nr_pidfd = 8, nr_euid = 1000, nr_egid = 100,
     nr_maps = replicate 3 \<lparr>tf_open = 4, tf_writes = [Sys_ok 100], tf_close = 0\<rparr>, nr_ready_writes = [Sys_ok 1],
     nr_close_sync = 0, nr_collect = sample_collect b, nr_close_report = 0, nr_close_pidfd = 0\<rparr>"

definition sample_protocol :: "bytes \<Rightarrow> bytes \<Rightarrow> protocol_replies" where
  "sample_protocol f b = \<lparr>pr_request = [Sys_ok f, Sys_ok []], pr_self = [Sys_ok [1, 2, 3], Sys_ok []], pr_close_self = 0,
     pr_fstat = Sys_ok (0x41ed, 1, 2), pr_statx = Sys_ok (STATX_MNT_ID, 7), pr_close_request = 0, pr_random = [Sys_err EIO],
     pr_namespace = sample_namespace b, pr_frame = replicate 4096 0, pr_writes = [Sys_ok 1000], pr_close_result = 0\<rparr>"

lemma sample_maps:
  "\<exists>written. map_namespace_identity 77 1000 100 (replicate 3 \<lparr>tf_open = 4, tf_writes = [Sys_ok 100], tf_close = 0\<rparr>) = Some (0, written)"
proof -
  have "map_option fst (map_namespace_identity 77 1000 100
      (replicate 3 \<lparr>tf_open = 4, tf_writes = [Sys_ok 100], tf_close = 0\<rparr>)) = Some 0" by code_simp
  then show ?thesis by auto
qed

lemma sample_namespace_delivers: "length b = 572 \<Longrightarrow> namespace_delivers (sample_namespace b) b"
proof -
  assume l: "length b = 572"
  obtain written where m: "map_namespace_identity 77 1000 100
      (replicate 3 \<lparr>tf_open = 4, tf_writes = [Sys_ok 100], tf_close = 0\<rparr>) = Some (0, written)" using sample_maps by blast
  have "drop 300 b \<noteq> []" "b \<noteq> []" using l by auto
  then show ?thesis unfolding namespace_delivers_def using m
    by (intro exI [of _ 77] exI [of _ written] exI [of _ "[[take 300 b]]"] exI [of _ "[drop 300 b]"])
      (simp add: sample_namespace_def sample_collect_def wait_exact_child_def)
qed


theorem run_protocol_publishes_witness:
  "\<exists>f written. run_execution_protocol_v1 (sample_protocol f []) = Some (0, written)
     \<and> (\<exists>source m k p. send_request source m = Some f \<and> written = wire_frame k (id_transaction (run_identity m)) p)"
proof -
  let ?m = "(replicate 32 1, replicate 32 2, replicate 32 3, replicate 32 4) :: run_digests"
  have ok: "run_digests_ok ?m" by (simp add: run_digests_ok_def)
  then obtain f where f: "send_request sample_source ?m = Some f" using send_request_iff by blast
  let ?r = "sample_protocol f []"
  have l: "length f = 331" using f ok
    by (simp add: send_request_iff length_wire_frame length_request_bytes)
  have rd: "read_frame (pr_request ?r) = Some (Some f)"
    using read_frame_loop_chunks [of "[f]" "[]" "[]"] l by (auto simp: sample_protocol_def read_frame_def)
  have root: "observe_root (pr_fstat ?r) (pr_statx ?r) = Some sample_source"
    by (simp add: sample_protocol_def observe_root_def sample_source_def S_ISDIR_def)
  have self: "sha_self (pr_self ?r) = Some (Some (fips_sha256 [1, 2, 3]))"
    using hash_descriptor_chunks [of "[[1, 2, 3]]" PROC17_QA_SELF_MAX_BYTES "[]"]
    by (simp add: sample_protocol_def sha_self_def PROC17_QA_SELF_MAX_BYTES_def)
  obtain rq where acc: "run_execution_protocol_v1 ?r = run_prepared_v1 rq (run_identity ?m) ?r"
    by (rule protocol_accepts [OF f rd root self]) (simp_all add: sample_protocol_def)
  note wf = run_identity_ok [OF ok]
  have tk: "proc17_qa_phase_make_process_token (Some (run_identity ?m)) (pr_random ?r) = Some None"
    using wf by (simp add: proc17_qa_phase_make_process_token_def sample_protocol_def)
  let ?w = "wire_frame PROC17_QA_WIRE_RUN_ERROR_V1 (id_transaction (run_identity ?m)) (preflight_error (run_identity ?m))"
  have "length ?w = 348" using preflight_error_slices(1) [OF wf(1)] wf(1) by (simp add: length_wire_frame identity_wf_def)
  then have "write_exact ?w (pr_writes ?r) = Some (True, ?w)" by (cases ?w) (auto simp: sample_protocol_def)
  then have run: "run_execution_protocol_v1 ?r = Some (0, ?w)"
    unfolding acc run_prepared_v1_def tk using emit_preflight_error [OF wf, of "pr_frame ?r" "pr_writes ?r"]
    by (simp add: sample_protocol_def)
  have "length (pr_frame ?r) = PROC17_QA_WIRE_MAX_FRAME_BYTES" by (simp add: sample_protocol_def)
  from run_protocol_publishes [OF run this] run rd show ?thesis by (metis option.inject)
qed

end
