(* ===== verification/Qa_World.thy ===== *)
theory Qa_World
  imports Proc17_Trace Qa_Descriptors Qa_Launcher "HOL-Library.Monad_Syntax"
begin

text \<open>
  The isolated world of a candidate (\<open>native/proc17_qa_supervisor.c\<close>, \<open>mount_isolated_world\<close>): the source directory is
  cloned as a detached mount, made read-only, moved into a new root in a private temporary file system
  and attested there; a bounded scratch file system is mounted beside it, the root is exchanged, the old one is
  detached, and the new one is made read-only.  The system calls go to the trace; what the kernel
  answers after a trace is an argument.
\<close>

unbundle bit_operations_syntax

subsection \<open>The calls\<close>

datatype mount_flag = MS_REC | MS_PRIVATE | MS_BIND | MS_NOSUID | MS_NODEV | MS_NOEXEC

datatype mount_attribute = MOUNT_ATTR_RDONLY | MOUNT_ATTR_NOSUID | MOUNT_ATTR_NODEV | MOUNT_ATTR_NOEXEC

text \<open>The calls that only succeed or fail: \<open>mount\<close> with source, target, type, flags and data; \<open>umount2\<close> with
  \<open>MNT_DETACH\<close>; \<open>mount_setattr\<close> on a descriptor (\<open>AT_EMPTY_PATH | AT_RECURSIVE\<close>) or on a path.\<close>

datatype world_call =
    Mount "bytes option" bytes "bytes option" "mount_flag list" "bytes option"
  | Umount bytes
  | Set_attributes nat "mount_attribute list"
  | Set_root_attributes bytes "mount_attribute list"
  | Move_mount nat bytes
  | Make_directory bytes u32
  | Remove_directory bytes
  | Change_directory bytes
  | Pivot_root bytes bytes
  | Close_descriptor nat

datatype world_event =
    W_call world_call bool
  | W_root nat "proc17_qa_root_identity option"
  | W_readlink bytes "bytes option"
  | W_open bytes "nat option"
  | W_open_tree bytes "nat option"
  | W_flags nat "u64 option"
  | W_create nat bytes "nat sys"

type_synonym 'a wio = "(world_event list, 'a) state"

text \<open>What the kernel answers after a trace; a \<open>readlink\<close> that fails is \<open>None\<close>.\<close>

record world_kernel =
  wk_call :: "world_event list \<Rightarrow> world_call \<Rightarrow> bool"
  wk_root :: "world_event list \<Rightarrow> nat \<Rightarrow> (u32 \<times> u64 \<times> u64) sys \<times> (u32 \<times> u64) sys"
  wk_readlink :: "world_event list \<Rightarrow> bytes \<Rightarrow> bytes option"
  wk_open :: "world_event list \<Rightarrow> bytes \<Rightarrow> nat option"
  wk_open_tree :: "world_event list \<Rightarrow> bytes \<Rightarrow> nat option"
  wk_flags :: "world_event list \<Rightarrow> nat \<Rightarrow> u64 option"
  wk_create :: "world_event list \<Rightarrow> nat \<Rightarrow> bytes \<Rightarrow> nat sys"

definition w_call :: "world_kernel \<Rightarrow> world_call \<Rightarrow> bool wio" where
  "w_call k c = call (\<lambda>t. wk_call k t c) (W_call c)"

definition w_root :: "world_kernel \<Rightarrow> nat \<Rightarrow> proc17_qa_root_identity option wio" where
  "w_root k fd = call (\<lambda>t. case wk_root k t fd of (status, extended) \<Rightarrow> observe_root status extended) (W_root fd)"

definition w_readlink :: "world_kernel \<Rightarrow> bytes \<Rightarrow> bytes option wio" where
  "w_readlink k path = call (\<lambda>t. wk_readlink k t path) (W_readlink path)"

definition w_open :: "world_kernel \<Rightarrow> bytes \<Rightarrow> nat option wio" where
  "w_open k path = call (\<lambda>t. wk_open k t path) (W_open path)"

definition w_open_tree :: "world_kernel \<Rightarrow> bytes \<Rightarrow> nat option wio" where
  "w_open_tree k path = call (\<lambda>t. wk_open_tree k t path) (W_open_tree path)"

definition w_flags :: "world_kernel \<Rightarrow> nat \<Rightarrow> u64 option wio" where
  "w_flags k fd = call (\<lambda>t. wk_flags k t fd) (W_flags fd)"

definition w_create :: "world_kernel \<Rightarrow> nat \<Rightarrow> bytes \<Rightarrow> nat sys wio" where
  "w_create k fd name = call (\<lambda>t. wk_create k t fd name) (W_create fd name)"

lemmas w_defs = w_call_def w_root_def w_readlink_def w_open_def w_open_tree_def w_flags_def w_create_def

text \<open>Calls joined by \<open>||\<close>: up to the first that fails.\<close>

fun w_calls :: "world_kernel \<Rightarrow> world_call list \<Rightarrow> bool wio" where
  "w_calls k [] = ret True"
| "w_calls k (c # cs) = do { ok \<leftarrow> w_call k c; if ok then w_calls k cs else ret False }"

subsection \<open>Statuses of the probe\<close>

definition PROC17_QA_PROBE_OK :: u32 where [simp]: "PROC17_QA_PROBE_OK = 0"
definition PROC17_QA_PROBE_MOUNT_PRIVATE_FAILED :: u32 where [simp]: "PROC17_QA_PROBE_MOUNT_PRIVATE_FAILED = 10"
definition PROC17_QA_PROBE_MOUNT_TMPFS_FAILED :: u32 where [simp]: "PROC17_QA_PROBE_MOUNT_TMPFS_FAILED = 11"
definition PROC17_QA_PROBE_MOUNT_ROOT_FAILED :: u32 where [simp]: "PROC17_QA_PROBE_MOUNT_ROOT_FAILED = 12"
definition PROC17_QA_PROBE_MOUNT_SOURCE_FAILED :: u32 where [simp]: "PROC17_QA_PROBE_MOUNT_SOURCE_FAILED = 13"
definition PROC17_QA_PROBE_MOUNT_SCRATCH_FAILED :: u32 where [simp]: "PROC17_QA_PROBE_MOUNT_SCRATCH_FAILED = 15"
definition PROC17_QA_PROBE_MOUNT_PIVOT_FAILED :: u32 where [simp]: "PROC17_QA_PROBE_MOUNT_PIVOT_FAILED = 16"
definition PROC17_QA_PROBE_MOUNT_ROOT_POLICY_FAILED :: u32 where [simp]: "PROC17_QA_PROBE_MOUNT_ROOT_POLICY_FAILED = 17"
definition PROC17_QA_PROBE_SOURCE_LOCATOR_FAILED :: u32 where [simp]: "PROC17_QA_PROBE_SOURCE_LOCATOR_FAILED = 47"
definition PROC17_QA_PROBE_SOURCE_SELF_BIND_FAILED :: u32 where [simp]: "PROC17_QA_PROBE_SOURCE_SELF_BIND_FAILED = 48"
definition PROC17_QA_PROBE_SOURCE_CLONE_FAILED :: u32 where [simp]: "PROC17_QA_PROBE_SOURCE_CLONE_FAILED = 49"
definition PROC17_QA_PROBE_SOURCE_DETACH_FAILED :: u32 where [simp]: "PROC17_QA_PROBE_SOURCE_DETACH_FAILED = 50"
definition PROC17_QA_PROBE_SOURCE_HARDEN_FAILED :: u32 where [simp]: "PROC17_QA_PROBE_SOURCE_HARDEN_FAILED = 51"
definition PROC17_QA_PROBE_SOURCE_ATTACH_FAILED :: u32 where [simp]: "PROC17_QA_PROBE_SOURCE_ATTACH_FAILED = 52"
definition PROC17_QA_PROBE_SOURCE_ATTEST_FAILED :: u32 where [simp]: "PROC17_QA_PROBE_SOURCE_ATTEST_FAILED = 53"
definition PROC17_QA_PROBE_SOURCE_READLINK_FAILED :: u32 where [simp]: "PROC17_QA_PROBE_SOURCE_READLINK_FAILED = 54"
definition PROC17_QA_PROBE_SOURCE_DELETED_FAILED :: u32 where [simp]: "PROC17_QA_PROBE_SOURCE_DELETED_FAILED = 55"
definition PROC17_QA_PROBE_SOURCE_LOCATOR_IDENTITY_FAILED :: u32 where
  [simp]: "PROC17_QA_PROBE_SOURCE_LOCATOR_IDENTITY_FAILED = 56"

subsection \<open>Observing a mount\<close>

definition observe_path_root :: "world_kernel \<Rightarrow> bytes \<Rightarrow> proc17_qa_root_identity option wio" where
  "observe_path_root k path = do {
     d \<leftarrow> w_open k path;
     (case d of
        None \<Rightarrow> ret None
      | Some descriptor \<Rightarrow> do {
          result \<leftarrow> w_root k descriptor;
          closed \<leftarrow> w_call k (Close_descriptor descriptor);
          ret (if closed then result else None)
        })
   }"

text \<open>The bits of \<open>f_flag\<close> are those of Linux: \<open>ST_RDONLY\<close>, \<open>ST_NOSUID\<close>, \<open>ST_NODEV\<close> and \<open>ST_NOEXEC\<close> are 1, 2, 4, 8.\<close>

definition source_flag_bits :: "u64 \<Rightarrow> u32" where
  "source_flag_bits f_flag =
     (let observed0 = (if f_flag AND 1 \<noteq> 0 then 1 else 0);
          observed1 = (if f_flag AND 2 \<noteq> 0 then observed0 OR 2 else observed0);
          observed2 = (if f_flag AND 4 \<noteq> 0 then observed1 OR 4 else observed1)
      in if f_flag AND 8 \<noteq> 0 then observed2 OR 8 else observed2)"

definition source_mount_flags :: "world_kernel \<Rightarrow> nat \<Rightarrow> u32 option wio" where
  "source_mount_flags k descriptor = do {
     status \<leftarrow> w_flags k descriptor;
     ret (map_option source_flag_bits status)
   }"

subsection \<open>The stages of the mount\<close>

abbreviation world_root :: bytes where "world_root \<equiv> ascii ''/tmp/proc17-qa-root''"
abbreviation world_source :: bytes where "world_source \<equiv> ascii ''/tmp/proc17-qa-root/qa/source''"
abbreviation world_scratch :: bytes where "world_scratch \<equiv> ascii ''/tmp/proc17-qa-root/qa/scratch''"
abbreviation world_old_root :: bytes where "world_old_root \<equiv> ascii ''/tmp/proc17-qa-root/old-root''"

definition hardened :: "mount_attribute list" where
  "hardened = [MOUNT_ATTR_RDONLY, MOUNT_ATTR_NOSUID, MOUNT_ATTR_NODEV, MOUNT_ATTR_NOEXEC]"

definition scratch_options :: bytes where
  "scratch_options = ascii ''size='' @ digits (unat PROC17_QA_SCRATCH_BYTES) [] @ ascii '',nr_inodes=''
     @ digits (unat PROC17_QA_SCRATCH_ENTRIES) [] @ ascii '',mode=0700''"

definition descriptor_link :: "nat \<Rightarrow> bytes" where
  "descriptor_link fd = ascii ''/proc/self/fd/'' @ digits fd []"

definition PATH_MAX :: nat where "PATH_MAX = 4096"

definition fresh_stage :: "nat \<Rightarrow> proc17_qa_source_stage" where
  "fresh_stage source_fd = \<lparr>st_source_fd = Some source_fd, st_detached_mount_fd = None, st_temporary_self_bind_live = False,
     st_detached_attached = False, st_host_tmp_hidden = False, st_candidate_started = False, st_original = zero_root,
     st_detached = zero_root, st_attached = zero_root, st_mount_policy_flags = 0\<rparr>"

text \<open>The label \<open>cleanup\<close>.\<close>

definition world_cleanup ::
  "world_kernel \<Rightarrow> bytes \<Rightarrow> nat option \<Rightarrow> proc17_qa_source_stage \<Rightarrow> u32 \<Rightarrow> (u32 \<times> proc17_qa_source_stage) wio" where
  "world_cleanup k source_path attached_fd stage failure = do {
     _ \<leftarrow> (case attached_fd of None \<Rightarrow> ret True | Some fd \<Rightarrow> w_call k (Close_descriptor fd));
     stage1 \<leftarrow> (case st_detached_mount_fd stage of
                  None \<Rightarrow> ret stage
                | Some fd \<Rightarrow> do {
                    _ \<leftarrow> w_call k (Close_descriptor fd);
                    ret (stage\<lparr>st_detached_mount_fd := None\<rparr>)
                  });
     if st_temporary_self_bind_live stage1
     then do {
       unbound \<leftarrow> w_call k (Umount source_path);
       ret (failure, if unbound then stage1\<lparr>st_temporary_self_bind_live := False\<rparr> else stage1)
     }
     else ret (failure, stage1)
   }"

text \<open>The scratch file system, the new root, its policy.\<close>

definition enter_world :: "world_kernel \<Rightarrow> proc17_qa_source_stage \<Rightarrow> (u32 \<times> proc17_qa_source_stage) wio" where
  "enter_world k stage = do {
     scratch \<leftarrow> w_calls k
       [Mount (Some (ascii ''tmpfs'')) world_scratch (Some (ascii ''tmpfs'')) [MS_NOSUID, MS_NODEV, MS_NOEXEC] (Some scratch_options),
        Make_directory (world_scratch @ ascii ''/home'') 0x1c0, Make_directory (world_scratch @ ascii ''/tmp'') 0x1c0];
     if \<not> scratch then ret (PROC17_QA_PROBE_MOUNT_SCRATCH_FAILED, stage)
     else do {
       pivoted \<leftarrow> w_calls k
         [Change_directory world_root, Pivot_root (ascii ''.'') (ascii ''old-root''), Change_directory (ascii ''/''),
          Umount (ascii ''/old-root''), Remove_directory (ascii ''/old-root'')];
       if \<not> pivoted then ret (PROC17_QA_PROBE_MOUNT_PIVOT_FAILED, stage)
       else do {
         locked \<leftarrow> w_call k (Set_root_attributes (ascii ''/'') hardened);
         ret (if locked then PROC17_QA_PROBE_OK else PROC17_QA_PROBE_MOUNT_ROOT_POLICY_FAILED, stage)
       }
     }
   }"

text \<open>The attached source is the detached mount, read-only: the kernel must refuse a new file with \<open>EROFS\<close>.\<close>

definition attest_source :: "world_kernel \<Rightarrow> nat \<Rightarrow> proc17_qa_source_stage \<Rightarrow> (u32 \<times> proc17_qa_source_stage) wio" where
  "attest_source k attached_fd stage = do {
     created \<leftarrow> w_create k attached_fd (ascii ''probe-source-write-must-fail'');
     if created \<noteq> Sys_err EROFS
     then do {
       _ \<leftarrow> (case created of Sys_ok probe_fd \<Rightarrow> w_call k (Close_descriptor probe_fd) | Sys_err _ \<Rightarrow> ret True);
       world_cleanup k [] (Some attached_fd) stage PROC17_QA_PROBE_SOURCE_ATTEST_FAILED
     }
     else do {
       closed \<leftarrow> w_call k (Close_descriptor attached_fd);
       if \<not> closed then world_cleanup k [] None stage PROC17_QA_PROBE_MOUNT_SOURCE_FAILED
       else enter_world k stage
     }
   }"

definition attach_source :: "world_kernel \<Rightarrow> nat \<Rightarrow> proc17_qa_source_stage \<Rightarrow> (u32 \<times> proc17_qa_source_stage) wio" where
  "attach_source k detached_fd stage = do {
     moved \<leftarrow> w_call k (Move_mount detached_fd world_source);
     if \<not> moved then world_cleanup k [] None stage PROC17_QA_PROBE_SOURCE_ATTACH_FAILED
     else do {
       closed \<leftarrow> w_call k (Close_descriptor detached_fd);
       let stage1 = stage\<lparr>st_detached_attached := True, st_detached_mount_fd := None\<rparr>;
       if \<not> closed then world_cleanup k [] None stage1 PROC17_QA_PROBE_MOUNT_SOURCE_FAILED
       else do {
         a \<leftarrow> w_open k world_source;
         (case a of
            None \<Rightarrow> world_cleanup k [] None stage1 PROC17_QA_PROBE_SOURCE_ATTEST_FAILED
          | Some attached_fd \<Rightarrow> do {
              i \<leftarrow> w_root k attached_fd;
              (case i of
                 None \<Rightarrow> world_cleanup k [] (Some attached_fd) stage1 PROC17_QA_PROBE_SOURCE_ATTEST_FAILED
               | Some attached \<Rightarrow>
                   let stage2 = stage1\<lparr>st_attached := attached\<rparr>
                   in if \<not> same_mount_identity attached (st_detached stage2)
                      then world_cleanup k [] (Some attached_fd) stage2 PROC17_QA_PROBE_SOURCE_ATTEST_FAILED
                      else do {
                        f \<leftarrow> source_mount_flags k attached_fd;
                        (case f of
                           None \<Rightarrow> world_cleanup k [] (Some attached_fd) stage2 PROC17_QA_PROBE_SOURCE_ATTEST_FAILED
                         | Some flags \<Rightarrow>
                             let stage3 = stage2\<lparr>st_mount_policy_flags := flags\<rparr>
                             in if flags \<noteq> PROC17_QA_SOURCE_MOUNT_REQUIRED
                                then world_cleanup k [] (Some attached_fd) stage3 PROC17_QA_PROBE_SOURCE_ATTEST_FAILED
                                else attest_source k attached_fd stage3)
                      })
            })
       }
     }
   }"

text \<open>From the hardened detached mount: the private temporary file system and the skeleton of the root.\<close>

definition build_world :: "world_kernel \<Rightarrow> nat \<Rightarrow> proc17_qa_source_stage \<Rightarrow> (u32 \<times> proc17_qa_source_stage) wio" where
  "build_world k detached_fd stage = do {
     hidden \<leftarrow> w_call k (Mount (Some (ascii ''tmpfs'')) (ascii ''/tmp'') (Some (ascii ''tmpfs'')) [MS_NOSUID, MS_NODEV]
                          (Some (ascii ''size=83886080,nr_inodes=8192,mode=0700'')));
     if \<not> hidden then world_cleanup k [] None stage PROC17_QA_PROBE_MOUNT_TMPFS_FAILED
     else do {
       let stage1 = stage\<lparr>st_host_tmp_hidden := True\<rparr>;
       made \<leftarrow> w_calls k
         [Make_directory world_root 0x1c0, Mount (Some world_root) world_root None [MS_BIND] None,
          Make_directory (world_root @ ascii ''/qa'') 0x16d, Make_directory world_source 0x16d,
          Make_directory world_scratch 0x1c0, Make_directory world_old_root 0x16d];
       if \<not> made then world_cleanup k [] None stage1 PROC17_QA_PROBE_MOUNT_ROOT_FAILED
       else attach_source k detached_fd stage1
     }
   }"

definition harden_source :: "world_kernel \<Rightarrow> nat \<Rightarrow> proc17_qa_source_stage \<Rightarrow> (u32 \<times> proc17_qa_source_stage) wio" where
  "harden_source k detached_fd stage = do {
     set \<leftarrow> w_call k (Set_attributes detached_fd hardened);
     if \<not> set then world_cleanup k [] None stage PROC17_QA_PROBE_SOURCE_HARDEN_FAILED
     else do {
       f \<leftarrow> source_mount_flags k detached_fd;
       (case f of
          None \<Rightarrow> world_cleanup k [] None stage PROC17_QA_PROBE_SOURCE_HARDEN_FAILED
        | Some flags \<Rightarrow>
            let stage1 = stage\<lparr>st_mount_policy_flags := flags\<rparr>
            in if flags \<noteq> PROC17_QA_SOURCE_MOUNT_REQUIRED
               then world_cleanup k [] None stage1 PROC17_QA_PROBE_SOURCE_HARDEN_FAILED
               else build_world k detached_fd stage1)
     }
   }"

text \<open>The clone of the source, while the temporary bind mount of the source on itself is live.\<close>

definition clone_source :: "world_kernel \<Rightarrow> bytes \<Rightarrow> proc17_qa_source_stage \<Rightarrow> (u32 \<times> proc17_qa_source_stage) wio" where
  "clone_source k source_path stage = do {
     d \<leftarrow> w_open_tree k source_path;
     (case d of
        None \<Rightarrow> world_cleanup k source_path None stage PROC17_QA_PROBE_SOURCE_CLONE_FAILED
      | Some detached_fd \<Rightarrow> do {
          let stage1 = stage\<lparr>st_detached_mount_fd := Some detached_fd\<rparr>;
          i \<leftarrow> w_root k detached_fd;
          (case i of
             None \<Rightarrow> world_cleanup k source_path None stage1 PROC17_QA_PROBE_SOURCE_CLONE_FAILED
           | Some detached \<Rightarrow>
               let stage2 = stage1\<lparr>st_detached := detached\<rparr>
               in if \<not> same_mount_object detached (st_original stage2)
                  then world_cleanup k source_path None stage2 PROC17_QA_PROBE_SOURCE_CLONE_FAILED
                  else do {
                    unbound \<leftarrow> w_call k (Umount source_path);
                    if \<not> unbound then world_cleanup k source_path None stage2 PROC17_QA_PROBE_SOURCE_DETACH_FAILED
                    else harden_source k detached_fd (stage2\<lparr>st_temporary_self_bind_live := False\<rparr>)
                  })
        })
   }"

definition bind_source :: "world_kernel \<Rightarrow> bytes \<Rightarrow> proc17_qa_source_stage \<Rightarrow> (u32 \<times> proc17_qa_source_stage) wio" where
  "bind_source k source_path stage = do {
     private \<leftarrow> w_call k (Mount None (ascii ''/'') None [MS_REC, MS_PRIVATE] None);
     if \<not> private then ret (PROC17_QA_PROBE_MOUNT_PRIVATE_FAILED, stage)
     else do {
       bound \<leftarrow> w_call k (Mount (Some source_path) source_path None [MS_BIND] None);
       if \<not> bound then ret (PROC17_QA_PROBE_SOURCE_SELF_BIND_FAILED, stage)
       else do {
         let stage1 = stage\<lparr>st_temporary_self_bind_live := True\<rparr>;
         self_bound \<leftarrow> observe_path_root k source_path;
         (case self_bound of
            None \<Rightarrow> world_cleanup k source_path None stage1 PROC17_QA_PROBE_SOURCE_SELF_BIND_FAILED
          | Some identity \<Rightarrow>
              if \<not> same_mount_object identity (st_original stage1)
              then world_cleanup k source_path None stage1 PROC17_QA_PROBE_SOURCE_SELF_BIND_FAILED
              else clone_source k source_path stage1)
       }
     }
   }"

text \<open>\<open>strstr\<close> with a constant; the path is a C string.\<close>

definition contains :: "bytes \<Rightarrow> bytes \<Rightarrow> bool" where
  "contains text_bytes part = list_ex (\<lambda>i. take (length part) (drop i text_bytes) = part) [0..<Suc (length text_bytes)]"

text \<open>The formatted strings fit their buffers.  \<open>readlink\<close> delivers at most \<open>PATH_MAX - 1\<close> bytes; a path that begins with
  the separator is looked up again, and must be the observed directory.\<close>

definition mount_isolated_world :: "world_kernel \<Rightarrow> nat \<Rightarrow> (u32 \<times> proc17_qa_source_stage) wio" where
  "mount_isolated_world k source_fd = do {
     let stage = fresh_stage source_fd;
     i \<leftarrow> w_root k source_fd;
     (case i of
        None \<Rightarrow> ret (PROC17_QA_PROBE_SOURCE_LOCATOR_FAILED, stage)
      | Some original \<Rightarrow> do {
          let stage1 = stage\<lparr>st_original := original\<rparr>;
          l \<leftarrow> w_readlink k (descriptor_link source_fd);
          (case l of
             None \<Rightarrow> ret (PROC17_QA_PROBE_SOURCE_READLINK_FAILED, stage1)
           | Some bytes \<Rightarrow>
               if bytes = [] \<or> length bytes \<ge> PATH_MAX \<or> bytes ! 0 \<noteq> 47
               then ret (PROC17_QA_PROBE_SOURCE_READLINK_FAILED, stage1)
               else
                 let source_path = c_string (bytes @ [0])
                 in if contains source_path (ascii '' (deleted)'')
                    then ret (PROC17_QA_PROBE_SOURCE_DELETED_FAILED, stage1)
                    else do {
                      locator \<leftarrow> observe_path_root k source_path;
                      (case locator of
                         None \<Rightarrow> ret (PROC17_QA_PROBE_SOURCE_LOCATOR_IDENTITY_FAILED, stage1)
                       | Some identity \<Rightarrow>
                           if \<not> same_mount_object identity original
                           then ret (PROC17_QA_PROBE_SOURCE_LOCATOR_IDENTITY_FAILED, stage1)
                           else bind_source k source_path stage1)
                    })
        })
   }"

subsection \<open>What the calls leave\<close>

text \<open>The successful calls that change the world, in order; and how often a descriptor was opened more often than
  closed.\<close>

fun changes_of :: "world_event \<Rightarrow> world_call list" where
  "changes_of (W_call (Close_descriptor fd) ok) = []"
| "changes_of (W_call c ok) = (if ok then [c] else [])"
| "changes_of e = []"

definition world_changes :: "world_event list \<Rightarrow> world_call list" where
  "world_changes u = concat (map changes_of u)"

fun descriptor_delta :: "nat \<Rightarrow> world_event \<Rightarrow> int" where
  "descriptor_delta x (W_open path (Some fd)) = of_bool (x = fd)"
| "descriptor_delta x (W_open_tree path (Some fd)) = of_bool (x = fd)"
| "descriptor_delta x (W_create dir name (Sys_ok fd)) = of_bool (x = fd)"
| "descriptor_delta x (W_call (Close_descriptor fd) ok) = - of_bool (x = fd)"
| "descriptor_delta x e = 0"

definition gives_back :: "nat list \<Rightarrow> world_event list \<Rightarrow> bool" where
  "gives_back fds u \<longleftrightarrow> (\<forall>x. sum_list (map (descriptor_delta x) u) = - int (count_list fds x))"

lemma world_changes_simps [simp]:
  "world_changes [] = []" "world_changes (e # u) = changes_of e @ world_changes u"
  "world_changes (u @ v) = world_changes u @ world_changes v"
  by (simp_all add: world_changes_def)

lemma gives_back_Nil [simp]: "gives_back [] []"
  by (simp add: gives_back_def)

lemma gives_back_append [intro]: "gives_back fds u \<Longrightarrow> gives_back fds' v \<Longrightarrow> gives_back (fds @ fds') (u @ v)"
  by (simp add: gives_back_def)

lemma gives_back_simps [simp]:
  "gives_back fds (W_root fd r # u) \<longleftrightarrow> gives_back fds u"
  "gives_back fds (W_readlink p l # u) \<longleftrightarrow> gives_back fds u"
  "gives_back fds (W_flags fd f # u) \<longleftrightarrow> gives_back fds u"
  "gives_back fds (W_open p None # u) \<longleftrightarrow> gives_back fds u"
  "gives_back fds (W_open_tree p None # u) \<longleftrightarrow> gives_back fds u"
  "gives_back fds (W_create dir n (Sys_err e) # u) \<longleftrightarrow> gives_back fds u"
  "gives_back fds (W_call (Mount a b c fl e') ok # u) \<longleftrightarrow> gives_back fds u"
  "gives_back fds (W_call (Umount p) ok # u) \<longleftrightarrow> gives_back fds u"
  "gives_back fds (W_call (Set_attributes fd as) ok # u) \<longleftrightarrow> gives_back fds u"
  "gives_back fds (W_call (Set_root_attributes p as) ok # u) \<longleftrightarrow> gives_back fds u"
  "gives_back fds (W_call (Move_mount fd p) ok # u) \<longleftrightarrow> gives_back fds u"
  "gives_back fds (W_call (Make_directory p m) ok # u) \<longleftrightarrow> gives_back fds u"
  "gives_back fds (W_call (Remove_directory p) ok # u) \<longleftrightarrow> gives_back fds u"
  "gives_back fds (W_call (Change_directory p) ok # u) \<longleftrightarrow> gives_back fds u"
  "gives_back fds (W_call (Pivot_root p q) ok # u) \<longleftrightarrow> gives_back fds u"
  by (simp_all add: gives_back_def)

lemma gives_back_open:
  "gives_back (fd # fds) u \<Longrightarrow> gives_back fds (W_open p (Some fd) # u)"
  "gives_back (fd # fds) u \<Longrightarrow> gives_back fds (W_open_tree p (Some fd) # u)"
  "gives_back (fd # fds) u \<Longrightarrow> gives_back fds (W_create d n (Sys_ok fd) # u)"
  by (auto simp: gives_back_def)

lemma gives_back_close: "gives_back fds u \<Longrightarrow> gives_back (fd # fds) (W_call (Close_descriptor fd) ok # u)"
  by (auto simp: gives_back_def)

lemma gives_back_close1 [simp]: "gives_back [fd] (W_call (Close_descriptor fd) ok # u) \<longleftrightarrow> gives_back [] u"
  by (auto simp: gives_back_def split: if_splits)

lemma emits_if: "(b \<Longrightarrow> emits m P) \<Longrightarrow> (\<not> b \<Longrightarrow> emits n P) \<Longrightarrow> emits (if b then m else n) P"
  by simp

lemma emits_option:
  "(x = None \<Longrightarrow> emits m P) \<Longrightarrow> (\<And>y. x = Some y \<Longrightarrow> emits (f y) P) \<Longrightarrow> emits (case x of None \<Rightarrow> m | Some y \<Rightarrow> f y) P"
  by (cases x) simp_all

lemma emits_call_option:
  "emits m (\<lambda>b v. P b (event None # v)) \<Longrightarrow> (\<And>y. emits (f y) (\<lambda>b v. P b (event (Some y) # v)))
   \<Longrightarrow> emits (State_Monad.bind (call answer event) (case_option m f)) P"
  by (rule emits_call_bind) (simp split: option.split)

lemma emits_call_unless:
  "emits m (\<lambda>b v. P b (event False # v)) \<Longrightarrow> emits n (\<lambda>b v. P b (event True # v))
   \<Longrightarrow> emits (State_Monad.bind (call answer event) (\<lambda>ok. if \<not> ok then m else n)) P"
  by (rule emits_call_bind) simp

lemma w_calls_emits:
  assumes "\<And>fd. Close_descriptor fd \<notin> set cs"
  shows "emits (w_calls k cs) (\<lambda>ok u. gives_back [] u \<and> (ok \<longrightarrow> world_changes u = cs \<and> u = map (\<lambda>c. W_call c True) cs))"
  using assms
proof (induction cs)
  case (Cons c cs)
  have c: "changes_of (W_call c True) = [c]" "gives_back fds (W_call c ok # u) \<longleftrightarrow> gives_back fds u" for fds ok u
    using Cons.prems [of undefined] Cons.prems by (cases c; auto)+
  show ?case unfolding w_calls.simps w_call_def
    by (rule emits_call_bind, rule emits_if, rule emits_mono [OF Cons.IH]) (use Cons.prems c in auto)
qed simp

lemma world_cleanup_emits:
  "emits (world_cleanup k path attached stage failure) (\<lambda>r u. fst r = failure
     \<and> gives_back ((case attached of None \<Rightarrow> [] | Some fd \<Rightarrow> [fd]) @ (case st_detached_mount_fd stage of None \<Rightarrow> [] | Some fd \<Rightarrow> [fd])) u
     \<and> (st_temporary_self_bind_live (snd r) \<longrightarrow> st_temporary_self_bind_live stage \<and> W_call (Umount path) False \<in> set u))"
proof -
  have 1: "emits (case attached of None \<Rightarrow> ret True | Some fd \<Rightarrow> w_call k (Close_descriptor fd))
      (\<lambda>_ u. gives_back (case attached of None \<Rightarrow> [] | Some fd \<Rightarrow> [fd]) u)"
    by (cases attached) (auto simp: w_call_def intro!: emits_call)
  have 2: "emits (case st_detached_mount_fd stage of None \<Rightarrow> ret stage
      | Some fd \<Rightarrow> do { _ \<leftarrow> w_call k (Close_descriptor fd); ret (stage\<lparr>st_detached_mount_fd := None\<rparr>) })
      (\<lambda>s u. gives_back (case st_detached_mount_fd stage of None \<Rightarrow> [] | Some fd \<Rightarrow> [fd]) u
         \<and> st_temporary_self_bind_live s = st_temporary_self_bind_live stage)"
    by (cases "st_detached_mount_fd stage") (auto simp: w_call_def intro!: emits_call_bind)
  have 3: "emits (if st_temporary_self_bind_live s
      then do { unbound \<leftarrow> w_call k (Umount path);
                ret (failure, if unbound then s\<lparr>st_temporary_self_bind_live := False\<rparr> else s) }
      else ret (failure, s))
      (\<lambda>r u. fst r = failure \<and> gives_back [] u
        \<and> (st_temporary_self_bind_live (snd r) \<longrightarrow> st_temporary_self_bind_live s \<and> W_call (Umount path) False \<in> set u))" for s
    by (auto simp: w_call_def intro!: emits_call_bind)
  show ?thesis unfolding world_cleanup_def
    by (rule emits_bind [OF 1], rule emits_bind [OF 2], rule emits_mono [OF 3])
      (use gives_back_append [of _ _ "[]"] in \<open>auto simp flip: append_assoc\<close>)
qed

definition enter_changes :: "world_call list" where
  "enter_changes =
     [Mount (Some (ascii ''tmpfs'')) world_scratch (Some (ascii ''tmpfs'')) [MS_NOSUID, MS_NODEV, MS_NOEXEC] (Some scratch_options),
      Make_directory (world_scratch @ ascii ''/home'') 0x1c0, Make_directory (world_scratch @ ascii ''/tmp'') 0x1c0,
      Change_directory world_root, Pivot_root (ascii ''.'') (ascii ''old-root''), Change_directory (ascii ''/''),
      Umount (ascii ''/old-root''), Remove_directory (ascii ''/old-root''), Set_root_attributes (ascii ''/'') hardened]"

lemma enter_world_emits:
  "emits (enter_world k stage) (\<lambda>r u. snd r = stage \<and> gives_back [] u \<and> (fst r = PROC17_QA_PROBE_OK \<longrightarrow> world_changes u = enter_changes))"
  unfolding enter_world_def
  by (rule emits_bind [OF w_calls_emits], simp, rule emits_if, simp, rule emits_bind [OF w_calls_emits], simp, rule emits_if, simp,
      unfold w_call_def, rule emits_call_bind)
    (use gives_back_append [of "[]" _ "[]"] in \<open>auto simp: enter_changes_def\<close>)

text \<open>The source in the new root was opened, is the detached mount with every required flag, and refused a new file.\<close>

abbreviation write_probe :: bytes where "write_probe \<equiv> ascii ''probe-source-write-must-fail''"

definition attested :: "proc17_qa_root_identity \<Rightarrow> proc17_qa_root_identity \<Rightarrow> world_event list \<Rightarrow> bool" where
  "attested detached attached u \<longleftrightarrow> same_mount_identity attached detached \<and> (\<exists>a f.
     {W_open world_source (Some a), W_root a (Some attached), W_flags a (Some f), W_create a write_probe (Sys_err EROFS)} \<subseteq> set u
     \<and> source_flag_bits f = PROC17_QA_SOURCE_MOUNT_REQUIRED)"

lemma attested_Cons: "attested d a u \<Longrightarrow> attested d a (e # u)"
  unfolding attested_def by auto

lemma attested_append: "attested d a u \<Longrightarrow> attested d a (v @ u)"
  unfolding attested_def by auto

text \<open>How a stage of the mount ends: the descriptors it was given are closed, the temporary bind mount is gone or its removal
  failed, and success has the stated effect.\<close>

definition world_ends ::
  "(world_event list \<Rightarrow> bool) \<Rightarrow> nat list \<Rightarrow> (proc17_qa_source_stage \<Rightarrow> world_event list \<Rightarrow> bool)
   \<Rightarrow> u32 \<times> proc17_qa_source_stage \<Rightarrow> world_event list \<Rightarrow> bool" where
  "world_ends kept fds Q r u \<longleftrightarrow> gives_back fds u \<and> (st_temporary_self_bind_live (snd r) \<longrightarrow> fst r \<noteq> PROC17_QA_PROBE_OK \<and> kept u)
     \<and> (fst r = PROC17_QA_PROBE_OK \<longrightarrow> Q (snd r) u)"

lemma world_ends_ret:
  "failure \<noteq> PROC17_QA_PROBE_OK \<Longrightarrow> \<not> st_temporary_self_bind_live stage \<Longrightarrow> gives_back fds u \<Longrightarrow> world_ends kept fds Q (failure, stage) u"
  by (simp add: world_ends_def)

lemma cleanup_ends:
  assumes "failure \<noteq> PROC17_QA_PROBE_OK"
    and "\<And>v. gives_back ((case attached of None \<Rightarrow> [] | Some fd \<Rightarrow> [fd])
           @ (case st_detached_mount_fd stage of None \<Rightarrow> [] | Some fd \<Rightarrow> [fd])) v \<Longrightarrow> gives_back fds (before v)"
    and "\<And>v. st_temporary_self_bind_live stage \<Longrightarrow> W_call (Umount path) False \<in> set v \<Longrightarrow> kept (before v)"
  shows "emits (world_cleanup k path attached stage failure) (\<lambda>r v. world_ends kept fds Q r (before v))"
  by (rule emits_mono [OF world_cleanup_emits]) (use assms in \<open>auto simp: world_ends_def\<close>)

lemma ends_mono:
  assumes "emits m (world_ends kept fds Q)"
    and "\<And>v. gives_back fds v \<Longrightarrow> gives_back fds' (before v)" "\<And>v. kept v \<Longrightarrow> kept' (before v)"
    and "\<And>stage v. Q stage v \<Longrightarrow> Q' stage (before v)"
  shows "emits m (\<lambda>r v. world_ends kept' fds' Q' r (before v))"
  by (rule emits_mono [OF assms(1)]) (use assms(2-) in \<open>auto simp: world_ends_def\<close>)

lemma attest_source_emits:
  assumes "st_detached_mount_fd stage = None" "\<not> st_temporary_self_bind_live stage"
  shows "emits (attest_source k a stage) (world_ends (\<lambda>_. False) [a] (\<lambda>stage' u. stage' = stage \<and> world_changes u = enter_changes
    \<and> W_create a write_probe (Sys_err EROFS) \<in> set u))" (is "emits _ (world_ends ?kept _ ?Q)")
proof -
  have bad: "emits (do { _ \<leftarrow> (case c of Sys_ok fd \<Rightarrow> w_call k (Close_descriptor fd) | Sys_err _ \<Rightarrow> ret True);
       world_cleanup k [] (Some a) stage PROC17_QA_PROBE_SOURCE_ATTEST_FAILED })
     (\<lambda>r u. world_ends ?kept [a] ?Q r (W_create a write_probe c # u))" for c
  proof (cases c)
    case (Sys_ok fd)
    show ?thesis unfolding w_call_def Sys_ok sys.case
      by (intro emits_call_bind cleanup_ends) (auto simp: assms intro: gives_back_open gives_back_close)
  next
    case (Sys_err e)
    show ?thesis unfolding Sys_err by (auto intro!: cleanup_ends simp: assms)
  qed
  have enter: "emits (enter_world k stage) (\<lambda>r v. world_ends ?kept [a] ?Q r
      (W_create a write_probe (Sys_err EROFS) # W_call (Close_descriptor a) ok # v))" for ok
    by (rule emits_mono [OF enter_world_emits]) (auto simp: world_ends_def assms)
  show ?thesis unfolding attest_source_def w_create_def
    by (rule emits_call_bind, rule emits_if, rule bad, unfold w_call_def, rule emits_call_bind, rule emits_if, rule cleanup_ends)
      (use enter in \<open>auto simp: assms\<close>)
qed

text \<open>The stage record after the source was attached.\<close>

definition attached_stage :: "proc17_qa_source_stage \<Rightarrow> proc17_qa_root_identity \<Rightarrow> proc17_qa_source_stage" where
  "attached_stage stage attached = stage\<lparr>st_detached_attached := True, st_detached_mount_fd := None, st_attached := attached,
     st_mount_policy_flags := PROC17_QA_SOURCE_MOUNT_REQUIRED\<rparr>"

lemma attach_source_emits:
  assumes st: "st_detached_mount_fd stage = Some d" "\<not> st_temporary_self_bind_live stage"
  shows "emits (attach_source k d stage) (world_ends (\<lambda>_. False) [d] (\<lambda>stage' u.
    world_changes u = Move_mount d world_source # enter_changes
    \<and> (\<exists>attached. attested (st_detached stage) attached u \<and> stage' = attached_stage stage attached)))"
    (is "emits _ (world_ends ?kept _ ?Q)")
proof -
  let ?stage1 = "stage\<lparr>st_detached_attached := True, st_detached_mount_fd := None\<rparr>"
  have flags: "emits (do { f \<leftarrow> source_mount_flags k a;
         (case f of
            None \<Rightarrow> world_cleanup k [] (Some a) (?stage1\<lparr>st_attached := att\<rparr>) PROC17_QA_PROBE_SOURCE_ATTEST_FAILED
          | Some flags \<Rightarrow>
              if flags \<noteq> PROC17_QA_SOURCE_MOUNT_REQUIRED
              then world_cleanup k [] (Some a) (?stage1\<lparr>st_attached := att, st_mount_policy_flags := flags\<rparr>) PROC17_QA_PROBE_SOURCE_ATTEST_FAILED
              else attest_source k a (?stage1\<lparr>st_attached := att, st_mount_policy_flags := flags\<rparr>)) })
      (\<lambda>r v. world_ends ?kept [d] ?Q r (W_call (Move_mount d world_source) True # W_call (Close_descriptor d) True #
         W_open world_source (Some a) # W_root a (Some att) # v))"
    if same: "\<not> \<not> same_mount_identity att (st_detached stage)" for a att
  proof -
    have ok: "emits (attest_source k a (?stage1\<lparr>st_attached := att, st_mount_policy_flags := 15\<rparr>))
      (\<lambda>r v. world_ends ?kept [d] ?Q r (W_call (Move_mount d world_source) True # W_call (Close_descriptor d) True #
         W_open world_source (Some a) # W_root a (Some att) # W_flags a (Some f) # v))" if "source_flag_bits f = 15" for f
    proof (rule ends_mono [OF attest_source_emits])
      fix stage' v
      assume "stage' = ?stage1\<lparr>st_attached := att, st_mount_policy_flags := 15\<rparr> \<and> world_changes v = enter_changes
        \<and> W_create a write_probe (Sys_err EROFS) \<in> set v"
      with that same show "?Q stage' (W_call (Move_mount d world_source) True # W_call (Close_descriptor d) True #
         W_open world_source (Some a) # W_root a (Some att) # W_flags a (Some f) # v)"
        by (auto simp: attached_stage_def attested_def)
    qed (auto simp: st intro: gives_back_open)
    show ?thesis unfolding source_mount_flags_def w_flags_def State_Monad.bind_assoc State_Monad.bind_left_identity
      by (rule emits_call_bind, rule emits_option, rule cleanup_ends)
        (auto simp: st intro!: cleanup_ends ok gives_back_open)
  qed
  show ?thesis unfolding attach_source_def w_call_def w_open_def w_root_def Let_def
    by (intro emits_call_unless emits_call_option emits_if cleanup_ends flags)
      (auto simp: st intro!: gives_back_open)
qed

definition build_changes :: "nat \<Rightarrow> world_call list" where
  "build_changes d =
     [Mount (Some (ascii ''tmpfs'')) (ascii ''/tmp'') (Some (ascii ''tmpfs'')) [MS_NOSUID, MS_NODEV]
        (Some (ascii ''size=83886080,nr_inodes=8192,mode=0700'')),
      Make_directory world_root 0x1c0, Mount (Some world_root) world_root None [MS_BIND] None,
      Make_directory (world_root @ ascii ''/qa'') 0x16d, Make_directory world_source 0x16d,
      Make_directory world_scratch 0x1c0, Make_directory world_old_root 0x16d, Move_mount d world_source] @ enter_changes"

text \<open>The world holds the source: the calls that succeeded, and the record of the stage.\<close>

definition holds_source ::
  "world_call list \<Rightarrow> proc17_qa_root_identity \<Rightarrow> proc17_qa_root_identity \<Rightarrow> proc17_qa_source_stage \<Rightarrow> world_event list \<Rightarrow> bool" where
  "holds_source calls original detached stage u \<longleftrightarrow> world_changes u = calls \<and> same_mount_object detached original
     \<and> attested detached (st_attached stage) u
     \<and> st_original stage = original \<and> st_detached stage = detached \<and> st_mount_policy_flags stage = PROC17_QA_SOURCE_MOUNT_REQUIRED
     \<and> st_detached_attached stage \<and> st_host_tmp_hidden stage \<and> \<not> st_temporary_self_bind_live stage
     \<and> \<not> st_candidate_started stage \<and> st_detached_mount_fd stage = None"

definition stage_ready :: "proc17_qa_source_stage \<Rightarrow> nat \<Rightarrow> bool" where
  "stage_ready stage d \<longleftrightarrow> st_detached_mount_fd stage = Some d \<and> \<not> st_temporary_self_bind_live stage \<and> \<not> st_candidate_started stage
     \<and> same_mount_object (st_detached stage) (st_original stage)"

lemma build_world_emits:
  assumes "stage_ready stage d"
  shows "emits (build_world k d stage) (world_ends (\<lambda>_. False) [d] (holds_source (build_changes d) (st_original stage) (st_detached stage)))"
proof -
  let ?stage1 = "stage\<lparr>st_host_tmp_hidden := True\<rparr>"
  have st: "st_detached_mount_fd stage = Some d" "\<not> st_temporary_self_bind_live stage" using assms by (simp_all add: stage_ready_def)
  show ?thesis unfolding build_world_def Let_def w_call_def
  proof (rule emits_call_unless)
    show "emits (world_cleanup k [] None stage PROC17_QA_PROBE_MOUNT_TMPFS_FAILED) (\<lambda>r v. world_ends (\<lambda>_. False) [d]
        (holds_source (build_changes d) (st_original stage) (st_detached stage)) r (W_call (Mount a b c fl e) False # v))" for a b c fl e
      by (rule cleanup_ends) (simp_all add: st)
  next
    show "emits (do { made \<leftarrow> w_calls k
         [Make_directory world_root 0x1c0, Mount (Some world_root) world_root None [MS_BIND] None,
          Make_directory (world_root @ ascii ''/qa'') 0x16d, Make_directory world_source 0x16d,
          Make_directory world_scratch 0x1c0, Make_directory world_old_root 0x16d];
       if \<not> made then world_cleanup k [] None ?stage1 PROC17_QA_PROBE_MOUNT_ROOT_FAILED
       else attach_source k d ?stage1 }) (\<lambda>r v. world_ends (\<lambda>_. False) [d]
        (holds_source (build_changes d) (st_original stage) (st_detached stage)) r
        (W_call (Mount (Some (ascii ''tmpfs'')) (ascii ''/tmp'') (Some (ascii ''tmpfs'')) [MS_NOSUID, MS_NODEV]
          (Some (ascii ''size=83886080,nr_inodes=8192,mode=0700''))) True # v))"
    proof (rule emits_bind [OF w_calls_emits], simp, rule emits_if, goal_cases)
      case (1 made u)
      then show ?case by (intro cleanup_ends) (use gives_back_append [of "[]" u "[d]"] st in auto)
    next
      case (2 made u)
      then show ?case using assms
        by (intro ends_mono [OF attach_source_emits [of ?stage1 d k]])
          (use gives_back_append [of "[]" u "[d]"] st in
            \<open>auto simp: holds_source_def build_changes_def attached_stage_def stage_ready_def intro!: attested_Cons attested_append\<close>)
    qed
  qed
qed

lemma harden_source_emits:
  assumes "stage_ready stage d"
  shows "emits (harden_source k d stage) (world_ends (\<lambda>_. False) [d]
    (holds_source (Set_attributes d hardened # build_changes d) (st_original stage) (st_detached stage)))"
proof -
  have st: "st_detached_mount_fd stage = Some d" "\<not> st_temporary_self_bind_live stage" using assms by (simp_all add: stage_ready_def)
  have build: "emits (build_world k d (stage\<lparr>st_mount_policy_flags := fl\<rparr>)) (\<lambda>r v. world_ends (\<lambda>_. False) [d]
    (holds_source (Set_attributes d hardened # build_changes d) (st_original stage) (st_detached stage)) r
      (W_call (Set_attributes d hardened) True # W_flags d f # v))" for fl f
    by (rule ends_mono [OF build_world_emits])
      (use assms in \<open>auto simp: stage_ready_def holds_source_def intro!: attested_Cons\<close>)
  show ?thesis unfolding harden_source_def w_call_def source_mount_flags_def w_flags_def Let_def
      State_Monad.bind_assoc State_Monad.bind_left_identity
    by (rule emits_call_unless, rule cleanup_ends)
      (auto simp: st intro!: emits_call_bind emits_option cleanup_ends build split: option.split)
qed

text \<open>The bind mount of the source on itself is still there only if its removal failed.\<close>

abbreviation kept_bind :: "bytes \<Rightarrow> world_event list \<Rightarrow> bool" where
  "kept_bind path u \<equiv> W_call (Umount path) False \<in> set u"

lemma clone_source_emits:
  assumes st: "st_detached_mount_fd stage = None" "\<not> st_candidate_started stage"
  shows "emits (clone_source k path stage) (world_ends (kept_bind path) [] (\<lambda>stage' u. \<exists>d detached.
    W_root d (Some detached) \<in> set u \<and> W_open_tree path (Some d) \<in> set u
    \<and> holds_source (Umount path # Set_attributes d hardened # build_changes d) (st_original stage) detached stage' u))"
    (is "emits _ (world_ends _ _ ?Q)")
proof -
  let ?stage2 = "\<lambda>d detached. stage\<lparr>st_detached_mount_fd := Some d, st_detached := detached\<rparr>"
  have harden: "emits (harden_source k d (?stage2 d detached\<lparr>st_temporary_self_bind_live := False\<rparr>))
      (\<lambda>r v. world_ends (kept_bind path) [] ?Q r
        (W_open_tree path (Some d) # W_root d (Some detached) # W_call (Umount path) True # v))"
    if "\<not> \<not> same_mount_object detached (st_original (?stage2 d detached))" for d detached
    by (rule ends_mono [OF harden_source_emits])
      (use that st in \<open>auto simp: stage_ready_def holds_source_def intro!: attested_Cons gives_back_open\<close>)
  show ?thesis unfolding clone_source_def w_open_tree_def w_root_def w_call_def Let_def
    by (intro emits_call_option emits_if emits_call_unless cleanup_ends harden) (auto simp: st intro!: gives_back_open)
qed

lemma observe_path_root_emits:
  "emits (observe_path_root k path) (\<lambda>i u. gives_back [] u \<and> world_changes u = []
     \<and> (\<forall>identity. i = Some identity \<longrightarrow> (\<exists>fd. W_open path (Some fd) \<in> set u \<and> W_root fd (Some identity) \<in> set u)))"
  unfolding observe_path_root_def w_open_def w_root_def w_call_def
  by (rule emits_call_option) (auto intro!: emits_call_bind gives_back_open)

definition world_built :: "bytes \<Rightarrow> nat \<Rightarrow> world_call list" where
  "world_built path d =
     [Mount None (ascii ''/'') None [MS_REC, MS_PRIVATE] None, Mount (Some path) path None [MS_BIND] None, Umount path,
      Set_attributes d hardened] @ build_changes d"

lemma bind_source_emits:
  assumes st: "st_detached_mount_fd stage = None" "\<not> st_candidate_started stage" "\<not> st_temporary_self_bind_live stage"
  shows "emits (bind_source k path stage) (world_ends (kept_bind path) [] (\<lambda>stage' u. \<exists>d detached.
    W_root d (Some detached) \<in> set u \<and> W_open_tree path (Some d) \<in> set u
    \<and> holds_source (world_built path d) (st_original stage) detached stage' u))"
    (is "emits _ (world_ends _ _ ?Q)")
proof -
  let ?pre = "\<lambda>u v. W_call (Mount None (ascii ''/'') None [MS_REC, MS_PRIVATE] None) True
    # W_call (Mount (Some path) path None [MS_BIND] None) True # (u @ v)"
  let ?stage1 = "stage\<lparr>st_temporary_self_bind_live := True\<rparr>"
  have failed: "emits (world_cleanup k path None ?stage1 PROC17_QA_PROBE_SOURCE_SELF_BIND_FAILED)
      (\<lambda>r v. world_ends (kept_bind path) [] ?Q r (?pre u v))" if "gives_back [] u" for u
    by (rule cleanup_ends) (use that gives_back_append [of "[]" u "[]"] st in auto)
  have cloned: "emits (clone_source k path ?stage1) (\<lambda>r v. world_ends (kept_bind path) [] ?Q r (?pre u v))"
    if u: "gives_back [] u" "world_changes u = []" for u
  proof (rule ends_mono [OF clone_source_emits])
    show "?Q stage' (?pre u v)" if "\<exists>d detached. W_root d (Some detached) \<in> set v \<and> W_open_tree path (Some d) \<in> set v
      \<and> holds_source (Umount path # Set_attributes d hardened # build_changes d) (st_original ?stage1) detached stage' v" for stage' v
      using that u(2) by (auto simp: holds_source_def world_built_def intro!: attested_Cons attested_append)
  qed (use u gives_back_append [of "[]" u "[]"] st in auto)
  show ?thesis unfolding bind_source_def w_call_def Let_def
  proof (rule emits_call_unless, goal_cases)
    case 1
    show ?case by (simp add: world_ends_ret st)
  next
    case 2
    show ?case
    proof (rule emits_call_unless, goal_cases)
      case 1
      show ?case by (simp add: world_ends_ret st)
    next
      case 2
      show ?case
        by (rule emits_bind [OF observe_path_root_emits], rule emits_option,
            rule failed, simp, rule emits_if, rule failed, simp, rule cloned) simp_all
    qed
  qed
qed

lemma mount_isolated_world_emits:
  "emits (mount_isolated_world k fd) (world_ends (\<lambda>u. \<exists>path. kept_bind path u) [] (\<lambda>stage u. \<exists>path d original detached.
     {W_root fd (Some original), W_open_tree path (Some d), W_root d (Some detached)} \<subseteq> set u
     \<and> holds_source (world_built path d) original detached stage u))"
  (is "emits _ (world_ends ?kept [] ?Q)")
proof -
  have bound: "emits (bind_source k path (fresh_stage fd\<lparr>st_original := original\<rparr>)) (\<lambda>r v. world_ends ?kept [] ?Q r
      (W_root fd (Some original) # W_readlink (descriptor_link fd) l # (u @ v)))"
    if u: "gives_back [] u" "world_changes u = []" for path original l u
  proof (rule ends_mono [OF bind_source_emits])
    show "?Q stage' (W_root fd (Some original) # W_readlink (descriptor_link fd) l # (u @ v))"
      if "\<exists>d detached. W_root d (Some detached) \<in> set v \<and> W_open_tree path (Some d) \<in> set v
        \<and> holds_source (world_built path d) (st_original (fresh_stage fd\<lparr>st_original := original\<rparr>)) detached stage' v" for stage' v
      using that u(2) by (auto simp: holds_source_def intro!: attested_Cons attested_append)
  qed (use u gives_back_append [of "[]" u "[]"] in \<open>auto simp: fresh_stage_def\<close>)
  have failed: "emits (ret (failure, s)) (\<lambda>r v. world_ends ?kept [] ?Q r (before v))"
    if "failure \<noteq> PROC17_QA_PROBE_OK" "\<not> st_temporary_self_bind_live s" "gives_back [] (before [])" for failure s before
    unfolding emits_ret using that by (rule world_ends_ret)
  have fresh: "\<not> st_temporary_self_bind_live (fresh_stage fd)" "\<not> st_temporary_self_bind_live (fresh_stage fd\<lparr>st_original := i\<rparr>)" for i
    by (simp_all add: fresh_stage_def)
  have located: "emits (do { locator \<leftarrow> observe_path_root k path;
         (case locator of
            None \<Rightarrow> ret (PROC17_QA_PROBE_SOURCE_LOCATOR_IDENTITY_FAILED, fresh_stage fd\<lparr>st_original := original\<rparr>)
          | Some identity \<Rightarrow>
              if \<not> same_mount_object identity original
              then ret (PROC17_QA_PROBE_SOURCE_LOCATOR_IDENTITY_FAILED, fresh_stage fd\<lparr>st_original := original\<rparr>)
              else bind_source k path (fresh_stage fd\<lparr>st_original := original\<rparr>)) })
      (\<lambda>r v. world_ends ?kept [] ?Q r (W_root fd (Some original) # W_readlink (descriptor_link fd) l # v))" for path original l
    by (rule emits_bind [OF observe_path_root_emits], rule emits_option, rule failed, simp, simp add: fresh, simp, rule emits_if,
        rule failed, simp, simp add: fresh, simp, rule bound) simp_all
  show ?thesis unfolding mount_isolated_world_def w_root_def w_readlink_def Let_def
  proof (rule emits_call_option, goal_cases)
    case 1
    show ?case by (rule failed) (simp_all add: fresh)
  next
    case (2 original)
    show ?case
    proof (rule emits_call_option, goal_cases)
      case 1
      show ?case by (rule failed) (simp_all add: fresh)
    next
      case (2 bytes)
      show ?case by (intro emits_if located failed) (simp_all add: fresh)
    qed
  qed
qed


subsection \<open>The stage record of a world\<close>

lemma encode_stage_slices:
  defines "p \<equiv> encode_stage (replicate 84 0)"
  shows "length (p stage) = 84" "slice 0 2 (p stage) = be16 1" "slice 2 2 (p stage) = [0, 0]"
    "slice 4 4 (p stage) = be32 (st_mount_policy_flags stage)"
    "slice 8 8 (p stage) = be64 (mi_device (st_original stage))" "slice 16 8 (p stage) = be64 (mi_inode (st_original stage))"
    "slice 24 8 (p stage) = be64 (mi_mount_id (st_original stage))" "slice 32 8 (p stage) = be64 (mi_device (st_detached stage))"
    "slice 40 8 (p stage) = be64 (mi_inode (st_detached stage))" "slice 48 8 (p stage) = be64 (mi_mount_id (st_detached stage))"
    "slice 56 8 (p stage) = be64 (mi_device (st_attached stage))" "slice 64 8 (p stage) = be64 (mi_inode (st_attached stage))"
    "slice 72 8 (p stage) = be64 (mi_mount_id (st_attached stage))"
    "p stage ! 80 = (if st_temporary_self_bind_live stage then 0 else 1)"
    "p stage ! 81 = (if st_candidate_started stage then 1 else 0)" "slice 82 2 (p stage) = [0, 0]"
  unfolding p_def
  by (simp_all add: encode_stage_def Let_def proc17_qa_wire_put_u16_def proc17_qa_wire_put_u32_def proc17_qa_wire_put_u64_def
      buf_simps slice_eq_self numeral_2_eq_2)

text \<open>C11. The stage of a world is one the launcher accepts: after a successful mount of the directory that the launcher expects, the
  stage record that the controller encodes passes the launcher's check, identities, flags and the removed bind mount included,
  if the kernel numbers devices, inodes and mounts from one.\<close>

theorem world_stage_accepted:
  assumes run: "run_state (mount_isolated_world k fd) t = ((PROC17_QA_PROBE_OK, stage), t')"
    and nonzero: "mi_device (st_original stage) \<noteq> 0" "mi_inode (st_original stage) \<noteq> 0" "mi_mount_id (st_original stage) \<noteq> 0"
      "mi_mount_id (st_detached stage) \<noteq> 0"
    and expects: "ex_source_device e = mi_device (st_original stage)" "ex_source_inode e = mi_inode (st_original stage)"
      "ex_source_mount_id e = mi_mount_id (st_original stage)" "ex_source_mount_policy_flags e = PROC17_QA_SOURCE_MOUNT_REQUIRED"
  shows "stage_matches_source (encode_stage (replicate 84 0) (stage\<lparr>st_candidate_started := True\<rparr>)) e"
proof -
  let ?stage = "stage\<lparr>st_candidate_started := True\<rparr>"
  let ?p = "encode_stage (replicate 84 0) ?stage"
  from emits_run [OF mount_isolated_world_emits run] obtain path d original detached u where
    w: "holds_source (world_built path d) original detached stage u" by (auto simp: world_ends_def)
  then have same: "mi_device (st_attached stage) = mi_device (st_original stage)" "mi_inode (st_attached stage) = mi_inode (st_original stage)"
    "mi_mount_id (st_attached stage) = mi_mount_id (st_detached stage)" "mi_device (st_detached stage) = mi_device (st_original stage)"
    "mi_inode (st_detached stage) = mi_inode (st_original stage)"
    by (auto simp: holds_source_def attested_def same_mount_identity_def same_mount_object_def)
  note sl = encode_stage_slices [of ?stage]
  have z: "?p ! 2 = 0" "?p ! 3 = 0" "?p ! 82 = 0" "?p ! 83 = 0"
    using slice_replicate_nth [of 2 2 ?p 0 0] slice_replicate_nth [of 2 2 ?p 0 1] slice_replicate_nth [of 82 2 ?p 0 0]
      slice_replicate_nth [of 82 2 ?p 0 1] sl(1,3,16) by (simp_all add: numeral_2_eq_2 numeral_3_eq_3)
  have v: "proc17_qa_wire_get_u16 ?p = 1" using get_u16_slice [of 0 ?p] sl(1,2) by (simp add: codec_simps)
  show ?thesis unfolding stage_matches_source_def proc17_qa_wire_v1_source_stage_valid_def
    using sl z v same nonzero expects w
    by (simp add: codec_simps proc17_qa_wire_boolean_def holds_source_def)
qed

subsection \<open>A run\<close>

definition sample_world :: world_kernel where
  "sample_world = \<lparr>wk_call = \<lambda>t c. True,
     wk_root = \<lambda>t fd. (Sys_ok (0x41ed, 1, 2), Sys_ok (STATX_MNT_ID, if fd = 3 then 7 else 9)),
     wk_readlink = \<lambda>t path. Some (ascii ''/work''), wk_open = \<lambda>t path. Some 20, wk_open_tree = \<lambda>t path. Some 21,
     wk_flags = \<lambda>t fd. Some 15, wk_create = \<lambda>t fd name. Sys_err EROFS\<rparr>"

lemma sample_world_facts:
  "c_string (ascii ''/work'' @ [0]) = ascii ''/work''" "\<not> contains (ascii ''/work'') (ascii '' (deleted)'')"
  "source_flag_bits 15 = 15" "ascii ''/work'' ! 0 = 47" "\<not> length (ascii ''/work'') \<ge> PATH_MAX" "ascii ''/work'' \<noteq> []"
  by (code_simp | simp add: PATH_MAX_def)+

lemma sample_world_run:
  "fst (run_state (mount_isolated_world sample_world 3) []) = (PROC17_QA_PROBE_OK,
     \<lparr>st_source_fd = Some 3, st_detached_mount_fd = None, st_temporary_self_bind_live = False, st_detached_attached = True,
      st_host_tmp_hidden = True, st_candidate_started = False, st_original = \<lparr>mi_device = 1, mi_inode = 2, mi_mount_id = 7\<rparr>,
      st_detached = \<lparr>mi_device = 1, mi_inode = 2, mi_mount_id = 9\<rparr>, st_attached = \<lparr>mi_device = 1, mi_inode = 2, mi_mount_id = 9\<rparr>,
      st_mount_policy_flags = 15\<rparr>)"
proof -
  have root: "observe_root (Sys_ok (0x41ed, 1, 2)) (Sys_ok (STATX_MNT_ID, m)) = Some \<lparr>mi_device = 1, mi_inode = 2, mi_mount_id = m\<rparr>" for m
    by (simp add: observe_root_def S_ISDIR_def)
  have opened: "run_state (w_root sample_world fd) t = (Some \<lparr>mi_device = 1, mi_inode = 2, mi_mount_id = if fd = 3 then 7 else 9\<rparr>, t')"
    if "t' = t @ [W_root fd (Some \<lparr>mi_device = 1, mi_inode = 2, mi_mount_id = if fd = 3 then 7 else 9\<rparr>)]" for fd t t'
    using that root by (simp add: w_root_def call_def sample_world_def)
  have calls: "run_state (w_call sample_world c) t = (True, t @ [W_call c True])"
    "run_state (w_open sample_world p) t = (Some 20, t @ [W_open p (Some 20)])"
    "run_state (w_open_tree sample_world p) t = (Some 21, t @ [W_open_tree p (Some 21)])"
    "run_state (w_readlink sample_world p) t = (Some (ascii ''/work''), t @ [W_readlink p (Some (ascii ''/work''))])"
    "run_state (w_flags sample_world fd) t = (Some 15, t @ [W_flags fd (Some 15)])"
    "run_state (w_create sample_world fd n) t = (Sys_err EROFS, t @ [W_create fd n (Sys_err EROFS)])" for c p fd n t
    by (simp_all add: w_defs call_def sample_world_def)
  show ?thesis
    by (simp add: mount_isolated_world_def bind_source_def clone_source_def harden_source_def build_world_def attach_source_def
        attest_source_def enter_world_def observe_path_root_def source_mount_flags_def fresh_stage_def opened calls Let_def
        sample_world_facts same_mount_object_def same_mount_identity_def zero_root_def del: ascii_simps)
qed


theorem world_stage_accepted_witness:
  "\<exists>stage u. run_state (mount_isolated_world sample_world 3) [] = ((PROC17_QA_PROBE_OK, stage), u)
     \<and> stage_matches_source (encode_stage (replicate 84 0) (stage\<lparr>st_candidate_started := True\<rparr>))
         (run_expectation (native_run (replicate 32 1) (replicate 32 2) (replicate 32 4)) sample_source)"
proof -
  obtain stage u where r: "run_state (mount_isolated_world sample_world 3) [] = ((PROC17_QA_PROBE_OK, stage), u)"
    and i: "st_original stage = sample_source" "st_detached stage = \<lparr>mi_device = 1, mi_inode = 2, mi_mount_id = 9\<rparr>"
    using sample_world_run unfolding sample_source_def by (cases "run_state (mount_isolated_world sample_world 3) []") auto
  from world_stage_accepted [OF r, of "run_expectation (native_run (replicate 32 1) (replicate 32 2) (replicate 32 4)) sample_source"] r i
  show ?thesis by (auto simp: run_expectation_def sample_source_def)
qed

end
