(* ===== verification/Qa_Candidate.thy ===== *)
theory Qa_Candidate
  imports Qa_World Qa_Status Qa_Allocator Qa_Controller
begin

text \<open>
  The candidate process before and around the candidate's code (\<open>native/proc17_qa_supervisor.c\<close>): descriptors, environment,
  resource limits, capabilities, the seccomp filter, the STARTED frame, the READY and RELEASE handshake, the
  restricted Lua state and the exit status (\<open>run_candidate_v1\<close> and what it calls).  The calls go to the trace; what the
  kernel answers after a trace, and how the Lua interpreter ends, are arguments.
\<close>

subsection \<open>Preparation\<close>

datatype rlimit_resource = RLIMIT_CPU | RLIMIT_AS | RLIMIT_NOFILE | RLIMIT_FSIZE | RLIMIT_NPROC | RLIMIT_STACK | RLIMIT_CORE

datatype candidate_call =
    Close_end nat
  | Close_if_open nat
  | Duplicate_onto nat nat
  | Unbuffer nat
  | Clear_environment
  | Set_environment bytes bytes
  | Enter_directory bytes
  | Ignore_sigpipe
  | Set_limit rlimit_resource u64 u64
  | Drop_capability nat
  | Clear_capability_sets
  | Clear_ambient
  | Set_no_new_privileges
  | Install_filter "sock_filter list"

text \<open>The answers the code distinguishes: \<open>ensure_descriptor_closed\<close> tolerates \<open>EBADF\<close>, \<open>drop_capabilities\<close> tolerates \<open>EINVAL\<close> of a
  capability the kernel does not know.\<close>

datatype call_reply = Reply_ok | Reply_EBADF | Reply_EINVAL | Reply_error

fun call_accepted :: "candidate_call \<Rightarrow> call_reply \<Rightarrow> bool" where
  "call_accepted (Close_if_open fd) reply = (reply = Reply_ok \<or> reply = Reply_EBADF)"
| "call_accepted (Drop_capability c) reply = (reply = Reply_ok \<or> reply = Reply_EINVAL)"
| "call_accepted c reply = (reply = Reply_ok)"

definition set_limit :: "rlimit_resource \<Rightarrow> u64 \<Rightarrow> candidate_call" where
  "set_limit resource limit_value = Set_limit resource limit_value limit_value"

text \<open>A function of the code that is a chain of calls joined by \<open>&&\<close> or \<open>||\<close> is the list of these calls.\<close>

definition common_limits :: "candidate_call list" where
  "common_limits = [set_limit RLIMIT_AS PROC17_QA_ADDRESS_SPACE_BYTES, set_limit RLIMIT_NOFILE PROC17_QA_MAX_OPEN_FILES,
     set_limit RLIMIT_FSIZE PROC17_QA_MAX_FILE_BYTES, set_limit RLIMIT_NPROC PROC17_QA_MAX_PROCESSES,
     set_limit RLIMIT_STACK PROC17_QA_STACK_BYTES, set_limit RLIMIT_CORE 0]"

definition apply_candidate_limits :: "candidate_call list" where
  "apply_candidate_limits = set_limit RLIMIT_CPU (PROC17_QA_CPU_TIME_MS div 1000) # common_limits"

text \<open>The soft and hard CPU limits are those of \<open>proc17_qa_candidate_apply_cpu_limit\<close>.\<close>

definition apply_candidate_limits_v1 :: "candidate_call list" where
  "apply_candidate_limits_v1 =
     (case snd (proc17_qa_candidate_apply_cpu_limit PROC17_QA_CPU_TIME_MS 0) of
        None \<Rightarrow> []
      | Some (soft, hard) \<Rightarrow> [Set_limit RLIMIT_CPU soft hard]) @ common_limits"

text \<open>The last capability of the kernel's header.\<close>

definition CAP_LAST_CAP :: nat where "CAP_LAST_CAP = 40"

definition drop_capabilities :: "candidate_call list" where
  "drop_capabilities = map Drop_capability [0..<Suc CAP_LAST_CAP] @ [Clear_capability_sets, Clear_ambient, Set_no_new_privileges]"

definition candidate_environment :: "candidate_call list" where
  "candidate_environment = [Clear_environment, Set_environment (ascii ''HOME'') (ascii ''/qa/scratch/home''),
     Set_environment (ascii ''TMPDIR'') (ascii ''/qa/scratch/tmp''), Set_environment (ascii ''LANG'') (ascii ''C''),
     Set_environment (ascii ''LC_ALL'') (ascii ''C''), Set_environment (ascii ''TZ'') (ascii ''UTC''),
     Enter_directory (ascii ''/qa/source'')]"

definition prepare_candidate_v1 :: "candidate_call list" where
  "prepare_candidate_v1 = candidate_environment @ [Ignore_sigpipe] @ apply_candidate_limits_v1 @ drop_capabilities
     @ [Install_filter install_candidate_seccomp]"

subsection \<open>The restricted Lua state\<close>

text \<open>The libraries that are opened, and the fields of the global tables that are changed before a chunk of the candidate is
  loaded: \<open>None\<close> is nil.  The entries 3 and 4 of \<open>package.searchers\<close> are the loaders of C modules.\<close>

definition restricted_libraries :: "string list" where
  "restricted_libraries = [''_G'', ''package'', ''coroutine'', ''table'', ''io'', ''os'', ''string'', ''math'', ''utf8'']"

type_synonym lua_environment = "string \<times> string \<Rightarrow> bytes option"

definition remove_field :: "string \<Rightarrow> string \<Rightarrow> (string \<times> string) \<times> bytes option" where
  "remove_field tab field = ((tab, field), None)"

definition restricted_fields :: "((string \<times> string) \<times> bytes option) list" where
  "restricted_fields =
     [remove_field ''_G'' ''debug'', remove_field ''io'' ''popen'', remove_field ''io'' ''tmpfile'', remove_field ''os'' ''execute'',
      remove_field ''os'' ''tmpname'', ((''package'', ''path''), Some (ascii ''./?.lua;./?/init.lua'')),
      ((''package'', ''cpath''), Some []), remove_field ''package'' ''loadlib'', remove_field ''package.searchers'' ''3'',
      remove_field ''package.searchers'' ''4'']"

definition restrict_environment :: "lua_environment \<Rightarrow> lua_environment" where
  "restrict_environment env = fold (\<lambda>(key, entry) e. e(key := entry)) restricted_fields env"

definition PROC17_QA_CANDIDATE_LUA_ERROR_EXIT :: int where [simp]: "PROC17_QA_CANDIDATE_LUA_ERROR_EXIT = 70"
definition PROC17_QA_PROBE_LUA_STATE_FAILED :: int where [simp]: "PROC17_QA_PROBE_LUA_STATE_FAILED = 20"
definition PROC17_QA_PROBE_LUA_LOAD_FAILED :: int where [simp]: "PROC17_QA_PROBE_LUA_LOAD_FAILED = 21"
definition PROC17_QA_PROBE_LUA_RUNTIME_FAILED :: int where [simp]: "PROC17_QA_PROBE_LUA_RUNTIME_FAILED = 22"
definition PROC17_QA_PROBE_LUA_ASSERT_BASE :: int where [simp]: "PROC17_QA_PROBE_LUA_ASSERT_BASE = 22"

text \<open>How the interpreter ended: no state, a chunk that does not load, an error with its message (\<open>None\<close> if it is not a
  string), or a normal return.\<close>

datatype lua_end = Lua_no_state | Lua_not_loaded | Lua_error "bytes option" | Lua_returned

definition assertion_marker :: "nat \<Rightarrow> bytes" where
  "assertion_marker n = [80, of_nat (48 + n div 10), of_nat (48 + n mod 10)]"

text \<open>An interpreter: how it ends for a chunk in a state with the opened libraries, the changed fields and the argument table.\<close>

type_synonym lua_interpreter = "string list \<Rightarrow> ((string \<times> string) \<times> bytes option) list \<Rightarrow> bytes \<Rightarrow> lua_end"

definition chunk_arguments :: "bytes \<Rightarrow> ((string \<times> string) \<times> bytes option) list" where
  "chunk_arguments entrypoint = [((''arg'', ''0''), Some entrypoint)]"

definition run_restricted_lua_with_allocator ::
  "bytes \<Rightarrow> bool \<Rightarrow> proc17_qa_allocator_state ptr \<Rightarrow> lua_interpreter \<Rightarrow> int" where
  "run_restricted_lua_with_allocator entrypoint probe_mode allocator lua =
     (if allocator = NULL then PROC17_QA_PROBE_LUA_STATE_FAILED
      else
        (case lua restricted_libraries (restricted_fields @ chunk_arguments entrypoint) entrypoint of
           Lua_no_state \<Rightarrow> PROC17_QA_PROBE_LUA_STATE_FAILED
         | Lua_not_loaded \<Rightarrow> if probe_mode then PROC17_QA_PROBE_LUA_LOAD_FAILED else PROC17_QA_CANDIDATE_LUA_ERROR_EXIT
         | Lua_error message \<Rightarrow>
             if \<not> probe_mode then PROC17_QA_CANDIDATE_LUA_ERROR_EXIT
             else
               (case (message, List.find (\<lambda>n. contains (case message of None \<Rightarrow> [] | Some m \<Rightarrow> m) (assertion_marker n)) [1..<16]) of
                  (Some m, Some n) \<Rightarrow> PROC17_QA_PROBE_LUA_ASSERT_BASE + int n
                | _ \<Rightarrow> PROC17_QA_PROBE_LUA_RUNTIME_FAILED)
         | Lua_returned \<Rightarrow> 0))"

subsection \<open>The trace of the candidate\<close>

datatype candidate_event =
    C_call candidate_call call_reply
  | C_started emit_outcome
  | C_sent u16 "(int \<times> bytes option) option"
  | C_received "(proc17_qa_status_receive_result \<times> proc17_qa_status_message option) option"
  | C_nonblocking int
  | C_lua bytes int

type_synonym 'a cio = "(candidate_event list, 'a) state"

text \<open>What is answered after a trace: single calls; the write and the close of the STARTED frame; the flags, and the
  replies of the write or read, of the status channel; and how the interpreter ends.  The first component
  of \<open>ck_started\<close> and \<open>ck_send\<close> is the content of the uninitialised buffer.\<close>

record candidate_kernel =
  ck_call :: "candidate_event list \<Rightarrow> candidate_call \<Rightarrow> call_reply"
  ck_started :: "candidate_event list \<Rightarrow> bytes \<times> int \<times> int"
  ck_send :: "candidate_event list \<Rightarrow> bytes \<times> int \<times> nat sys list"
  ck_receive :: "candidate_event list \<Rightarrow> int \<times> bytes sys list"
  ck_nonblocking :: "candidate_event list \<Rightarrow> int \<times> int"
  ck_lua :: "candidate_event list \<Rightarrow> lua_interpreter"

fun c_calls :: "candidate_kernel \<Rightarrow> candidate_call list \<Rightarrow> bool cio" where
  "c_calls k [] = ret True"
| "c_calls k (c # cs) = do {
     reply \<leftarrow> call (\<lambda>t. ck_call k t c) (C_call c);
     if call_accepted c reply then c_calls k cs else ret False
   }"

definition c_started ::
  "candidate_kernel \<Rightarrow> nat \<Rightarrow> proc17_qa_phase_identity \<Rightarrow> bytes \<Rightarrow> bytes \<Rightarrow> emit_outcome cio" where
  "c_started k fd identity token stage = call (\<lambda>t. case ck_started k t of (frame0, write_reply, close_reply) \<Rightarrow>
     proc17_qa_phase_emit_started_and_close proc17_qa_started_writer_init (Some (int fd)) (Some identity) (Some token)
       (Some stage) frame0 write_reply close_reply) C_started"

definition c_send ::
  "candidate_kernel \<Rightarrow> nat \<Rightarrow> proc17_qa_status_context \<Rightarrow> u16 \<Rightarrow> u64 \<Rightarrow> bool \<Rightarrow> (int \<times> bytes option) option cio" where
  "c_send k fd ctx kind sequence nonblocking = call (\<lambda>t. case ck_send k t of (packet0, getfl_reply, writes) \<Rightarrow>
     proc17_qa_status_send (int fd) (Some ctx) kind sequence nonblocking packet0 getfl_reply writes) (C_sent kind)"

definition c_receive ::
  "candidate_kernel \<Rightarrow> nat \<Rightarrow> proc17_qa_status_context
   \<Rightarrow> (proc17_qa_status_receive_result \<times> proc17_qa_status_message option) option cio" where
  "c_receive k fd ctx = call (\<lambda>t. case ck_receive k t of (getfl_reply, reads) \<Rightarrow>
     proc17_qa_status_receive (int fd) (Some ctx) False getfl_reply reads) C_received"

definition c_nonblocking :: "candidate_kernel \<Rightarrow> nat \<Rightarrow> int cio" where
  "c_nonblocking k fd = call (\<lambda>t. case ck_nonblocking k t of (getfl_reply, setfl_reply) \<Rightarrow>
     fst (proc17_qa_status_set_nonblocking (int fd) getfl_reply setfl_reply)) C_nonblocking"

definition c_lua :: "candidate_kernel \<Rightarrow> bytes \<Rightarrow> proc17_qa_allocator_state \<Rightarrow> int cio" where
  "c_lua k entrypoint allocator =
     call (\<lambda>t. run_restricted_lua_with_allocator entrypoint False (Some allocator) (ck_lua k t)) (C_lua entrypoint)"

subsection \<open>The candidate\<close>

record candidate_arguments =
  ca_entrypoint :: "bytes ptr"
  ca_public_result_descriptor :: nat
  ca_status_descriptor :: nat
  ca_controller_status_descriptor :: nat
  ca_stdout_read_descriptor :: nat
  ca_stdout_write_descriptor :: nat
  ca_stderr_read_descriptor :: nat
  ca_stderr_write_descriptor :: nat
  ca_report_descriptor :: nat
  ca_scratch_descriptor :: nat
  ca_identity :: "proc17_qa_phase_identity ptr"
  ca_process_token :: "bytes ptr"
  ca_source_stage :: "bytes ptr"
  ca_telemetry :: "proc17_qa_allocator_telemetry ptr"

definition candidate_setup :: "candidate_arguments \<Rightarrow> candidate_call list" where
  "candidate_setup a =
     [Close_end (ca_controller_status_descriptor a), Close_end (ca_stdout_read_descriptor a),
      Close_end (ca_stderr_read_descriptor a), Close_end (ca_report_descriptor a), Close_end (ca_scratch_descriptor a),
      Close_if_open 0, Duplicate_onto (ca_stdout_write_descriptor a) 1, Duplicate_onto (ca_stderr_write_descriptor a) 2,
      Close_end (ca_stdout_write_descriptor a), Close_end (ca_stderr_write_descriptor a), Unbuffer 1, Unbuffer 2]
     @ prepare_candidate_v1"

definition candidate_exit :: "int \<Rightarrow> call_reply \<Rightarrow> int" where
  "candidate_exit lua_status close_reply =
     (if close_reply \<noteq> Reply_ok then 123
      else if lua_status = 0 then 0
      else if lua_status = PROC17_QA_CANDIDATE_LUA_ERROR_EXIT then PROC17_QA_CANDIDATE_LUA_ERROR_EXIT else 124)"

text \<open>The last part: the Lua state with the accounting allocator, the end of the status channel, the exit status.\<close>

definition run_released ::
  "candidate_kernel \<Rightarrow> candidate_arguments \<Rightarrow> bytes \<Rightarrow> int option cio" where
  "run_released k a entrypoint =
     (case proc17_qa_allocator_state_init (ca_telemetry a) True of
        None \<Rightarrow> ret (Some 122)
      | Some allocator \<Rightarrow> do {
          lua_status \<leftarrow> c_lua k entrypoint allocator;
          reply \<leftarrow> call (\<lambda>t. ck_call k t (Close_end (ca_status_descriptor a))) (C_call (Close_end (ca_status_descriptor a)));
          ret (Some (candidate_exit lua_status reply))
        })"

text \<open>\<open>None\<close> is a candidate that waits for ever in an interrupted call.\<close>

definition run_candidate_v1 :: "candidate_kernel \<Rightarrow> candidate_arguments \<Rightarrow> int option cio" where
  "run_candidate_v1 k a =
     (case (ca_entrypoint a, ca_identity a, ca_process_token a, ca_source_stage a, ca_telemetry a) of
        (Some entrypoint, Some identity, Some token, Some stage, Some telemetry) \<Rightarrow> do {
          prepared \<leftarrow> c_calls k (candidate_setup a);
          if \<not> prepared then ret (Some 120)
          else do {
            let status = \<lparr>ctx_identity = identity, ctx_process_token = take PROC17_QA_WIRE_DIGEST_BYTES token\<rparr>;
            started \<leftarrow> c_started k (ca_public_result_descriptor a) identity token stage;
            if emit_result started \<noteq> 0 \<or> emit_descriptor started \<noteq> Some (- 1) then ret (Some 121)
            else do {
              sent \<leftarrow> c_send k (ca_status_descriptor a) status PROC17_QA_STATUS_READY 1 False;
              (case sent of
                 None \<Rightarrow> ret None
               | Some (send_result, _) \<Rightarrow>
                   if send_result \<noteq> 0 then ret (Some 121)
                   else do {
                     received \<leftarrow> c_receive k (ca_status_descriptor a) status;
                     (case received of
                        None \<Rightarrow> ret None
                      | Some (result, message) \<Rightarrow>
                          if result \<noteq> RECEIVE_MESSAGE
                             \<or> message \<noteq> Some \<lparr>msg_kind = PROC17_QA_STATUS_RELEASE, msg_sequence = 2\<rparr>
                          then ret (Some 121)
                          else do {
                            nonblocking \<leftarrow> c_nonblocking k (ca_status_descriptor a);
                            if nonblocking \<noteq> 0 then ret (Some 121) else run_released k a entrypoint
                          })
                   })
            }
          }
        }
      | _ \<Rightarrow> ret (Some 120))"

text \<open>The callback of the allocator.\<close>

definition notify_heap_denied ::
  "(int \<times> proc17_qa_status_context ptr) ptr \<Rightarrow> bytes \<Rightarrow> int \<Rightarrow> nat sys list \<Rightarrow> (int \<times> bytes option) option" where
  "notify_heap_denied notification packet0 getfl_reply writes =
     (case notification of
        None \<Rightarrow> Some (- 1, None)
      | Some (descriptor, status) \<Rightarrow>
          if status = NULL then Some (- 1, None)
          else proc17_qa_status_send descriptor status PROC17_QA_STATUS_HEAP_DENIED 3 True packet0 getfl_reply writes)"

subsection \<open>The candidate's code runs confined\<close>

abbreviation candidate_context :: "proc17_qa_phase_identity \<Rightarrow> bytes \<Rightarrow> proc17_qa_status_context" where
  "candidate_context identity token \<equiv> \<lparr>ctx_identity = identity, ctx_process_token = token\<rparr>"

text \<open>A run that reached the candidate's code, with everything that happened before and after it.\<close>

definition candidate_ran :: "candidate_arguments \<Rightarrow> int option \<Rightarrow> candidate_event list \<Rightarrow> bool" where
  "candidate_ran a r u \<longleftrightarrow> (\<exists>entrypoint identity token stage replies started lua_status closed.
     ca_entrypoint a = Some entrypoint \<and> ca_identity a = Some identity \<and> ca_process_token a = Some token
     \<and> ca_source_stage a = Some stage \<and> list_all2 call_accepted (candidate_setup a) replies
     \<and> emit_result started = 0 \<and> emit_closed started = [int (ca_public_result_descriptor a)]
     \<and> emit_written started = Some (wire_frame PROC17_QA_WIRE_RUN_STARTED_V1 (id_transaction identity)
         (started_payload identity token stage))
     \<and> u = map2 C_call (candidate_setup a) replies
         @ [C_started started,
            C_sent PROC17_QA_STATUS_READY (Some (0, Some (status_packet (candidate_context identity token) PROC17_QA_STATUS_READY 1))),
            C_received (Some (RECEIVE_MESSAGE, Some \<lparr>msg_kind = PROC17_QA_STATUS_RELEASE, msg_sequence = 2\<rparr>)),
            C_nonblocking 0, C_lua entrypoint lua_status, C_call (Close_end (ca_status_descriptor a)) closed]
     \<and> r = Some (candidate_exit lua_status closed))"

definition no_candidate_code :: "candidate_event list \<Rightarrow> bool" where
  "no_candidate_code u \<longleftrightarrow> (\<forall>entrypoint status. C_lua entrypoint status \<notin> set u)"

lemma no_candidate_code_simps [simp]:
  "no_candidate_code []" "no_candidate_code (u @ v) \<longleftrightarrow> no_candidate_code u \<and> no_candidate_code v"
  "no_candidate_code (C_call c reply # u) \<longleftrightarrow> no_candidate_code u" "no_candidate_code (C_started x # u) \<longleftrightarrow> no_candidate_code u"
  "no_candidate_code (C_sent kind y # u) \<longleftrightarrow> no_candidate_code u" "no_candidate_code (C_received z # u) \<longleftrightarrow> no_candidate_code u"
  "no_candidate_code (C_nonblocking n # u) \<longleftrightarrow> no_candidate_code u"
  by (auto simp: no_candidate_code_def)

lemma c_calls_emits:
  "emits (c_calls k cs) (\<lambda>ok u. no_candidate_code u
     \<and> (ok \<longrightarrow> (\<exists>replies. list_all2 call_accepted cs replies \<and> u = map2 C_call cs replies)))"
proof (induction cs)
  case (Cons c cs)
  show ?case unfolding c_calls.simps
  proof (rule emits_call_bind, rule emits_if)
    fix reply assume "call_accepted c reply"
    then show "emits (c_calls k cs) (\<lambda>ok u. no_candidate_code (C_call c reply # u)
        \<and> (ok \<longrightarrow> (\<exists>replies. list_all2 call_accepted (c # cs) replies \<and> C_call c reply # u = map2 C_call (c # cs) replies)))"
      by (intro emits_mono [OF Cons.IH]) (force simp: list_all2_Cons1)
  qed simp
qed simp

lemma started_success:
  assumes wf: "identity_wf i" "length token = 32" "length stage = 84" "length frame0 = 4096"
    and out: "out = proc17_qa_phase_emit_started_and_close proc17_qa_started_writer_init (Some (int fd)) (Some i) (Some token)
      (Some stage) frame0 write_reply close_reply" "emit_result out = 0"
  shows "emit_written out = Some (wire_frame PROC17_QA_WIRE_RUN_STARTED_V1 (id_transaction i) (started_payload i token stage))"
    "emit_closed out = [int fd]"
proof -
  have "proc17_qa_phase_identity_valid (Some i)" "proc17_qa_wire_digest_nonzero (Some token)"
    "proc17_qa_wire_v1_source_stage_valid (Some stage)"
    using out by (auto simp: proc17_qa_phase_emit_started_and_close_def emit_failed_def split: if_splits)
  from emit_started_outcome [OF wf this, of proc17_qa_started_writer_init "int fd" write_reply close_reply] out
  show "emit_written out = Some (wire_frame PROC17_QA_WIRE_RUN_STARTED_V1 (id_transaction i) (started_payload i token stage))"
    "emit_closed out = [int fd]"
    by (simp_all add: proc17_qa_started_writer_init_def)
qed

lemma sent_packet:
  assumes "context_wf ctx" "length packet0 = 184"
    "proc17_qa_status_send fd (Some ctx) kind sequence nonblocking packet0 getfl_reply writes = Some (0, packet)"
  shows "packet = Some (status_packet ctx kind sequence)"
  using assms(3) status_encode_eq [OF assms(1,2)]
  by (auto simp: proc17_qa_status_send_def split: if_splits option.splits sys.splits prod.splits)

lemma emits_answer:
  "(\<And>t. Q (answer t)) \<Longrightarrow> (\<And>a. Q a \<Longrightarrow> emits (f a) (\<lambda>b v. P b (event a # v))) \<Longrightarrow> emits (State_Monad.bind (call answer event) f) P"
  by (rule emits_bind [where R = "\<lambda>a u. u = [event a] \<and> Q a"]) (auto simp: emits_def call_def)

text \<open>The sizes of the buffers on the stack.\<close>

definition candidate_buffers :: "candidate_kernel \<Rightarrow> bool" where
  "candidate_buffers k \<longleftrightarrow> (\<forall>t. length (fst (ck_started k t)) = PROC17_QA_WIRE_MAX_FRAME_BYTES
     \<and> length (fst (ck_send k t)) = PROC17_QA_STATUS_PACKET_BYTES)"

definition candidate_stops :: "int option \<Rightarrow> bool" where
  "candidate_stops r \<longleftrightarrow> r = None \<or> r \<in> {Some 120, Some 121, Some 122}"

lemma c_started_bind:
  assumes wf: "identity_wf i" "length token = 32" "length stage = 84" "candidate_buffers k"
    and f: "\<And>started. (emit_result started = 0 \<Longrightarrow> emit_closed started = [int fd] \<and>
        emit_written started = Some (wire_frame PROC17_QA_WIRE_RUN_STARTED_V1 (id_transaction i) (started_payload i token stage)))
      \<Longrightarrow> emits (f started) (\<lambda>b v. P b (C_started started # v))"
  shows "emits (State_Monad.bind (c_started k fd i token stage) f) P"
  unfolding c_started_def
proof (rule emits_answer [where Q = "\<lambda>started. emit_result started = 0 \<longrightarrow> emit_closed started = [int fd] \<and>
    emit_written started = Some (wire_frame PROC17_QA_WIRE_RUN_STARTED_V1 (id_transaction i) (started_payload i token stage))"])
  fix t
  obtain frame0 w c where k: "ck_started k t = (frame0, w, c)" by (cases "ck_started k t")
  then have "length frame0 = 4096" using wf(4) by (simp add: candidate_buffers_def) (metis fst_conv)
  note started_success [OF wf(1-3) this refl, of fd w c]
  then show "emit_result (case ck_started k t of (frame0, write_reply, close_reply) \<Rightarrow>
      proc17_qa_phase_emit_started_and_close proc17_qa_started_writer_init (Some (int fd)) (Some i) (Some token) (Some stage)
        frame0 write_reply close_reply) = 0 \<longrightarrow> emit_closed (case ck_started k t of (frame0, write_reply, close_reply) \<Rightarrow>
      proc17_qa_phase_emit_started_and_close proc17_qa_started_writer_init (Some (int fd)) (Some i) (Some token) (Some stage)
        frame0 write_reply close_reply) = [int fd] \<and> emit_written (case ck_started k t of (frame0, write_reply, close_reply) \<Rightarrow>
      proc17_qa_phase_emit_started_and_close proc17_qa_started_writer_init (Some (int fd)) (Some i) (Some token) (Some stage)
        frame0 write_reply close_reply) = Some (wire_frame PROC17_QA_WIRE_RUN_STARTED_V1 (id_transaction i) (started_payload i token stage))"
    by (simp add: k)
qed (use f in blast)

lemma c_send_bind:
  assumes wf: "context_wf ctx" "candidate_buffers k"
    and f: "\<And>sent. (\<And>p. sent = Some (0, p) \<Longrightarrow> p = Some (status_packet ctx kind sequence))
      \<Longrightarrow> emits (f sent) (\<lambda>b v. P b (C_sent kind sent # v))"
  shows "emits (State_Monad.bind (c_send k fd ctx kind sequence nonblocking) f) P"
  unfolding c_send_def
proof (rule emits_answer [where Q = "\<lambda>sent. \<forall>p. sent = Some (0, p) \<longrightarrow> p = Some (status_packet ctx kind sequence)"])
  fix t
  obtain packet0 g w where k: "ck_send k t = (packet0, g, w)" by (cases "ck_send k t")
  then have "length packet0 = 184" using wf(2) by (simp add: candidate_buffers_def) (metis fst_conv)
  note sent_packet [OF wf(1) this]
  then show "\<forall>p. (case ck_send k t of (packet0, getfl_reply, writes) \<Rightarrow>
      proc17_qa_status_send (int fd) (Some ctx) kind sequence nonblocking packet0 getfl_reply writes) = Some (0, p)
      \<longrightarrow> p = Some (status_packet ctx kind sequence)" by (simp add: k)
qed (use f in blast)

lemma run_released_emits:
  "emits (run_released k a entrypoint) (\<lambda>r u. u = [] \<and> r = Some 122
     \<or> (\<exists>lua_status closed. u = [C_lua entrypoint lua_status, C_call (Close_end (ca_status_descriptor a)) closed]
          \<and> r = Some (candidate_exit lua_status closed)))"
  unfolding run_released_def c_lua_def by (rule emits_option) (auto intro!: emits_call_bind)

lemma run_candidate_emits:
  assumes wf: "identity_wf identity" "length token = 32" "length stage = 84" "candidate_buffers k"
    and a: "ca_entrypoint a = Some entrypoint" "ca_identity a = Some identity" "ca_process_token a = Some token"
      "ca_source_stage a = Some stage" "ca_telemetry a = Some telemetry"
  shows "emits (run_candidate_v1 k a) (\<lambda>r u. candidate_ran a r u \<or> no_candidate_code u \<and> candidate_stops r)"
    (is "emits _ ?P")
proof -
  let ?ctx = "candidate_context identity token" and ?fd = "ca_status_descriptor a"
  have tk: "take PROC17_QA_WIRE_DIGEST_BYTES token = token" using wf(2) by simp
  have released: "emits (run_released k a entrypoint) (\<lambda>r v. ?P r (map2 C_call (candidate_setup a) replies @ C_started started #
      C_sent PROC17_QA_STATUS_READY (Some (0, Some (status_packet ?ctx PROC17_QA_STATUS_READY 1))) #
      C_received (Some (RECEIVE_MESSAGE, Some \<lparr>msg_kind = PROC17_QA_STATUS_RELEASE, msg_sequence = 2\<rparr>)) # C_nonblocking 0 # v))"
    if "list_all2 call_accepted (candidate_setup a) replies" "emit_result started = 0"
      "emit_written started = Some (wire_frame PROC17_QA_WIRE_RUN_STARTED_V1 (id_transaction identity) (started_payload identity token stage))"
      "emit_closed started = [int (ca_public_result_descriptor a)]" "no_candidate_code (map2 C_call (candidate_setup a) replies)"
    for replies started
  proof (rule emits_mono [OF run_released_emits], elim disjE exE conjE)
    fix r v lua_status closed
    assume v: "v = [C_lua entrypoint lua_status, C_call (Close_end (ca_status_descriptor a)) closed]"
      "r = Some (candidate_exit lua_status closed)"
    have "candidate_ran a r (map2 C_call (candidate_setup a) replies @ C_started started #
      C_sent PROC17_QA_STATUS_READY (Some (0, Some (status_packet ?ctx PROC17_QA_STATUS_READY 1))) #
      C_received (Some (RECEIVE_MESSAGE, Some \<lparr>msg_kind = PROC17_QA_STATUS_RELEASE, msg_sequence = 2\<rparr>)) # C_nonblocking 0 # v)"
      unfolding candidate_ran_def
      by (rule exI [of _ entrypoint], rule exI [of _ identity], rule exI [of _ token], rule exI [of _ stage], rule exI [of _ replies],
          rule exI [of _ started], rule exI [of _ lua_status], rule exI [of _ closed]) (use a that v in simp)
    then show "?P r (map2 C_call (candidate_setup a) replies @ C_started started #
      C_sent PROC17_QA_STATUS_READY (Some (0, Some (status_packet ?ctx PROC17_QA_STATUS_READY 1))) #
      C_received (Some (RECEIVE_MESSAGE, Some \<lparr>msg_kind = PROC17_QA_STATUS_RELEASE, msg_sequence = 2\<rparr>)) # C_nonblocking 0 # v)" ..
  qed (use that in \<open>auto simp: candidate_stops_def\<close>)
  show ?thesis unfolding run_candidate_v1_def a prod.case option.case tk Let_def
  proof (rule emits_bind [OF c_calls_emits], rule emits_if, goal_cases)
    case (1 prepared u)
    then show ?case by (simp add: candidate_stops_def)
  next
    case (2 prepared u)
    then obtain replies where u: "list_all2 call_accepted (candidate_setup a) replies" "u = map2 C_call (candidate_setup a) replies"
      "no_candidate_code u" by auto
    show ?case
    proof (rule c_started_bind [OF wf], rule emits_if, goal_cases)
      case 1
      show ?case using u by (simp add: candidate_stops_def)
    next
      case started: (2 started)
      have cw: "context_wf ?ctx" using wf by (simp add: context_wf_def)
      show ?case
      proof (rule c_send_bind [OF cw wf(4)], rule emits_option, goal_cases)
        case 1
        show ?case using u by (simp add: candidate_stops_def)
      next
        case sent: (2 sent y)
        obtain result p where y: "y = (result, p)" by (cases y)
        show ?case unfolding y prod.case c_receive_def c_nonblocking_def
        proof (rule emits_if, goal_cases)
          case 1
          show ?case using u by (simp add: candidate_stops_def)
        next
          case 2
          then have p: "sent = Some (0, Some (status_packet ?ctx PROC17_QA_STATUS_READY 1))" using sent y by simp
          show ?case unfolding p
            by (rule emits_call_option, use u in \<open>simp add: candidate_stops_def\<close>)
              (use u started released in \<open>auto simp: candidate_stops_def split: prod.split intro!: emits_call_bind\<close>)
        qed
      qed
    qed
  qed
qed

text \<open>C10. The candidate's code runs confined: however the kernel answers, the Lua code of the candidate is entered only after every
  call of the preparation succeeded (descriptors, environment, working directory, resource limits, capabilities, and
  the seccomp filter as the last), the STARTED frame of this run was written in full and the result descriptor closed,
  the READY packet of this run was sent and its RELEASE received, in this order; it is entered at most once, and otherwise the
  process ends with status 120, 121 or 122, or still waits.\<close>

theorem candidate_runs_confined:
  assumes wf: "identity_wf identity" "length token = 32" "length stage = 84" "candidate_buffers k"
    and a: "ca_identity a = Some identity" "ca_process_token a = Some token" "ca_source_stage a = Some stage"
    and run: "run_state (run_candidate_v1 k a) t = (r, t')"
  shows "\<exists>u. t' = t @ u \<and> (candidate_ran a r u \<or> no_candidate_code u \<and> candidate_stops r)
    \<and> last (candidate_setup a) = Install_filter install_candidate_seccomp"
proof -
  have f: "last (candidate_setup a) = Install_filter install_candidate_seccomp"
    by (simp add: candidate_setup_def prepare_candidate_v1_def)
  show ?thesis
  proof (cases "ca_entrypoint a = None \<or> ca_telemetry a = None")
    case True
    then have "run_candidate_v1 k a = ret (Some 120)" by (auto simp: run_candidate_v1_def a split: option.split)
    with run f show ?thesis by (simp add: candidate_stops_def)
  next
    case False
    then obtain entrypoint telemetry where "ca_entrypoint a = Some entrypoint" "ca_telemetry a = Some telemetry" by auto
    from emits_run [OF run_candidate_emits [OF wf this(1) a this(2)] run] f show ?thesis by blast
  qed
qed

subsection \<open>A run of a candidate\<close>

definition sample_candidate :: candidate_arguments where
  "sample_candidate = \<lparr>ca_entrypoint = Some (ascii ''tests/run.lua''), ca_public_result_descriptor = 5, ca_status_descriptor = 8,
     ca_controller_status_descriptor = 7, ca_stdout_read_descriptor = 9, ca_stdout_write_descriptor = 10,
     ca_stderr_read_descriptor = 11, ca_stderr_write_descriptor = 12, ca_report_descriptor = 13, ca_scratch_descriptor = 14,
     ca_identity = Some sample_identity, ca_process_token = Some (replicate 32 9), ca_source_stage = Some sample_stage,
     ca_telemetry = proc17_qa_allocator_telemetry_init PROC17_QA_RUNTIME_HEAP_BYTES\<rparr>"

definition sample_candidate_kernel :: candidate_kernel where
  "sample_candidate_kernel = \<lparr>ck_call = \<lambda>t c. Reply_ok, ck_started = \<lambda>t. (replicate 4096 0, 332, 0),
     ck_send = \<lambda>t. (replicate 184 0, 0, [Sys_ok 184]), ck_receive = \<lambda>t. (0, [Sys_ok (status_packet sample_context 2 2)]),
     ck_nonblocking = \<lambda>t. (0, 0), ck_lua = \<lambda>t libraries changes entrypoint. Lua_returned\<rparr>"

lemma sample_calls: "run_state (c_calls sample_candidate_kernel cs) t = (True, t @ map (\<lambda>c. C_call c Reply_ok) cs)"
proof (induction cs arbitrary: t)
  case (Cons c cs)
  have "call_accepted c Reply_ok" by (cases c) simp_all
  with Cons show ?case by (simp add: call_def sample_candidate_kernel_def)
qed simp

lemma sample_candidate_facts:
  "proc17_qa_status_receive 8 (Some sample_context) False 0 [Sys_ok (status_packet sample_context 2 2)]
     = Some (RECEIVE_MESSAGE, Some \<lparr>msg_kind = 2, msg_sequence = 2\<rparr>)"
  "map_option fst (proc17_qa_status_send 8 (Some sample_context) 1 1 False (replicate 184 0) 0 [Sys_ok 184]) = Some 0"
  "proc17_qa_allocator_telemetry_init PROC17_QA_RUNTIME_HEAP_BYTES \<noteq> None"
  "proc17_qa_allocator_state_init (proc17_qa_allocator_telemetry_init PROC17_QA_RUNTIME_HEAP_BYTES) True \<noteq> None"
  by code_simp+

lemma sample_candidate_run:
  "fst (run_state (run_candidate_v1 sample_candidate_kernel sample_candidate) []) = Some 0"
proof -
  obtain telemetry allocator where al: "proc17_qa_allocator_telemetry_init PROC17_QA_RUNTIME_HEAP_BYTES = Some telemetry"
      "proc17_qa_allocator_state_init (Some telemetry) True = Some allocator"
    using sample_candidate_facts(3,4) by auto
  obtain p where send: "proc17_qa_status_send 8 (Some sample_context) 1 1 False (replicate 184 0) 0 [Sys_ok 184] = Some (0, p)"
    using sample_candidate_facts(2) by auto
  have tok: "proc17_qa_wire_digest_nonzero (Some (replicate 32 9))" by (simp add: codec_simps slice_replicate)
  let ?out = "proc17_qa_phase_emit_started_and_close proc17_qa_started_writer_init (Some 5) (Some sample_identity) (Some (replicate 32 9))
    (Some sample_stage) (replicate 4096 0) 332 0"
  have out: "emit_result ?out = 0" "emit_descriptor ?out = Some (- 1)"
    using emit_started_outcome [OF sample_identity_ok(1) _ sample_stage_ok(1) _ sample_identity_ok(2) tok sample_stage_ok(2),
        of "replicate 4096 0" proc17_qa_started_writer_init 5 332 0] by (simp_all add: proc17_qa_started_writer_init_def)
  have calls: "run_state (call (\<lambda>t. ck_call sample_candidate_kernel t c) (C_call c)) t = (Reply_ok, t @ [C_call c Reply_ok])" 
    "run_state (c_started sample_candidate_kernel 5 sample_identity (replicate 32 9) sample_stage) t = (?out, t @ [C_started ?out])"
    "run_state (c_send sample_candidate_kernel 8 sample_context 1 1 False) t = (Some (0, p), t @ [C_sent 1 (Some (0, p))])"
    "run_state (c_receive sample_candidate_kernel 8 sample_context) t = (Some (RECEIVE_MESSAGE, Some \<lparr>msg_kind = 2, msg_sequence = 2\<rparr>),
       t @ [C_received (Some (RECEIVE_MESSAGE, Some \<lparr>msg_kind = 2, msg_sequence = 2\<rparr>))])"
    "run_state (c_nonblocking sample_candidate_kernel 8) t = (0, t @ [C_nonblocking 0])"
    "run_state (c_lua sample_candidate_kernel e allocator) t = (0, t @ [C_lua e 0])" for c t e
    using send sample_candidate_facts(1)
    by (simp_all add: call_def c_started_def c_send_def c_receive_def c_nonblocking_def c_lua_def sample_candidate_kernel_def
        proc17_qa_status_set_nonblocking_def run_restricted_lua_with_allocator_def)
  have ctx: "candidate_context sample_identity (replicate 32 9) = sample_context" by (simp add: sample_context_def)
  show ?thesis
    by (simp add: run_candidate_v1_def run_released_def sample_candidate_def al [simplified] sample_calls calls out ctx Let_def
        candidate_exit_def del: c_calls.simps)
qed

theorem candidate_runs_confined_witness:
  "\<exists>u. run_state (run_candidate_v1 sample_candidate_kernel sample_candidate) [] = (Some 0, u) \<and> candidate_ran sample_candidate (Some 0) u"
proof -
  obtain u where r: "run_state (run_candidate_v1 sample_candidate_kernel sample_candidate) [] = (Some 0, u)"
    using sample_candidate_run by (metis prod.collapse)
  have "candidate_buffers sample_candidate_kernel" by (simp add: candidate_buffers_def sample_candidate_kernel_def)
  from candidate_runs_confined [OF sample_identity_ok(1) _ sample_stage_ok(1) this _ _ _ r, of "replicate 32 9"] r show ?thesis
    by (auto simp: sample_candidate_def candidate_stops_def)
qed

text \<open>The restricted environment: the listed fields have the listed values, and everything else is untouched.\<close>

lemma fold_updates:
  "distinct (map fst us) \<Longrightarrow> fold (\<lambda>(key, entry) e. e(key := entry)) us env key =
     (case map_of us key of None \<Rightarrow> env key | Some entry \<Rightarrow> entry)"
proof (induction us arbitrary: env)
  case (Cons u us)
  obtain k v where u: "u = (k, v)" by (cases u)
  have "map_of us k = None" using Cons.prems by (simp add: u map_of_eq_None_iff)
  with Cons show ?case by (simp add: u split: option.split)
qed simp

lemma restricted_environment_fields:
  "restrict_environment env key = (case map_of restricted_fields key of None \<Rightarrow> env key | Some entry \<Rightarrow> entry)"
  unfolding restrict_environment_def by (rule fold_updates) code_simp

end
