(* ===== verification/Repo_Create.thy ===== *)
theory Repo_Create
  imports Repo_Kernel
begin

text \<open>
  The create-only hand of the repository provider (\<open>native/proc17_repository_fs.c\<close>):
  \<open>create_file_transaction\<close> writes a private temporary file, publishes it under its final name with
  \<open>renameat2(RENAME_NOREPLACE)\<close> and makes the parent directory durable; \<open>create_text_file\<close> checks the
  request.  The labels of the C function are definitions here: \<open>fail_before_temp\<close>,
  \<open>fail_after_temp_attempt\<close>, \<open>fail_private\<close> and \<open>fail_published\<close>.
\<close>

definition PROC17_FILE_MODE :: u32 where "PROC17_FILE_MODE = 0x180"
definition PROC17_TEMP_PREFIX :: bytes where "PROC17_TEMP_PREFIX = ascii ''.proc17-tmp-''"
definition PROC17_RANDOM_BYTES :: nat where "PROC17_RANDOM_BYTES = 16"
definition PROC17_MAX_WRITE_EINTR_RETRIES :: nat where "PROC17_MAX_WRITE_EINTR_RETRIES = 64"

record proc17_create_result =
  cre_succeeded :: bool
  cre_class_name :: "string ptr"
  cre_code :: "string ptr"
  cre_stage :: "string ptr"
  cre_error_number :: "errno option"
  cre_mutation_primitive_entered :: bool
  cre_published :: bool
  cre_has_temp_residue :: bool
  cre_bytes :: nat
  cre_time_ms :: int
  cre_root_identity :: proc17_identity
  cre_temp_name :: bytes

definition zero_create_result :: proc17_create_result where
  "zero_create_result = \<lparr>cre_succeeded = False, cre_class_name = None, cre_code = None, cre_stage = None,
     cre_error_number = None, cre_mutation_primitive_entered = False, cre_published = False,
     cre_has_temp_residue = False, cre_bytes = 0, cre_time_ms = 0, cre_root_identity = zero_identity,
     cre_temp_name = []\<rparr>"

definition set_create_failure ::
  "kernel \<Rightarrow> proc17_create_result \<Rightarrow> string \<Rightarrow> string \<Rightarrow> string \<Rightarrow> errno option \<Rightarrow> bool \<Rightarrow> bool \<Rightarrow> u64
   \<Rightarrow> proc17_create_result io" where
  "set_create_failure k result class_name code stage error_number entered published started = do {
     time \<leftarrow> elapsed_milliseconds k started;
     ret (result\<lparr>cre_succeeded := False, cre_class_name := Some class_name, cre_code := Some code,
                 cre_stage := Some stage, cre_error_number := error_number,
                 cre_mutation_primitive_entered := entered, cre_published := published,
                 cre_time_ms := time\<rparr>)
   }"

text \<open>A failure: the code, the stage and the error number the labels report.\<close>

type_synonym failure = "string \<times> string \<times> errno"

definition temp_hex :: "byte \<Rightarrow> bytes" where
  "temp_hex b = [ascii ''0123456789abcdef'' ! unat (drop_bit 4 b), ascii ''0123456789abcdef'' ! unat (b AND 0x0f)]"

definition temp_name_of :: "bytes \<Rightarrow> bytes" where
  "temp_name_of random = PROC17_TEMP_PREFIX @ concat (map temp_hex random)"

text \<open>The parent must be a directory of the caller that nobody else can write.\<close>

definition parent_policy :: "kernel \<Rightarrow> nat \<Rightarrow> failure option io" where
  "parent_policy k parent_fd = do {
     r \<leftarrow> sys_fstat k parent_fd;
     ret (case r of
            Sys_err e \<Rightarrow> Some (''io_failure'', ''observe_parent_policy'', e)
          | Sys_ok status \<Rightarrow>
              if \<not> S_ISDIR (stat_mode status) \<or> stat_uid status \<noteq> k_geteuid k
                 \<or> stat_mode status AND 0x12 \<noteq> 0
              then Some (''parent_not_private'', ''observe_parent_policy'', EPERM)
              else None)
   }"

definition random_temp_name :: "kernel \<Rightarrow> (failure + bytes) io" where
  "random_temp_name k = do {
     r \<leftarrow> sys_getrandom k PROC17_RANDOM_BYTES;
     ret (case r of
            Sys_err e \<Rightarrow> Inl (random_error_code e, ''getrandom'', e)
          | Sys_ok random \<Rightarrow>
              if length random \<noteq> PROC17_RANDOM_BYTES
              then Inl (random_error_code EIO, ''getrandom'', EIO)
              else Inr (temp_name_of random))
   }"

text \<open>The temporary file must be the caller's own empty regular file with one link and the mode
  asked for.\<close>

definition temp_identity :: "kernel \<Rightarrow> nat \<Rightarrow> u32 \<Rightarrow> failure option io" where
  "temp_identity k temp_fd file_mode = do {
     r \<leftarrow> sys_fstat k temp_fd;
     ret (case r of
            Sys_err e \<Rightarrow> Some (''io_failure'', ''observe_temp_identity'', e)
          | Sys_ok status \<Rightarrow>
              if \<not> S_ISREG (stat_mode status) \<or> stat_uid status \<noteq> k_geteuid k \<or> stat_nlink status \<noteq> 1
                 \<or> stat_size status \<noteq> 0 \<or> stat_mode status AND 0x1ff \<noteq> file_mode
              then Some (''temp_identity_invalid'', ''observe_temp_identity'', EIO)
              else None)
   }"

function write_content :: "kernel \<Rightarrow> nat \<Rightarrow> bytes \<Rightarrow> nat \<Rightarrow> nat \<Rightarrow> failure option io" where
  "write_content k temp_fd content offset write_eintr_retries =
     (if offset < length content
      then do {
        r \<leftarrow> sys_write k temp_fd (drop offset content);
        (case r of
           Sys_err e \<Rightarrow>
             if e = EINTR
             then
               (if write_eintr_retries + 1 > PROC17_MAX_WRITE_EINTR_RETRIES
                then ret (Some (''io_failure'', ''write_temp'', EINTR))
                else write_content k temp_fd content offset (write_eintr_retries + 1))
             else ret (Some (mutation_error_code e, ''write_temp'', e))
         | Sys_ok written \<Rightarrow>
             if written = 0 \<or> written > length content - offset
             then ret (Some (''io_failure'', ''write_temp'', EIO))
             else write_content k temp_fd content (offset + written) write_eintr_retries)
      }
      else ret None)"
  by pat_completeness auto

termination
  by (relation "measure (\<lambda>(k, temp_fd, content, offset, retries).
        (length content - offset) + (PROC17_MAX_WRITE_EINTR_RETRIES - retries))") auto

declare write_content.simps [simp del]

text \<open>From the open temporary file to its closed, synchronised state: the failure and the descriptor
  that \<open>fail_private\<close> still has to close, or success.\<close>

definition fill_temp :: "kernel \<Rightarrow> nat \<Rightarrow> bytes \<Rightarrow> u32 \<Rightarrow> (failure \<times> nat option) option io" where
  "fill_temp k temp_fd content file_mode = do {
     m \<leftarrow> sys_fchmod k temp_fd file_mode;
     (case m of
        Sys_err e \<Rightarrow> ret (Some ((mutation_error_code e, ''set_temp_mode'', e), Some temp_fd))
      | Sys_ok _ \<Rightarrow> do {
          i \<leftarrow> temp_identity k temp_fd file_mode;
          (case i of
             Some failure \<Rightarrow> ret (Some (failure, Some temp_fd))
           | None \<Rightarrow> do {
               w \<leftarrow> write_content k temp_fd content 0 0;
               (case w of
                  Some failure \<Rightarrow> ret (Some (failure, Some temp_fd))
                | None \<Rightarrow> do {
                    s \<leftarrow> sys_fsync k temp_fd;
                    (case s of
                       Sys_err e \<Rightarrow> ret (Some ((mutation_error_code e, ''fsync_temp'', e), Some temp_fd))
                     | Sys_ok _ \<Rightarrow> do {
                         c \<leftarrow> sys_close k temp_fd;
                         (case c of
                            Sys_err e \<Rightarrow> ret (Some ((mutation_error_code e, ''close_temp'', e), None))
                          | Sys_ok _ \<Rightarrow> ret None)
                       })
                  })
             })
        })
   }"

text \<open>The transaction after the roots and the parent are open: what is needed to end it.\<close>

record create_context =
  cc_started :: u64
  cc_pair :: root_pair
  cc_parent_fd :: "nat option"
  cc_result :: proc17_create_result

definition close_create :: "kernel \<Rightarrow> create_context \<Rightarrow> unit io" where
  "close_create k c = do {
     close_once k (cc_parent_fd c);
     _ \<leftarrow> close_pair k (Some (rp_project_base_fd (cc_pair c))) (Some (rp_repository_fd (cc_pair c)));
     ret ()
   }"

definition fail_before_temp :: "kernel \<Rightarrow> create_context \<Rightarrow> failure \<Rightarrow> proc17_create_result io" where
  "fail_before_temp k c failure = do {
     close_create k c;
     (case failure of
        (code, stage, e) \<Rightarrow>
          set_create_failure k (cc_result c) ''world'' code stage (Some e) False False (cc_started c))
   }"

definition fail_after_temp_attempt :: "kernel \<Rightarrow> create_context \<Rightarrow> failure \<Rightarrow> proc17_create_result io" where
  "fail_after_temp_attempt k c failure = do {
     close_create k c;
     (case failure of
        (code, stage, e) \<Rightarrow>
          set_create_failure k (cc_result c) ''world'' code stage (Some e) True False (cc_started c))
   }"

definition fail_private ::
  "kernel \<Rightarrow> create_context \<Rightarrow> nat \<Rightarrow> nat option \<Rightarrow> failure \<Rightarrow> proc17_create_result io" where
  "fail_private k c parent_fd temp_fd failure = do {
     close_once k temp_fd;
     r \<leftarrow> sys_unlinkat k parent_fd (cre_temp_name (cc_result c));
     (case r of
        Sys_err cleanup_error \<Rightarrow> do {
          close_create k c;
          set_create_failure k ((cc_result c)\<lparr>cre_has_temp_residue := True\<rparr>) ''ambiguous''
            ''temp_cleanup_failed'' ''cleanup_unlink'' (Some cleanup_error) True False (cc_started c)
        }
      | Sys_ok _ \<Rightarrow> fail_after_temp_attempt k c failure)
   }"

definition fail_published :: "kernel \<Rightarrow> create_context \<Rightarrow> string \<Rightarrow> errno \<Rightarrow> proc17_create_result io" where
  "fail_published k c stage saved_error = do {
     close_create k c;
     set_create_failure k (cc_result c) ''ambiguous'' ''ambiguous_effect'' stage (Some saved_error) True True
       (cc_started c)
   }"

text \<open>After the rename: the parent is synchronised and every descriptor closed.\<close>

definition finish_published ::
  "kernel \<Rightarrow> create_context \<Rightarrow> nat \<Rightarrow> bytes \<Rightarrow> proc17_create_result io" where
  "finish_published k c parent_fd content = do {
     s \<leftarrow> sys_fsync k parent_fd;
     (case s of
        Sys_err e \<Rightarrow> fail_published k c ''fsync_parent'' e
      | Sys_ok _ \<Rightarrow> do {
          p \<leftarrow> sys_close k parent_fd;
          (case p of
             Sys_err e \<Rightarrow>
               fail_published k (c\<lparr>cc_parent_fd := None\<rparr>) ''close_transaction_descriptors'' e
           | Sys_ok _ \<Rightarrow> do {
               close_error \<leftarrow> close_pair k (Some (rp_project_base_fd (cc_pair c)))
                 (Some (rp_repository_fd (cc_pair c)));
               (if close_error \<noteq> None
                then set_create_failure k (cc_result c) ''ambiguous'' ''ambiguous_effect''
                       ''close_transaction_descriptors'' close_error True True (cc_started c)
                else do {
                  time \<leftarrow> elapsed_milliseconds k (cc_started c);
                  ret ((cc_result c)\<lparr>cre_succeeded := True, cre_bytes := length content,
                     cre_root_identity := rp_repository_identity (cc_pair c),
                     cre_mutation_primitive_entered := True, cre_published := True,
                     cre_time_ms := time, cre_temp_name := []\<rparr>)
                })
             })
        })
   }"

text \<open>From the open temporary file on: it is filled, renamed, and the transaction ended.\<close>

definition publish_through_temp ::
  "kernel \<Rightarrow> create_context \<Rightarrow> nat \<Rightarrow> nat \<Rightarrow> bytes \<Rightarrow> bytes \<Rightarrow> u32 \<Rightarrow> proc17_create_result io" where
  "publish_through_temp k c parent_fd temp_fd final_name content file_mode = do {
     filled \<leftarrow> fill_temp k temp_fd content file_mode;
     (case filled of
        Some (failure, open_fd) \<Rightarrow> fail_private k c parent_fd open_fd failure
      | None \<Rightarrow> do {
          r \<leftarrow> sys_renameat2 k parent_fd (cre_temp_name (cc_result c)) parent_fd final_name RENAME_NOREPLACE;
          (case r of
             Sys_err e \<Rightarrow> fail_private k c parent_fd None (rename_error_code e, ''rename_noreplace'', e)
           | Sys_ok _ \<Rightarrow>
               finish_published k (c\<lparr>cc_result := (cc_result c)\<lparr>cre_published := True\<rparr>\<rparr>) parent_fd content)
        })
   }"

text \<open>From the open parent on.\<close>

definition create_in_parent ::
  "kernel \<Rightarrow> u64 \<Rightarrow> root_pair \<Rightarrow> nat \<Rightarrow> bytes \<Rightarrow> bytes \<Rightarrow> u32 \<Rightarrow> proc17_create_result io" where
  "create_in_parent k started pair parent_fd final_name content file_mode =
     (let c0 = \<lparr>cc_started = started, cc_pair = pair, cc_parent_fd = Some parent_fd,
                cc_result = zero_create_result\<rparr>
      in do {
        policy \<leftarrow> parent_policy k parent_fd;
        (case policy of
           Some failure \<Rightarrow> fail_before_temp k c0 failure
         | None \<Rightarrow> do {
             name \<leftarrow> random_temp_name k;
             (case name of
                Inl failure \<Rightarrow> fail_before_temp k c0 failure
              | Inr temp_name \<Rightarrow>
                  (let c = c0\<lparr>cc_result := zero_create_result\<lparr>cre_temp_name := temp_name,
                                             cre_mutation_primitive_entered := True\<rparr>\<rparr>
                   in do {
                     t \<leftarrow> sys_openat k parent_fd temp_name
                            (O_WRONLY OR O_CREAT OR O_EXCL OR O_NOFOLLOW OR O_CLOEXEC) file_mode;
                     (case t of
                        Sys_err e \<Rightarrow>
                          fail_after_temp_attempt k c
                            (if e = EEXIST then ''temp_name_collision'' else mutation_error_code e,
                             ''open_temp'', e)
                      | Sys_ok temp_fd \<Rightarrow>
                          publish_through_temp k c parent_fd temp_fd final_name content file_mode)
                   }))
           })
      })"

definition create_file_transaction ::
  "kernel \<Rightarrow> proc17_repository_handle \<Rightarrow> bytes \<Rightarrow> bytes \<Rightarrow> u32 \<Rightarrow> proc17_create_result io" where
  "create_file_transaction k handle relative_path content file_mode = do {
     started \<leftarrow> monotonic_milliseconds k;
     (case split_target_path relative_path (PROC17_MAX_RELATIVE_PATH_BYTES + 1)
             (PROC17_MAX_COMPONENT_BYTES + 1) of
        None \<Rightarrow>
          set_create_failure k zero_create_result ''contract'' ''invalid_request''
            ''validate_create_request'' (Some EINVAL) False False started
      | Some (parent_path, final_name) \<Rightarrow> do {
          opened \<leftarrow> open_identity_pair k (handle_project_base handle) (handle_repository_path handle);
          (case opened of
             Inl (open_stage, saved_error) \<Rightarrow>
               set_create_failure k zero_create_result ''world'' (root_error_code saved_error) open_stage
                 (Some saved_error) False False started
           | Inr pair \<Rightarrow>
               if \<not> handle_matches handle pair
               then do {
                 _ \<leftarrow> close_pair k (Some (rp_project_base_fd pair)) (Some (rp_repository_fd pair));
                 set_create_failure k zero_create_result ''world'' ''root_changed''
                   ''compare_root_identity'' (Some ESTALE) False False started
               }
               else do {
                 p \<leftarrow> sys_openat2 k (Some (rp_repository_fd pair)) parent_path
                        (O_RDONLY OR O_DIRECTORY OR O_CLOEXEC) resolve_strict;
                 (case p of
                    Sys_err e \<Rightarrow>
                      fail_before_temp k \<lparr>cc_started = started, cc_pair = pair, cc_parent_fd = None,
                          cc_result = zero_create_result\<rparr> (parent_error_code e, ''open_parent'', e)
                  | Sys_ok parent_fd \<Rightarrow>
                      create_in_parent k started pair parent_fd final_name content file_mode)
               })
        })
   }"

text \<open>The reply of \<open>create_text_file\<close> to Lua.\<close>

record create_reply =
  cry_bytes :: int
  cry_root :: proc17_identity
  cry_time_ms :: int

definition create_error :: "proc17_create_result \<Rightarrow> provider_error" where
  "create_error result =
     \<lparr>pe_class = (case cre_class_name result of Some s \<Rightarrow> s | None \<Rightarrow> []),
      pe_code = (case cre_code result of Some s \<Rightarrow> s | None \<Rightarrow> []),
      pe_stage = (case cre_stage result of Some s \<Rightarrow> s | None \<Rightarrow> []),
      pe_errno = cre_error_number result,
      pe_mutation_primitive_entered = cre_mutation_primitive_entered result,
      pe_published = cre_published result, pe_tool_calls = 1,
      pe_file_writes = (if cre_mutation_primitive_entered result then 1 else 0),
      pe_time_ms = cre_time_ms result,
      pe_residue = (if cre_has_temp_residue result then Some (cre_temp_name result) else None)\<rparr>"

text \<open>\<open>arguments\<close> are the Lua values after the handle: a string, a string and an integer.\<close>

definition create_arguments :: "lua_value list \<Rightarrow> (bytes \<times> bytes \<times> int) option" where
  "create_arguments arguments =
     (case arguments of
        [Lua_string relative_path, Lua_string content, Lua_integer requested_mode] \<Rightarrow>
          Some (relative_path, content, requested_mode)
      | _ \<Rightarrow> None)"

definition create_text_file ::
  "kernel \<Rightarrow> proc17_repository_handle \<Rightarrow> lua_value list \<Rightarrow> (provider_error + create_reply) io" where
  "create_text_file k handle arguments =
     (if abi_closed (h_abi handle)
      then ret (Inl (push_error ''contract'' ''handle_closed'' ''create_handle'' None 0))
      else
        (case create_arguments arguments of
           None \<Rightarrow>
             ret (Inl (push_error ''contract'' ''invalid_request'' ''validate_create_request''
                         (Some EINVAL) 0))
         | Some (relative_path, content, requested_mode) \<Rightarrow>
             if \<not> valid_repository_path relative_path
                \<or> length content > PROC17_MAX_CONTENT_BYTES
                \<or> \<not> valid_utf8_text content
                \<or> requested_mode \<noteq> uint PROC17_FILE_MODE
             then ret (Inl (push_error ''contract'' ''invalid_request'' ''validate_create_request''
                              (Some EINVAL) 0))
             else do {
               result \<leftarrow> create_file_transaction k handle relative_path content (of_int requested_mode);
               ret (if \<not> cre_succeeded result then Inl (create_error result)
                    else Inr \<lparr>cry_bytes = int (cre_bytes result), cry_root = cre_root_identity result,
                              cry_time_ms = cre_time_ms result\<rparr>)
             }))"

subsection \<open>The events of a creation\<close>

text \<open>The events on the temporary file's descriptor, and the bytes a write took.\<close>

fun on_fd :: "nat \<Rightarrow> event \<Rightarrow> bool" where
  "on_fd fd (E_fchmod d _ _) = (d = fd)"
| "on_fd fd (E_fstat d _) = (d = fd)"
| "on_fd fd (E_write d _ _) = (d = fd)"
| "on_fd fd (E_fsync d _) = (d = fd)"
| "on_fd fd (E_close d _) = (d = fd)"
| "on_fd fd _ = False"

fun accepted :: "event \<Rightarrow> bytes" where
  "accepted (E_write _ bs (Sys_ok n)) = take n bs"
| "accepted _ = []"

abbreviation stored :: "trace \<Rightarrow> bytes" where
  "stored u \<equiv> concat (map accepted u)"

lemma write_content_emits:
  assumes "off \<le> length content"
  shows "emits (write_content k fd content off n)
     (\<lambda>r u. list_all (on_fd fd) u \<and> (\<forall>x. held u x = 0) \<and> prefix (stored u) (drop off content)
        \<and> (r = None \<longrightarrow> stored u = drop off content))"
  using assms
proof (induction k fd content off n rule: write_content.induct)
  case (1 k fd content off n)
  let ?R = "\<lambda>off r u. list_all (on_fd fd) u \<and> (\<forall>x. held u x = 0) \<and> prefix (stored u) (drop off content)
        \<and> (r = None \<longrightarrow> stored u = drop off content)"
  have step: "?R off r (E_write fd (drop off content) (Sys_ok w) # u)"
    if "?R (off + w) r u" "w \<le> length content - off" for r u w
  proof -
    have d: "drop w (drop off content) = drop (off + w) content" by (simp add: add.commute)
    have "take w (drop off content) @ drop (off + w) content = drop off content"
      using append_take_drop_id [of w "drop off content"] unfolding d .
    moreover have "prefix (take w (drop off content) @ stored u) (take w (drop off content) @ drop (off + w) content)"
      using that(1) by simp
    ultimately show ?thesis using that(1) by simp
  qed
  show ?case
  proof (cases "off < length content")
    case True
    let ?e = "E_write fd (drop off content)"
    let ?body = "\<lambda>r. case r of
           Sys_err e \<Rightarrow>
             if e = EINTR
             then (if n + 1 > PROC17_MAX_WRITE_EINTR_RETRIES then ret (Some (''io_failure'', ''write_temp'', EINTR))
                   else write_content k fd content off (n + 1))
             else ret (Some (mutation_error_code e, ''write_temp'', e))
         | Sys_ok written \<Rightarrow>
             if written = 0 \<or> written > length content - off then ret (Some (''io_failure'', ''write_temp'', EIO))
             else write_content k fd content (off + written) n"
    have "emits (?body a) (\<lambda>r v. ?R off r (?e a # v))" for a
    proof (cases a)
      case (Sys_ok w)
      have "emits (write_content k fd content (off + w) n) (\<lambda>r v. ?R off r (?e a # v))"
        if w: "\<not> (w = 0 \<or> w > length content - off)"
      proof -
        have "emits (write_content k fd content (off + w) n) (?R (off + w))"
          by (intro 1(1) [OF True w]) (use w True in linarith)
        then show ?thesis unfolding Sys_ok by (rule emits_mono) (rule step, use w in auto)
      qed
      then show ?thesis using Sys_ok by (auto simp: take_is_prefix)
    next
      case (Sys_err e)
      then show ?thesis using 1(2) [OF True] 1(3) by (auto elim!: emits_mono)
    qed
    then show ?thesis
      using True by (subst write_content.simps) (simp only: if_True sys_write_def, rule emits_call_bind)
  next
    case False
    with 1 show ?thesis by (subst write_content.simps) auto
  qed
qed

definition filled :: "nat \<Rightarrow> bytes \<Rightarrow> (failure \<times> nat option) option \<Rightarrow> trace \<Rightarrow> bool" where
  "filled fd content r u \<longleftrightarrow> list_all (on_fd fd) u \<and> prefix (stored u) content
     \<and> (r = None \<longrightarrow> stored u = content \<and> (\<forall>x. held u x = - of_bool (x = fd))
          \<and> (\<exists>w. u = w @ [E_fsync fd (Sys_ok ()), E_close fd (Sys_ok ())]))
     \<and> (\<forall>f open_fd. r = Some (f, open_fd) \<longrightarrow> open_fd = Some fd \<and> (\<forall>x. held u x = 0)
          \<or> open_fd = None \<and> (\<forall>x. held u x = - of_bool (x = fd)))"

lemma temp_identity_emits:
  "emits (temp_identity k fd mode) (\<lambda>_ u. \<exists>r. u = [E_fstat fd r])"
  by (auto simp: temp_identity_def sys_defs intro!: emits_call_bind)

lemma fill_temp_emits: "emits (fill_temp k fd content mode) (filled fd content)"
  unfolding fill_temp_def sys_fchmod_def sys_fsync_def sys_close_def
  by (intro emits_call_bind)
    (auto split: sys.split option.split
      intro!: emits_bind [OF temp_identity_emits] emits_bind [OF write_content_emits] emits_call_bind;
     auto simp: filled_def)

lemma on_fd_held: "list_all (on_fd fd) u \<Longrightarrow> x \<noteq> fd \<Longrightarrow> held u x = 0"
  by (induction u) (auto elim: on_fd.elims)

lemma replay_on_fd:
  "list_all (on_fd fd) u \<Longrightarrow> writable v fd = Some e \<Longrightarrow> files v e = Some c \<Longrightarrow>
     replay u v = Some (v\<lparr>files := (files v)(e \<mapsto> c @ stored u)\<rparr>)"
proof (induction u arbitrary: v c)
  case (Cons ev u)
  show ?case
  proof (cases "accepted ev = [] \<and> apply_event ev v = Some v")
    case True
    then show ?thesis using Cons by simp
  next
    case False
    then obtain bs r where ev: "ev = E_write fd bs r" using Cons.prems by (cases ev) auto
    with False obtain n where "r = Sys_ok n" by (cases r) auto
    with ev have "ev = E_write fd bs (Sys_ok n)" by simp
    then show ?thesis
      using Cons by (auto intro!: arg_cong [of _ _ "\<lambda>f. v\<lparr>files := f\<rparr>"])
  qed
qed (simp add: map_upd_triv)

subsection \<open>The four ways a creation ends\<close>

text \<open>
  The events of a transaction on an open parent \<open>p\<close>: no temporary file was made; it was made and removed;
  it was made and is left; or it was renamed.
\<close>

definition private_name :: "bytes \<Rightarrow> bool" where
  "private_name name \<longleftrightarrow> prefix PROC17_TEMP_PREFIX name"

lemma private_name_hd: "private_name name \<Longrightarrow> name \<noteq> [] \<and> hd name = dot"
  by (auto simp: private_name_def PROC17_TEMP_PREFIX_def ascii_def prefix_def)

lemma private_temp_name [simp]: "private_name (temp_name_of random)"
  by (simp add: private_name_def temp_name_of_def)

definition makes_temp :: "nat \<Rightarrow> bytes \<Rightarrow> bytes \<Rightarrow> trace \<Rightarrow> bytes \<Rightarrow> bool" where
  "makes_temp p temp content u part \<longleftrightarrow> private_name temp
     \<and> (\<exists>q flags mode fd w. u = q @ E_openat p temp flags mode (Sys_ok fd) # w \<and> list_all quiet q
        \<and> list_all (on_fd fd) w \<and> stored w = part \<and> prefix part content)"

definition create_shape :: "nat \<Rightarrow> bytes \<Rightarrow> bytes \<Rightarrow> proc17_create_result \<Rightarrow> trace \<Rightarrow> bool" where
  "create_shape p final content r u \<longleftrightarrow>
     (\<not> cre_published r \<and> \<not> cre_has_temp_residue r \<and> \<not> cre_succeeded r \<and> list_all quiet u)
     \<or> (\<exists>temp u1 part q1 q2. u = u1 @ q1 @ E_unlinkat p temp (Sys_ok ()) # q2 \<and> makes_temp p temp content u1 part
          \<and> list_all quiet q1 \<and> list_all quiet q2
          \<and> \<not> cre_published r \<and> \<not> cre_has_temp_residue r \<and> \<not> cre_succeeded r)
     \<or> (\<exists>u1 part q1. u = u1 @ q1 \<and> makes_temp p (cre_temp_name r) content u1 part \<and> list_all quiet q1
          \<and> \<not> cre_published r \<and> cre_has_temp_residue r \<and> \<not> cre_succeeded r)
     \<or> (\<exists>temp u1 fd q2. u = u1 @ [E_fsync fd (Sys_ok ()), E_close fd (Sys_ok ()),
            E_renameat2 p temp p final RENAME_NOREPLACE (Sys_ok ())] @ q2
          \<and> makes_temp p temp content u1 content \<and> list_all quiet q2
          \<and> cre_published r \<and> \<not> cre_has_temp_residue r
          \<and> (cre_succeeded r \<longrightarrow> cre_bytes r = length content \<and> (\<exists>q3. q2 = E_fsync p (Sys_ok ()) # q3)))"


definition ends_quietly :: "proc17_create_result \<Rightarrow> bool \<Rightarrow> create_context \<Rightarrow> proc17_create_result \<Rightarrow> trace \<Rightarrow> bool" where
  "ends_quietly res pu c r u \<longleftrightarrow> list_all quiet u \<and> \<not> cre_succeeded r \<and> cre_published r = pu
     \<and> cre_has_temp_residue r = cre_has_temp_residue res \<and> cre_temp_name r = cre_temp_name res
     \<and> (\<forall>x. held u x = - pair_held (cc_pair c) x
          - opt_held (cc_parent_fd c) x)"

lemma set_create_failure_emits:
  "emits (set_create_failure k res c1 c2 c3 e en pu st) (\<lambda>r u. list_all quiet u \<and> (\<forall>x. held u x = 0)
     \<and> \<not> cre_succeeded r \<and> cre_published r = pu \<and> cre_has_temp_residue r = cre_has_temp_residue res
     \<and> cre_temp_name r = cre_temp_name res)"
  unfolding set_create_failure_def by (rule emits_bind [OF clock_emits(2)]) simp

lemma close_create_emits:
  "emits (close_create k c) (\<lambda>_ u. list_all quiet u \<and> (\<forall>x. held u x = - pair_held (cc_pair c) x
      - opt_held (cc_parent_fd c) x))"
  unfolding close_create_def
  by (rule emits_bind [OF close_once_emits], rule emits_bind [OF close_pair_emits])
    (auto simp: pair_held_def split: option.split)

lemma fail_emits:
  "emits (fail_before_temp k c f) (ends_quietly (cc_result c) False c)"
  "emits (fail_after_temp_attempt k c f) (ends_quietly (cc_result c) False c)"
  "emits (fail_published k c sg e) (ends_quietly (cc_result c) True c)"
  by (cases f; auto simp: fail_before_temp_def fail_after_temp_attempt_def fail_published_def ends_quietly_def
      intro!: emits_bind [OF close_create_emits] emits_mono [OF set_create_failure_emits])+

lemma finish_published_emits:
  assumes "cc_parent_fd c = Some p" "cre_published (cc_result c)" "\<not> cre_has_temp_residue (cc_result c)"
  shows "emits (finish_published k c p content) (\<lambda>r u. list_all quiet u \<and> cre_published r \<and> \<not> cre_has_temp_residue r
     \<and> (cre_succeeded r \<longrightarrow> cre_bytes r = length content \<and> (\<exists>q. u = E_fsync p (Sys_ok ()) # q))
     \<and> (\<forall>x. held u x = - pair_held (cc_pair c) x - of_bool (x = p)))"
  unfolding finish_published_def sys_fsync_def sys_close_def
  by (intro emits_call_bind)
    (auto split: sys.split simp: ends_quietly_def assms pair_held_def
      intro!: emits_call_bind emits_mono [OF fail_emits(3)] emits_bind [OF close_pair_emits]
        emits_mono [OF set_create_failure_emits] emits_bind [OF clock_emits(2)])

lemma parent_policy_emits: "emits (parent_policy k p) (\<lambda>_ u. list_all quiet u \<and> (\<forall>x. held u x = 0))"
  by (auto simp: parent_policy_def sys_defs intro!: emits_call_bind)

lemma random_temp_name_emits:
  "emits (random_temp_name k) (\<lambda>r u. list_all quiet u \<and> (\<forall>x. held u x = 0)
     \<and> (\<forall>name. r = Inr name \<longrightarrow> private_name name))"
  by (auto simp: random_temp_name_def sys_defs intro!: emits_call_bind split: sys.split)

definition parent_released :: "root_pair \<Rightarrow> nat \<Rightarrow> trace \<Rightarrow> bool" where
  "parent_released pair p u \<longleftrightarrow> (\<forall>x. held u x = - pair_held pair x - of_bool (x = p))"

lemma fail_private_emits:
  assumes c: "cc_parent_fd c = Some p" "cc_pair c = pair" "\<not> cre_has_temp_residue (cc_result c)"
    and made: "makes_temp p (cre_temp_name (cc_result c)) content u1 part" "list_all quiet q1"
    and h: "\<forall>x. held (u1 @ q1) x = opt_held fd x"
  shows "emits (fail_private k c p fd f)
      (\<lambda>r v. create_shape p final content r (u1 @ q1 @ v) \<and> parent_released pair p (u1 @ q1 @ v))"
proof -
  have ok: "create_shape p final content r (u1 @ q1 @ w @ E_unlinkat p (cre_temp_name (cc_result c)) (Sys_ok ()) # v)"
    if "list_all quiet w" "ends_quietly (cc_result c) False c r v" for r w v
    unfolding create_shape_def using that made c(3)
    by (intro disjI2 disjI1) (rule exI [of _ "cre_temp_name (cc_result c)"], rule exI [of _ u1], rule exI [of _ part],
        rule exI [of _ "q1 @ w"], rule exI [of _ v], simp add: ends_quietly_def)
  have left: "create_shape p final content r (u1 @ q1 @ w)"
    if "list_all quiet w" "\<not> cre_succeeded r" "\<not> cre_published r" "cre_has_temp_residue r"
      "cre_temp_name r = cre_temp_name (cc_result c)" for r w
    unfolding create_shape_def using that made
    by (intro disjI2 disjI1) (rule exI [of _ u1], rule exI [of _ part], rule exI [of _ "q1 @ w"], simp)
  have hx: "held u1 x = opt_held fd x - held q1 x" for x
    using h [rule_format, of x] by simp
  show ?thesis
    unfolding fail_private_def sys_unlinkat_def
    by (intro emits_bind [OF close_once_emits] emits_call_bind)
      (auto split: sys.split option.splits simp: parent_released_def c ends_quietly_def hx
        intro!: emits_mono [OF fail_emits(2)] emits_bind [OF close_create_emits] emits_mono [OF set_create_failure_emits]
          ok left)
qed

lemma makes_tempI:
  assumes "list_all (on_fd fd) w" "prefix (stored w) content" "list_all quiet q" "private_name temp"
  shows "makes_temp p temp content (q @ E_openat p temp flags mode (Sys_ok fd) # w) (stored w)"
  unfolding makes_temp_def using assms by blast

lemma create_publish_emits_aux:
  assumes q: "list_all quiet q" "\<forall>x. held q x = 0" and t: "private_name temp"
    and f: "filled fd content fr w"
    and c: "cc_parent_fd c = Some p" "cc_pair c = pair" "\<not> cre_has_temp_residue (cc_result c)"
      "cre_temp_name (cc_result c) = temp"
  shows "emits (case fr of
        Some (failure, open_fd) \<Rightarrow> fail_private k c p open_fd failure
      | None \<Rightarrow> State_Monad.bind (sys_renameat2 k p (cre_temp_name (cc_result c)) p final RENAME_NOREPLACE) (\<lambda>r. case r of
          Sys_err e \<Rightarrow> fail_private k c p None (rename_error_code e, ''rename_noreplace'', e)
        | Sys_ok _ \<Rightarrow> finish_published k (c\<lparr>cc_result := (cc_result c)\<lparr>cre_published := True\<rparr>\<rparr>) p content))
      (\<lambda>r v. create_shape p final content r (q @ E_openat p temp flags mode (Sys_ok fd) # w @ v)
         \<and> parent_released pair p (q @ E_openat p temp flags mode (Sys_ok fd) # w @ v))"
proof -
  let ?o = "E_openat p temp flags mode (Sys_ok fd)"
  have w: "list_all (on_fd fd) w" "prefix (stored w) content" using f by (auto simp: filled_def)
  have made: "makes_temp p (cre_temp_name (cc_result c)) content (q @ ?o # w) (stored w)"
    unfolding c(4) by (rule makes_tempI [OF w q(1) t])
  show ?thesis
  proof (cases fr)
    case (Some fo)
    then obtain failure open_fd where fo: "fr = Some (failure, open_fd)" by (cases fo) auto
    have "\<forall>x. held ((q @ ?o # w) @ []) x = opt_held open_fd x"
      using f q(2) unfolding fo by (cases failure) (auto simp: filled_def)
    from fail_private_emits [OF c(1-3) made _ this] show ?thesis using fo by simp
  next
    case None
    with f obtain w' where w': "w = w' @ [E_fsync fd (Sys_ok ()), E_close fd (Sys_ok ())]" "stored w = content"
      "\<forall>x. held w x = - of_bool (x = fd)" by (auto simp: filled_def)
    have w'': "list_all (on_fd fd) w'" "stored w' = content" using w w' by auto
    have lost: "emits (fail_private k c p None (rename_error_code e, ''rename_noreplace'', e))
        (\<lambda>r v. create_shape p final content r ((q @ ?o # w) @ [E_renameat2 p temp p final RENAME_NOREPLACE (Sys_err e)] @ v)
          \<and> parent_released pair p ((q @ ?o # w) @ [E_renameat2 p temp p final RENAME_NOREPLACE (Sys_err e)] @ v))" for e
      by (rule fail_private_emits [OF c(1-3) made]) (use q(2) w'(3) in auto)
    have shape: "create_shape p final content r (q @ ?o # w @ E_renameat2 p temp p final RENAME_NOREPLACE (Sys_ok ()) # v)"
      if "list_all quiet v" "cre_published r" "\<not> cre_has_temp_residue r"
        "cre_succeeded r \<longrightarrow> cre_bytes r = length content \<and> (\<exists>q. v = E_fsync p (Sys_ok ()) # q)" for r v
      unfolding create_shape_def
      using that makes_tempI [OF w''(1) _ q(1) t, of content p flags mode] w'' w'
      by (intro disjI2) (rule exI [of _ temp], rule exI [of _ "q @ ?o # w'"], rule exI [of _ fd], rule exI [of _ v], simp)
    show ?thesis
      unfolding None option.case sys_renameat2_def
    proof (rule emits_call_bind)
      fix a :: "unit sys"
      show "emits (case a of Sys_err e \<Rightarrow> fail_private k c p None (rename_error_code e, ''rename_noreplace'', e)
            | Sys_ok _ \<Rightarrow> finish_published k (c\<lparr>cc_result := (cc_result c)\<lparr>cre_published := True\<rparr>\<rparr>) p content)
          (\<lambda>r v. create_shape p final content r
              (q @ ?o # w @ E_renameat2 p (cre_temp_name (cc_result c)) p final RENAME_NOREPLACE a # v)
            \<and> parent_released pair p
              (q @ ?o # w @ E_renameat2 p (cre_temp_name (cc_result c)) p final RENAME_NOREPLACE a # v))"
        using lost
        by (cases a) (auto simp: parent_released_def c q w'(3) intro!: emits_mono [OF finish_published_emits] shape)
    qed
  qed
qed


lemma publish_through_temp_emits:
  assumes q: "list_all quiet q" "\<forall>x. held q x = 0" and t: "private_name temp"
    and c: "cc_parent_fd c = Some p" "cc_pair c = pair" "\<not> cre_has_temp_residue (cc_result c)"
      "cre_temp_name (cc_result c) = temp"
  shows "emits (publish_through_temp k c p fd final content mode')
      (\<lambda>r v. create_shape p final content r (q @ E_openat p temp flags mode (Sys_ok fd) # v)
         \<and> parent_released pair p (q @ E_openat p temp flags mode (Sys_ok fd) # v))"
  unfolding publish_through_temp_def
  by (rule emits_bind [OF fill_temp_emits], rule create_publish_emits_aux [OF q t _ c])

lemma create_in_parent_emits:
  "emits (create_in_parent k st pair p final content mode)
     (\<lambda>r u. create_shape p final content r u \<and> parent_released pair p u)"
proof -
  have named: "emits (publish_through_temp k c p fd final content mode)
      (\<lambda>r v. create_shape p final content r (u @ u' @ E_openat p temp flags mode (Sys_ok fd) # v)
         \<and> parent_released pair p (u @ u' @ E_openat p temp flags mode (Sys_ok fd) # v))"
    if "list_all quiet u" "\<forall>x. held u x = 0" "list_all quiet u'" "\<forall>x. held u' x = 0"
      "private_name temp" "cc_parent_fd c = Some p" "cc_pair c = pair"
      "\<not> cre_has_temp_residue (cc_result c)" "cre_temp_name (cc_result c) = temp" for c fd u u' temp flags
    using publish_through_temp_emits [of "u @ u'" temp c p pair k fd final content mode flags mode] that by simp
  show ?thesis
    unfolding create_in_parent_def Let_def sys_openat_def
    by (auto split: option.split sum.split sys.split simp: zero_create_result_def
      intro!: emits_bind [OF parent_policy_emits] emits_bind [OF random_temp_name_emits] emits_call_bind
        emits_mono [OF fail_emits(1)] emits_mono [OF fail_emits(2)] named;
       auto simp: create_shape_def parent_released_def ends_quietly_def)
qed

text \<open>The whole transaction: either nothing of the file system was touched, or the parent was opened
  below the repository root and the rest is a creation in it.\<close>

definition transaction_shape :: "bytes \<Rightarrow> bytes \<Rightarrow> bytes \<Rightarrow> proc17_create_result \<Rightarrow> trace \<Rightarrow> bool" where
  "transaction_shape parent final content r u \<longleftrightarrow>
     (list_all quiet u \<and> \<not> cre_published r \<and> \<not> cre_has_temp_residue r \<and> \<not> cre_succeeded r)
     \<or> (\<exists>q root flags p u'. u = q @ E_openat2 (Some root) parent flags resolve_strict (Sys_ok p) # u'
          \<and> list_all quiet q \<and> create_shape p final content r u')"

lemma create_transaction_emits:
  assumes "split_target_path path 1025 256 = Some (parent, final)"
  shows "emits (create_file_transaction k handle path content mode)
     (\<lambda>r u. transaction_shape parent final content r u \<and> (\<forall>x. held u x = 0))"
proof -
  have opened: "transaction_shape parent final content r (u @ u' @ E_openat2 (Some root) parent flags resolve_strict (Sys_ok p) # v)"
    if "list_all quiet u" "list_all quiet u'" "create_shape p final content r v" for r u u' v root flags p
    unfolding transaction_shape_def using that
    by (intro disjI2) (rule exI [of _ "u @ u'"], auto)
  show ?thesis
    unfolding create_file_transaction_def sys_openat2_def
    using assms
    by (auto split: sum.split sys.split
      intro!: emits_bind [OF clock_emits(1)] emits_bind [OF open_identity_pair_emits] emits_call_bind
        emits_bind [OF close_pair_emits] emits_mono [OF set_create_failure_emits] emits_mono [OF fail_emits(1)]
        emits_mono [OF create_in_parent_emits] opened;
       auto simp: transaction_shape_def zero_create_result_def ends_quietly_def pair_held_def parent_released_def)
qed

subsection \<open>The directory at every moment\<close>

fun always :: "(view \<Rightarrow> bool) \<Rightarrow> trace \<Rightarrow> view \<Rightarrow> bool" where
  "always P [] v \<longleftrightarrow> P v"
| "always P (e # u) v \<longleftrightarrow> P v \<and> (\<forall>v'. apply_event e v = Some v' \<longrightarrow> always P u v')"

lemma always_take: "always P u v \<Longrightarrow> replay (take n u) v = Some vn \<Longrightarrow> P vn"
proof (induction u arbitrary: v n)
  case (Cons e u)
  then show ?case by (cases n) (auto simp: Option.bind_eq_Some_conv)
qed simp

lemma always_append: "always P (a @ b) v \<longleftrightarrow> always P a v \<and> (\<forall>va. replay a v = Some va \<longrightarrow> always P b va)"
proof (induction a arbitrary: v)
  case Nil
  show ?case by (cases b) auto
next
  case (Cons e a)
  then show ?case by (auto simp: Option.bind_eq_Some_conv)
qed

definition on_files :: "((nat \<times> bytes \<Rightarrow> bytes option) \<Rightarrow> bool) \<Rightarrow> view \<Rightarrow> bool" where
  "on_files P v \<longleftrightarrow> P (files v)"

lemma always_quiet: "list_all quiet u \<Longrightarrow> P (files v) \<Longrightarrow> always (on_files P) u v"
  by (induction u arbitrary: v) (auto simp: on_files_def dest: apply_quiet)

lemma always_on_fd:
  "list_all (on_fd fd) u \<Longrightarrow> writable v fd = Some e \<Longrightarrow> files v e = Some c \<Longrightarrow>
     (\<And>c. P ((files v)(e \<mapsto> c))) \<Longrightarrow> always (on_files P) u v"
proof (induction u arbitrary: v c)
  case Nil
  have "(files v)(e \<mapsto> c) = files v" using Nil by (simp add: map_upd_triv)
  then show ?case using Nil(4) [of c] by (simp add: on_files_def)
next
  case (Cons ev u)
  have "P (files v)" using Cons.prems(4) [of c] Cons.prems(3) by (simp add: map_upd_triv)
  moreover have "always (on_files P) u v'" if "apply_event ev v = Some v'" for v'
  proof -
    have w: "writable v' fd = Some e" and "\<exists>c'. files v' = (files v)(e \<mapsto> c')"
      using that replay_on_fd [of fd "[ev]" v e c] Cons.prems by auto
    then obtain c' where f: "files v' = (files v)(e \<mapsto> c')" by blast
    show ?thesis
      by (rule Cons.IH [of v' c']) (use Cons.prems w in \<open>simp_all add: f fun_upd_upd del: fun_upd_apply\<close>, simp)
  qed
  ultimately show ?case by (simp add: on_files_def [of P v])
qed


lemma makes_temp_replay:
  assumes "makes_temp p temp content u part" "replay u v = Some v'"
  shows "files v (p, temp) = None" "files v' = (files v)((p, temp) \<mapsto> part)"
proof -
  from assms(1) obtain q flags mode fd w where u: "u = q @ E_openat p temp flags mode (Sys_ok fd) # w"
    "list_all quiet q" "list_all (on_fd fd) w" "stored w = part" unfolding makes_temp_def by blast
  from assms(2) u(1) obtain v1 v2 where v: "replay q v = Some v1"
    "apply_event (E_openat p temp flags mode (Sys_ok fd)) v1 = Some v2" "replay w v2 = Some v'"
    by (auto simp: replay_append Option.bind_eq_Some_conv)
  have f: "files v1 = files v" by (rule replay_quiet [OF u(2) v(1)])
  show "files v (p, temp) = None" using v(2) f by (auto split: if_splits)
  have v2: "files v2 = (files v)((p, temp) \<mapsto> [])" "writable v2 fd = Some (p, temp)"
    using v(2) f by (auto split: if_splits)
  have "replay w v2 = Some (v2\<lparr>files := (files v2)((p, temp) \<mapsto> [] @ stored w)\<rparr>)"
    by (rule replay_on_fd [OF u(3) v2(2)]) (simp add: v2)
  then show "files v' = (files v)((p, temp) \<mapsto> part)" using v(3) v2 u(4) by auto
qed

lemma makes_temp_always:
  assumes "makes_temp p temp content u part" "\<And>c. P ((files v)((p, temp) \<mapsto> c))" "P (files v)"
  shows "always (on_files P) u v"
proof -
  from assms(1) obtain q flags mode fd w where u: "u = q @ E_openat p temp flags mode (Sys_ok fd) # w"
    "list_all quiet q" "list_all (on_fd fd) w" unfolding makes_temp_def by blast
  have "always (on_files P) (E_openat p temp flags mode (Sys_ok fd) # w) v1" if "replay q v = Some v1" for v1
  proof -
    have f: "files v1 = files v" by (rule replay_quiet [OF u(2) that])
    have "always (on_files P) w \<lparr>files = (files v)((p, temp) \<mapsto> []), writable = (writable v1)(fd \<mapsto> (p, temp))\<rparr>"
      by (rule always_on_fd [OF u(3), where e = "(p, temp)" and c = "[]"]) (use assms(2) in simp_all)
    then show ?thesis using f assms(3) by (simp add: on_files_def)
  qed
  then show ?thesis unfolding u(1) always_append using always_quiet [OF u(2)] assms(3) by blast
qed

definition create_effect ::
  "nat \<Rightarrow> bytes \<Rightarrow> bytes \<Rightarrow> proc17_create_result \<Rightarrow> (nat \<times> bytes \<Rightarrow> bytes option) \<Rightarrow> (nat \<times> bytes \<Rightarrow> bytes option) \<Rightarrow> bool" where
  "create_effect p final content r f f' \<longleftrightarrow>
     (if cre_published r then f (p, final) = None \<and> f' = f((p, final) \<mapsto> content)
      else if cre_has_temp_residue r
      then (\<exists>part. prefix part content \<and> private_name (cre_temp_name r) \<and> f' = f((p, cre_temp_name r) \<mapsto> part))
      else f' = f)"

lemma create_shape_effect:
  assumes "create_shape p final content r u" "replay u v = Some v'" "component_admissible final"
  shows "create_effect p final content r (files v) (files v')"
    "always (on_files (\<lambda>f. f (p, final) \<in> {files v (p, final), Some content})) u v"
    "cre_succeeded r \<longrightarrow> cre_published r"
proof -
  have ne: "temp \<noteq> final" if "private_name temp" for temp
    using private_name_hd [OF that] assms(3) by (auto simp: component_admissible_def dest: ascii_alnum_range)
  let ?P = "\<lambda>f. f (p, final) \<in> {files v (p, final), Some content}"
  have "create_effect p final content r (files v) (files v') \<and> always (on_files ?P) u v
      \<and> (cre_succeeded r \<longrightarrow> cre_published r)"
    using assms(1) unfolding create_shape_def
  proof (elim disjE exE conjE, goal_cases)
    case 1
    have "always (on_files ?P) u v" by (rule always_quiet [OF 1(4)]) simp
    then show ?case using 1 replay_quiet [OF 1(4) assms(2)] by (simp add: create_effect_def)
  next
    case (2 temp u1 part q1 q2)
    have pn: "private_name temp" using 2(2) by (simp add: makes_temp_def)
    obtain v1 v2 v3 where v: "replay u1 v = Some v1" "replay q1 v1 = Some v2"
      "apply_event (E_unlinkat p temp (Sys_ok ())) v2 = Some v3" "replay q2 v3 = Some v'"
      using assms(2) 2(1) by (auto simp: replay_append Option.bind_eq_Some_conv)
    note f1 = makes_temp_replay [OF 2(2) v(1)]
    have f2: "files v2 = files v1" by (rule replay_quiet [OF 2(3) v(2)])
    have f3: "files v3 = files v" using v(3) f1 f2 by (auto split: if_splits)
    have f4: "files v' = files v" using replay_quiet [OF 2(4) v(4)] f3 by simp
    have "always (on_files ?P) u1 v" by (rule makes_temp_always [OF 2(2)]) (use ne [OF pn] in auto)
    moreover have "always (on_files ?P) q1 v1" by (rule always_quiet [OF 2(3)]) (use f1 ne [OF pn] in auto)
    moreover have "on_files ?P v2" using f1 f2 ne [OF pn] by (auto simp: on_files_def)
    moreover have "always (on_files ?P) q2 v3" by (rule always_quiet [OF 2(4)]) (simp add: f3)
    ultimately show ?case using v 2 f4 by (auto simp: always_append create_effect_def)
  next
    case (3 u1 part q1)
    have pn: "private_name (cre_temp_name r)" "prefix part content" using 3(2) by (auto simp: makes_temp_def)
    obtain v1 where v: "replay u1 v = Some v1" "replay q1 v1 = Some v'"
      using assms(2) 3(1) by (auto simp: replay_append Option.bind_eq_Some_conv)
    note f1 = makes_temp_replay [OF 3(2) v(1)]
    have "always (on_files ?P) u1 v" by (rule makes_temp_always [OF 3(2)]) (use ne [OF pn(1)] in auto)
    moreover have "always (on_files ?P) q1 v1" by (rule always_quiet [OF 3(3)]) (use f1 ne [OF pn(1)] in auto)
    ultimately show ?case
      using v 3 pn f1 replay_quiet [OF 3(3) v(2)] by (auto simp: always_append create_effect_def)
  next
    case (4 temp u1 fd q2)
    have pn: "private_name temp" using 4(2) by (simp add: makes_temp_def)
    obtain v1 v2 where v: "replay u1 v = Some v1"
      "apply_event (E_renameat2 p temp p final RENAME_NOREPLACE (Sys_ok ())) v1 = Some v2" "replay q2 v2 = Some v'"
      using assms(2) 4(1) by (auto simp: replay_append Option.bind_eq_Some_conv)
    note f1 = makes_temp_replay [OF 4(2) v(1)]
    have fin: "files v (p, final) = None" using v(2) f1 ne [OF pn] by (auto split: if_splits)
    have f2: "files v2 = (files v)((p, final) \<mapsto> content)"
    proof -
      have "files v2 = (files v1)((p, temp) := None, (p, final) \<mapsto> content)"
        using v(2) f1 ne [OF pn] by (auto split: if_splits)
      then show ?thesis by (simp only: f1(2) fun_upd_upd fun_upd_idem [where f = "files v", OF f1(1)])
    qed
    have "always (on_files ?P) u1 v" by (rule makes_temp_always [OF 4(2)]) (use ne [OF pn] in auto)
    moreover have "on_files ?P v1" using f1 ne [OF pn] by (auto simp: on_files_def)
    moreover have "always (on_files ?P) q2 v2" by (rule always_quiet [OF 4(3)]) (simp add: f2)
    ultimately show ?case
      using v 4 fin f2 replay_quiet [OF 4(3) v(3)] by (auto simp: always_append create_effect_def)
  qed
  then show "create_effect p final content r (files v) (files v')" "always (on_files ?P) u v"
    "cre_succeeded r \<longrightarrow> cre_published r" by auto
qed

subsection \<open>A run\<close>

definition sample_run :: "proc17_create_result \<times> trace" where
  "sample_run = run_state (create_file_transaction sample_kernel sample_handle (ascii ''a'') (ascii ''xy'') 0x180) []"

lemma sample_run_facts:
  "cre_succeeded (fst sample_run)" "replay (snd sample_run) \<lparr>files = Map.empty, writable = Map.empty\<rparr> \<noteq> None"
  "valid_repository_path (ascii ''a'')" "split_target_path (ascii ''a'') 1025 256 = Some ([dot], ascii ''a'')"
  by code_simp+

text \<open>C1. Creating a file is atomic and never replaces: seen through the calls of the transaction, with a
  kernel that honours \<open>O_EXCL\<close> and \<open>RENAME_NOREPLACE\<close>, the target did not exist and holds exactly the
  content if the result says published; everything is as before if it says not published and leaves no
  residue; and if it reports a residue, only that private temporary file is new and holds a prefix of
  the content.  At no moment in between does the target hold anything but its old state or the whole
  content.  A success is always published.\<close>

theorem create_is_atomic:
  assumes path: "valid_repository_path path" "split_target_path path 1025 256 = Some (parent, final)"
    and run: "run_state (create_file_transaction k handle path content mode) [] = (r, u)"
    and kernel: "replay u \<lparr>files = f, writable = w\<rparr> = Some v"
  shows "\<exists>p. create_effect p final content r f (files v)
     \<and> (\<forall>n vn. replay (take n u) \<lparr>files = f, writable = w\<rparr> = Some vn \<longrightarrow> files vn (p, final) \<in> {f (p, final), Some content})
     \<and> (cre_succeeded r \<longrightarrow> cre_published r)
     \<and> (cre_published r \<or> cre_has_temp_residue r \<longrightarrow>
          (\<exists>root flags. E_openat2 (Some root) parent flags resolve_strict (Sys_ok p) \<in> set u))"
proof -
  let ?v0 = "\<lparr>files = f, writable = w\<rparr>"
  have adm: "component_admissible final" using valid_path_split [OF path(1)] path(2) by (metis option.inject prod.inject)
  have sh: "transaction_shape parent final content r u"
    using emits_run [OF create_transaction_emits [OF path(2)] run] by simp
  show ?thesis
  proof (cases "list_all quiet u \<and> \<not> cre_published r \<and> \<not> cre_has_temp_residue r \<and> \<not> cre_succeeded r")
    case True
    have "files vn = f" if "replay (take n u) ?v0 = Some vn" for n vn
      using replay_quiet [OF _ that] True by (simp add: list_all_iff in_set_takeD [of _ n u])
    moreover from this [of "length u" v] kernel have "files v = f" by simp
    ultimately show ?thesis using True by (auto simp: create_effect_def)
  next
    case False
    then obtain q root flags p u' where u: "u = q @ E_openat2 (Some root) parent flags resolve_strict (Sys_ok p) # u'"
      "list_all quiet q" and cs: "create_shape p final content r u'"
      using sh unfolding transaction_shape_def by blast
    let ?q = "q @ [E_openat2 (Some root) parent flags resolve_strict (Sys_ok p)]"
    have uq: "u = ?q @ u'" "list_all quiet ?q" using u by simp_all
    obtain v1 where v1: "replay ?q ?v0 = Some v1" "replay u' v1 = Some v"
      using kernel unfolding uq(1) replay_append by (auto simp: Option.bind_eq_Some_conv)
    have f1: "files v1 = f" using replay_quiet [OF uq(2) v1(1)] by simp
    note eff = create_shape_effect [OF cs v1(2) adm, unfolded f1]
    let ?P = "on_files (\<lambda>g. g (p, final) \<in> {f (p, final), Some content})"
    have aq: "always ?P ?q ?v0" by (rule always_quiet [OF uq(2)]) simp
    have "always ?P u ?v0"
      unfolding uq(1) by (intro iffD2 [OF always_append] conjI allI impI aq) (use eff(2) v1(1) in simp)
    from always_take [OF this] show ?thesis using eff(1,3) u(1) by (auto simp: on_files_def)
  qed
qed


theorem create_is_atomic_witness:
  "\<exists>r u v p. run_state (create_file_transaction sample_kernel sample_handle (ascii ''a'') (ascii ''xy'') 0x180) [] = (r, u)
     \<and> cre_succeeded r \<and> replay u \<lparr>files = Map.empty, writable = Map.empty\<rparr> = Some v
     \<and> files v = [(p, ascii ''a'') \<mapsto> ascii ''xy'']"
proof -
  obtain r u where ru: "sample_run = (r, u)" by force
  obtain v where v: "replay u \<lparr>files = Map.empty, writable = Map.empty\<rparr> = Some v"
    using sample_run_facts(2) unfolding ru by auto
  from create_is_atomic [OF sample_run_facts(3,4) ru [unfolded sample_run_def] v] sample_run_facts(1) [unfolded ru]
  show ?thesis using ru v unfolding sample_run_def by (auto simp: create_effect_def)
qed

lemma quiet_accepts_nothing: "list_all quiet u \<Longrightarrow> stored u = []"
  by (induction u) (auto elim!: quiet.elims)

text \<open>C26. A successful creation is durable in order: the whole content was written to the private file, then
  that file was synchronised and closed, then renamed without replacement, then the parent directory was
  synchronised; nothing after the rename changes a file, and the reported size is the length of the
  content.\<close>

theorem create_is_durable:
  assumes path: "split_target_path path 1025 256 = Some (parent, final)"
    and run: "run_state (create_file_transaction k handle path content mode) [] = (r, u)"
    and ok: "cre_succeeded r"
  shows "cre_bytes r = length content \<and> (\<exists>p temp fd pre post.
     u = pre @ [E_fsync fd (Sys_ok ()), E_close fd (Sys_ok ()),
                E_renameat2 p temp p final RENAME_NOREPLACE (Sys_ok ()), E_fsync p (Sys_ok ())] @ post
     \<and> private_name temp \<and> stored pre = content \<and> list_all quiet post)"
proof -
  have "transaction_shape parent final content r u"
    using emits_run [OF create_transaction_emits [OF path] run] by simp
  with ok obtain q root flags p u' where u: "u = q @ E_openat2 (Some root) parent flags resolve_strict (Sys_ok p) # u'"
    "list_all quiet q" and cs: "create_shape p final content r u'" unfolding transaction_shape_def by blast
  from cs ok obtain temp u1 fd q2 q3 where s: "u' = u1 @ [E_fsync fd (Sys_ok ()), E_close fd (Sys_ok ()),
        E_renameat2 p temp p final RENAME_NOREPLACE (Sys_ok ())] @ q2" "makes_temp p temp content u1 content"
      "list_all quiet q2" "q2 = E_fsync p (Sys_ok ()) # q3" "cre_bytes r = length content"
    unfolding create_shape_def by (elim disjE exE conjE) auto
  have st: "stored u1 = content" "private_name temp"
    using s(2) by (auto simp: makes_temp_def quiet_accepts_nothing)
  let ?pre = "q @ E_openat2 (Some root) parent flags resolve_strict (Sys_ok p) # u1"
  have "stored ?pre = content" using st(1) quiet_accepts_nothing [OF u(2)] by simp
  then show ?thesis
    using u(1) s(1,3-5) st(2)
    by (intro conjI exI [of _ p] exI [of _ temp] exI [of _ fd] exI [of _ ?pre] exI [of _ q3]) auto
qed

theorem create_is_durable_witness:
  "\<exists>r u p temp fd pre post. run_state (create_file_transaction sample_kernel sample_handle (ascii ''a'') (ascii ''xy'') 0x180) [] = (r, u)
     \<and> cre_bytes r = 2 \<and> stored pre = ascii ''xy''
     \<and> u = pre @ [E_fsync fd (Sys_ok ()), E_close fd (Sys_ok ()),
                E_renameat2 p temp p (ascii ''a'') RENAME_NOREPLACE (Sys_ok ()), E_fsync p (Sys_ok ())] @ post"
proof -
  obtain r u where ru: "sample_run = (r, u)" by force
  have "cre_succeeded r" using sample_run_facts(1) unfolding ru by simp
  from create_is_durable [OF sample_run_facts(4) ru [unfolded sample_run_def] this]
  moreover have "length (ascii ''xy'') = 2" by (simp add: ascii_def)
  ultimately show ?thesis using ru unfolding sample_run_def by metis
qed

lemma create_transaction_held:
  assumes "valid_repository_path path"
  shows "emits (create_file_transaction k handle path content mode) (\<lambda>_ u. \<forall>x. held u x = 0)"
proof -
  obtain parent final where "split_target_path path 1025 256 = Some (parent, final)"
    by (rule valid_path_split [OF assms])
  from create_transaction_emits [OF this] show ?thesis by (rule emits_mono) simp
qed

interpretation creation: provider_operation create_text_file
proof unfold_locales
  show "emits (create_text_file k h q) (\<lambda>_ u. \<forall>x. held u x = 0)" for k h q
    unfolding create_text_file_def
    by (auto split: option.split intro!: emits_bind [OF create_transaction_held])
qed (simp add: create_text_file_def)

text \<open>No creation leaks or steals a descriptor: whatever the request and whatever the kernel answers,
  after \<open>create_text_file\<close> every descriptor number is held exactly as often as before.\<close>

theorem create_closes_descriptors:
  "held (snd (run_state (create_text_file k handle arguments) t)) fd = held t fd"
  by (rule creation.keeps_descriptors)

definition create_request_ok :: "proc17_repository_handle \<Rightarrow> lua_value list \<Rightarrow> bool" where
  "create_request_ok handle arguments \<longleftrightarrow> \<not> abi_closed (h_abi handle)
     \<and> (\<exists>path content. arguments = [Lua_string path, Lua_string content, Lua_integer 384]
          \<and> path_grammar path \<and> length content \<le> 1048576 \<and> utf8_grammar content)"

lemma create_arguments_Some:
  "create_arguments arguments = Some (path, content, m)
     \<longleftrightarrow> arguments = [Lua_string path, Lua_string content, Lua_integer m]"
  by (auto simp: create_arguments_def split: list.splits lua_value.splits)

text \<open>C27. A request is refused before any system call exactly if the handle is closed or it is not three
  values of the right types with an admissible path, a text of at most 1048576 bytes of UTF-8 without
  zero bytes, and mode 0600; the refusal is a contract error that reports no mutation and no cost.\<close>

theorem create_request_checked:
  "if create_request_ok handle arguments
   then \<exists>path content r t'. arguments = [Lua_string path, Lua_string content, Lua_integer 384]
          \<and> run_state (create_file_transaction k handle path content 0x180) t = (r, t')
          \<and> run_state (create_text_file k handle arguments) t
              = (if cre_succeeded r
                 then Inr \<lparr>cry_bytes = int (cre_bytes r), cry_root = cre_root_identity r, cry_time_ms = cre_time_ms r\<rparr>
                 else Inl (create_error r), t')
   else \<exists>e. run_state (create_text_file k handle arguments) t = (Inl e, t) \<and> pe_class e = ''contract''
          \<and> \<not> pe_mutation_primitive_entered e \<and> \<not> pe_published e \<and> pe_tool_calls e = 0 \<and> pe_residue e = None"
proof (cases "create_request_ok handle arguments")
  case True
  then obtain path content where a: "arguments = [Lua_string path, Lua_string content, Lua_integer 384]"
    "path_grammar path" "length content \<le> 1048576" "utf8_grammar content" "\<not> abi_closed (h_abi handle)"
    unfolding create_request_ok_def by blast
  have v: "valid_repository_path path" "valid_utf8_text content"
    using a by (simp_all add: valid_repository_path_grammar valid_utf8_text_def utf8_loop_grammar)
  obtain r t' where "run_state (create_file_transaction k handle path content 0x180) t = (r, t')" by force
  then show ?thesis
    using True a v by (simp add: create_text_file_def create_arguments_def PROC17_FILE_MODE_def)
next
  case False
  have "\<not> (valid_repository_path path \<and> length content \<le> 1048576 \<and> valid_utf8_text content \<and> m = 384)"
    if "create_arguments arguments = Some (path, content, m)" "\<not> abi_closed (h_abi handle)" for path content m
    using False that unfolding create_request_ok_def create_arguments_Some
    by (auto simp: valid_repository_path_grammar valid_utf8_text_def utf8_loop_grammar)
  then show ?thesis
    using False by (auto simp: create_text_file_def PROC17_FILE_MODE_def push_error_def split: option.split)
qed

end
