(* ===== verification/Repo_Read.thy ===== *)
theory Repo_Read
  imports Repo_Kernel
begin

text \<open>
  The independent read-back of the repository provider (\<open>native/proc17_repository_fs.c\<close>):
  \<open>read_file_transaction\<close> classifies the named target, reads a regular file between two observations of
  its version, and observes the name once more from the roots down (\<open>reobserve_named_target\<close>);
  \<open>read_text_file\<close> checks the request.  The five local descriptors of the C functions are the record
  \<open>read_fds\<close>.
\<close>

definition PROC17_MAX_READ_EINTR_RETRIES :: nat where "PROC17_MAX_READ_EINTR_RETRIES = 64"

datatype proc17_read_target_kind = READ_TARGET_MISSING | READ_TARGET_REGULAR | READ_TARGET_OTHER

record proc17_read_result =
  rr_succeeded :: bool
  rr_class_name :: "string ptr"
  rr_code :: "string ptr"
  rr_stage :: "string ptr"
  rr_error_number :: "errno option"
  rr_target_kind :: proc17_read_target_kind
  rr_content :: "bytes ptr"
  rr_bytes :: nat
  rr_time_ms :: int
  rr_root_identity :: proc17_identity

definition zero_read_result :: proc17_read_result where
  "zero_read_result = \<lparr>rr_succeeded = False, rr_class_name = None, rr_code = None, rr_stage = None,
     rr_error_number = None, rr_target_kind = READ_TARGET_MISSING, rr_content = None, rr_bytes = 0,
     rr_time_ms = 0, rr_root_identity = zero_identity\<rparr>"

record read_fds =
  fd_read :: "nat option"
  fd_target :: "nat option"
  fd_parent :: "nat option"
  fd_project_base :: "nat option"
  fd_repository :: "nat option"

definition no_fds :: read_fds where
  "no_fds = \<lparr>fd_read = None, fd_target = None, fd_parent = None, fd_project_base = None, fd_repository = None\<rparr>"

definition pair_fds :: "root_pair \<Rightarrow> read_fds" where
  "pair_fds pair = no_fds\<lparr>fd_project_base := Some (rp_project_base_fd pair),
     fd_repository := Some (rp_repository_fd pair)\<rparr>"

definition close_read_descriptors :: "kernel \<Rightarrow> read_fds \<Rightarrow> errno option io" where
  "close_read_descriptors k fds = do {
     e1 \<leftarrow> close_checked k (fd_read fds);
     e2 \<leftarrow> close_checked k (fd_target fds);
     e3 \<leftarrow> close_checked k (fd_parent fds);
     e4 \<leftarrow> close_pair k (fd_project_base fds) (fd_repository fds);
     ret (first_of (first_of (first_of e1 e2) e3) e4)
   }"

subsection \<open>Versions of a file\<close>

definition S_IFMT :: u32 where "S_IFMT = 0xf000"

definition same_file_identity :: "file_stat \<Rightarrow> file_stat \<Rightarrow> bool" where
  "same_file_identity left right \<longleftrightarrow>
     stat_dev left = stat_dev right \<and> stat_ino left = stat_ino right
     \<and> stat_mode left AND S_IFMT = stat_mode right AND S_IFMT"

definition same_timespec :: "int \<times> int \<Rightarrow> int \<times> int \<Rightarrow> bool" where
  "same_timespec left right \<longleftrightarrow> fst left = fst right \<and> snd left = snd right"

definition same_file_version :: "file_stat \<Rightarrow> file_stat \<Rightarrow> bool" where
  "same_file_version left right \<longleftrightarrow>
     same_file_identity left right
     \<and> stat_mode left = stat_mode right \<and> stat_uid left = stat_uid right \<and> stat_gid left = stat_gid right
     \<and> stat_nlink left = stat_nlink right \<and> stat_size left = stat_size right
     \<and> same_timespec (stat_mtim left) (stat_mtim right) \<and> same_timespec (stat_ctim left) (stat_ctim right)"

subsection \<open>Observing the name again\<close>

definition set_read_failure ::
  "kernel \<Rightarrow> proc17_read_result \<Rightarrow> string \<Rightarrow> string \<Rightarrow> errno \<Rightarrow> u64 \<Rightarrow> proc17_read_result io" where
  "set_read_failure k result code stage error_number started = do {
     time \<leftarrow> elapsed_milliseconds k started;
     ret (result\<lparr>rr_succeeded := False, rr_class_name := Some ''world'', rr_code := Some code,
                 rr_stage := Some stage, rr_error_number := Some error_number, rr_time_ms := time\<rparr>)
   }"

type_synonym read_failure = "string \<times> string \<times> errno"

text \<open>The label \<open>fail\<close> of \<open>reobserve_named_target\<close>.\<close>

definition reobserve_fail :: "kernel \<Rightarrow> read_fds \<Rightarrow> read_failure \<Rightarrow> (read_failure + proc17_identity) io" where
  "reobserve_fail k fds failure = do { _ \<leftarrow> close_read_descriptors k fds; ret (Inl failure) }"

text \<open>What the target must look like now: the failure, if it does not.\<close>

definition reobserve_target ::
  "kernel \<Rightarrow> nat sys \<Rightarrow> proc17_read_target_kind \<Rightarrow> file_stat ptr \<Rightarrow> read_failure option io" where
  "reobserve_target k target expected_kind expected_status =
     (if expected_kind = READ_TARGET_MISSING
      then
        ret (case target of
               Sys_ok _ \<Rightarrow> Some (''target_changed'', ''reobserve_read_target'', ESTALE)
             | Sys_err e \<Rightarrow>
                 if e \<noteq> ENOENT then Some (''target_changed'', ''reobserve_read_target'', e) else None)
      else
        (case target of
           Sys_err e \<Rightarrow> ret (Some (''target_changed'', ''reobserve_read_target'', e))
         | Sys_ok target_fd \<Rightarrow> do {
             s \<leftarrow> sys_fstat k target_fd;
             ret (case s of
                    Sys_err e \<Rightarrow> Some (''target_changed'', ''reobserve_read_target'', e)
                  | Sys_ok observed_status \<Rightarrow>
                      (case expected_status of
                         None \<Rightarrow> Some (''target_changed'', ''reobserve_read_target'', ESTALE)
                       | Some expected \<Rightarrow>
                           if \<not> same_file_version expected observed_status
                              \<or> (expected_kind = READ_TARGET_REGULAR \<and> \<not> S_ISREG (stat_mode observed_status))
                              \<or> (expected_kind = READ_TARGET_OTHER \<and> S_ISREG (stat_mode observed_status))
                           then Some (''target_changed'', ''reobserve_read_target'', ESTALE)
                           else None))
           }))"

definition sys_fd :: "nat sys \<Rightarrow> nat option" where
  "sys_fd r = (case r of Sys_ok fd \<Rightarrow> Some fd | Sys_err _ \<Rightarrow> None)"

definition reobserve_named_target ::
  "kernel \<Rightarrow> proc17_repository_handle \<Rightarrow> bytes \<Rightarrow> bytes \<Rightarrow> proc17_read_target_kind \<Rightarrow> file_stat ptr
   \<Rightarrow> (read_failure + proc17_identity) io" where
  "reobserve_named_target k handle parent_path final_name expected_kind expected_status = do {
     opened \<leftarrow> open_identity_pair k (handle_project_base handle) (handle_repository_path handle);
     (case opened of
        Inl (open_stage, saved_error) \<Rightarrow>
          reobserve_fail k no_fds (root_error_code saved_error, open_stage, saved_error)
      | Inr pair \<Rightarrow>
          if \<not> handle_matches handle pair
          then reobserve_fail k (pair_fds pair) (''root_changed'', ''compare_root_identity'', ESTALE)
          else do {
            p \<leftarrow> sys_openat2 k (Some (rp_repository_fd pair)) parent_path (O_PATH OR O_DIRECTORY OR O_CLOEXEC)
                   resolve_strict;
            (case p of
               Sys_err e \<Rightarrow>
                 reobserve_fail k (pair_fds pair)
                   (if e = ENOSYS \<or> e = EINVAL \<or> e = ENOTSUP then ''provider_unavailable'' else ''target_changed'',
                    ''reobserve_read_target'', e)
             | Sys_ok parent_fd \<Rightarrow> do {
                 target \<leftarrow> sys_openat2 k (Some parent_fd) final_name (O_PATH OR O_NOFOLLOW OR O_CLOEXEC)
                   (RESOLVE_BENEATH OR RESOLVE_NO_MAGICLINKS OR RESOLVE_NO_XDEV);
                 changed \<leftarrow> reobserve_target k target expected_kind expected_status;
                 (let fds = (pair_fds pair)\<lparr>fd_parent := Some parent_fd, fd_target := sys_fd target\<rparr>
                  in case changed of
                       Some failure \<Rightarrow> reobserve_fail k fds failure
                     | None \<Rightarrow> do {
                         close_error \<leftarrow> close_read_descriptors k fds;
                         ret (case close_error of
                                Some e \<Rightarrow> Inl (''io_failure'', ''close_read_descriptors'', e)
                              | None \<Rightarrow> Inr (rp_repository_identity pair))
                       })
               })
          })
   }"

subsection \<open>Reading\<close>

text \<open>The read loop: the content so far is what was read at offset 0 to \<open>length content\<close>.\<close>

function read_content :: "kernel \<Rightarrow> nat \<Rightarrow> nat \<Rightarrow> bytes \<Rightarrow> nat \<Rightarrow> (read_failure + bytes) io" where
  "read_content k read_fd max_bytes content read_eintr_retries =
     (if length content < max_bytes
      then do {
        r \<leftarrow> sys_read k read_fd (max_bytes - length content);
        (case r of
           Sys_err e \<Rightarrow>
             if e = EINTR
             then
               (if read_eintr_retries + 1 > PROC17_MAX_READ_EINTR_RETRIES
                then ret (Inl (''io_failure'', ''read_target'', EINTR))
                else read_content k read_fd max_bytes content (read_eintr_retries + 1))
             else ret (Inl (''io_failure'', ''read_target'', e))
         | Sys_ok observed \<Rightarrow>
             if observed = [] then ret (Inr content)
             else if length observed > max_bytes - length content
             then ret (Inl (''io_failure'', ''read_target'', EIO))
             else read_content k read_fd max_bytes (content @ observed) read_eintr_retries)
      }
      else ret (Inr content))"
  by pat_completeness auto

termination
  by (relation "measure (\<lambda>(k, read_fd, max_bytes, content, retries).
        (max_bytes - length content) + (PROC17_MAX_READ_EINTR_RETRIES - retries))") (auto simp: not_less neq_Nil_conv)

declare read_content.simps [simp del]

text \<open>The opened regular file: its version after the read and what was read from it, or the failure.\<close>

definition read_regular ::
  "kernel \<Rightarrow> nat \<Rightarrow> file_stat \<Rightarrow> nat \<Rightarrow> (read_failure + file_stat \<times> bytes) io" where
  "read_regular k read_fd classified_status max_bytes = do {
     s \<leftarrow> sys_fstat k read_fd;
     (case s of
        Sys_err e \<Rightarrow> ret (Inl (''io_failure'', ''observe_read_target'', e))
      | Sys_ok before_status \<Rightarrow>
          if \<not> S_ISREG (stat_mode before_status) \<or> \<not> same_file_identity classified_status before_status
          then ret (Inl (''target_changed'', ''observe_read_target'', ESTALE))
          else do {
            m \<leftarrow> sys_malloc k max_bytes;
            (if \<not> m then ret (Inl (''io_failure'', ''allocate_read_buffer'', ENOMEM))
             else do {
               c \<leftarrow> read_content k read_fd max_bytes [] 0;
               (case c of
                  Inl failure \<Rightarrow> ret (Inl failure)
                | Inr content \<Rightarrow> do {
                    a \<leftarrow> sys_fstat k read_fd;
                    ret (case a of
                           Sys_err e \<Rightarrow> Inl (''io_failure'', ''verify_read_stability'', e)
                         | Sys_ok after_status \<Rightarrow>
                             if \<not> same_file_version before_status after_status
                             then Inl (''read_unstable'', ''verify_read_stability'', ESTALE)
                             else Inr (after_status, content))
                  })
             })
          })
   }"

text \<open>The label \<open>fail\<close> of \<open>read_file_transaction\<close>: the descriptors are closed and the content freed.\<close>

definition read_fail :: "kernel \<Rightarrow> u64 \<Rightarrow> read_fds \<Rightarrow> read_failure \<Rightarrow> proc17_read_result io" where
  "read_fail k started fds failure = do {
     _ \<leftarrow> close_read_descriptors k fds;
     (case failure of
        (code, stage, e) \<Rightarrow> set_read_failure k zero_read_result code stage e started)
   }"

text \<open>The common end: close everything, observe the name again, fill the result.\<close>

definition read_finish ::
  "kernel \<Rightarrow> u64 \<Rightarrow> read_fds \<Rightarrow> proc17_repository_handle \<Rightarrow> bytes \<Rightarrow> bytes \<Rightarrow> proc17_read_target_kind
   \<Rightarrow> file_stat ptr \<Rightarrow> bytes ptr \<Rightarrow> proc17_read_result io" where
  "read_finish k started fds handle parent_path final_name kind status content = do {
     close_error \<leftarrow> close_read_descriptors k fds;
     (case close_error of
        Some e \<Rightarrow> set_read_failure k zero_read_result ''io_failure'' ''close_read_descriptors'' e started
      | None \<Rightarrow> do {
          again \<leftarrow> reobserve_named_target k handle parent_path final_name kind status;
          (case again of
             Inl failure \<Rightarrow> read_fail k started no_fds failure
           | Inr root_identity \<Rightarrow> do {
               time \<leftarrow> elapsed_milliseconds k started;
               ret (zero_read_result\<lparr>rr_succeeded := True, rr_target_kind := kind, rr_content := content,
                      rr_bytes := (case content of Some c \<Rightarrow> length c | None \<Rightarrow> 0),
                      rr_root_identity := root_identity, rr_time_ms := time\<rparr>)
             })
        })
   }"

definition read_target ::
  "kernel \<Rightarrow> u64 \<Rightarrow> root_pair \<Rightarrow> nat \<Rightarrow> proc17_repository_handle \<Rightarrow> bytes \<Rightarrow> bytes \<Rightarrow> nat
   \<Rightarrow> proc17_read_result io" where
  "read_target k started pair parent_fd handle parent_path final_name max_bytes =
     (let fds = (pair_fds pair)\<lparr>fd_parent := Some parent_fd\<rparr>
      in do {
        t \<leftarrow> sys_openat2 k (Some parent_fd) final_name (O_PATH OR O_NOFOLLOW OR O_CLOEXEC)
               (RESOLVE_BENEATH OR RESOLVE_NO_MAGICLINKS OR RESOLVE_NO_XDEV);
        (case t of
           Sys_err e \<Rightarrow>
             if e = ENOENT
             then read_finish k started fds handle parent_path final_name READ_TARGET_MISSING None None
             else read_fail k started fds (read_path_error_code e, ''classify_read_target'', e)
         | Sys_ok target_fd \<Rightarrow>
             (let fds2 = fds\<lparr>fd_target := Some target_fd\<rparr>
              in do {
                s \<leftarrow> sys_fstat k target_fd;
                (case s of
                   Sys_err e \<Rightarrow> read_fail k started fds2 (''io_failure'', ''observe_read_target'', e)
                 | Sys_ok classified_status \<Rightarrow>
                     if \<not> S_ISREG (stat_mode classified_status)
                     then read_finish k started fds2 handle parent_path final_name READ_TARGET_OTHER
                            (Some classified_status) None
                     else do {
                       r \<leftarrow> sys_openat2 k (Some parent_fd) final_name
                              (O_RDONLY OR O_NONBLOCK_FLAG OR O_NOFOLLOW OR O_CLOEXEC) resolve_strict;
                       (case r of
                          Sys_err e \<Rightarrow>
                            read_fail k started fds2
                              (if e = ENOENT \<or> e = ELOOP \<or> e = ENOTDIR then ''target_changed''
                               else read_path_error_code e, ''open_read_target'', e)
                        | Sys_ok read_fd \<Rightarrow>
                            (let fds3 = fds2\<lparr>fd_read := Some read_fd\<rparr>
                             in do {
                               c \<leftarrow> read_regular k read_fd classified_status max_bytes;
                               (case c of
                                  Inl failure \<Rightarrow> read_fail k started fds3 failure
                                | Inr (after_status, content) \<Rightarrow>
                                    read_finish k started fds3 handle parent_path final_name
                                      READ_TARGET_REGULAR (Some after_status) (Some content))
                             }))
                     })
              }))
      })"

definition read_file_transaction ::
  "kernel \<Rightarrow> proc17_repository_handle \<Rightarrow> bytes \<Rightarrow> nat \<Rightarrow> proc17_read_result io" where
  "read_file_transaction k handle relative_path max_bytes = do {
     started \<leftarrow> monotonic_milliseconds k;
     (case split_target_path relative_path (PROC17_MAX_RELATIVE_PATH_BYTES + 1)
             (PROC17_MAX_COMPONENT_BYTES + 1) of
        None \<Rightarrow>
          ret (zero_read_result\<lparr>rr_class_name := Some ''contract'', rr_code := Some ''invalid_request'',
                 rr_stage := Some ''validate_read_request'', rr_error_number := Some EINVAL\<rparr>)
      | Some (parent_path, final_name) \<Rightarrow> do {
          opened \<leftarrow> open_identity_pair k (handle_project_base handle) (handle_repository_path handle);
          (case opened of
             Inl (open_stage, saved_error) \<Rightarrow>
               set_read_failure k zero_read_result (root_error_code saved_error) open_stage saved_error started
           | Inr pair \<Rightarrow>
               if \<not> handle_matches handle pair
               then do {
                 _ \<leftarrow> close_pair k (Some (rp_project_base_fd pair)) (Some (rp_repository_fd pair));
                 set_read_failure k zero_read_result ''root_changed'' ''compare_root_identity'' ESTALE started
               }
               else do {
                 p \<leftarrow> sys_openat2 k (Some (rp_repository_fd pair)) parent_path
                        (O_PATH OR O_DIRECTORY OR O_CLOEXEC) resolve_strict;
                 (case p of
                    Sys_err e \<Rightarrow>
                      read_fail k started (pair_fds pair) (parent_error_code e, ''open_read_parent'', e)
                  | Sys_ok parent_fd \<Rightarrow>
                      read_target k started pair parent_fd handle parent_path final_name max_bytes)
               })
        })
   }"

subsection \<open>The request\<close>

record read_reply =
  rry_target_kind :: string
  rry_bytes :: "int option"
  rry_content :: "bytes option"
  rry_root :: proc17_identity
  rry_time_ms :: int

definition read_error :: "proc17_read_result \<Rightarrow> provider_error" where
  "read_error result =
     \<lparr>pe_class = (case rr_class_name result of Some s \<Rightarrow> s | None \<Rightarrow> []),
      pe_code = (case rr_code result of Some s \<Rightarrow> s | None \<Rightarrow> []),
      pe_stage = (case rr_stage result of Some s \<Rightarrow> s | None \<Rightarrow> []),
      pe_errno = rr_error_number result, pe_mutation_primitive_entered = False, pe_published = False,
      pe_tool_calls = 1, pe_file_writes = 0, pe_time_ms = rr_time_ms result, pe_residue = None\<rparr>"

definition read_arguments :: "lua_value list \<Rightarrow> (bytes \<times> int) option" where
  "read_arguments arguments =
     (case arguments of
        [Lua_string relative_path, Lua_integer requested_max_bytes] \<Rightarrow>
          Some (relative_path, requested_max_bytes)
      | _ \<Rightarrow> None)"

definition read_reply_of :: "proc17_read_result \<Rightarrow> read_reply" where
  "read_reply_of result =
     \<lparr>rry_target_kind = (case rr_target_kind result of
         READ_TARGET_MISSING \<Rightarrow> ''missing'' | READ_TARGET_REGULAR \<Rightarrow> ''regular_file''
       | READ_TARGET_OTHER \<Rightarrow> ''other''),
      rry_bytes = (if rr_target_kind result = READ_TARGET_REGULAR then Some (int (rr_bytes result)) else None),
      rry_content = (if rr_target_kind result = READ_TARGET_REGULAR
         then Some (case rr_content result of Some c \<Rightarrow> take (rr_bytes result) c | None \<Rightarrow> []) else None),
      rry_root = rr_root_identity result, rry_time_ms = rr_time_ms result\<rparr>"

definition read_text_file ::
  "kernel \<Rightarrow> proc17_repository_handle \<Rightarrow> lua_value list \<Rightarrow> (provider_error + read_reply) io" where
  "read_text_file k handle arguments =
     (if abi_closed (h_abi handle)
      then ret (Inl (push_error ''contract'' ''handle_closed'' ''read_handle'' None 0))
      else
        (case read_arguments arguments of
           None \<Rightarrow>
             ret (Inl (push_error ''contract'' ''invalid_request'' ''validate_read_request''
                         (Some EINVAL) 0))
         | Some (relative_path, requested_max_bytes) \<Rightarrow>
             if \<not> valid_repository_path relative_path \<or> requested_max_bytes < 1
                \<or> requested_max_bytes > int PROC17_MAX_READ_BYTES
             then ret (Inl (push_error ''contract'' ''invalid_request'' ''validate_read_request''
                              (Some EINVAL) 0))
             else do {
               result \<leftarrow> read_file_transaction k handle relative_path (nat requested_max_bytes);
               ret (if \<not> rr_succeeded result then Inl (read_error result)
                    else Inr (read_reply_of result))
             }))"

subsection \<open>What a read does to the world\<close>

definition fds_held :: "read_fds \<Rightarrow> nat \<Rightarrow> int" where
  "fds_held fds x = opt_held (fd_read fds) x + opt_held (fd_target fds) x + opt_held (fd_parent fds) x
     + opt_held (fd_project_base fds) x + opt_held (fd_repository fds) x"

lemma pair_fds_held: "fds_held (pair_fds pair) x = pair_held pair x" "fds_held no_fds x = 0"
  by (simp_all add: fds_held_def pair_fds_def no_fds_def pair_held_def)

lemma fds_held_upd [simp]:
  "fd_parent fds = None \<Longrightarrow> fds_held (fds\<lparr>fd_parent := Some p\<rparr>) x = fds_held fds x + of_bool (x = p)"
  "fd_target fds = None \<Longrightarrow> fds_held (fds\<lparr>fd_target := d\<rparr>) x = fds_held fds x + opt_held d x"
  "fd_read fds = None \<Longrightarrow> fds_held (fds\<lparr>fd_read := Some p\<rparr>) x = fds_held fds x + of_bool (x = p)"
  by (simp_all add: fds_held_def)

lemma pair_fds_sel [simp]: "fd_parent (pair_fds p) = None" "fd_target (pair_fds p) = None" "fd_read (pair_fds p) = None"
  by (simp_all add: pair_fds_def no_fds_def)

lemma close_read_emits:
  "emits (close_read_descriptors k fds) (\<lambda>_ u. list_all observing u \<and> (\<forall>x. held u x = - fds_held fds x))"
  unfolding close_read_descriptors_def
  by (rule emits_bind [OF close_checked_emits], rule emits_bind [OF close_checked_emits],
      rule emits_bind [OF close_checked_emits], rule emits_bind [OF close_pair_emits]) (auto simp: fds_held_def)

lemma reobserve_fail_emits:
  "emits (reobserve_fail k fds f) (\<lambda>r u. list_all observing u \<and> (\<forall>x. held u x = - fds_held fds x) \<and> r = Inl f)"
  unfolding reobserve_fail_def by (rule emits_bind [OF close_read_emits]) simp

lemma set_read_failure_emits:
  "emits (set_read_failure k res c sg e st) (\<lambda>r u. list_all observing u \<and> (\<forall>x. held u x = 0) \<and> \<not> rr_succeeded r)"
  unfolding set_read_failure_def by (rule emits_bind [OF clock_emits(2)]) simp

lemma read_fail_emits:
  "emits (read_fail k st fds f) (\<lambda>r u. list_all observing u \<and> (\<forall>x. held u x = - fds_held fds x) \<and> \<not> rr_succeeded r)"
  unfolding read_fail_def
  by (cases f) (auto intro!: emits_bind [OF close_read_emits] emits_mono [OF set_read_failure_emits])

text \<open>What a look at the opened name establishes when it finds no change.\<close>

definition unchanged :: "nat sys \<Rightarrow> proc17_read_target_kind \<Rightarrow> file_stat ptr \<Rightarrow> trace \<Rightarrow> bool" where
  "unchanged target kind status u \<longleftrightarrow>
     (if kind = READ_TARGET_MISSING then target = Sys_err ENOENT
      else \<exists>fd st st'. target = Sys_ok fd \<and> E_fstat fd (Sys_ok st') \<in> set u \<and> status = Some st
             \<and> same_file_version st st' \<and> (S_ISREG (stat_mode st') \<longleftrightarrow> kind = READ_TARGET_REGULAR))"

lemma reobserve_target_emits:
  "emits (reobserve_target k target kind status) (\<lambda>changed u. list_all observing u \<and> (\<forall>x. held u x = 0)
     \<and> (changed = None \<longrightarrow> unchanged target kind status u))"
  unfolding reobserve_target_def sys_fstat_def unchanged_def
  by (cases kind) (auto split: sys.split option.split intro!: emits_call_bind)

text \<open>The name, seen again from the repository root: absent, or with the version expected.\<close>

definition seen_again :: "bytes \<Rightarrow> bytes \<Rightarrow> proc17_read_target_kind \<Rightarrow> file_stat ptr \<Rightarrow> trace \<Rightarrow> bool" where
  "seen_again parent final kind status w \<longleftrightarrow>
     (\<exists>a root p flags resolve target u b.
        w = a @ E_openat2 (Some root) parent (O_PATH OR O_DIRECTORY OR O_CLOEXEC) resolve_strict (Sys_ok p)
              # E_openat2 (Some p) final flags resolve target # u @ b
        \<and> unchanged target kind status u)"

lemma seen_againI:
  assumes "unchanged target kind status u"
  shows "seen_again parent final kind status
     (a @ E_openat2 (Some root) parent (O_PATH OR O_DIRECTORY OR O_CLOEXEC) resolve_strict (Sys_ok p)
        # E_openat2 (Some p) final flags resolve target # u @ b)"
  using assms unfolding seen_again_def by blast

lemma reobserve_named_emits:
  "emits (reobserve_named_target k handle parent final kind status) (\<lambda>r u. list_all observing u \<and> (\<forall>x. held u x = 0)
     \<and> (\<forall>i. r = Inr i \<longrightarrow> seen_again parent final kind status u))"
  unfolding reobserve_named_target_def sys_openat2_def Let_def
  by (auto split: sum.split sys.split option.split simp: pair_fds_held sys_fd_def opt_held_def
      intro!: emits_bind [OF open_identity_pair_emits] emits_mono [OF reobserve_fail_emits] emits_call_bind
        emits_bind [OF reobserve_target_emits] emits_bind [OF close_read_emits] seen_againI)

fun received :: "event \<Rightarrow> bytes" where
  "received (E_read _ _ (Sys_ok bs)) = bs"
| "received _ = []"

fun reads :: "nat \<Rightarrow> event \<Rightarrow> bool" where
  "reads fd (E_read d _ _) = (d = fd)"
| "reads fd (E_malloc _ _) = True"
| "reads fd _ = False"

lemma reads_simps: "reads fd e \<Longrightarrow> observing e" "reads fd e \<Longrightarrow> held_by e x = 0"
  by (cases e; simp)+

lemma reads_list: "list_all (reads fd) u \<Longrightarrow> list_all observing u" "list_all (reads fd) u \<Longrightarrow> held u x = 0"
  by (induction u) (auto simp: reads_simps)

text \<open>All that was received is the content, and reading stopped at the limit or at the end of the file.\<close>

definition read_whole :: "nat \<Rightarrow> nat \<Rightarrow> bytes \<Rightarrow> trace \<Rightarrow> bool" where
  "read_whole fd mx content u \<longleftrightarrow> list_all (reads fd) u \<and> concat (map received u) = content \<and> length content \<le> mx
     \<and> (length content = mx \<or> (\<exists>w n. u = w @ [E_read fd n (Sys_ok [])]))"

lemma read_content_emits:
  assumes "length acc \<le> mx"
  shows "emits (read_content k fd mx acc n) (\<lambda>r u. list_all (reads fd) u
     \<and> (\<forall>d. r = Inr d \<longrightarrow> d = acc @ concat (map received u) \<and> length d \<le> mx
          \<and> (length d = mx \<or> (\<exists>w m. u = w @ [E_read fd m (Sys_ok [])]))))"
  using assms
proof (induction k fd mx acc n rule: read_content.induct)
  case (1 k fd mx acc n)
  let ?R = "\<lambda>acc r u. list_all (reads fd) u
     \<and> (\<forall>d. r = Inr d \<longrightarrow> d = acc @ concat (map received u) \<and> length d \<le> mx
          \<and> (length d = mx \<or> (\<exists>w m. u = w @ [E_read fd m (Sys_ok [])])))"
  have step: "?R acc r (e # u)" if "?R (acc @ received e) r u" "reads fd e" for r u e
    using that by (auto simp: Cons_eq_append_conv)
  show ?case
  proof (cases "length acc < mx")
    case False
    then show ?thesis using 1 by (subst read_content.simps) auto
  next
    case True
    let ?e = "E_read fd (mx - length acc)"
    let ?body = "\<lambda>r. case r of
           Sys_err e \<Rightarrow>
             if e = EINTR
             then (if n + 1 > PROC17_MAX_READ_EINTR_RETRIES then ret (Inl (''io_failure'', ''read_target'', EINTR))
                   else read_content k fd mx acc (n + 1))
             else ret (Inl (''io_failure'', ''read_target'', e))
         | Sys_ok observed \<Rightarrow>
             if observed = [] then ret (Inr acc)
             else if length observed > mx - length acc then ret (Inl (''io_failure'', ''read_target'', EIO))
             else read_content k fd mx (acc @ observed) n"
    have "emits (?body a) (\<lambda>r v. ?R acc r (?e a # v))" for a
    proof (cases a)
      case (Sys_ok bs)
      have "emits (read_content k fd mx (acc @ bs) n) (\<lambda>r v. ?R acc r (?e a # v))"
        if b: "bs \<noteq> []" "\<not> length bs > mx - length acc"
      proof -
        have "emits (read_content k fd mx (acc @ bs) n) (?R (acc @ bs))"
          by (intro 1(1) [OF True b]) (use b True in simp)
        then show ?thesis unfolding Sys_ok by (rule emits_mono) (rule step, auto)
      qed
      then show ?thesis using Sys_ok True by auto
    next
      case (Sys_err e)
      have "emits (read_content k fd mx acc (n + 1)) (\<lambda>r v. ?R acc r (?e a # v))"
        if b: "e = EINTR" "\<not> n + 1 > PROC17_MAX_READ_EINTR_RETRIES"
        unfolding Sys_err by (rule emits_mono [OF 1(2) [OF True b 1(3)]]) (rule step, auto)
      then show ?thesis using Sys_err by auto
    qed
    then show ?thesis
      using True by (subst read_content.simps) (simp only: if_True sys_read_def, rule emits_call_bind)
  qed
qed

lemma read_regular_emits:
  "emits (read_regular k fd cl mx) (\<lambda>r u. list_all observing u \<and> (\<forall>x. held u x = 0)
     \<and> (\<forall>after content. r = Inr (after, content) \<longrightarrow>
          (\<exists>before v. u = E_fstat fd (Sys_ok before) # E_malloc mx True # v @ [E_fstat fd (Sys_ok after)]
             \<and> S_ISREG (stat_mode before) \<and> same_file_identity cl before
             \<and> same_file_version before after \<and> read_whole fd mx content v)))"
proof -
  have c: "emits (read_content k fd mx [] 0) (\<lambda>r u. list_all observing u \<and> (\<forall>x. held u x = 0)
       \<and> (\<forall>d. r = Inr d \<longrightarrow> read_whole fd mx d u))"
    by (rule emits_mono [OF read_content_emits]) (auto simp: read_whole_def reads_list)
  show ?thesis
    unfolding read_regular_def sys_fstat_def sys_malloc_def
    by (auto split: sys.split sum.split if_splits intro!: emits_call_bind emits_bind [OF c])
qed

lemma seen_again_within:
  assumes "seen_again parent final kind status w"
  shows "seen_again parent final kind status (c @ w @ d)"
proof -
  from assms obtain a root p flags resolve target u b where
    "w = a @ E_openat2 (Some root) parent (O_PATH OR O_DIRECTORY OR O_CLOEXEC) resolve_strict (Sys_ok p)
           # E_openat2 (Some p) final flags resolve target # u @ b" "unchanged target kind status u"
    unfolding seen_again_def by blast
  then show ?thesis using seen_againI [of target kind status u parent final "c @ a" root p flags resolve "b @ d"] by simp
qed

lemma read_finish_emits:
  "emits (read_finish k st fds handle parent final kind status content) (\<lambda>r u. list_all observing u
     \<and> (\<forall>x. held u x = - fds_held fds x)
     \<and> (rr_succeeded r \<longrightarrow> rr_target_kind r = kind \<and> rr_content r = content
          \<and> rr_bytes r = (case content of Some c \<Rightarrow> length c | None \<Rightarrow> 0)
          \<and> seen_again parent final kind status u))"
  unfolding read_finish_def
  by (auto split: sum.split option.split simp: pair_fds_held
      intro!: seen_again_within emits_bind [OF close_read_emits] emits_bind [OF reobserve_named_emits] emits_bind [OF clock_emits(2)]
        emits_mono [OF set_read_failure_emits] emits_mono [OF read_fail_emits])

text \<open>What the calls of a successful read have shown of the name.\<close>

definition read_evidence :: "bytes \<Rightarrow> bytes \<Rightarrow> nat \<Rightarrow> proc17_read_result \<Rightarrow> trace \<Rightarrow> bool" where
  "read_evidence parent final mx r u \<longleftrightarrow>
     (case rr_target_kind r of
        READ_TARGET_MISSING \<Rightarrow> rr_content r = None \<and>
          (\<exists>a p f q b. u = a @ E_openat2 (Some p) final f q (Sys_err ENOENT) # b
             \<and> seen_again parent final READ_TARGET_MISSING None b)
      | READ_TARGET_OTHER \<Rightarrow> rr_content r = None \<and>
          (\<exists>a p f q fd st b. u = a @ E_openat2 (Some p) final f q (Sys_ok fd) # E_fstat fd (Sys_ok st) # b
             \<and> \<not> S_ISREG (stat_mode st) \<and> seen_again parent final READ_TARGET_OTHER (Some st) b)
      | READ_TARGET_REGULAR \<Rightarrow>
          (\<exists>a p f fd before v after b content.
             u = a @ E_openat2 (Some p) final f resolve_strict (Sys_ok fd) # E_fstat fd (Sys_ok before) # E_malloc mx True
                   # v @ E_fstat fd (Sys_ok after) # b
             \<and> rr_content r = Some content \<and> rr_bytes r = length content
             \<and> S_ISREG (stat_mode before) \<and> same_file_version before after
             \<and> read_whole fd mx content v \<and> seen_again parent final READ_TARGET_REGULAR (Some after) b))"

lemma read_evidence_prefix: "read_evidence parent final mx r u \<Longrightarrow> read_evidence parent final mx r (c @ u)"
  unfolding read_evidence_def by (auto split: proc17_read_target_kind.splits) (metis append.assoc)+

lemma read_evidenceI:
  "rr_target_kind r = READ_TARGET_MISSING \<Longrightarrow> rr_content r = None \<Longrightarrow>
     seen_again parent final READ_TARGET_MISSING None b \<Longrightarrow>
     read_evidence parent final mx r (E_openat2 (Some p) final f q (Sys_err ENOENT) # b)"
  "rr_target_kind r = READ_TARGET_OTHER \<Longrightarrow> rr_content r = None \<Longrightarrow> \<not> S_ISREG (stat_mode st) \<Longrightarrow>
     seen_again parent final READ_TARGET_OTHER (Some st) b \<Longrightarrow>
     read_evidence parent final mx r (E_openat2 (Some p) final f q (Sys_ok fd) # E_fstat fd (Sys_ok st) # b)"
  "rr_target_kind r = READ_TARGET_REGULAR \<Longrightarrow> rr_content r = Some content \<Longrightarrow> rr_bytes r = length content \<Longrightarrow>
     S_ISREG (stat_mode before) \<Longrightarrow> same_file_version before after \<Longrightarrow> read_whole fd mx content v \<Longrightarrow>
     seen_again parent final READ_TARGET_REGULAR (Some after) b \<Longrightarrow>
     read_evidence parent final mx r (e1 # e2 # E_openat2 (Some p) final f resolve_strict (Sys_ok fd)
       # E_fstat fd (Sys_ok before) # E_malloc mx True # v @ E_fstat fd (Sys_ok after) # b)"
  by (simp_all add: read_evidence_def) (metis append_Nil append_Cons)+

lemma read_target_emits:
  "emits (read_target k st pair p handle parent final mx) (\<lambda>r u. list_all observing u
     \<and> (\<forall>x. held u x = - pair_held pair x - of_bool (x = p)) \<and> (rr_succeeded r \<longrightarrow> read_evidence parent final mx r u))"
  unfolding read_target_def Let_def sys_openat2_def sys_fstat_def
  by (auto split: sys.split sum.split simp: pair_fds_held
      intro!: emits_call_bind emits_mono [OF read_fail_emits] emits_mono [OF read_finish_emits]
        emits_bind [OF read_regular_emits]; blast intro: read_evidenceI)

lemma read_transaction_emits:
  assumes "split_target_path path 1025 256 = Some (parent, final)"
  shows "emits (read_file_transaction k handle path mx) (\<lambda>r u. list_all observing u \<and> (\<forall>x. held u x = 0)
     \<and> (rr_succeeded r \<longrightarrow> read_evidence parent final mx r u))"
proof -
  have split: "split_target_path path (PROC17_MAX_RELATIVE_PATH_BYTES + 1) (PROC17_MAX_COMPONENT_BYTES + 1) = Some (parent, final)"
    using assms by (simp add: PROC17_MAX_RELATIVE_PATH_BYTES_def PROC17_MAX_COMPONENT_BYTES_def)
  have cons: "read_evidence parent final mx r u \<Longrightarrow> read_evidence parent final mx r (a @ b @ e # u)" for r u a b e
    using read_evidence_prefix [of parent final mx r u "a @ b @ [e]"] by simp
  show ?thesis
    unfolding read_file_transaction_def split sys_openat2_def
    by (auto split: sys.split sum.split simp: pair_fds_held pair_held_def
        intro!: emits_call_bind emits_bind [OF clock_emits(1)] emits_bind [OF open_identity_pair_emits]
          emits_bind [OF close_pair_emits] emits_mono [OF set_read_failure_emits]
          emits_mono [OF read_fail_emits] emits_mono [OF read_target_emits] cons)
qed

text \<open>A kernel on which \<open>a\<close> is a regular file that holds \<open>xy\<close>.\<close>

fun opened_as :: "bytes \<Rightarrow> nat \<Rightarrow> event \<Rightarrow> bool" where
  "opened_as name fd (E_openat2 _ n _ _ (Sys_ok d)) = (d = fd \<and> n = name)"
| "opened_as name fd _ = False"

definition reading_kernel :: kernel where
  "reading_kernel = sample_kernel\<lparr>
     k_fstat := (\<lambda>t fd. Sys_ok (sample_stat (if list_ex (opened_as (ascii ''a'') fd) t then 0x8180 else 0x41c0))),
     k_read := (\<lambda>t fd n. Sys_ok (if concat (map received t) = [] then ascii ''xy'' else []))\<rparr>"

definition reading_run :: "proc17_read_result \<times> trace" where
  "reading_run = run_state (read_file_transaction reading_kernel sample_handle (ascii ''a'') 64) []"

lemma reading_run_facts:
  "rr_succeeded (fst reading_run)" "rr_target_kind (fst reading_run) = READ_TARGET_REGULAR"
  "rr_content (fst reading_run) = Some (ascii ''xy'')" "rr_bytes (fst reading_run) = 2"
  "valid_repository_path (ascii ''a'')" "\<not> abi_closed (h_abi sample_handle)"
  by code_simp+

lemma read_arguments_Some:
  "read_arguments arguments = Some (path, m) \<longleftrightarrow> arguments = [Lua_string path, Lua_integer m]"
  by (auto simp: read_arguments_def split: list.splits lua_value.splits)

definition read_request_ok :: "proc17_repository_handle \<Rightarrow> bytes \<Rightarrow> int \<Rightarrow> bool" where
  "read_request_ok handle path m \<longleftrightarrow> \<not> abi_closed (h_abi handle) \<and> path_grammar path \<and> 1 \<le> m \<and> m \<le> 1048577"

lemma read_text_file_emits:
  "emits (read_text_file k handle arguments) (\<lambda>reply u. list_all observing u \<and> (\<forall>x. held u x = 0)
     \<and> (\<forall>y. reply = Inr y \<longrightarrow>
          (\<exists>path m parent final r. arguments = [Lua_string path, Lua_integer m] \<and> read_request_ok handle path m
             \<and> split_target_path path 1025 256 = Some (parent, final)
             \<and> y = read_reply_of r \<and> read_evidence parent final (nat m) r u)))"
proof (cases "\<exists>path m. arguments = [Lua_string path, Lua_integer m] \<and> read_request_ok handle path m")
  case True
  then obtain path m where a: "arguments = [Lua_string path, Lua_integer m]" "read_request_ok handle path m" by blast
  then have v: "valid_repository_path path" by (simp add: read_request_ok_def valid_repository_path_grammar)
  obtain parent final where s: "split_target_path path 1025 256 = Some (parent, final)" by (rule valid_path_split [OF v])
  show ?thesis
    using a v s by (auto simp: read_text_file_def read_arguments_def read_request_ok_def
        intro!: emits_bind [OF read_transaction_emits [OF s]])
next
  case False
  then have "\<exists>e. read_text_file k handle arguments = ret (Inl e)"
    by (auto simp: read_text_file_def read_arguments_Some read_request_ok_def valid_repository_path_grammar
        split: option.split)
  then show ?thesis by (elim exE) simp
qed



interpretation reading: provider_operation read_text_file
  by unfold_locales (rule emits_mono [OF read_text_file_emits], simp_all add: read_text_file_def)

text \<open>No read leaks or steals a descriptor: whatever the request and whatever the kernel answers, after
  \<open>read_text_file\<close> every descriptor number is held exactly as often as before.\<close>

theorem read_closes_descriptors:
  "held (snd (run_state (read_text_file k handle arguments) t)) fd = held t fd"
  by (rule reading.keeps_descriptors)

end
