(* ===== verification/Repo_Inventory.thy ===== *)
theory Repo_Inventory
  imports Repo_Handle Repo_Read "HOL-Library.List_Lexorder" "HOL-Library.Multiset"
begin

text \<open>
  The inventory of a repository (\<open>native/proc17_repository_fs.c\<close>): \<open>collect_inventory_directory\<close> walks the
  tree depth first, \<open>read_inventory_file\<close> captures the content of a regular file, \<open>inventory_tree\<close> walks
  twice and compares.  The dynamic array of a snapshot is the list of its entries with the capacity
  reserved for them.  A walk that fails or finds the tree changing is thrown away by \<open>inventory_tree\<close>; the
  model leaves the entry such a walk stopped at as it was before its content was read.  What \<open>errno\<close> holds
  after a failing call is the value the model returns.
\<close>

definition PROC17_MAX_INVENTORY_ENTRIES :: nat where "PROC17_MAX_INVENTORY_ENTRIES = 4096"
definition PROC17_MAX_INVENTORY_TOTAL_BYTES :: nat where "PROC17_MAX_INVENTORY_TOTAL_BYTES = 67108864"

datatype proc17_inventory_kind = INVENTORY_DIRECTORY | INVENTORY_REGULAR | INVENTORY_SYMLINK | INVENTORY_SPECIAL

record proc17_inventory_bounds =
  max_entries :: nat
  max_depth :: nat
  max_path_bytes :: nat
  max_component_bytes :: nat
  max_file_bytes :: nat
  max_total_bytes :: nat

record proc17_inventory_entry =
  ie_relative_path :: bytes
  ie_kind :: proc17_inventory_kind
  ie_identity_before :: file_stat
  ie_identity_after :: file_stat
  ie_content :: "bytes ptr"
  ie_bytes :: nat

record proc17_inventory_snapshot =
  is_entries :: "proc17_inventory_entry list"
  is_capacity :: nat
  is_total_bytes :: nat
  is_bound_exceeded :: bool
  is_unstable :: bool

definition empty_snapshot :: proc17_inventory_snapshot where
  "empty_snapshot = \<lparr>is_entries = [], is_capacity = 0, is_total_bytes = 0, is_bound_exceeded = False,
     is_unstable = False\<rparr>"

text \<open>\<open>sizeof (struct proc17_inventory_entry)\<close>: a pointer, an enumeration, two \<open>struct stat\<close> of 144 bytes, a pointer and a
  size.\<close>

definition inventory_entry_size :: nat where "inventory_entry_size = 320"
definition SIZE_MAX :: nat where "SIZE_MAX = 2 ^ 64 - 1"

definition entries_too_large :: "nat \<Rightarrow> bool" where
  "entries_too_large capacity \<longleftrightarrow> capacity > SIZE_MAX div inventory_entry_size"

lemma entries_too_large_code [code]: "entries_too_large capacity \<longleftrightarrow> int capacity > 57646075230342348"
  by (simp add: entries_too_large_def SIZE_MAX_def inventory_entry_size_def)

datatype reserve_result = Reserved | Bound_reached | Reserve_failed errno

definition reserve_inventory_entry ::
  "kernel \<Rightarrow> proc17_inventory_bounds \<Rightarrow> proc17_inventory_snapshot
   \<Rightarrow> (reserve_result \<times> proc17_inventory_snapshot) io" where
  "reserve_inventory_entry k bounds snapshot =
     (if length (is_entries snapshot) \<ge> max_entries bounds
      then ret (Bound_reached, snapshot\<lparr>is_bound_exceeded := True\<rparr>)
      else if length (is_entries snapshot) < is_capacity snapshot then ret (Reserved, snapshot)
      else
        (let doubled = (if is_capacity snapshot = 0 then 16 else is_capacity snapshot * 2);
             capacity = (if doubled > max_entries bounds then max_entries bounds else doubled)
         in if capacity \<le> is_capacity snapshot \<or> entries_too_large capacity
            then ret (Reserve_failed EOVERFLOW, snapshot)
            else do {
              grown \<leftarrow> sys_malloc k (capacity * inventory_entry_size);
              ret (if grown then (Reserved, snapshot\<lparr>is_capacity := capacity\<rparr>)
                   else (Reserve_failed ENOMEM, snapshot))
            }))"

definition S_ISLNK :: "u32 \<Rightarrow> bool" where
  "S_ISLNK mode \<longleftrightarrow> mode AND S_IFMT = 0xa000"

definition inventory_kind :: "u32 \<Rightarrow> proc17_inventory_kind" where
  "inventory_kind mode =
     (if S_ISDIR mode then INVENTORY_DIRECTORY
      else if S_ISREG mode then INVENTORY_REGULAR
      else if S_ISLNK mode then INVENTORY_SYMLINK
      else INVENTORY_SPECIAL)"

subsection \<open>Reading one file\<close>

text \<open>Why reading a file stops: \<open>Some e\<close> is the error \<open>e\<close> (the code returns \<open>-1\<close>), \<open>None\<close> is a file that changes
  (it returns 1).\<close>

type_synonym inventory_failure = "errno option"

function read_inventory_bytes ::
  "kernel \<Rightarrow> nat \<Rightarrow> nat \<Rightarrow> bytes \<Rightarrow> nat \<Rightarrow> (inventory_failure + bytes \<times> nat) io" where
  "read_inventory_bytes k descriptor bytes content retries =
     (if length content < bytes
      then do {
        r \<leftarrow> sys_read k descriptor (bytes - length content);
        (case r of
           Sys_err e \<Rightarrow>
             if e = EINTR \<and> retries + 1 \<le> PROC17_MAX_READ_EINTR_RETRIES
             then read_inventory_bytes k descriptor bytes content (retries + 1)
             else ret (Inl (Some e))
         | Sys_ok observed \<Rightarrow>
             if observed = [] \<or> length observed > bytes - length content then ret (Inl None)
             else read_inventory_bytes k descriptor bytes (content @ observed) retries)
      }
      else ret (Inr (content, retries)))"
  by pat_completeness auto

termination
  by (relation "measure (\<lambda>(k, descriptor, bytes, content, retries).
        (bytes - length content) + (PROC17_MAX_READ_EINTR_RETRIES - retries))") (auto simp: not_less neq_Nil_conv)

declare read_inventory_bytes.simps [simp del]

function read_inventory_end :: "kernel \<Rightarrow> nat \<Rightarrow> nat \<Rightarrow> (inventory_failure + unit) io" where
  "read_inventory_end k descriptor retries = do {
     r \<leftarrow> sys_read k descriptor 1;
     (case r of
        Sys_err e \<Rightarrow>
          if e = EINTR \<and> retries + 1 \<le> PROC17_MAX_READ_EINTR_RETRIES
          then read_inventory_end k descriptor (retries + 1)
          else ret (Inl (Some e))
      | Sys_ok observed \<Rightarrow> ret (if observed \<noteq> [] then Inl None else Inr ()))
   }"
  by pat_completeness auto

termination
  by (relation "measure (\<lambda>(k, descriptor, retries). PROC17_MAX_READ_EINTR_RETRIES - retries)") auto

declare read_inventory_end.simps [simp del]

text \<open>From the allocated buffer to the second \<open>fstat\<close>.\<close>

definition read_inventory_contents ::
  "kernel \<Rightarrow> nat \<Rightarrow> nat \<Rightarrow> (inventory_failure + bytes \<times> file_stat) io" where
  "read_inventory_contents k descriptor bytes = do {
     r \<leftarrow> read_inventory_bytes k descriptor bytes [] 0;
     (case r of
        Inl failure \<Rightarrow> ret (Inl failure)
      | Inr (content, retries) \<Rightarrow> do {
          e \<leftarrow> read_inventory_end k descriptor retries;
          (case e of
             Inl failure \<Rightarrow> ret (Inl failure)
           | Inr _ \<Rightarrow> do {
               s \<leftarrow> sys_fstat k descriptor;
               ret (case s of Sys_err e \<Rightarrow> Inl (Some e) | Sys_ok after_status \<Rightarrow> Inr (content, after_status))
             })
        })
   }"

definition close_keeping :: "kernel \<Rightarrow> nat \<Rightarrow> 'a \<Rightarrow> 'a io" where
  "close_keeping k descriptor result = do { _ \<leftarrow> sys_close k descriptor; ret result }"

definition errno_after :: "unit sys \<Rightarrow> errno \<Rightarrow> errno" where
  "errno_after closing e = (case closing of Sys_err e' \<Rightarrow> e' | Sys_ok _ \<Rightarrow> e)"

definition read_inventory_file ::
  "kernel \<Rightarrow> nat \<Rightarrow> bytes \<Rightarrow> file_stat \<Rightarrow> proc17_inventory_entry
   \<Rightarrow> (inventory_failure + proc17_inventory_entry) io" where
  "read_inventory_file k directory_fd name classified entry = do {
     d \<leftarrow> sys_openat2 k (Some directory_fd) name (O_RDONLY OR O_NONBLOCK_FLAG OR O_NOFOLLOW OR O_CLOEXEC)
            resolve_strict;
     (case d of
        Sys_err e \<Rightarrow> ret (Inl (if e = ENOENT \<or> e = ELOOP \<or> e = ENOTDIR then None else Some e))
      | Sys_ok descriptor \<Rightarrow> do {
          s \<leftarrow> sys_fstat k descriptor;
          (case s of
             Sys_err e \<Rightarrow> close_keeping k descriptor (Inl (Some e))
           | Sys_ok before_status \<Rightarrow>
               if \<not> S_ISREG (stat_mode before_status) \<or> \<not> same_file_identity classified before_status
               then close_keeping k descriptor (Inl None)
               else do {
                 m \<leftarrow> sys_malloc k (if ie_bytes entry = 0 then 1 else ie_bytes entry);
                 (if \<not> m
                  then do { c \<leftarrow> sys_close k descriptor; ret (Inl (Some (errno_after c ENOMEM))) }
                  else do {
                    r \<leftarrow> read_inventory_contents k descriptor (ie_bytes entry);
                    (case r of
                       Inl failure \<Rightarrow> close_keeping k descriptor (Inl failure)
                     | Inr (content, after_status) \<Rightarrow> do {
                         c \<leftarrow> sys_close k descriptor;
                         ret (case c of
                                Sys_err e \<Rightarrow> Inl (Some e)
                              | Sys_ok _ \<Rightarrow>
                                  if \<not> same_file_version before_status after_status then Inl None
                                  else Inr (entry\<lparr>ie_identity_before := before_status, ie_content := Some content,
                                                  ie_identity_after := after_status\<rparr>))
                       })
                  })
               })
        })
   }"

subsection \<open>Walking the tree\<close>

definition inventory_path :: "bytes \<Rightarrow> bytes \<Rightarrow> bytes" where
  "inventory_path dir_prefix name = (if length dir_prefix = 0 then name else dir_prefix @ slash # name)"

text \<open>How one iteration ends: with the next one, with a break and result 0, with a break and result \<open>-1\<close>, or with a
  directory to be walked.\<close>

datatype inventory_item =
    Item_next proc17_inventory_snapshot
  | Item_stop proc17_inventory_snapshot
  | Item_failed errno proc17_inventory_snapshot
  | Item_descend nat proc17_inventory_snapshot

definition add_entry :: "proc17_inventory_entry \<Rightarrow> proc17_inventory_snapshot \<Rightarrow> proc17_inventory_snapshot" where
  "add_entry entry snapshot =
     snapshot\<lparr>is_entries := is_entries snapshot @ [entry], is_total_bytes := is_total_bytes snapshot + ie_bytes entry\<rparr>"

definition inventory_directory_item ::
  "kernel \<Rightarrow> nat \<Rightarrow> bytes \<Rightarrow> file_stat \<Rightarrow> proc17_inventory_entry \<Rightarrow> proc17_inventory_snapshot
   \<Rightarrow> inventory_item io" where
  "inventory_directory_item k directory_fd name status entry snapshot = do {
     c \<leftarrow> sys_openat2 k (Some directory_fd) name (O_RDONLY OR O_DIRECTORY OR O_NOFOLLOW OR O_CLOEXEC)
            resolve_strict;
     (case c of
        Sys_err e \<Rightarrow>
          ret (if e = ENOENT \<or> e = ELOOP \<or> e = ENOTDIR
               then Item_stop ((add_entry entry snapshot)\<lparr>is_unstable := True\<rparr>)
               else Item_failed e (add_entry entry snapshot))
      | Sys_ok child_fd \<Rightarrow> do {
          s \<leftarrow> sys_fstat k child_fd;
          (case s of
             Sys_err e \<Rightarrow> close_keeping k child_fd (Item_stop ((add_entry entry snapshot)\<lparr>is_unstable := True\<rparr>))
           | Sys_ok opened_status \<Rightarrow>
               if \<not> same_file_identity status opened_status
               then close_keeping k child_fd (Item_stop ((add_entry entry snapshot)\<lparr>is_unstable := True\<rparr>))
               else ret (Item_descend child_fd
                          (add_entry (entry\<lparr>ie_identity_after := opened_status\<rparr>) snapshot)))
        })
   }"

text \<open>The entry of an object, in a place that has been reserved for it.\<close>

definition inventory_entry_item ::
  "kernel \<Rightarrow> nat \<Rightarrow> bytes \<Rightarrow> bytes \<Rightarrow> proc17_inventory_kind \<Rightarrow> file_stat \<Rightarrow> bool \<Rightarrow> proc17_inventory_snapshot
   \<Rightarrow> inventory_item io" where
  "inventory_entry_item k directory_fd path name kind status capture_content snapshot =
     (let entry = \<lparr>ie_relative_path = path, ie_kind = kind, ie_identity_before = status,
            ie_identity_after = status, ie_content = None,
            ie_bytes = (if kind = INVENTORY_REGULAR then nat (stat_size status) else 0)\<rparr>
      in case kind of
           INVENTORY_REGULAR \<Rightarrow>
             if capture_content
             then do {
               r \<leftarrow> read_inventory_file k directory_fd name status entry;
               ret (case r of
                      Inl (Some e) \<Rightarrow> Item_failed e (add_entry entry snapshot)
                    | Inl None \<Rightarrow> Item_stop ((add_entry entry snapshot)\<lparr>is_unstable := True\<rparr>)
                    | Inr entry' \<Rightarrow> Item_next (add_entry entry' snapshot))
             }
             else ret (Item_next (add_entry entry snapshot))
         | INVENTORY_DIRECTORY \<Rightarrow> inventory_directory_item k directory_fd name status entry snapshot
         | _ \<Rightarrow> ret (Item_next (add_entry entry snapshot)))"

definition inventory_item_step ::
  "kernel \<Rightarrow> nat \<Rightarrow> bytes \<Rightarrow> bytes \<Rightarrow> proc17_inventory_bounds \<Rightarrow> bool \<Rightarrow> proc17_inventory_snapshot
   \<Rightarrow> inventory_item io" where
  "inventory_item_step k directory_fd path name bounds capture_content snapshot = do {
     m \<leftarrow> sys_malloc k (length path + 1);
     (if \<not> m then ret (Item_failed ENOMEM snapshot)
      else do {
        s \<leftarrow> sys_fstatat k directory_fd name;
        (case s of
           Sys_err saved \<Rightarrow>
             ret (if saved = ENOENT then Item_stop (snapshot\<lparr>is_unstable := True\<rparr>) else Item_failed saved snapshot)
         | Sys_ok status \<Rightarrow>
             (let kind = inventory_kind (stat_mode status)
              in if kind = INVENTORY_REGULAR
                    \<and> (stat_size status < 0 \<or> nat (stat_size status) > max_file_bytes bounds
                       \<or> nat (stat_size status) > max_total_bytes bounds - is_total_bytes snapshot)
                 then ret (Item_stop (snapshot\<lparr>is_bound_exceeded := True\<rparr>))
                 else do {
                   (reserved, snapshot) \<leftarrow> reserve_inventory_entry k bounds snapshot;
                   (case reserved of
                      Bound_reached \<Rightarrow> ret (Item_stop snapshot)
                    | Reserve_failed e \<Rightarrow> ret (Item_failed e snapshot)
                    | Reserved \<Rightarrow>
                        inventory_entry_item k directory_fd path name kind status capture_content snapshot)
                 }))
      })
   }"

text \<open>The result of a walk: the error of a result \<open>-1\<close>, or \<open>None\<close> for the result 0.\<close>

function (sequential) collect_inventory_directory ::
  "kernel \<Rightarrow> nat \<Rightarrow> bytes \<Rightarrow> nat \<Rightarrow> proc17_inventory_bounds \<Rightarrow> bool \<Rightarrow> proc17_inventory_snapshot
   \<Rightarrow> (errno option \<times> proc17_inventory_snapshot) io"
and inventory_loop ::
  "kernel \<Rightarrow> nat \<Rightarrow> bytes \<Rightarrow> nat \<Rightarrow> proc17_inventory_bounds \<Rightarrow> bool \<Rightarrow> bytes list \<Rightarrow> errno option
   \<Rightarrow> proc17_inventory_snapshot \<Rightarrow> (errno option \<times> proc17_inventory_snapshot) io" where
  "collect_inventory_directory k directory_fd dir_prefix depth bounds capture_content snapshot = do {
     d \<leftarrow> sys_dup k directory_fd;
     (case d of
        Sys_err e \<Rightarrow> ret (Some e, snapshot)
      | Sys_ok scan_fd \<Rightarrow> do {
          s \<leftarrow> sys_fdopendir k scan_fd;
          (case s of
             Sys_err e \<Rightarrow> do { c \<leftarrow> sys_close k scan_fd; ret (Some (errno_after c e), snapshot) }
           | Sys_ok (names, failure) \<Rightarrow> do {
               r \<leftarrow> inventory_loop k directory_fd dir_prefix depth bounds capture_content names failure snapshot;
               c \<leftarrow> sys_closedir k scan_fd;
               ret (case c of
                      Sys_err e \<Rightarrow> (if fst r = None then Some e else fst r, snd r)
                    | Sys_ok _ \<Rightarrow> r)
             })
        })
   }"
| "inventory_loop k directory_fd dir_prefix depth bounds capture_content names failure snapshot =
     (if is_bound_exceeded snapshot \<or> is_unstable snapshot then ret (None, snapshot)
      else
        (case names of
           [] \<Rightarrow> ret (failure, snapshot)
         | name # rest \<Rightarrow>
             if name = [dot] \<or> name = [dot, dot]
             then inventory_loop k directory_fd dir_prefix depth bounds capture_content rest failure snapshot
             else if name = [] \<or> length name > max_component_bytes bounds
                     \<or> length (inventory_path dir_prefix name) > max_path_bytes bounds \<or> depth + 1 > max_depth bounds
             then ret (None, snapshot\<lparr>is_bound_exceeded := True\<rparr>)
             else do {
               item \<leftarrow> inventory_item_step k directory_fd (inventory_path dir_prefix name) name bounds
                         capture_content snapshot;
               (case item of
                  Item_stop snapshot \<Rightarrow> ret (None, snapshot)
                | Item_failed e snapshot \<Rightarrow> ret (Some e, snapshot)
                | Item_next snapshot \<Rightarrow>
                    inventory_loop k directory_fd dir_prefix depth bounds capture_content rest failure snapshot
                | Item_descend child_fd snapshot \<Rightarrow> do {
                    r \<leftarrow> collect_inventory_directory k child_fd (inventory_path dir_prefix name) (depth + 1) bounds
                           capture_content snapshot;
                    c \<leftarrow> sys_close k child_fd;
                    (case c of
                       Sys_err e \<Rightarrow> ret (Some e, snd r)
                     | Sys_ok _ \<Rightarrow>
                         (case fst r of
                            Some e \<Rightarrow> ret (Some e, snd r)
                          | None \<Rightarrow>
                              inventory_loop k directory_fd dir_prefix depth bounds capture_content rest failure (snd r)))
                  })
             }))"
  by pat_completeness auto

termination
  by (relation "measures [
        \<lambda>x. case x of Inl (k, fd, dir_prefix, depth, bounds, capture, snapshot) \<Rightarrow> max_depth bounds - depth
                    | Inr (k, fd, dir_prefix, depth, bounds, capture, names, failure, snapshot) \<Rightarrow> max_depth bounds - depth,
        \<lambda>x. case x of Inl _ \<Rightarrow> 1 | Inr _ \<Rightarrow> 0,
        \<lambda>x. case x of Inl _ \<Rightarrow> 0
                    | Inr (k, fd, dir_prefix, depth, bounds, capture, names, failure, snapshot) \<Rightarrow> length names]") auto

declare collect_inventory_directory.simps [simp del] inventory_loop.simps [simp del]

definition sort_inventory_snapshot :: "proc17_inventory_snapshot \<Rightarrow> proc17_inventory_snapshot" where
  "sort_inventory_snapshot snapshot = snapshot\<lparr>is_entries := sort_key ie_relative_path (is_entries snapshot)\<rparr>"

text \<open>The comparison also moves the second observation into the first snapshot, as far as it gets.\<close>

fun compare_entries ::
  "proc17_inventory_entry list \<Rightarrow> proc17_inventory_entry list \<Rightarrow> bool \<times> proc17_inventory_entry list" where
  "compare_entries (left # lefts) (right # rights) =
     (if ie_relative_path left \<noteq> ie_relative_path right \<or> ie_kind left \<noteq> ie_kind right
         \<or> \<not> same_file_version (ie_identity_after left) (ie_identity_before right)
      then (False, left # lefts)
      else
        (case compare_entries lefts rights of
           (equal, lefts') \<Rightarrow> (equal, left\<lparr>ie_identity_after := ie_identity_before right\<rparr> # lefts')))"
| "compare_entries lefts _ = (True, lefts)"

definition compare_inventory_snapshots ::
  "proc17_inventory_snapshot \<Rightarrow> proc17_inventory_snapshot \<Rightarrow> bool \<times> proc17_inventory_snapshot" where
  "compare_inventory_snapshots first second =
     (if length (is_entries first) \<noteq> length (is_entries second)
         \<or> is_bound_exceeded first \<noteq> is_bound_exceeded second
         \<or> is_total_bytes first \<noteq> is_total_bytes second
      then (False, first)
      else
        (case compare_entries (is_entries first) (is_entries second) of
           (equal, entries) \<Rightarrow> (equal, first\<lparr>is_entries := entries\<rparr>)))"

subsection \<open>The operation\<close>

text \<open>The code, the stage and the error of the label \<open>fail\<close>.\<close>

definition permission_code :: "errno \<Rightarrow> string" where
  "permission_code saved_error = (if saved_error = EACCES \<or> saved_error = EPERM then ''permission_denied'' else ''io_failure'')"

definition inventory_error :: "read_failure \<Rightarrow> provider_error" where
  "inventory_error failure =
     (case failure of (failure_code, failure_stage, saved_error) \<Rightarrow>
        push_error (if failure_code = ''identity_unrepresentable'' then ''contract'' else ''world'')
          failure_code failure_stage (Some saved_error) 1)"

definition directory_flags :: u64 where
  "directory_flags = O_RDONLY OR O_DIRECTORY OR O_NOFOLLOW OR O_CLOEXEC"

text \<open>The second walk, unless the first one reached a bound: whether the tree is stable.\<close>

definition reobserve_inventory ::
  "kernel \<Rightarrow> nat \<Rightarrow> proc17_inventory_bounds \<Rightarrow> proc17_inventory_snapshot
   \<Rightarrow> (read_failure + bool \<times> proc17_inventory_snapshot) io" where
  "reobserve_inventory k repository_fd bounds first =
     (if is_bound_exceeded first then ret (Inr (True, first))
      else do {
        d \<leftarrow> sys_open_directory k repository_fd [dot] directory_flags;
        (case d of
           Sys_err e \<Rightarrow> ret (Inl (''io_failure'', ''open_inventory_root'', e))
         | Sys_ok second_fd \<Rightarrow> do {
             r \<leftarrow> collect_inventory_directory k second_fd [] 0 bounds False empty_snapshot;
             (case r of
                (Some e, _) \<Rightarrow> close_keeping k second_fd (Inl (''io_failure'', ''reobserve_inventory_tree'', e))
              | (None, second) \<Rightarrow> do {
                  c \<leftarrow> sys_close k second_fd;
                  ret (case c of
                         Sys_err e \<Rightarrow> Inl (''io_failure'', ''close_inventory_descriptors'', e)
                       | Sys_ok _ \<Rightarrow>
                           if is_unstable second then Inr (False, first)
                           else Inr (compare_inventory_snapshots first (sort_inventory_snapshot second)))
                })
           })
      })"

text \<open>The walks, between opening the root directory and closing it: stability and the first snapshot.\<close>

definition inventory_walks ::
  "kernel \<Rightarrow> nat \<Rightarrow> nat \<Rightarrow> proc17_inventory_bounds \<Rightarrow> (read_failure + bool \<times> proc17_inventory_snapshot) io" where
  "inventory_walks k repository_fd scan_fd bounds = do {
     r \<leftarrow> collect_inventory_directory k scan_fd [] 0 bounds True empty_snapshot;
     (case r of
        (Some e, _) \<Rightarrow> ret (Inl (permission_code e, ''enumerate_inventory_tree'', e))
      | (None, first) \<Rightarrow>
          if is_unstable first then ret (Inl (''inventory_unstable'', ''verify_inventory_stability'', ESTALE))
          else reobserve_inventory k repository_fd bounds (sort_inventory_snapshot first))
   }"

text \<open>The root directory opened, walked and closed, with the pair of root descriptors.\<close>

definition observe_inventory ::
  "kernel \<Rightarrow> root_pair \<Rightarrow> proc17_inventory_bounds \<Rightarrow> (read_failure + bool \<times> proc17_inventory_snapshot) io" where
  "observe_inventory k pair bounds =
     (let close_roots = close_pair k (Some (rp_project_base_fd pair)) (Some (rp_repository_fd pair))
      in do {
        d \<leftarrow> sys_open_directory k (rp_repository_fd pair) [dot] directory_flags;
        (case d of
           Sys_err e \<Rightarrow> do { _ \<leftarrow> close_roots; ret (Inl (permission_code e, ''open_inventory_root'', e)) }
         | Sys_ok scan_fd \<Rightarrow> do {
             r \<leftarrow> inventory_walks k (rp_repository_fd pair) scan_fd bounds;
             c \<leftarrow> sys_close k scan_fd;
             close_error \<leftarrow> close_roots;
             ret (case r of
                    Inl failure \<Rightarrow> Inl failure
                  | Inr observed \<Rightarrow>
                      (case c of
                         Sys_err e \<Rightarrow> Inl (''io_failure'', ''close_inventory_descriptors'', e)
                       | Sys_ok _ \<Rightarrow>
                           (case close_error of
                              Some e \<Rightarrow> Inl (''io_failure'', ''close_inventory_descriptors'', e)
                            | None \<Rightarrow> Inr observed)))
           })
      })"

text \<open>The roots opened once more: the identity of the root, if it is still the handle's.\<close>

definition revalidate_inventory_root ::
  "kernel \<Rightarrow> proc17_repository_handle \<Rightarrow> (read_failure + proc17_identity) io" where
  "revalidate_inventory_root k handle = do {
     opened \<leftarrow> open_identity_pair k (handle_project_base handle) (handle_repository_path handle);
     (case opened of
        Inl (_, saved_error) \<Rightarrow> ret (Inl (''root_changed'', ''revalidate_inventory_root'', saved_error))
      | Inr pair \<Rightarrow> do {
          close_error \<leftarrow> close_pair k (Some (rp_project_base_fd pair)) (Some (rp_repository_fd pair));
          ret (if \<not> handle_matches handle pair
               then Inl (''root_changed'', ''revalidate_inventory_root'', ESTALE)
               else
                 (case close_error of
                    Some e \<Rightarrow> Inl (''io_failure'', ''close_inventory_descriptors'', e)
                  | None \<Rightarrow> Inr (rp_repository_identity pair)))
        })
   }"

record inventory_reply_entry =
  iye_relative_path :: bytes
  iye_kind :: string
  iye_identity_before :: "int \<times> int"
  iye_identity_after :: "int \<times> int"
  iye_bytes :: "int option"
  iye_content :: "bytes option"

record inventory_reply =
  iry_outcome :: string
  iry_root_before :: "int \<times> int"
  iry_root_after :: "int \<times> int"
  iry_stable :: bool
  iry_entries :: "inventory_reply_entry list"
  iry_bounds :: proc17_inventory_bounds
  iry_observed_entries :: int
  iry_observed_total_bytes :: int
  iry_time_ms :: int

definition inventory_kind_name :: "proc17_inventory_kind \<Rightarrow> string" where
  "inventory_kind_name kind =
     (case kind of
        INVENTORY_DIRECTORY \<Rightarrow> ''directory'' | INVENTORY_REGULAR \<Rightarrow> ''regular_file''
      | INVENTORY_SYMLINK \<Rightarrow> ''symlink'' | INVENTORY_SPECIAL \<Rightarrow> ''special'')"

definition inventory_reply_entry_of :: "proc17_inventory_entry \<Rightarrow> inventory_reply_entry" where
  "inventory_reply_entry_of entry =
     \<lparr>iye_relative_path = c_string (ie_relative_path entry), iye_kind = inventory_kind_name (ie_kind entry),
      iye_identity_before = push_stat_identity (ie_identity_before entry),
      iye_identity_after = push_stat_identity (ie_identity_after entry),
      iye_bytes = (if ie_kind entry = INVENTORY_REGULAR then Some (int (ie_bytes entry)) else None),
      iye_content = (if ie_kind entry = INVENTORY_REGULAR
         then Some (case ie_content entry of Some c \<Rightarrow> take (ie_bytes entry) c | None \<Rightarrow> []) else None)\<rparr>"

definition inventory_arguments :: "lua_value list \<Rightarrow> proc17_inventory_bounds option" where
  "inventory_arguments arguments =
     (case arguments of
        [Lua_integer entries, Lua_integer depth, Lua_integer path_bytes, Lua_integer component_bytes,
         Lua_integer file_bytes, Lua_integer total_bytes] \<Rightarrow>
          if entries < 1 \<or> depth < 1 \<or> path_bytes < 1 \<or> component_bytes < 1 \<or> file_bytes < 1 \<or> total_bytes < 1
          then None
          else Some \<lparr>max_entries = nat entries, max_depth = nat depth, max_path_bytes = nat path_bytes,
                 max_component_bytes = nat component_bytes, max_file_bytes = nat file_bytes,
                 max_total_bytes = nat total_bytes\<rparr>
      | _ \<Rightarrow> None)"

definition inventory_bounds_allowed :: "proc17_inventory_bounds \<Rightarrow> bool" where
  "inventory_bounds_allowed bounds \<longleftrightarrow>
     \<not> (max_entries bounds > PROC17_MAX_INVENTORY_ENTRIES
        \<or> max_depth bounds > PROC17_MAX_COMPONENTS
        \<or> max_path_bytes bounds > PROC17_MAX_RELATIVE_PATH_BYTES
        \<or> max_component_bytes bounds > PROC17_MAX_COMPONENT_BYTES
        \<or> max_file_bytes bounds > PROC17_MAX_CONTENT_BYTES
        \<or> max_total_bytes bounds > PROC17_MAX_INVENTORY_TOTAL_BYTES)"

text \<open>The reply, or the failure when an identity does not fit a Lua integer.\<close>

definition inventory_reply_of ::
  "kernel \<Rightarrow> u64 \<Rightarrow> proc17_inventory_bounds \<Rightarrow> proc17_identity \<Rightarrow> proc17_identity \<Rightarrow> bool \<Rightarrow> proc17_inventory_snapshot
   \<Rightarrow> (read_failure + inventory_reply) io" where
  "inventory_reply_of k started bounds root_before root_after is_stable first =
     (if \<not> list_all (\<lambda>entry. stat_identity_representable (ie_identity_before entry)
            \<and> stat_identity_representable (ie_identity_after entry)) (is_entries first)
      then ret (Inl (''identity_unrepresentable'', ''project_inventory_identity'', EOVERFLOW))
      else do {
        time \<leftarrow> elapsed_milliseconds k started;
        ret (Inr \<lparr>iry_outcome = (if is_bound_exceeded first then ''bound_exceeded'' else ''observed''),
               iry_root_before = push_identity root_before, iry_root_after = push_identity root_after,
               iry_stable = is_stable, iry_entries = map inventory_reply_entry_of (is_entries first),
               iry_bounds = bounds, iry_observed_entries = int (length (is_entries first)),
               iry_observed_total_bytes = int (is_total_bytes first), iry_time_ms = time\<rparr>)
      })"

definition inventory_transaction ::
  "kernel \<Rightarrow> u64 \<Rightarrow> proc17_repository_handle \<Rightarrow> proc17_inventory_bounds \<Rightarrow> (read_failure + inventory_reply) io" where
  "inventory_transaction k started handle bounds = do {
     opened \<leftarrow> open_identity_pair k (handle_project_base handle) (handle_repository_path handle);
     (case opened of
        Inl (open_stage, saved_error) \<Rightarrow> ret (Inl (root_error_code saved_error, open_stage, saved_error))
      | Inr pair \<Rightarrow>
          if \<not> handle_matches handle pair
          then do {
            _ \<leftarrow> close_pair k (Some (rp_project_base_fd pair)) (Some (rp_repository_fd pair));
            ret (Inl (''root_changed'', ''compare_root_identity'', ESTALE))
          }
          else do {
            r \<leftarrow> observe_inventory k pair bounds;
            (case r of
               Inl failure \<Rightarrow> ret (Inl failure)
             | Inr (is_stable, first) \<Rightarrow> do {
                 again \<leftarrow> revalidate_inventory_root k handle;
                 (case again of
                    Inl failure \<Rightarrow> ret (Inl failure)
                  | Inr root_after \<Rightarrow>
                      inventory_reply_of k started bounds (rp_repository_identity pair) root_after is_stable first)
               })
          })
   }"

definition inventory_tree ::
  "kernel \<Rightarrow> proc17_repository_handle \<Rightarrow> lua_value list \<Rightarrow> (provider_error + inventory_reply) io" where
  "inventory_tree k handle arguments = do {
     started \<leftarrow> monotonic_milliseconds k;
     (if abi_closed (h_abi handle)
      then ret (Inl (push_error ''contract'' ''handle_closed'' ''inventory_handle'' None 0))
      else
        (case inventory_arguments arguments of
           None \<Rightarrow>
             ret (Inl (push_error ''contract'' ''invalid_request'' ''validate_inventory_request'' (Some EINVAL) 0))
         | Some bounds \<Rightarrow>
             if \<not> inventory_bounds_allowed bounds
             then ret (Inl (push_error ''contract'' ''invalid_request'' ''validate_inventory_request''
                              (Some EINVAL) 0))
             else do {
               r \<leftarrow> inventory_transaction k started handle bounds;
               ret (case r of Inl failure \<Rightarrow> Inl (inventory_error failure) | Inr reply \<Rightarrow> Inr reply)
             }))
   }"

subsection \<open>What reading one file shows\<close>

lemma read_inventory_bytes_emits:
  assumes "length content \<le> n"
  shows "emits (read_inventory_bytes k fd n content retries) (\<lambda>r u. list_all (reads fd) u
     \<and> (case r of Inl _ \<Rightarrow> True | Inr (c, _) \<Rightarrow> c = content @ concat (map received u) \<and> length c = n))"
  using assms
proof (induction k fd n content retries rule: read_inventory_bytes.induct)
  case (1 k fd n content retries)
  let ?R = "\<lambda>content r u. list_all (reads fd) u
     \<and> (case r of Inl _ \<Rightarrow> True | Inr (c, _ :: nat) \<Rightarrow> c = content @ concat (map received u) \<and> length c = n)"
  show ?case
  proof (cases "length content < n")
    case False
    then show ?thesis using 1(3) by (subst read_inventory_bytes.simps) auto
  next
    case True
    have step: "?R content r (E_read fd m a # u)" if "?R (content @ received (E_read fd m a)) r u" for r u a m
      using that by (auto split: sum.splits)
    have "emits (case a of
         Sys_err e \<Rightarrow>
           if e = EINTR \<and> retries + 1 \<le> PROC17_MAX_READ_EINTR_RETRIES
           then read_inventory_bytes k fd n content (retries + 1)
           else ret (Inl (Some e))
       | Sys_ok observed \<Rightarrow>
           if observed = [] \<or> length observed > n - length content then ret (Inl None)
           else read_inventory_bytes k fd n (content @ observed) retries)
        (\<lambda>r v. ?R content r (E_read fd (n - length content) a # v))" for a
    proof (cases a)
      case (Sys_ok bs)
      have "emits (read_inventory_bytes k fd n (content @ bs) retries) (\<lambda>r v. ?R content r (E_read fd (n - length content) a # v))"
        if "\<not> (bs = [] \<or> length bs > n - length content)"
      proof -
        have "length (content @ bs) \<le> n" using that True by auto
        from 1(1) [OF True that this] show ?thesis unfolding Sys_ok by (rule emits_mono) (rule step, auto split: sum.splits)
      qed
      then show ?thesis using Sys_ok by auto
    next
      case (Sys_err e)
      have "emits (read_inventory_bytes k fd n content (retries + 1)) (\<lambda>r v. ?R content r (E_read fd (n - length content) a # v))"
        if "e = EINTR \<and> retries + 1 \<le> PROC17_MAX_READ_EINTR_RETRIES"
        unfolding Sys_err by (rule emits_mono [OF 1(2) [OF True that 1(3)]]) (rule step, auto split: sum.splits)
      then show ?thesis using Sys_err by auto
    qed
    then show ?thesis
      using True by (subst read_inventory_bytes.simps) (simp only: if_True sys_read_def, rule emits_call_bind)
  qed
qed


lemma read_inventory_end_emits:
  "emits (read_inventory_end k fd retries) (\<lambda>r u. list_all (reads fd) u
     \<and> (r = Inr () \<longrightarrow> concat (map received u) = [] \<and> (\<exists>w. u = w @ [E_read fd 1 (Sys_ok [])])))"
proof (induction k fd retries rule: read_inventory_end.induct)
  case (1 k fd retries)
  let ?R = "\<lambda>r u. list_all (reads fd) u
     \<and> (r = Inr () \<longrightarrow> concat (map received u) = [] \<and> (\<exists>w. u = w @ [E_read fd 1 (Sys_ok [])]))"
  have again: "emits (read_inventory_end k fd (retries + 1)) (\<lambda>r v. ?R r (E_read fd 1 (Sys_err e) # v))"
    if "e = EINTR \<and> retries + 1 \<le> PROC17_MAX_READ_EINTR_RETRIES" for e
    by (rule emits_mono [OF 1 [OF that]]) (auto simp: Cons_eq_append_conv)
  show ?case
    by (subst read_inventory_end.simps, unfold sys_read_def, rule emits_call_bind)
      (use again in \<open>auto split: sys.split simp del: One_nat_def\<close>)
qed

text \<open>The captured content is what the reads returned between two observations of one version of the file,
  which ended there.\<close>

definition captured :: "nat \<Rightarrow> bytes \<Rightarrow> proc17_inventory_entry \<Rightarrow> trace \<Rightarrow> bool" where
  "captured dirfd name e u \<longleftrightarrow>
     (\<exists>fd m v content flags.
        u = E_openat2 (Some dirfd) name flags resolve_strict (Sys_ok fd) # E_fstat fd (Sys_ok (ie_identity_before e))
              # E_malloc m True # v @ [E_read fd 1 (Sys_ok []), E_fstat fd (Sys_ok (ie_identity_after e)), E_close fd (Sys_ok ())]
        \<and> S_ISREG (stat_mode (ie_identity_before e)) \<and> same_file_version (ie_identity_before e) (ie_identity_after e)
        \<and> list_all (reads fd) v \<and> ie_content e = Some content
        \<and> concat (map received v) = content \<and> length content = ie_bytes e)"

lemma read_inventory_contents_emits:
  "emits (read_inventory_contents k fd n) (\<lambda>r u. list_all observing u \<and> (\<forall>x. held u x = 0)
     \<and> (case r of Inl _ \<Rightarrow> True
        | Inr (c, after) \<Rightarrow> \<exists>v. u = v @ [E_read fd 1 (Sys_ok []), E_fstat fd (Sys_ok after)]
            \<and> list_all (reads fd) v \<and> concat (map received v) = c \<and> length c = n))" (is "emits _ ?P")
proof -
  have fin: "\<exists>v. ua @ ub @ [E_fstat fd (Sys_ok after)] = v @ [E_read fd 1 (Sys_ok []), E_fstat fd (Sys_ok after)]
        \<and> list_all (reads fd) v \<and> concat (map received v) = concat (map received ua)"
    if "list_all (reads fd) ua" "list_all (reads fd) ub" "concat (map received ub) = []"
      "\<exists>w. ub = w @ [E_read fd 1 (Sys_ok [])]" for ua ub after
  proof -
    from that(4) obtain w where "ub = w @ [E_read fd 1 (Sys_ok [])]" by blast
    with that(1-3) show ?thesis by (intro exI [of _ "ua @ w"]) auto
  qed
  have tail: "emits (State_Monad.bind (read_inventory_end k fd retries) (\<lambda>e. case e of
           Inl failure \<Rightarrow> ret (Inl failure)
         | Inr _ \<Rightarrow> do {
             s \<leftarrow> sys_fstat k fd;
             ret (case s of Sys_err e \<Rightarrow> Inl (Some e) | Sys_ok after_status \<Rightarrow> Inr (c, after_status))
           })) (\<lambda>r v. ?P r (ua @ v))"
    if "list_all (reads fd) ua" "c = concat (map received ua)" "length c = n" for ua c retries
    unfolding sys_fstat_def
    by (rule emits_bind [OF read_inventory_end_emits])
      (use that in \<open>auto simp: reads_list intro!: emits_call_bind fin split: sys.split sum.split simp del: One_nat_def\<close>)
  show ?thesis
    unfolding read_inventory_contents_def
  proof (rule emits_bind [OF read_inventory_bytes_emits])
    fix r :: "inventory_failure + bytes \<times> nat" and u
    assume r: "list_all (reads fd) u
      \<and> (case r of Inl _ \<Rightarrow> True | Inr (c, _) \<Rightarrow> c = [] @ concat (map received u) \<and> length c = n)"
    show "emits (case r of
         Inl failure \<Rightarrow> ret (Inl failure)
       | Inr (content, retries) \<Rightarrow> do {
           e \<leftarrow> read_inventory_end k fd retries;
           (case e of
              Inl failure \<Rightarrow> ret (Inl failure)
            | Inr _ \<Rightarrow> do {
                s \<leftarrow> sys_fstat k fd;
                ret (case s of Sys_err e \<Rightarrow> Inl (Some e) | Sys_ok after_status \<Rightarrow> Inr (content, after_status))
              })
         }) (\<lambda>r v. ?P r (u @ v))"
    proof (cases r)
      case (Inr cr)
      obtain c n' where "cr = (c, n')" by force
      with Inr r have f: "list_all (reads fd) u" "c = concat (map received u)" "length c = n" and r': "r = Inr (c, n')" by auto
      show ?thesis unfolding r' sum.case prod.case by (rule tail [OF f])
    qed (use r in \<open>simp add: reads_list\<close>)
  qed simp
qed

lemma read_inventory_file_emits:
  "emits (read_inventory_file k dirfd name cl e) (\<lambda>r u. list_all observing u \<and> (\<forall>x. held u x = 0)
     \<and> (case r of Inl _ \<Rightarrow> True
        | Inr e' \<Rightarrow> captured dirfd name e' u \<and> ie_relative_path e' = ie_relative_path e \<and> ie_kind e' = ie_kind e
            \<and> ie_bytes e' = ie_bytes e \<and> same_file_identity cl (ie_identity_before e')))"
  unfolding read_inventory_file_def sys_openat2_def sys_fstat_def sys_malloc_def sys_close_def close_keeping_def
  by (auto split: sys.split sum.split intro!: emits_call_bind emits_bind [OF read_inventory_contents_emits]
      simp: captured_def; fastforce)

subsection \<open>Snapshots within their bounds\<close>

definition names_bounded :: "proc17_inventory_bounds \<Rightarrow> nat \<Rightarrow> bytes \<Rightarrow> bool" where
  "names_bounded bounds depth path \<longleftrightarrow>
     (\<exists>cs. path = path_join cs \<and> length cs = depth \<and> (\<forall>c \<in> set cs. c \<noteq> [] \<and> length c \<le> max_component_bytes bounds))"

definition entry_bounded :: "proc17_inventory_bounds \<Rightarrow> proc17_inventory_entry \<Rightarrow> bool" where
  "entry_bounded bounds e \<longleftrightarrow>
     (\<exists>d. 0 < d \<and> d \<le> max_depth bounds \<and> names_bounded bounds d (ie_relative_path e))
     \<and> length (ie_relative_path e) \<le> max_path_bytes bounds \<and> ie_bytes e \<le> max_file_bytes bounds"

text \<open>The total is the sum of the sizes, every bound is kept, and the array is large enough.\<close>

definition snapshot_ok :: "proc17_inventory_bounds \<Rightarrow> proc17_inventory_snapshot \<Rightarrow> bool" where
  "snapshot_ok bounds s \<longleftrightarrow>
     is_total_bytes s = sum_list (map ie_bytes (is_entries s)) \<and> is_total_bytes s \<le> max_total_bytes bounds
     \<and> length (is_entries s) \<le> max_entries bounds \<and> length (is_entries s) \<le> is_capacity s
     \<and> (\<forall>e \<in> set (is_entries s). entry_bounded bounds e)"

lemma snapshot_ok_empty: "snapshot_ok bounds empty_snapshot"
  by (simp add: snapshot_ok_def empty_snapshot_def)

lemma snapshot_ok_flags [simp]:
  "snapshot_ok bounds (s\<lparr>is_unstable := a\<rparr>) = snapshot_ok bounds s"
  "snapshot_ok bounds (s\<lparr>is_bound_exceeded := b\<rparr>) = snapshot_ok bounds s"
  by (simp_all add: snapshot_ok_def)

lemma snapshot_ok_sort [simp]: "snapshot_ok bounds (sort_inventory_snapshot s) = snapshot_ok bounds s"
proof -
  have "sum_list (map ie_bytes (sort_key ie_relative_path xs)) = sum_list (map ie_bytes xs)" for xs :: "proc17_inventory_entry list"
    by (metis mset_map mset_sort sum_mset_sum_list)
  then show ?thesis by (simp add: snapshot_ok_def sort_inventory_snapshot_def)
qed

lemma names_bounded_path:
  assumes "names_bounded bounds depth p" "name \<noteq> []" "length name \<le> max_component_bytes bounds"
  shows "names_bounded bounds (depth + 1) (inventory_path p name)"
proof -
  from assms(1) obtain cs where cs: "p = path_join cs" "length cs = depth" "\<forall>c \<in> set cs. c \<noteq> [] \<and> length c \<le> max_component_bytes bounds"
    unfolding names_bounded_def by blast
  have "path_join cs \<noteq> []" if "cs \<noteq> []" using that cs(3) by (cases cs rule: path_join.cases) auto
  then have "inventory_path p name = path_join (cs @ [name])"
    using cs(1) by (cases "cs = []") (auto simp: inventory_path_def path_join_snoc)
  then show ?thesis unfolding names_bounded_def using cs assms(2,3) by (intro exI [of _ "cs @ [name]"]) auto
qed

definition path_bounded :: "proc17_inventory_bounds \<Rightarrow> bytes \<Rightarrow> bool" where
  "path_bounded bounds path \<longleftrightarrow> length path \<le> max_path_bytes bounds
     \<and> (\<exists>d. 0 < d \<and> d \<le> max_depth bounds \<and> names_bounded bounds d path)"

definition has_room :: "proc17_inventory_bounds \<Rightarrow> proc17_inventory_snapshot \<Rightarrow> bool" where
  "has_room bounds s \<longleftrightarrow> length (is_entries s) < max_entries bounds \<and> length (is_entries s) < is_capacity s"

lemma snapshot_ok_add:
  assumes "snapshot_ok bounds s" "has_room bounds s" "path_bounded bounds (ie_relative_path e)"
    "ie_bytes e \<le> max_file_bytes bounds" "ie_bytes e \<le> max_total_bytes bounds - is_total_bytes s"
  shows "snapshot_ok bounds (add_entry e s)"
  using assms by (auto simp: snapshot_ok_def add_entry_def has_room_def entry_bounded_def path_bounded_def)

text \<open>Two snapshots that differ in their capacity only.\<close>

definition same_contents :: "proc17_inventory_snapshot \<Rightarrow> proc17_inventory_snapshot \<Rightarrow> bool" where
  "same_contents s s' \<longleftrightarrow> is_entries s' = is_entries s \<and> is_total_bytes s' = is_total_bytes s \<and>
     is_bound_exceeded s' = is_bound_exceeded s \<and> is_unstable s' = is_unstable s"

lemma reserve_emits:
  assumes "snapshot_ok bounds s"
  shows "emits (reserve_inventory_entry k bounds s) (\<lambda>(r, s') u. list_all observing u \<and> (\<forall>x. held u x = 0)
     \<and> snapshot_ok bounds s'
     \<and> (case r of Reserved \<Rightarrow> same_contents s s' \<and> has_room bounds s'
        | Bound_reached \<Rightarrow> is_bound_exceeded s' | Reserve_failed _ \<Rightarrow> True))"
  using assms unfolding reserve_inventory_entry_def sys_malloc_def Let_def
  by (auto simp: snapshot_ok_def has_room_def same_contents_def intro!: emits_call_bind)

subsection \<open>What a walk has seen\<close>

definition observed :: "bool \<Rightarrow> nat \<Rightarrow> bytes \<Rightarrow> bytes \<Rightarrow> nat option \<Rightarrow> proc17_inventory_entry \<Rightarrow> trace \<Rightarrow> bool" where
  "observed capture fd path name child e w \<longleftrightarrow>
     ie_relative_path e = path
     \<and> (\<exists>a st b c. w = a @ E_fstatat fd name (Sys_ok st) # b @ c
          \<and> ie_kind e = inventory_kind (stat_mode st)
          \<and> ie_bytes e = (if ie_kind e = INVENTORY_REGULAR then nat (stat_size st) else 0)
          \<and> (case child of
               Some d \<Rightarrow> ie_kind e = INVENTORY_DIRECTORY \<and> ie_identity_before e = st
                 \<and> same_file_identity st (ie_identity_after e)
                 \<and> (\<exists>flags. c = [E_openat2 (Some fd) name flags resolve_strict (Sys_ok d),
                                 E_fstat d (Sys_ok (ie_identity_after e))])
             | None \<Rightarrow> ie_kind e \<noteq> INVENTORY_DIRECTORY
                 \<and> (if ie_kind e = INVENTORY_REGULAR \<and> capture
                    then captured fd name e c \<and> same_file_identity st (ie_identity_before e)
                    else c = [] \<and> ie_identity_before e = st \<and> ie_identity_after e = st)))"

lemma observedI:
  "ie_relative_path e = path \<Longrightarrow> ie_kind e = inventory_kind (stat_mode st) \<Longrightarrow>
   ie_bytes e = (if ie_kind e = INVENTORY_REGULAR then nat (stat_size st) else 0) \<Longrightarrow>
   ie_kind e = INVENTORY_DIRECTORY \<Longrightarrow> ie_identity_before e = st \<Longrightarrow> same_file_identity st (ie_identity_after e) \<Longrightarrow>
   observed capture fd path name (Some d) e (x # E_fstatat fd name (Sys_ok st) # b
     @ [E_openat2 (Some fd) name flags resolve_strict (Sys_ok d), E_fstat d (Sys_ok (ie_identity_after e))])"
  "ie_relative_path e = path \<Longrightarrow> ie_kind e = inventory_kind (stat_mode st) \<Longrightarrow>
   ie_bytes e = (if ie_kind e = INVENTORY_REGULAR then nat (stat_size st) else 0) \<Longrightarrow>
   ie_kind e = INVENTORY_REGULAR \<Longrightarrow> captured fd name e c \<Longrightarrow> same_file_identity st (ie_identity_before e) \<Longrightarrow>
   observed True fd path name None e (x # E_fstatat fd name (Sys_ok st) # b @ c)"
  "ie_relative_path e = path \<Longrightarrow> ie_kind e = inventory_kind (stat_mode st) \<Longrightarrow>
   ie_bytes e = (if ie_kind e = INVENTORY_REGULAR then nat (stat_size st) else 0) \<Longrightarrow>
   ie_kind e \<noteq> INVENTORY_DIRECTORY \<Longrightarrow> \<not> (ie_kind e = INVENTORY_REGULAR \<and> capture) \<Longrightarrow>
   ie_identity_before e = st \<Longrightarrow> ie_identity_after e = st \<Longrightarrow>
   observed capture fd path name None e (x # E_fstatat fd name (Sys_ok st) # b)"
  by (simp_all add: observed_def) (metis append_Cons append_Nil)+

inductive lists_directory :: "bool \<Rightarrow> nat \<Rightarrow> bytes \<Rightarrow> trace \<Rightarrow> proc17_inventory_entry list \<Rightarrow> bool"
  and lists_names :: "bool \<Rightarrow> nat \<Rightarrow> bytes \<Rightarrow> bytes list \<Rightarrow> trace \<Rightarrow> proc17_inventory_entry list \<Rightarrow> bool" where
  directory: "lists_names capture fd path names u es \<Longrightarrow>
    lists_directory capture fd path
      (E_dup fd (Sys_ok d) # E_fdopendir d (Sys_ok (names, None)) # u @ [E_closedir d (Sys_ok ())]) es"
| no_more: "lists_names capture fd path [] [] []"
| itself: "name = [dot] \<or> name = [dot, dot] \<Longrightarrow> lists_names capture fd path names u es \<Longrightarrow>
    lists_names capture fd path (name # names) u es"
| object: "name \<noteq> [dot] \<Longrightarrow> name \<noteq> [dot, dot] \<Longrightarrow> observed capture fd (inventory_path path name) name None e w \<Longrightarrow>
    lists_names capture fd path names u es \<Longrightarrow> lists_names capture fd path (name # names) (w @ u) (e # es)"
| subdirectory: "name \<noteq> [dot] \<Longrightarrow> name \<noteq> [dot, dot] \<Longrightarrow>
    observed capture fd (inventory_path path name) name (Some child) e w \<Longrightarrow>
    lists_directory capture child (inventory_path path name) v es' \<Longrightarrow> lists_names capture fd path names u es \<Longrightarrow>
    lists_names capture fd path (name # names) (w @ v @ E_close child (Sys_ok ()) # u) (e # es' @ es)"


definition item_snapshot :: "inventory_item \<Rightarrow> proc17_inventory_snapshot" where
  "item_snapshot item = (case item of Item_next s \<Rightarrow> s | Item_stop s \<Rightarrow> s | Item_failed _ s \<Rightarrow> s | Item_descend _ s \<Rightarrow> s)"

definition item_child :: "inventory_item \<Rightarrow> nat option" where
  "item_child item = (case item of Item_descend d _ \<Rightarrow> Some d | _ \<Rightarrow> None)"

definition item_shown :: "proc17_inventory_bounds \<Rightarrow> bool \<Rightarrow> nat \<Rightarrow> bytes \<Rightarrow> bytes \<Rightarrow> proc17_inventory_snapshot
    \<Rightarrow> inventory_item \<Rightarrow> trace \<Rightarrow> bool" where
  "item_shown bounds capture fd path name s item u \<longleftrightarrow>
     list_all observing u \<and> (\<forall>x. held u x = opt_held (item_child item) x) \<and> snapshot_ok bounds (item_snapshot item)
     \<and> (case item of
          Item_failed _ _ \<Rightarrow> True
        | Item_stop s' \<Rightarrow> is_bound_exceeded s' \<or> is_unstable s'
        | _ \<Rightarrow> \<exists>e. is_entries (item_snapshot item) = is_entries s @ [e] \<and> observed capture fd path name (item_child item) e u)"

lemma inventory_directory_item_emits:
  assumes "\<And>st'. snapshot_ok bounds (add_entry (e\<lparr>ie_identity_after := st'\<rparr>) s)"
  shows "emits (inventory_directory_item k fd name st e s) (\<lambda>item u. list_all observing u
     \<and> (\<forall>x. held u x = opt_held (item_child item) x) \<and> snapshot_ok bounds (item_snapshot item)
     \<and> (case item of
          Item_failed _ _ \<Rightarrow> True
        | Item_stop s' \<Rightarrow> is_unstable s'
        | Item_next _ \<Rightarrow> False
        | Item_descend d s' \<Rightarrow> \<exists>st' flags. s' = add_entry (e\<lparr>ie_identity_after := st'\<rparr>) s \<and> same_file_identity st st'
            \<and> u = [E_openat2 (Some fd) name flags resolve_strict (Sys_ok d), E_fstat d (Sys_ok st')]))"
proof -
  have "snapshot_ok bounds (add_entry e s)" using assms [of "ie_identity_after e"] by simp
  then show ?thesis
    unfolding inventory_directory_item_def sys_openat2_def sys_fstat_def sys_close_def close_keeping_def
    using assms by (auto simp: item_child_def item_snapshot_def split: sys.split intro!: emits_call_bind)
qed

lemma shown_end:
  "list_all observing u \<Longrightarrow> \<forall>x. held u x = 0 \<Longrightarrow> snapshot_ok bounds s' \<Longrightarrow> is_bound_exceeded s' \<or> is_unstable s' \<Longrightarrow>
     item_shown bounds capture fd path name s (Item_stop s') u"
  "list_all observing u \<Longrightarrow> \<forall>x. held u x = 0 \<Longrightarrow> snapshot_ok bounds s' \<Longrightarrow>
     item_shown bounds capture fd path name s (Item_failed e s') u"
  by (simp_all add: item_shown_def item_snapshot_def item_child_def)

lemma inventory_entry_item_emits:
  assumes kind: "kind = inventory_kind (stat_mode st)"
      "\<not> (kind = INVENTORY_REGULAR \<and> (stat_size st < 0 \<or> nat (stat_size st) > max_file_bytes bounds
            \<or> nat (stat_size st) > max_total_bytes bounds - is_total_bytes s))"
    and p: "path_bounded bounds path"
    and s': "snapshot_ok bounds s'" "same_contents s s'" "has_room bounds s'"
    and b: "list_all observing b" "\<forall>x. held b x = 0"
  shows "emits (inventory_entry_item k fd path name kind st capture s')
     (\<lambda>item v. item_shown bounds capture fd path name s item (E_malloc m g # E_fstatat fd name (Sys_ok st) # b @ v))"
    (is "emits _ ?P")
proof -
  let ?entry = "\<lparr>ie_relative_path = path, ie_kind = kind, ie_identity_before = st,
            ie_identity_after = st, ie_content = None,
            ie_bytes = (if kind = INVENTORY_REGULAR then nat (stat_size st) else 0)\<rparr>"
  have ok: "snapshot_ok bounds (add_entry e s')" if "ie_relative_path e = path"
    "ie_bytes e = (if kind = INVENTORY_REGULAR then nat (stat_size st) else 0)" for e
    using that kind(2) s' p by (intro snapshot_ok_add) (auto simp: same_contents_def)
  have entries: "is_entries (add_entry e s') = is_entries s @ [e]" for e
    using s'(2) by (simp add: add_entry_def same_contents_def)
  have plain: "?P (Item_next (add_entry ?entry s')) []"
    if "kind \<noteq> INVENTORY_DIRECTORY" "\<not> (kind = INVENTORY_REGULAR \<and> capture)"
    unfolding item_shown_def item_snapshot_def item_child_def inventory_item.case
    using b that kind(1) by (auto simp: ok entries intro!: observedI(3))
  have regular: "emits (inventory_entry_item k fd path name kind st capture s') ?P" if "kind = INVENTORY_REGULAR" capture
  proof -
    have e: "?P (Item_next (add_entry e s')) u"
      if "list_all observing u" "\<forall>x. held u x = 0" "captured fd name e u" "ie_relative_path e = path" "ie_kind e = kind"
        "ie_bytes e = nat (stat_size st)" "same_file_identity st (ie_identity_before e)" for e u
      unfolding item_shown_def item_snapshot_def item_child_def inventory_item.case
      using b that \<open>kind = INVENTORY_REGULAR\<close> \<open>capture\<close> kind(1) by (auto simp: ok entries intro!: observedI(2))
    let ?out = "\<lambda>r. case r of
          Inl (Some e) \<Rightarrow> Item_failed e (add_entry ?entry s')
        | Inl None \<Rightarrow> Item_stop ((add_entry ?entry s')\<lparr>is_unstable := True\<rparr>)
        | Inr entry' \<Rightarrow> Item_next (add_entry entry' s')"
    have out: "?P (?out r) u" if "list_all observing u \<and> (\<forall>x. held u x = 0) \<and> (case r of Inl _ \<Rightarrow> True
        | Inr e' \<Rightarrow> captured fd name e' u \<and> ie_relative_path e' = ie_relative_path ?entry \<and> ie_kind e' = ie_kind ?entry
            \<and> ie_bytes e' = ie_bytes ?entry \<and> same_file_identity st (ie_identity_before e'))" for r u
    proof (cases r)
      case (Inl f)
      then show ?thesis using b that by (cases f) (auto intro!: shown_end simp: ok)
    next
      case (Inr e')
      then show ?thesis using e [of u e'] that \<open>kind = INVENTORY_REGULAR\<close> by simp
    qed
    have "inventory_entry_item k fd path name kind st capture s'
        = do { r \<leftarrow> read_inventory_file k fd name st ?entry; ret (?out r) }"
      unfolding inventory_entry_item_def Let_def that(1) using that(2) by simp
    then show ?thesis
      by (simp only:) (rule emits_bind [OF read_inventory_file_emits], simp only: emits_ret append_Nil2, rule out)
  qed
  have dir: "emits (inventory_entry_item k fd path name kind st capture s') ?P" if "kind = INVENTORY_DIRECTORY"
  proof -
    have d: "?P (Item_descend d (add_entry (?entry\<lparr>ie_identity_after := st'\<rparr>) s'))
        [E_openat2 (Some fd) name flags resolve_strict (Sys_ok d), E_fstat d (Sys_ok st')]"
      if "same_file_identity st st'" for d st' flags
      unfolding item_shown_def item_snapshot_def item_child_def inventory_item.case
      using b that \<open>kind = INVENTORY_DIRECTORY\<close> kind(1)
        observedI(1) [of "?entry\<lparr>ie_identity_after := st'\<rparr>" path st capture fd name d "E_malloc m g" b flags]
      by (auto simp: ok entries)
    have "emits (inventory_directory_item k fd name st ?entry s') ?P"
      by (rule emits_mono [OF inventory_directory_item_emits])
        (use b that d in \<open>auto simp: ok item_shown_def item_snapshot_def item_child_def split: inventory_item.splits\<close>)
    then show ?thesis unfolding inventory_entry_item_def Let_def using that by simp
  qed
  show ?thesis
  proof (cases kind)
    case INVENTORY_REGULAR
    then show ?thesis using regular plain by (cases capture) (auto simp: inventory_entry_item_def)
  qed (use dir plain in \<open>auto simp: inventory_entry_item_def\<close>)
qed


lemma inventory_item_step_emits:
  assumes s: "snapshot_ok bounds s" and p: "path_bounded bounds path"
  shows "emits (inventory_item_step k fd path name bounds capture s) (item_shown bounds capture fd path name s)"
  unfolding inventory_item_step_def sys_malloc_def sys_fstatat_def Let_def
  using s p
  by (auto split: sys.split reserve_result.split
      intro!: emits_call_bind emits_bind [OF reserve_emits [OF s]] inventory_entry_item_emits shown_end)

subsection \<open>Walking\<close>

definition walked :: "proc17_inventory_bounds \<Rightarrow> proc17_inventory_snapshot \<Rightarrow> (trace \<Rightarrow> proc17_inventory_entry list \<Rightarrow> bool)
    \<Rightarrow> errno option \<times> proc17_inventory_snapshot \<Rightarrow> trace \<Rightarrow> bool" where
  "walked bounds s listing r u \<longleftrightarrow> list_all observing u \<and> (\<forall>x. held u x = 0) \<and> snapshot_ok bounds (snd r)
     \<and> (fst r = None \<longrightarrow> \<not> is_bound_exceeded (snd r) \<longrightarrow> \<not> is_unstable (snd r) \<longrightarrow>
          (\<exists>es. is_entries (snd r) = is_entries s @ es \<and> listing u es))"

lemma loop_flagged:
  "is_bound_exceeded s \<or> is_unstable s \<Longrightarrow> inventory_loop k fd path depth bounds capture names failure s = ret (None, s)"
  by (simp add: inventory_loop.simps)

lemma walked_end:
  "list_all observing u \<Longrightarrow> \<forall>x. held u x = 0 \<Longrightarrow> snapshot_ok bounds s' \<Longrightarrow>
     e \<noteq> None \<or> is_bound_exceeded s' \<or> is_unstable s' \<Longrightarrow> walked bounds s listing (e, s') u"
  by (auto simp: walked_def)

lemma walked_object:
  assumes "item_shown bounds capture fd (inventory_path path n) n s (Item_next s1) w" "n \<noteq> [dot]" "n \<noteq> [dot, dot]"
    "walked bounds s1 (\<lambda>u es. failure = None \<and> lists_names capture fd path ns u es) r u"
  shows "walked bounds s (\<lambda>u es. failure = None \<and> lists_names capture fd path (n # ns) u es) r (w @ u)"
proof -
  from assms(1) obtain e where w: "list_all observing w" "\<forall>x. held w x = 0" "is_entries s1 = is_entries s @ [e]"
    "observed capture fd (inventory_path path n) n None e w"
    by (auto simp: item_shown_def item_snapshot_def item_child_def)
  have "is_entries s' = is_entries s @ e # es \<and> lists_names capture fd path (n # ns) (w @ u) (e # es)"
    if "is_entries s' = is_entries s1 @ es" "lists_names capture fd path ns u es" for s' es
    using that w(3) lists_directory_lists_names.object [OF assms(2,3) w(4) that(2)] by simp
  with assms(4) w show ?thesis by (auto simp: walked_def)
qed

lemma walked_subdirectory:
  assumes "item_shown bounds capture fd (inventory_path path n) n s (Item_descend child s1) w" "n \<noteq> [dot]" "n \<noteq> [dot, dot]"
    and "walked bounds s1 (lists_directory capture child (inventory_path path n)) (None, s2) v"
      "\<not> is_bound_exceeded s2" "\<not> is_unstable s2"
    and "walked bounds s2 (\<lambda>u es. failure = None \<and> lists_names capture fd path ns u es) r u"
  shows "walked bounds s (\<lambda>u es. failure = None \<and> lists_names capture fd path (n # ns) u es) r
     (w @ v @ E_close child (Sys_ok ()) # u)"
proof -
  from assms(1) obtain e where w: "list_all observing w" "\<forall>x. held w x = of_bool (x = child)" "is_entries s1 = is_entries s @ [e]"
    "observed capture fd (inventory_path path n) n (Some child) e w"
    by (auto simp: item_shown_def item_snapshot_def item_child_def)
  from assms(4-6) obtain es' where v: "list_all observing v" "\<forall>x. held v x = 0" "is_entries s2 = is_entries s1 @ es'"
    "lists_directory capture child (inventory_path path n) v es'" by (auto simp: walked_def)
  have "\<exists>ds. is_entries s2 @ es = is_entries s @ ds
      \<and> lists_names capture fd path (n # ns) (w @ v @ E_close child (Sys_ok ()) # u) ds"
    if "lists_names capture fd path ns u es" for es
    using that w(3) v(3) lists_directory_lists_names.subdirectory [OF assms(2,3) w(4) v(4) that(1)] by auto
  with assms(7) w(1,2) v(1,2) show ?thesis unfolding walked_def by (elim conjE, intro conjI) auto
qed

lemma walked_directory:
  assumes "walked bounds s (\<lambda>u es. failure = None \<and> lists_names capture fd path names u es) r u"
  shows "walked bounds s (lists_directory capture fd path)
     (case c of Sys_err e \<Rightarrow> (if fst r = None then Some e else fst r, snd r) | Sys_ok _ \<Rightarrow> r)
     (E_dup fd (Sys_ok d) # E_fdopendir d (Sys_ok (names, failure)) # u @ [E_closedir d c])"
  using assms unfolding walked_def
  by (cases c) (auto intro: lists_directory_lists_names.directory split: if_splits)

lemma walk_emits:
  "snapshot_ok bounds s \<Longrightarrow> names_bounded bounds depth path \<Longrightarrow>
     emits (collect_inventory_directory k fd path depth bounds capture s)
       (walked bounds s (lists_directory capture fd path))"
  "snapshot_ok bounds s \<Longrightarrow> names_bounded bounds depth path \<Longrightarrow>
     emits (inventory_loop k fd path depth bounds capture names failure s)
       (walked bounds s (\<lambda>u es. failure = None \<and> lists_names capture fd path names u es))"
proof (induction k fd path depth bounds capture s and k fd path depth bounds capture names failure s
    rule: collect_inventory_directory_inventory_loop.induct)
  case (1 k fd path depth bounds capture s)
  note loop = 1(1) [OF 1(2,3)]
  have closed: "emits (do {
        r \<leftarrow> inventory_loop k fd path depth bounds capture names failure s;
        c \<leftarrow> sys_closedir k d;
        ret (case c of Sys_err e \<Rightarrow> (if fst r = None then Some e else fst r, snd r) | Sys_ok _ \<Rightarrow> r)
      }) (\<lambda>r v. walked bounds s (lists_directory capture fd path) r
           (E_dup fd (Sys_ok d) # E_fdopendir d (Sys_ok (names, failure)) # v))" for d names failure
    unfolding sys_closedir_def
    by (rule emits_bind [OF loop], rule emits_call_bind, simp only: emits_ret) (rule walked_directory)
  show ?case
    by (subst collect_inventory_directory.simps)
      (use 1(2) in \<open>auto simp: sys_dup_def sys_fdopendir_def sys_close_def split: sys.split prod.split
         intro!: emits_call_bind closed walked_end\<close>)
next
  case (2 k fd path depth bounds capture names failure s)
  let ?W = "\<lambda>names. walked bounds s (\<lambda>u es. failure = None \<and> lists_names capture fd path names u es)"
  consider (flagged) "is_bound_exceeded s \<or> is_unstable s"
    | (empty) "\<not> (is_bound_exceeded s \<or> is_unstable s)" "names = []"
    | (dots) n ns where "\<not> (is_bound_exceeded s \<or> is_unstable s)" "names = n # ns" "n = [dot] \<or> n = [dot, dot]"
    | (bound) n ns where "\<not> (is_bound_exceeded s \<or> is_unstable s)" "names = n # ns" "\<not> (n = [dot] \<or> n = [dot, dot])"
        "n = [] \<or> length n > max_component_bytes bounds \<or> length (inventory_path path n) > max_path_bytes bounds \<or> depth + 1 > max_depth bounds"
    | (item) n ns where "\<not> (is_bound_exceeded s \<or> is_unstable s)" "names = n # ns" "\<not> (n = [dot] \<or> n = [dot, dot])"
        "\<not> (n = [] \<or> length n > max_component_bytes bounds \<or> length (inventory_path path n) > max_path_bytes bounds \<or> depth + 1 > max_depth bounds)"
    by (cases names) blast+
  then show ?case
  proof cases
    case flagged
    then show ?thesis using 2(5) by (auto simp: loop_flagged intro!: walked_end)
  next
    case empty
    then show ?thesis
      using 2(5) by (auto simp: inventory_loop.simps walked_def intro: lists_directory_lists_names.no_more)
  next
    case dots
    have "emits (inventory_loop k fd path depth bounds capture ns failure s) (?W (n # ns))"
      by (rule emits_mono [OF 2(1) [OF dots 2(5,6)]])
        (use dots(3) in \<open>auto simp: walked_def intro: lists_directory_lists_names.itself\<close>)
    then show ?thesis using dots by (simp add: inventory_loop.simps [of k fd path depth bounds capture "n # ns"])
  next
    case bound
    then show ?thesis using 2(5) by (subst inventory_loop.simps) (auto intro!: walked_end)
  next
    case item
    let ?p = "inventory_path path n"
    have np: "names_bounded bounds (depth + 1) ?p" using item(4) 2(6) by (intro names_bounded_path) auto
    then have "path_bounded bounds ?p" using item(4) unfolding path_bounded_def by (intro conjI exI [of _ "depth + 1"]) auto
    note step = inventory_item_step_emits [OF 2(5) this]
    have n: "n \<noteq> [dot]" "n \<noteq> [dot, dot]" using item(3) by auto
    note rest = 2(2) [OF item _ 2(6)] and child = 2(3) [OF item _ np]
    have "emits (case i of
         Item_stop snapshot \<Rightarrow> ret (None, snapshot)
       | Item_failed e snapshot \<Rightarrow> ret (Some e, snapshot)
       | Item_next snapshot \<Rightarrow> inventory_loop k fd path depth bounds capture ns failure snapshot
       | Item_descend child_fd snapshot \<Rightarrow> do {
           r \<leftarrow> collect_inventory_directory k child_fd ?p (depth + 1) bounds capture snapshot;
           c \<leftarrow> sys_close k child_fd;
           (case c of
              Sys_err e \<Rightarrow> ret (Some e, snd r)
            | Sys_ok _ \<Rightarrow>
                (case fst r of
                   Some e \<Rightarrow> ret (Some e, snd r)
                 | None \<Rightarrow> inventory_loop k fd path depth bounds capture ns failure (snd r)))
         }) (\<lambda>r v. ?W (n # ns) r (w @ v))"
      if shown: "item_shown bounds capture fd ?p n s i w" for i w
    proof (cases i)
      case (Item_next s1)
      have "snapshot_ok bounds s1" using shown Item_next by (simp add: item_shown_def item_snapshot_def)
      from rest [OF this] show ?thesis
        unfolding Item_next inventory_item.case
        by (rule emits_mono) (rule walked_object [OF shown [unfolded Item_next] n])
    next
      case (Item_descend d s1)
      have s1: "snapshot_ok bounds s1" and w: "list_all observing w" "\<forall>x. held w x = of_bool (x = d)"
        using shown Item_descend by (auto simp: item_shown_def item_snapshot_def item_child_def)
      have cont: "emits (case c of
            Sys_err e \<Rightarrow> ret (Some e, snd r)
          | Sys_ok _ \<Rightarrow>
              (case fst r of
                 Some e \<Rightarrow> ret (Some e, snd r)
               | None \<Rightarrow> inventory_loop k fd path depth bounds capture ns failure (snd r)))
          (\<lambda>r v. ?W (n # ns) r (w @ u @ E_close d c # v))"
        if r: "walked bounds s1 (lists_directory capture d ?p) r u" for r u c
      proof (cases "c = Sys_ok () \<and> fst r = None \<and> \<not> (is_bound_exceeded (snd r) \<or> is_unstable (snd r))")
        case True
        then have r': "walked bounds s1 (lists_directory capture d ?p) (None, snd r) u" using r by (metis prod.collapse)
        have "snapshot_ok bounds (snd r)" using r by (simp add: walked_def)
        from rest [OF this]
        have "emits (inventory_loop k fd path depth bounds capture ns failure (snd r))
            (\<lambda>q v. ?W (n # ns) q (w @ u @ E_close d (Sys_ok ()) # v))"
          by (rule emits_mono) (rule walked_subdirectory [OF shown [unfolded Item_descend] n r'], use True in auto)
        then show ?thesis using True by simp
      next
        case False
        then show ?thesis
          using r w by (auto simp: walked_def loop_flagged split: sys.split option.split)
      qed
      show ?thesis
        unfolding Item_descend inventory_item.case sys_close_def
        by (rule emits_bind [OF child [OF s1]], rule emits_call_bind) (use cont in simp)
    qed (use shown in \<open>auto simp: item_shown_def item_snapshot_def item_child_def intro!: walked_end\<close>)
    then have "emits (inventory_loop k fd path depth bounds capture (n # ns) failure s) (?W (n # ns))"
      by (subst inventory_loop.simps) (simp only: item(1,3,4) if_False list.case, rule emits_bind [OF step])
    then show ?thesis using item(2) by simp
  qed
qed

subsection \<open>The two walks\<close>

lemma same_file_version_eq: "same_file_version a b \<Longrightarrow> a = b"
  by (cases a; cases b) (auto simp: same_file_version_def same_file_identity_def same_timespec_def intro: prod_eqI)

definition same_object :: "proc17_inventory_entry \<Rightarrow> proc17_inventory_entry \<Rightarrow> bool" where
  "same_object l r \<longleftrightarrow> ie_relative_path l = ie_relative_path r \<and> ie_kind l = ie_kind r
     \<and> same_file_version (ie_identity_after l) (ie_identity_before r)"

lemma compare_entries_exact:
  "length ls = length rs \<Longrightarrow> compare_entries ls rs = (list_all2 same_object ls rs, ls)"
proof (induction ls rs rule: compare_entries.induct)
  case (1 l ls r rs)
  have "l\<lparr>ie_identity_after := ie_identity_before r\<rparr> = l" if "same_object l r"
    using that same_file_version_eq by (simp add: same_object_def) fastforce
  with 1 show ?case by (auto simp: same_object_def)
qed auto

definition seen_twice :: "proc17_inventory_snapshot \<Rightarrow> trace \<Rightarrow> bool" where
  "seen_twice s u \<longleftrightarrow> (\<exists>fd w es. sublist w u \<and> lists_directory False fd [] w es
     \<and> list_all2 same_object (is_entries s) (sort_key ie_relative_path es))"

definition seen_once :: "proc17_inventory_bounds \<Rightarrow> proc17_inventory_snapshot \<Rightarrow> trace \<Rightarrow> bool" where
  "seen_once bounds s u \<longleftrightarrow> snapshot_ok bounds s \<and> sorted (map ie_relative_path (is_entries s))
     \<and> (\<not> is_bound_exceeded s \<longrightarrow>
          (\<exists>fd w es. sublist w u \<and> lists_directory True fd [] w es \<and> is_entries s = sort_key ie_relative_path es))"

lemma names_bounded_root: "names_bounded bounds 0 []"
  by (auto simp: names_bounded_def intro: exI [of _ "[]"])

lemmas root_walk_emits = walk_emits(1) [OF snapshot_ok_empty names_bounded_root]

lemma seen_mono:
  "seen_once bounds s u \<Longrightarrow> sublist u v \<Longrightarrow> seen_once bounds s v"
  "seen_twice s u \<Longrightarrow> sublist u v \<Longrightarrow> seen_twice s v"
  unfolding seen_once_def seen_twice_def by (meson sublist_order.order.trans)+

lemma seen_within:
  "seen_once bounds s u \<Longrightarrow> seen_once bounds s (p @ u @ v)" "seen_once bounds s u \<Longrightarrow> seen_once bounds s (a # u @ v)"
  "seen_twice s u \<Longrightarrow> seen_twice s (p @ u @ v)" "seen_twice s u \<Longrightarrow> seen_twice s (a # u @ v)"
  using sublist_appendI [of u p v] sublist_appendI [of u "[a]" v] by (auto elim: seen_mono)

lemma walkedD:
  "walked bounds s listing r u \<Longrightarrow> list_all observing u" "walked bounds s listing r u \<Longrightarrow> held u x = 0"
  "walked bounds s listing r u \<Longrightarrow> snapshot_ok bounds (snd r)"
  by (simp_all add: walked_def)

lemma reobserve_inventory_emits:
  "emits (reobserve_inventory k fd bounds first) (\<lambda>r u. list_all observing u \<and> (\<forall>x. held u x = 0)
     \<and> (case r of Inl _ \<Rightarrow> True
        | Inr (st, s) \<Rightarrow> s = first \<and> (st \<longrightarrow> \<not> is_bound_exceeded s \<longrightarrow> seen_twice s u)))" (is "emits _ ?P")
proof -
  have cmp: "case compare_inventory_snapshots first (sort_inventory_snapshot s2) of
        (st, s) \<Rightarrow> s = first \<and> (st \<longrightarrow> \<not> is_bound_exceeded s \<longrightarrow> seen_twice s (a # u @ b))"
    if "walked bounds empty_snapshot (lists_directory False d []) (None, s2) u" "\<not> is_unstable s2" for s2 d u a b
  proof -
    let ?r = "sort_inventory_snapshot s2"
    have "seen_twice first (a # u @ b)"
      if m: "length (is_entries first) = length (is_entries ?r)" "is_bound_exceeded first = is_bound_exceeded ?r"
        "\<not> is_bound_exceeded first" "list_all2 same_object (is_entries first) (is_entries ?r)"
    proof -
      have "\<not> is_bound_exceeded s2" using m by (simp add: sort_inventory_snapshot_def)
      then have "lists_directory False d [] u (is_entries s2)"
        using \<open>walked _ _ _ _ _\<close> \<open>\<not> is_unstable s2\<close> by (auto simp: walked_def empty_snapshot_def)
      moreover have "sublist u (a # u @ b)" by (metis append_Cons append_Nil sublist_appendI)
      ultimately show ?thesis using m(4) unfolding seen_twice_def by (auto simp: sort_inventory_snapshot_def)
    qed
    then show ?thesis by (auto simp: compare_inventory_snapshots_def compare_entries_exact)
  qed
  have second: "emits (case r of
         (Some e, _) \<Rightarrow> close_keeping k d (Inl (''io_failure'', ''reobserve_inventory_tree'', e))
       | (None, second) \<Rightarrow> do {
           c \<leftarrow> sys_close k d;
           ret (case c of
                  Sys_err e \<Rightarrow> Inl (''io_failure'', ''close_inventory_descriptors'', e)
                | Sys_ok _ \<Rightarrow>
                    if is_unstable second then Inr (False, first)
                    else Inr (compare_inventory_snapshots first (sort_inventory_snapshot second)))
         }) (\<lambda>r v. ?P r (E_open_directory fd [dot] directory_flags (Sys_ok d) # u @ v))"
    if w: "walked bounds empty_snapshot (lists_directory False d []) r u" for r u d
  proof (cases r)
    case (Pair e s2)
    show ?thesis
    proof (cases e)
      case None
      then show ?thesis
        using w Pair cmp [where d = d and ?s2.0 = s2 and u = u and a = "E_open_directory fd [dot] directory_flags (Sys_ok d)"
          and b = "[E_close d (Sys_ok ())]"] unfolding sys_close_def
        by (auto intro!: emits_call_bind simp: walkedD split: sys.split sum.splits prod.splits)
    qed (use w Pair in \<open>auto simp: close_keeping_def sys_close_def walkedD intro!: emits_call_bind\<close>)
  qed
  show ?thesis
  proof (cases "is_bound_exceeded first")
    case False
    show ?thesis
      unfolding reobserve_inventory_def sys_open_directory_def if_not_P [OF False]
    proof (rule emits_call_bind)
      fix a
      show "emits (case a of
           Sys_err e \<Rightarrow> ret (Inl (''io_failure'', ''open_inventory_root'', e))
         | Sys_ok second_fd \<Rightarrow> do {
             r \<leftarrow> collect_inventory_directory k second_fd [] 0 bounds False empty_snapshot;
             (case r of
                (Some e, _) \<Rightarrow> close_keeping k second_fd (Inl (''io_failure'', ''reobserve_inventory_tree'', e))
              | (None, second) \<Rightarrow> do {
                  c \<leftarrow> sys_close k second_fd;
                  ret (case c of
                         Sys_err e \<Rightarrow> Inl (''io_failure'', ''close_inventory_descriptors'', e)
                       | Sys_ok _ \<Rightarrow>
                           if is_unstable second then Inr (False, first)
                           else Inr (compare_inventory_snapshots first (sort_inventory_snapshot second)))
                })
           }) (\<lambda>r v. ?P r (E_open_directory fd [dot] directory_flags a # v))"
      proof (cases a)
        case (Sys_ok d)
        show ?thesis unfolding Sys_ok sys.case by (rule emits_bind [OF root_walk_emits second])
      qed simp
    qed
  qed (simp add: reobserve_inventory_def)
qed

lemma inventory_walks_emits:
  "emits (inventory_walks k rfd fd bounds) (\<lambda>r u. list_all observing u \<and> (\<forall>x. held u x = 0)
     \<and> (case r of Inl _ \<Rightarrow> True
        | Inr (st, s) \<Rightarrow> seen_once bounds s u \<and> (st \<longrightarrow> \<not> is_bound_exceeded s \<longrightarrow> seen_twice s u)))" (is "emits _ ?P")
proof -
  have once: "seen_once bounds (sort_inventory_snapshot s) (u @ v)"
    if "walked bounds empty_snapshot (lists_directory True fd []) (None, s) u" "\<not> is_unstable s" for s u v
  proof -
    have "lists_directory True fd [] u (is_entries s)" if "\<not> is_bound_exceeded s"
      using that \<open>walked _ _ _ _ _\<close> \<open>\<not> is_unstable s\<close> by (auto simp: walked_def empty_snapshot_def)
    moreover have "sublist u (u @ v)" using sublist_appendI [of u "[]" v] by simp
    ultimately have "\<exists>fd w es. sublist w (u @ v) \<and> lists_directory True fd [] w es
        \<and> is_entries (sort_inventory_snapshot s) = sort_key ie_relative_path es" if "\<not> is_bound_exceeded s"
      using that by (auto simp: sort_inventory_snapshot_def)
    moreover have "snapshot_ok bounds (sort_inventory_snapshot s)" using walkedD(3) [OF that(1)] by simp
    ultimately show ?thesis unfolding seen_once_def by (simp add: sort_inventory_snapshot_def)
  qed
  have "emits (case r of
        (Some e, _) \<Rightarrow> ret (Inl (permission_code e, ''enumerate_inventory_tree'', e))
      | (None, first) \<Rightarrow>
          if is_unstable first then ret (Inl (''inventory_unstable'', ''verify_inventory_stability'', ESTALE))
          else reobserve_inventory k rfd bounds (sort_inventory_snapshot first)) (\<lambda>r v. ?P r (u @ v))"
    if w: "walked bounds empty_snapshot (lists_directory True fd []) r u" for r u
  proof (cases r)
    case (Pair e s)
    have "emits (reobserve_inventory k rfd bounds (sort_inventory_snapshot s)) (\<lambda>r v. ?P r (u @ v))"
      if "e = None" "\<not> is_unstable s"
      by (rule emits_mono [OF reobserve_inventory_emits])
        (use w Pair that once in \<open>auto simp: walkedD split: sum.splits intro: seen_within(3) [of _ _ _ "[]", simplified]\<close>)
    then show ?thesis using w Pair by (cases e) (auto simp: walkedD)
  qed
  then show ?thesis unfolding inventory_walks_def by (rule emits_bind [OF root_walk_emits])
qed

lemma observe_inventory_emits:
  "emits (observe_inventory k pair bounds) (\<lambda>r u. list_all observing u \<and> (\<forall>x. held u x = - pair_held pair x)
     \<and> (case r of Inl _ \<Rightarrow> True
        | Inr (st, s) \<Rightarrow> seen_once bounds s u \<and> (st \<longrightarrow> \<not> is_bound_exceeded s \<longrightarrow> seen_twice s u)))"
  unfolding observe_inventory_def Let_def sys_open_directory_def sys_close_def
  by (auto split: sys.split sum.splits option.split simp: pair_held_def
      intro!: emits_call_bind emits_bind [OF close_pair_emits] emits_bind [OF inventory_walks_emits]
      intro!: seen_within)

lemma revalidate_inventory_root_emits:
  "emits (revalidate_inventory_root k handle) (\<lambda>r u. list_all observing u \<and> (\<forall>x. held u x = 0)
     \<and> (\<forall>i. r = Inr i \<longrightarrow> handle_repository_identity_equal handle i))"
  unfolding revalidate_inventory_root_def
  by (auto split: sum.split option.split simp: pair_held_def handle_matches_def
      intro!: emits_bind [OF open_identity_pair_emits] emits_bind [OF close_pair_emits])


definition reply_shows :: "proc17_inventory_bounds \<Rightarrow> proc17_inventory_snapshot \<Rightarrow> inventory_reply \<Rightarrow> bool" where
  "reply_shows bounds s reply \<longleftrightarrow> iry_entries reply = map inventory_reply_entry_of (is_entries s)
     \<and> iry_observed_entries reply = int (length (is_entries s)) \<and> iry_observed_total_bytes reply = int (is_total_bytes s)
     \<and> iry_outcome reply = (if is_bound_exceeded s then ''bound_exceeded'' else ''observed'')
     \<and> iry_bounds reply = bounds \<and> iry_root_before reply = iry_root_after reply"

definition inventory_shown :: "proc17_inventory_bounds \<Rightarrow> inventory_reply \<Rightarrow> trace \<Rightarrow> bool" where
  "inventory_shown bounds reply u \<longleftrightarrow>
     (\<exists>s. reply_shows bounds s reply \<and> seen_once bounds s u
        \<and> (iry_stable reply \<longrightarrow> \<not> is_bound_exceeded s \<longrightarrow> seen_twice s u))"

lemma inventory_shownI:
  "reply_shows bounds s reply \<Longrightarrow> seen_once bounds s u \<Longrightarrow>
     iry_stable reply \<longrightarrow> \<not> is_bound_exceeded s \<longrightarrow> seen_twice s u \<Longrightarrow> inventory_shown bounds reply (p @ u @ v)"
  unfolding inventory_shown_def by (blast intro: seen_within)

lemma inventory_reply_of_emits:
  assumes "handle_repository_identity_equal handle i" "handle_repository_identity_equal handle j"
  shows "emits (inventory_reply_of k started bounds i j st s) (\<lambda>r u. list_all observing u \<and> (\<forall>x. held u x = 0)
     \<and> (case r of Inl _ \<Rightarrow> True | Inr reply \<Rightarrow> reply_shows bounds s reply \<and> iry_stable reply = st))"
proof -
  have "push_identity i = push_identity j"
    using assms by (simp add: handle_repository_identity_equal_def push_identity_def)
  then show ?thesis
    unfolding inventory_reply_of_def by (auto simp: reply_shows_def intro!: emits_bind [OF clock_emits(2)])
qed

lemma inventory_transaction_emits:
  "emits (inventory_transaction k started handle bounds) (\<lambda>r u. list_all observing u \<and> (\<forall>x. held u x = 0)
     \<and> (case r of Inl _ \<Rightarrow> True | Inr reply \<Rightarrow> inventory_shown bounds reply u))"
proof -
  have tail: "emits (do {
        again \<leftarrow> revalidate_inventory_root k handle;
        (case again of
           Inl failure \<Rightarrow> ret (Inl failure)
         | Inr root_after \<Rightarrow> inventory_reply_of k started bounds i root_after st s)
      }) (\<lambda>r v. list_all observing v \<and> (\<forall>x. held v x = 0)
           \<and> (case r of Inl _ \<Rightarrow> True | Inr reply \<Rightarrow> reply_shows bounds s reply \<and> iry_stable reply = st))"
    if "handle_repository_identity_equal handle i" for i st s
    using that by (auto split: sum.split intro!: emits_bind [OF revalidate_inventory_root_emits]
        emits_mono [OF inventory_reply_of_emits])
  have told: "emits (do {
        again \<leftarrow> revalidate_inventory_root k handle;
        (case again of
           Inl failure \<Rightarrow> ret (Inl failure)
         | Inr root_after \<Rightarrow> inventory_reply_of k started bounds i root_after st s)
      }) (\<lambda>r v. list_all observing v \<and> (\<forall>x. held v x = 0)
           \<and> (case r of Inl _ \<Rightarrow> True | Inr reply \<Rightarrow> inventory_shown bounds reply (p @ u @ v)))"
    if "handle_repository_identity_equal handle i" "seen_once bounds s u"
      "st \<longrightarrow> \<not> is_bound_exceeded s \<longrightarrow> seen_twice s u" for i st s p u
    by (rule emits_mono [OF tail [OF that(1)]]) (use that(2,3) in \<open>auto split: sum.splits intro: inventory_shownI\<close>)
  show ?thesis
    unfolding inventory_transaction_def
    apply (rule emits_bind [OF open_identity_pair_emits])
    subgoal for opened p
      apply (cases opened)
       apply force
      apply (auto split: sum.splits simp: handle_matches_def pair_held_def intro!: emits_bind [OF close_pair_emits]
         emits_bind [OF observe_inventory_emits] emits_mono [OF told])
      done
    done
qed

lemma inventory_tree_emits:
  "emits (inventory_tree k handle arguments) (\<lambda>r u. list_all observing u \<and> (\<forall>x. held u x = 0)
     \<and> (case r of Inl _ \<Rightarrow> True
        | Inr reply \<Rightarrow> \<exists>bounds. inventory_arguments arguments = Some bounds \<and> inventory_bounds_allowed bounds
            \<and> inventory_shown bounds reply u))"
proof -
  have more: "inventory_shown b reply u \<Longrightarrow> inventory_shown b reply (p @ u)" for b reply u p
    using inventory_shownI [of b _ reply u p "[]"] by (auto simp: inventory_shown_def [of b reply u])
  show ?thesis
    unfolding inventory_tree_def
    by (auto split: option.split sum.splits
      intro!: more emits_bind [OF clock_emits(1)] emits_bind [OF inventory_transaction_emits])
qed

interpretation inventory: provider_operation inventory_tree
proof unfold_locales
  show "emits (inventory_tree k h q) (\<lambda>_ u. \<forall>x. held u x = 0)" for k h q
    by (rule emits_mono [OF inventory_tree_emits]) simp
  show "emits (inventory_tree k h q) (\<lambda>r u. (\<exists>e. r = Inl e \<and> refusal e) \<and> list_all asks_time u)"
    if "abi_closed (h_abi h)" for k h q
    using that unfolding inventory_tree_def monotonic_milliseconds_def sys_clock_gettime_def
    by (auto intro!: emits_bind [where R = "\<lambda>_. list_all asks_time"] emits_call_bind)
qed

definition small_tree_kernel :: kernel where
  "small_tree_kernel = reading_kernel\<lparr>
     k_fdopendir := (\<lambda>_ _. Sys_ok ([[dot], [dot, dot], ascii ''a''], None)),
     k_fstatat := (\<lambda>_ _ _. Sys_ok ((sample_stat 0x8180)\<lparr>stat_size := 2\<rparr>)),
     k_fstat := (\<lambda>t fd. Sys_ok (if list_ex (opened_as (ascii ''a'') fd) t then (sample_stat 0x8180)\<lparr>stat_size := 2\<rparr>
                               else sample_stat 0x41c0))\<rparr>"

definition small_bounds :: proc17_inventory_bounds where
  "small_bounds = \<lparr>max_entries = 1, max_depth = 4, max_path_bytes = 64, max_component_bytes = 32, max_file_bytes = 100,
     max_total_bytes = 1000\<rparr>"

definition small_tree_run :: "(read_failure + inventory_reply) \<times> trace" where
  "small_tree_run = run_state (inventory_transaction small_tree_kernel 5000 sample_handle small_bounds)
     [E_clock_gettime (Sys_ok (5, 0))]"

lemma small_tree_facts:
  "case fst small_tree_run of
     Inl _ \<Rightarrow> False
   | Inr reply \<Rightarrow> iry_stable reply \<and> iry_outcome reply = ''observed'' \<and> map iye_content (iry_entries reply) = [Some (ascii ''xy'')]"
  by code_simp



end
