(* ===== verification/Repo_Session.thy ===== *)
theory Repo_Session
  imports Repo_Create Repo_Read Repo_Inventory
begin

text \<open>
  The provider as Lua sees it: the functions that \<open>luaopen_proc17_repository_fs\<close>
  (\<open>native/proc17_repository_fs.c\<close>) puts into the module table and the metatable of the handle, called one
  after another on one handle.
\<close>

datatype provider_request =
    Request_revalidate
  | Request_create "lua_value list"
  | Request_read "lua_value list"
  | Request_inventory "lua_value list"
  | Request_close
  | Request_gc

datatype provider_reply =
    Reply_revalidate "provider_error + int \<times> int"
  | Reply_create "provider_error + create_reply"
  | Reply_read "provider_error + read_reply"
  | Reply_inventory "provider_error + inventory_reply"
  | Reply_close "provider_error + bool"
  | Reply_gc

definition provider_step ::
  "kernel \<Rightarrow> provider_request \<Rightarrow> proc17_repository_handle \<Rightarrow> (provider_reply \<times> proc17_repository_handle) io" where
  "provider_step k request handle =
     (case request of
        Request_revalidate \<Rightarrow> do { r \<leftarrow> revalidate k handle; ret (Reply_revalidate r, handle) }
      | Request_create arguments \<Rightarrow> do { r \<leftarrow> create_text_file k handle arguments; ret (Reply_create r, handle) }
      | Request_read arguments \<Rightarrow> do { r \<leftarrow> read_text_file k handle arguments; ret (Reply_read r, handle) }
      | Request_inventory arguments \<Rightarrow> do { r \<leftarrow> inventory_tree k handle arguments; ret (Reply_inventory r, handle) }
      | Request_close \<Rightarrow> do { r \<leftarrow> close_repository k handle; ret (Reply_close (fst r), snd r) }
      | Request_gc \<Rightarrow> do { h \<leftarrow> handle_gc k handle; ret (Reply_gc, h) })"

primrec provider_session ::
  "kernel \<Rightarrow> provider_request list \<Rightarrow> proc17_repository_handle
   \<Rightarrow> (provider_reply list \<times> proc17_repository_handle) io" where
  "provider_session k [] handle = ret ([], handle)"
| "provider_session k (request # requests) handle = do {
     r \<leftarrow> provider_step k request handle;
     rs \<leftarrow> provider_session k requests (snd r);
     ret (fst r # fst rs, snd rs)
   }"

text \<open>What a reply says on a closed handle.\<close>

fun inert :: "provider_reply \<Rightarrow> bool" where
  "inert (Reply_revalidate r) = (\<exists>e. r = Inl e \<and> refusal e)"
| "inert (Reply_create r) = (\<exists>e. r = Inl e \<and> refusal e)"
| "inert (Reply_read r) = (\<exists>e. r = Inl e \<and> refusal e)"
| "inert (Reply_inventory r) = (\<exists>e. r = Inl e \<and> refusal e)"
| "inert (Reply_close r) = (r = Inr True)"
| "inert Reply_gc = True"

lemma provider_step_emits:
  "emits (provider_step k request h) (\<lambda>(_, h') u. \<forall>x. held u x = handle_held h' x - handle_held h x)"
proof (cases request)
  case Request_close
  have "emits (close_repository k h) (\<lambda>r u. \<forall>x. held u x = handle_held (snd r) x - handle_held h x)"
    by (rule emits_mono [OF close_repository_emits]) (auto simp: handle_held_def)
  then show ?thesis unfolding provider_step_def Request_close provider_request.case by (rule emits_bind) simp
next
  case Request_gc
  have "emits (handle_gc k h) (\<lambda>r u. \<forall>x. held u x = handle_held r x - handle_held h x)"
    by (rule emits_mono [OF handle_gc_emits]) (auto simp: handle_held_def)
  then show ?thesis unfolding provider_step_def Request_gc provider_request.case by (rule emits_bind) simp
qed (auto simp: provider_step_def intro!: emits_bind [OF revalidation.balanced] emits_bind [OF creation.balanced]
    emits_bind [OF reading.balanced] emits_bind [OF inventory.balanced])

lemma provider_step_closed:
  assumes "abi_closed (h_abi h)"
  shows "emits (provider_step k request h) (\<lambda>(r, h') u. h' = h \<and> inert r \<and> list_all asks_time u)"
  using assms
  by (cases request) (auto simp: provider_step_def close_repository_def handle_gc_def close_handle_descriptors_def
    intro!: emits_bind [OF revalidation.refuses] emits_bind [OF creation.refuses] emits_bind [OF reading.refuses]
      emits_bind [OF inventory.refuses])

lemma provider_session_emits:
  "emits (provider_session k requests h) (\<lambda>(_, h') u. \<forall>x. held u x = handle_held h' x - handle_held h x)"
proof (induction requests arbitrary: h)
  case (Cons request requests)
  show ?case
    by (auto simp: split_beta intro!: emits_bind [OF provider_step_emits] emits_bind [OF Cons])
qed simp

lemma provider_session_closed:
  assumes "abi_closed (h_abi h)"
  shows "emits (provider_session k requests h) (\<lambda>(rs, h') u. h' = h \<and> list_all inert rs \<and> list_all asks_time u)"
  using assms
proof (induction requests arbitrary: h)
  case (Cons request requests)
  show ?case
    using Cons.prems by (auto simp: split_beta intro!: emits_bind [OF provider_step_closed] emits_bind [OF Cons.IH])
qed simp

lemma provider_session_append:
  "provider_session k (a @ b) h
     = do { r \<leftarrow> provider_session k a h; rs \<leftarrow> provider_session k b (snd r); ret (fst r @ fst rs, snd rs) }"
  by (induction a arbitrary: h) (simp_all add: State_Monad.bind_assoc split_beta)

lemma session_ends_closed:
  "emits (provider_session k (requests @ [Request_close]) h) (\<lambda>(_, h') u. abi_closed (h_abi h') \<and> (\<forall>x. held u x = - handle_held h x))"
proof -
  have c: "emits (provider_step k Request_close h1) (\<lambda>(_, h') u. abi_closed (h_abi h') \<and> (\<forall>x. held u x = - handle_held h1 x))" for h1
    unfolding provider_step_def provider_request.case
    by (rule emits_bind [OF close_repository_emits]) auto
  show ?thesis
    unfolding provider_session_append
    by (auto simp: split_beta intro!: emits_bind [OF provider_session_emits] emits_bind [OF c])
qed



end
